(* ===== verification/TapPrelude.thy ===== *)
theory TapPrelude
  imports Main "HOL-Library.AList" "HOL-Library.Char_ord" "HOL-Library.List_Lexorder"
    "HOL-Library.Multiset"
begin

text \<open>
  Shared vocabulary of the development.  A C++ \<open>std::string\<close> is a list of 8-bit characters;
  the character classes are those of \<open>cctype\<close> in the "C" locale.  An
  \<open>unordered_map\<close> is an association list with distinct keys whose list order stands for the
  (unspecified) iteration order: \<open>put\<close> overwrites in place or appends, \<open>erase_key\<close> removes.
  A \<open>std::map\<close> is an association list kept sorted by key.
\<close>

named_theorems tap_simps \<open>unfolding rules of small definitions\<close>
named_theorems frame_simps \<open>fields an operation leaves unchanged\<close>

subsection \<open>Characters (cctype)\<close>

definition code_of :: "char \<Rightarrow> nat" where
  "code_of c = of_char c"

definition isspace :: "char \<Rightarrow> bool" where
  "isspace c = (code_of c = 32 \<or> (9 \<le> code_of c \<and> code_of c \<le> 13))"

definition isdigit :: "char \<Rightarrow> bool" where
  "isdigit c = (48 \<le> code_of c \<and> code_of c \<le> 57)"

definition isupper :: "char \<Rightarrow> bool" where
  "isupper c = (65 \<le> code_of c \<and> code_of c \<le> 90)"

definition islower :: "char \<Rightarrow> bool" where
  "islower c = (97 \<le> code_of c \<and> code_of c \<le> 122)"

definition isalnum :: "char \<Rightarrow> bool" where
  "isalnum c = (isdigit c \<or> isupper c \<or> islower c)"

definition tolower :: "char \<Rightarrow> char" where
  "tolower c = (if isupper c then char_of (code_of c + 32) else c)"

definition toupper :: "char \<Rightarrow> char" where
  "toupper c = (if islower c then char_of (code_of c - 32) else c)"

abbreviation NL :: char where "NL \<equiv> CHR 0x0A"
abbreviation CR :: char where "CR \<equiv> CHR 0x0D"
abbreviation TAB :: char where "TAB \<equiv> CHR 0x09"
abbreviation DQ :: char where "DQ \<equiv> CHR 0x22"
abbreviation BS :: char where "BS \<equiv> CHR 0x5C"
abbreviation APOS :: char where "APOS \<equiv> CHR 0x27"

lemmas char_class_defs = code_of_def isspace_def isdigit_def isupper_def islower_def isalnum_def

lemma code_of_less [simp]: "code_of c < 256"
  unfolding code_of_def by (cases c) (metis of_char_Char of_char_mod_256 mod_less_divisor zero_less_numeral)

lemma code_of_char_of [simp]: "n < 256 \<Longrightarrow> code_of (char_of n) = n"
  by (simp add: code_of_def)

lemma tolower_idem [simp]: "tolower (tolower c) = tolower c"
  by (auto simp: tolower_def isupper_def)

lemma isdigit_not_space [simp]: "isdigit c \<Longrightarrow> \<not> isspace c"
  by (auto simp: char_class_defs)

lemma isalnum_not_space [simp]: "isalnum c \<Longrightarrow> \<not> isspace c"
  by (auto simp: char_class_defs)

subsection \<open>Tokens of a line (istringstream extraction)\<close>

text \<open>\<open>std::ws\<close> and the leading skip of \<open>operator>>\<close>.\<close>

definition skip_ws :: "string \<Rightarrow> string" where
  "skip_ws s = dropWhile isspace s"

definition next_token :: "string \<Rightarrow> string \<times> string" where
  "next_token s = (let t = skip_ws s in (takeWhile (\<lambda>c. \<not> isspace c) t, dropWhile (\<lambda>c. \<not> isspace c) t))"

lemma length_dropWhile_le': "length (dropWhile P xs) \<le> length xs"
  by (induction xs) auto

lemma length_skip_ws: "length (skip_ws s) \<le> length s"
  by (simp add: skip_ws_def length_dropWhile_le')

lemma length_tl_skip_ws: "length (tl (skip_ws s)) \<le> length s"
  using length_skip_ws[of s] by simp

lemma skip_ws_cases: "skip_ws s = [] \<or> (\<exists>c r. skip_ws s = c # r \<and> \<not> isspace c)"
  unfolding skip_ws_def by (cases "dropWhile isspace s") (auto simp: dropWhile_eq_Cons_conv)

lemma next_token_shorter:
  assumes "next_token s = (t, r)" and "t \<noteq> []"
  shows "length r < length s"
proof -
  have r: "r = dropWhile (\<lambda>c. \<not> isspace c) (skip_ws s)"
    and t: "t = takeWhile (\<lambda>c. \<not> isspace c) (skip_ws s)"
    using assms(1) by (auto simp: next_token_def Let_def)
  have "length (skip_ws s) = length t + length r"
    unfolding r t by (metis length_append takeWhile_dropWhile_id)
  moreover have "length (skip_ws s) \<le> length s" by (rule length_skip_ws)
  moreover have "0 < length t" using assms(2) by simp
  ultimately show ?thesis by linarith
qed

lemma takeWhile_all: "(\<And>x. x \<in> set xs \<Longrightarrow> P x) \<Longrightarrow> takeWhile P xs = xs"
  by (simp add: takeWhile_eq_all_conv)

lemma next_token_no_space: "next_token s = (t, r) \<Longrightarrow> \<forall>c \<in> set t. \<not> isspace c"
  by (auto simp: next_token_def Let_def dest: set_takeWhileD)

definition word_ok :: "string \<Rightarrow> bool" where
  "word_ok w = (w \<noteq> [] \<and> (\<forall>c \<in> set w. \<not> isspace c))"

lemma skip_ws_word [simp]: "word_ok w \<Longrightarrow> skip_ws (w @ r) = w @ r"
  by (cases w) (auto simp: word_ok_def skip_ws_def)

lemma next_token_word:
  "word_ok w \<Longrightarrow> r = [] \<or> isspace (hd r) \<Longrightarrow> next_token (w @ r) = (w, r)"
  using skip_ws_word[of w r]
  by (cases r) (auto simp: next_token_def word_ok_def takeWhile_append dropWhile_append Let_def)

subsection \<open>Decimal numbers (std::to_string and stream output)\<close>

fun show_nat :: "nat \<Rightarrow> string" where
  "show_nat n = (if n < 10 then [char_of (48 + n)]
                 else show_nat (n div 10) @ [char_of (48 + n mod 10)])"

declare show_nat.simps [simp del]

definition show_int :: "int \<Rightarrow> string" where
  "show_int i = (if i < 0 then ''-'' @ show_nat (nat (- i)) else show_nat (nat i))"

definition digit_val :: "char \<Rightarrow> nat" where
  "digit_val c = code_of c - 48"

definition read_nat :: "string \<Rightarrow> nat" where
  "read_nat s = foldl (\<lambda>n c. 10 * n + digit_val c) 0 s"

lemma show_nat_nonempty [simp]: "show_nat n \<noteq> []"
  by (subst show_nat.simps) simp

lemma isdigit_char_of [simp]: "(n::nat) < 10 \<Longrightarrow> isdigit (char_of (48 + n))"
  by (simp add: isdigit_def)

lemma show_nat_digits: "c \<in> set (show_nat n) \<Longrightarrow> isdigit c"
proof (induction n rule: show_nat.induct)
  case (1 n)
  show ?case
  proof (cases "n < 10")
    case True
    with "1.prems" show ?thesis by (subst (asm) show_nat.simps) auto
  next
    case False
    with "1.prems" have "c \<in> set (show_nat (n div 10)) \<or> c = char_of (48 + n mod 10)"
      by (subst (asm) show_nat.simps) auto
    with False "1.IH" show ?thesis by auto
  qed
qed

lemma read_show_nat [simp]: "read_nat (show_nat n) = n"
proof (induction n rule: show_nat.induct)
  case (1 n)
  show ?case
  proof (cases "n < 10")
    case True
    then show ?thesis by (subst show_nat.simps) (simp add: read_nat_def digit_val_def)
  next
    case False
    with "1.IH" have "foldl (\<lambda>n c. 10 * n + digit_val c) 0 (show_nat (n div 10)) = n div 10"
      by (simp add: read_nat_def)
    with False show ?thesis
      by (subst show_nat.simps) (simp add: read_nat_def digit_val_def)
  qed
qed

lemma show_nat_word: "word_ok (show_nat n)"
  by (auto simp: word_ok_def dest: show_nat_digits)

lemma show_nat_inj: "show_nat m = show_nat n \<Longrightarrow> m = n"
  by (metis read_show_nat)

subsection \<open>Maps\<close>

abbreviation put :: "'k \<Rightarrow> 'v \<Rightarrow> ('k \<times> 'v) list \<Rightarrow> ('k \<times> 'v) list" where
  "put \<equiv> AList.update"

abbreviation erase_key :: "'k \<Rightarrow> ('k \<times> 'v) list \<Rightarrow> ('k \<times> 'v) list" where
  "erase_key \<equiv> AList.delete"

abbreviation count_key :: "('k \<times> 'v) list \<Rightarrow> 'k \<Rightarrow> bool" where
  "count_key m k \<equiv> (map_of m k \<noteq> None)"

abbreviation keys :: "('k \<times> 'v) list \<Rightarrow> 'k list" where
  "keys m \<equiv> map fst m"

definition find_def :: "('k \<times> 'v) list \<Rightarrow> 'k \<Rightarrow> 'v \<Rightarrow> 'v" where
  "find_def m k d = (case map_of m k of None \<Rightarrow> d | Some v \<Rightarrow> v)"

text \<open>\<open>operator[]\<close> of a map: the key is inserted with the default value when it is absent.\<close>

definition touch :: "'k \<Rightarrow> 'v \<Rightarrow> ('k \<times> 'v) list \<Rightarrow> ('k \<times> 'v) list" where
  "touch k d m = (case map_of m k of None \<Rightarrow> put k d m | Some _ \<Rightarrow> m)"

lemma put_lookup [simp]: "map_of (put k v m) = (map_of m)(k \<mapsto> v)"
  by (rule update_conv')

lemma erase_lookup [simp]: "map_of (erase_key k m) = (map_of m)(k := None)"
  by (rule delete_conv')

lemma distinct_put [simp]: "distinct (keys m) \<Longrightarrow> distinct (keys (put k v m))"
  by (rule distinct_update)

lemma distinct_erase [simp]: "distinct (keys m) \<Longrightarrow> distinct (keys (erase_key k m))"
  by (rule distinct_delete)

lemma touch_lookup: "map_of (touch k d m) k' = (if k' = k then Some (find_def m k d) else map_of m k')"
  by (auto simp: touch_def find_def_def split: option.splits)

lemma find_def_touch [simp]: "find_def (touch k d m) k' d = find_def m k' d"
  by (simp add: find_def_def touch_lookup)

lemma distinct_touch [simp]: "distinct (keys m) \<Longrightarrow> distinct (keys (touch k d m))"
  by (simp add: touch_def split: option.splits)

lemma map_of_mem: "distinct (keys m) \<Longrightarrow> (k, v) \<in> set m \<longleftrightarrow> map_of m k = Some v"
  by (metis map_of_eq_Some_iff)

lemma all_pairs_map_of:
  "distinct (keys m) \<Longrightarrow> (\<forall>(k, v) \<in> set m. P k v) \<longleftrightarrow> (\<forall>k v. map_of m k = Some v \<longrightarrow> P k v)"
  by (auto simp: map_of_mem[symmetric])

lemma put_same: "map_of m k = Some v \<Longrightarrow> put k v m = m"
  by (rule update_triv)

lemma keys_put_present: "map_of m k \<noteq> None \<Longrightarrow> keys (put k v m) = keys m"
  by (induction m) (auto split: if_splits)

text \<open>Sorted insertion: \<open>std::map::operator[]\<close> followed by assignment.\<close>

fun sput :: "'k::linorder \<Rightarrow> 'v \<Rightarrow> ('k \<times> 'v) list \<Rightarrow> ('k \<times> 'v) list" where
  "sput k v [] = [(k, v)]"
| "sput k v ((a, b) # m) =
     (if k < a then (k, v) # (a, b) # m else if k = a then (k, v) # m else (a, b) # sput k v m)"

lemma sput_lookup [simp]: "map_of (sput k v m) = (map_of m)(k \<mapsto> v)"
  by (induction k v m rule: sput.induct) auto

lemma keys_sput: "set (keys (sput k v m)) = insert k (set (keys m))"
  by (induction k v m rule: sput.induct) auto

lemma sorted_sput: "sorted_wrt (<) (keys m) \<Longrightarrow> sorted_wrt (<) (keys (sput k v m))"
proof (induction k v m rule: sput.induct)
  case (2 k v a b m)
  have *: "set (keys (sput k v m)) = insert k (set (keys m))" by (rule keys_sput)
  consider "k < a" | "k = a" | "a < k" by (metis linorder_less_linear)
  then show ?case
  proof cases
    case 1
    with "2.prems" show ?thesis by (auto intro: less_trans)
  next
    case 3
    with "2.prems" "2.IH" have "sorted_wrt (<) (keys (sput k v m))" by auto
    moreover have "\<forall>x \<in> set (keys (sput k v m)). a < x" unfolding * using "2.prems" 3 by auto
    moreover have "\<not> k < a" and "k \<noteq> a" using 3 by auto
    ultimately show ?thesis by simp
  qed (use "2.prems" in simp)
qed simp

subsection \<open>Lists\<close>

text \<open>\<open>v.erase(std::remove(v.begin(), v.end(), x), v.end())\<close>\<close>

abbreviation erase_remove :: "'a \<Rightarrow> 'a list \<Rightarrow> 'a list" where
  "erase_remove \<equiv> removeAll"

text \<open>Comma-separated output of a container, the \<open>first\<close>-flag loops of the code.\<close>

fun commas :: "string list \<Rightarrow> string" where
  "commas [] = []"
| "commas [x] = x"
| "commas (x # y # xs) = x @ '','' @ commas (y # xs)"

definition quoted :: "string \<Rightarrow> string" where
  "quoted s = [DQ] @ s @ [DQ]"

definition bool_lit :: "bool \<Rightarrow> string" where
  "bool_lit b = (if b then ''true'' else ''false'')"

text \<open>Sums of multisets over the values of a map, used to count item instances.\<close>

fun msum :: "('v \<Rightarrow> 'a multiset) \<Rightarrow> ('k \<times> 'v) list \<Rightarrow> 'a multiset" where
  "msum f [] = {#}"
| "msum f ((k, v) # m) = f v + msum f m"

lemma msum_put_new: "map_of m k = None \<Longrightarrow> msum f (put k v m) = msum f m + f v"
  by (induction m) (auto split: if_splits)

lemma msum_put_old:
  "map_of m k = Some u \<Longrightarrow> msum f (put k v m) + f u = msum f m + f v"
  by (induction m) (auto split: if_splits simp: ac_simps)

lemma msum_put_eq: "map_of m k = Some u \<Longrightarrow> f v = f u \<Longrightarrow> msum f (put k v m) = msum f m"
  using msum_put_old[of m k u f v] by simp

lemma msum_erase:
  "distinct (keys m) \<Longrightarrow> map_of m k = Some u \<Longrightarrow> msum f (erase_key k m) + f u = msum f m"
proof (induction m)
  case (Cons x m)
  show ?case
  proof (cases "fst x = k")
    case True
    with Cons.prems have "erase_key k m = m" by (intro delete_id) auto
    with Cons.prems True show ?thesis by (cases x) (auto simp: ac_simps)
  next
    case False
    with Cons show ?thesis by (cases x) (auto simp: ac_simps)
  qed
qed simp

lemma msum_le: "map_of m k = Some u \<Longrightarrow> f u \<subseteq># msum f m"
  by (induction m) (auto split: if_splits intro: subset_mset.order_trans)

lemma mset_removeAll_single:
  assumes "count (mset xs) x = 1"
  shows "mset (removeAll x xs) = mset xs - {#x#}"
proof (rule multiset_eqI)
  fix y
  have "mset (removeAll x xs) = filter_mset (\<lambda>z. x \<noteq> z) (mset xs)"
    by (simp add: removeAll_filter_not_eq)
  then show "count (mset (removeAll x xs)) y = count (mset xs - {#x#}) y"
    using assms by auto
qed

subsection \<open>Lines\<close>

text \<open>The pieces repeated \<open>std::getline\<close> calls give: no empty piece after a final newline.\<close>

function getlines :: "string \<Rightarrow> string list" where
  "getlines s = (if s = [] then [] else takeWhile (\<lambda>c. c \<noteq> NL) s # getlines (tl (dropWhile (\<lambda>c. c \<noteq> NL) s)))"
  by auto
termination
proof (relation "measure length")
  fix s :: string assume "s \<noteq> []"
  then have "0 < length s" by simp
  then have "length (tl (dropWhile (\<lambda>c. c \<noteq> NL) s)) < length s"
    using length_dropWhile_le'[of "\<lambda>c. c \<noteq> NL" s] unfolding length_tl by linarith
  then show "(tl (dropWhile (\<lambda>c. c \<noteq> NL) s), s) \<in> measure length" by simp
qed simp

declare getlines.simps [simp del]

text \<open>The text a C string of these bytes denotes: up to the first zero byte.\<close>

definition c_str :: "string \<Rightarrow> string" where
  "c_str s = takeWhile (\<lambda>c. c \<noteq> CHR 0x00) s"

lemma c_str_id: "CHR 0x00 \<notin> set s \<Longrightarrow> c_str s = s"
  by (simp add: c_str_def takeWhile_eq_all_conv) blast

subsection \<open>The end of a process\<close>

text \<open>\<open>Abort\<close> is the end by a failed assertion or by an exception that nothing catches.\<close>

datatype program_end = Exit int | Abort

end
