(* ===== verification/WorldModel.thy ===== *)
theory WorldModel
  imports TapPrelude
begin

text \<open>
  The shared game state of the server (\<open>server/src/world/world.hpp\<close>): one record per struct, the
  fields that several structs share carry a prefix (\<open>rm_\<close>, \<open>it_\<close>, \<open>np_\<close>, \<open>q_\<close>).  The
  \<open>unordered_map\<close>s are association lists; \<open>pending_invites\<close> is a \<open>multimap\<close>, kept sorted by key
  with equal keys in insertion order.
\<close>

record room =
  rm_id :: string
  rm_name :: string
  rm_description :: string
  exits :: "(string \<times> string) list"
  item_instance_ids :: "string list"
  npc_ids :: "string list"

datatype item_effect = EffNone | EffHeal | EffDamage

record item =
  it_id :: string
  it_name :: string
  it_description :: string
  effect :: item_effect
  effect_amount :: int

record npc =
  np_id :: string
  np_name :: string
  np_description :: string
  dialogue :: "string list"
  np_hp :: int
  np_max_hp :: int
  counter_damage_min :: int
  counter_damage_max :: int
  bonus_dialogue :: "string list"
  unlock_quest_ids :: "string list"

datatype quest_type = Fetch | Defeat

record quest =
  q_id :: string
  q_name :: string
  q_description :: string
  q_type :: quest_type
  target_id :: string
  target_ids :: "string list"
  reward_item_id :: string

record player_state =
  player_id :: string
  race :: string
  special_attributes :: string
  current_room :: string
  inventory :: "string list"
  hp :: int
  max_hp :: int
  last_target :: string
  quest_status :: "(string \<times> string) list"
  npc_dialogue_progress :: "(string \<times> nat) list"

record world =
  rooms :: "(string \<times> room) list"
  items :: "(string \<times> item) list"
  npcs :: "(string \<times> npc) list"
  players :: "(string \<times> player_state) list"
  quests :: "(string \<times> quest) list"
  player_group :: "(string \<times> string) list"
  groups :: "(string \<times> string list) list"
  pending_invites :: "(string \<times> string) list"

text \<open>The default member initialisers.\<close>

definition default_npc :: npc where
  "default_npc = \<lparr>np_id = [], np_name = [], np_description = [], dialogue = [], np_hp = 0, np_max_hp = 0,
     counter_damage_min = 3, counter_damage_max = 8, bonus_dialogue = [], unlock_quest_ids = []\<rparr>"

definition default_player :: player_state where
  "default_player = \<lparr>player_id = [], race = [], special_attributes = [], current_room = [], inventory = [],
     hp = 100, max_hp = 100, last_target = [], quest_status = [], npc_dialogue_progress = []\<rparr>"

definition empty_world :: world where
  "empty_world = \<lparr>rooms = [], items = [], npcs = [], players = [], quests = [],
     player_group = [], groups = [], pending_invites = []\<rparr>"

definition upd_player :: "string \<Rightarrow> player_state \<Rightarrow> world \<Rightarrow> world" where
  "upd_player pid p w = w\<lparr>players := put pid p (players w)\<rparr>"

definition upd_room :: "string \<Rightarrow> room \<Rightarrow> world \<Rightarrow> world" where
  "upd_room rid r w = w\<lparr>rooms := put rid r (rooms w)\<rparr>"

definition upd_npc :: "string \<Rightarrow> npc \<Rightarrow> world \<Rightarrow> world" where
  "upd_npc nid n w = w\<lparr>npcs := put nid n (npcs w)\<rparr>"

lemma upd_player_frame [simp]:
  "rooms (upd_player pid p w) = rooms w" "items (upd_player pid p w) = items w"
  "npcs (upd_player pid p w) = npcs w" "quests (upd_player pid p w) = quests w"
  "player_group (upd_player pid p w) = player_group w" "groups (upd_player pid p w) = groups w"
  "pending_invites (upd_player pid p w) = pending_invites w"
  "players (upd_player pid p w) = put pid p (players w)"
  by (simp_all add: upd_player_def)

lemma upd_room_frame [simp]:
  "rooms (upd_room rid r w) = put rid r (rooms w)" "items (upd_room rid r w) = items w"
  "npcs (upd_room rid r w) = npcs w" "quests (upd_room rid r w) = quests w"
  "player_group (upd_room rid r w) = player_group w" "groups (upd_room rid r w) = groups w"
  "pending_invites (upd_room rid r w) = pending_invites w" "players (upd_room rid r w) = players w"
  by (simp_all add: upd_room_def)

lemma upd_npc_frame [simp]:
  "rooms (upd_npc nid n w) = rooms w" "items (upd_npc nid n w) = items w"
  "npcs (upd_npc nid n w) = put nid n (npcs w)" "quests (upd_npc nid n w) = quests w"
  "player_group (upd_npc nid n w) = player_group w" "groups (upd_npc nid n w) = groups w"
  "pending_invites (upd_npc nid n w) = pending_invites w" "players (upd_npc nid n w) = players w"
  by (simp_all add: upd_npc_def)

subsection \<open>Well-formed worlds\<close>

text \<open>What the loader promises about the static data and every command keeps.\<close>

definition room_ok :: "world \<Rightarrow> string \<Rightarrow> room \<Rightarrow> bool" where
  "room_ok w rid r = (rm_id r = rid \<and> (\<forall>t \<in> snd ` set (exits r). count_key (rooms w) t) \<and>
     (\<forall>i \<in> set (item_instance_ids r). count_key (items w) i) \<and>
     (\<forall>n \<in> set (npc_ids r). count_key (npcs w) n))"

definition quest_ok :: "world \<Rightarrow> quest \<Rightarrow> bool" where
  "quest_ok w q = ((if q_type q = Fetch then count_key (items w) (target_id q)
       else target_ids q \<noteq> [] \<and> (\<forall>n \<in> set (target_ids q). count_key (npcs w) n)) \<and>
     (reward_item_id q \<noteq> [] \<longrightarrow> count_key (items w) (reward_item_id q)))"

definition rooms_ok :: "world \<Rightarrow> bool" where
  "rooms_ok w = (distinct (keys (rooms w)) \<and> (\<forall>rid r. map_of (rooms w) rid = Some r \<longrightarrow> room_ok w rid r) \<and>
     count_key (rooms w) ''loc.start'')"

definition quests_ok :: "world \<Rightarrow> bool" where
  "quests_ok w = (distinct (keys (quests w)) \<and> (\<forall>qid q. map_of (quests w) qid = Some q \<longrightarrow> quest_ok w q))"

definition npcs_ok :: "world \<Rightarrow> bool" where
  "npcs_ok w = (distinct (keys (npcs w)) \<and>
     (\<forall>nid n. map_of (npcs w) nid = Some n \<longrightarrow> (\<forall>q \<in> set (unlock_quest_ids n). count_key (quests w) q)))"

definition world_data_ok :: "world \<Rightarrow> bool" where
  "world_data_ok w = (rooms_ok w \<and> quests_ok w \<and> npcs_ok w \<and> distinct (keys (items w)))"

text \<open>The item instances that lie in rooms or are carried by an online player.\<close>

definition items_in_rooms :: "world \<Rightarrow> string multiset" where
  "items_in_rooms w = msum (\<lambda>r. mset (item_instance_ids r)) (rooms w)"

definition items_carried :: "world \<Rightarrow> string multiset" where
  "items_carried w = msum (\<lambda>p. mset (inventory p)) (players w)"

definition items_in_play :: "world \<Rightarrow> string multiset" where
  "items_in_play w = items_in_rooms w + items_carried w"

end
