(* ===== verification/JsonParser.thy ===== *)
theory JsonParser
  imports TapPrelude Complex_Main "HOL-Library.Log_Nat"
begin

text \<open>
  The hand-written JSON parser shared by server and clients
  (\<open>client/shared/source/JsonParser.cpp\<close>).  A \<open>JsonValue\<close> is a tagged union; the accessors of the
  unused members return their defaults.  The recursive descent works on the unread rest of the
  text; \<open>pos\<close> is recovered from the length \<open>n\<close> of the whole text.  The mutual recursion carries
  fuel; \<open>parse_value_fuel\<close> shows that \<open>parse_json\<close> always supplies enough.  A double is the exact
  rational it denotes, \<open>strtod\<close> rounds to nearest even with a 53-bit significand.  The bound of the
  C++ call stack is not modelled.
\<close>

subsection \<open>Doubles\<close>

datatype double = Finite rat | Infinite bool

definition pow2 :: "int \<Rightarrow> rat" where
  "pow2 e = (if 0 \<le> e then 2 ^ nat e else 1 / 2 ^ nat (- e))"

definition ilog2 :: "rat \<Rightarrow> int" where
  "ilog2 q = (case quotient_of q of (a, b) \<Rightarrow>
     (let k = int (floorlog 2 (nat a)) - int (floorlog 2 (nat b))
      in if pow2 k \<le> q then k else k - 1))"

definition round_half_even :: "rat \<Rightarrow> int" where
  "round_half_even x = (let f = \<lfloor>x\<rfloor>; d = x - of_int f in
     if d < 1 / 2 then f else if 1 / 2 < d then f + 1 else if even f then f else f + 1)"

definition round_double :: "rat \<Rightarrow> double" where
  "round_double q = (if q = 0 then Finite 0 else
     (let a = \<bar>q\<bar>; e = max (ilog2 a - 52) (-1074); r = of_int (round_half_even (a / pow2 e)) * pow2 e
      in if 2 ^ 1024 \<le> r then Infinite (q < 0) else Finite (sgn q * r)))"

definition peek :: "string \<Rightarrow> char \<Rightarrow> bool" where
  "peek s c = (case s of [] \<Rightarrow> False | x # _ \<Rightarrow> x = c)"

definition exp_part :: "string \<Rightarrow> int" where
  "exp_part t = (if peek t CHR ''e'' \<or> peek t CHR ''E'' then
      (let u = tl t; neg = peek u CHR ''-'';
           ds = takeWhile isdigit (if neg \<or> peek u CHR ''+'' then tl u else u)
       in if neg then - int (read_nat ds) else int (read_nat ds))
    else 0)"

definition strtod :: "string \<Rightarrow> double" where
  "strtod s = (let neg = peek s CHR ''-''; t = (if neg then tl s else s);
      ip = takeWhile isdigit t; t1 = dropWhile isdigit t; dot = peek t1 CHR ''.'';
      fp = (if dot then takeWhile isdigit (tl t1) else []);
      t2 = (if dot then dropWhile isdigit (tl t1) else t1)
    in if ip = [] \<and> fp = [] then Finite 0
       else (let m = rat_of_nat (read_nat (ip @ fp)); x = exp_part t2 - int (length fp);
                 v = (if 0 \<le> x then m * 10 ^ nat x else m / 10 ^ nat (- x))
             in round_double (if neg then - v else v)))"

subsection \<open>JsonValue\<close>

datatype json = JNull | JBool bool | JNumber double | JString string
  | JArray "json list" | JObject "(string \<times> json) list"

abbreviation INT_MAX :: int where "INT_MAX \<equiv> 2147483647"
abbreviation INT_MIN :: int where "INT_MIN \<equiv> -2147483648"

definition is_object :: "json \<Rightarrow> bool" where
  "is_object j = (case j of JObject _ \<Rightarrow> True | _ \<Rightarrow> False)"

definition is_array :: "json \<Rightarrow> bool" where
  "is_array j = (case j of JArray _ \<Rightarrow> True | _ \<Rightarrow> False)"

definition is_string :: "json \<Rightarrow> bool" where
  "is_string j = (case j of JString _ \<Rightarrow> True | _ \<Rightarrow> False)"

definition array_value :: "json \<Rightarrow> json list" where
  "array_value j = (case j of JArray xs \<Rightarrow> xs | _ \<Rightarrow> [])"

definition object_value :: "json \<Rightarrow> (string \<times> json) list" where
  "object_value j = (case j of JObject m \<Rightarrow> m | _ \<Rightarrow> [])"

definition json_at :: "json \<Rightarrow> string \<Rightarrow> json" where
  "json_at j key = (case j of JObject m \<Rightarrow> (case map_of m key of None \<Rightarrow> JNull | Some v \<Rightarrow> v) | _ \<Rightarrow> JNull)"

definition as_string :: "json \<Rightarrow> string" where
  "as_string j = (case j of JString s \<Rightarrow> s | _ \<Rightarrow> [])"

text \<open>\<open>static_cast<int>\<close> truncates; outside the range of int C++ leaves the result undefined and the
  x86-64 conversion instruction yields \<open>INT_MIN\<close>, which is the value taken here.\<close>

definition truncate_rat :: "rat \<Rightarrow> int" where
  "truncate_rat q = (if 0 \<le> q then \<lfloor>q\<rfloor> else \<lceil>q\<rceil>)"

definition double_to_int :: "double \<Rightarrow> int" where
  "double_to_int d = (case d of Infinite _ \<Rightarrow> INT_MIN
     | Finite q \<Rightarrow> (let t = truncate_rat q in if INT_MIN \<le> t \<and> t \<le> INT_MAX then t else INT_MIN))"

definition as_int :: "json \<Rightarrow> int" where
  "as_int j = (case j of JNumber d \<Rightarrow> double_to_int d | _ \<Rightarrow> 0)"

subsection \<open>Scalars of the parser\<close>

definition unescape :: "char \<Rightarrow> char option" where
  "unescape c = (if c = DQ then Some DQ else if c = BS then Some BS else if c = CHR ''/'' then Some CHR ''/''
     else if c = CHR ''n'' then Some NL else if c = CHR ''t'' then Some TAB
     else if c = CHR ''r'' then Some CR else None)"

fun parse_string_loop :: "string \<Rightarrow> string \<Rightarrow> string + string \<times> string" where
  "parse_string_loop acc [] = Inl ''unterminated string''"
| "parse_string_loop acc (c # r) =
     (if c = DQ then Inr (acc, r)
      else if c = BS then
        (case r of [] \<Rightarrow> Inl ''unterminated escape sequence''
         | d # r' \<Rightarrow> (case unescape d of
               Some e \<Rightarrow> parse_string_loop (acc @ [e]) r'
             | None \<Rightarrow> Inl (''unsupported escape sequence '' @ [APOS, BS, d, APOS])))
      else parse_string_loop (acc @ [c]) r)"

definition parse_string_value :: "string \<Rightarrow> string + string \<times> string" where
  "parse_string_value s = parse_string_loop [] (tl s)"

definition at_offset :: "string \<Rightarrow> nat \<Rightarrow> string \<Rightarrow> string" where
  "at_offset msg n rest = msg @ '' at offset '' @ show_nat (n - length rest)"

definition parse_bool :: "nat \<Rightarrow> string \<Rightarrow> string + json \<times> string" where
  "parse_bool n s = (if take 4 s = ''true'' then Inr (JBool True, drop 4 s)
     else if take 5 s = ''false'' then Inr (JBool False, drop 5 s)
     else Inl (at_offset ''invalid literal'' n s))"

definition parse_null :: "nat \<Rightarrow> string \<Rightarrow> string + json \<times> string" where
  "parse_null n s = (if take 4 s = ''null'' then Inr (JNull, drop 4 s)
     else Inl (at_offset ''invalid literal'' n s))"

text \<open>The unread rest after the number token.\<close>

definition skip_number :: "string \<Rightarrow> string" where
  "skip_number s0 = (let s1 = (if peek s0 CHR ''-'' then tl s0 else s0); s2 = dropWhile isdigit s1;
      s3 = (if peek s2 CHR ''.'' then dropWhile isdigit (tl s2) else s2)
    in if peek s3 CHR ''e'' \<or> peek s3 CHR ''E'' then
         (let s4 = tl s3 in dropWhile isdigit (if peek s4 CHR ''+'' \<or> peek s4 CHR ''-'' then tl s4 else s4))
       else s3)"

definition parse_number :: "nat \<Rightarrow> string \<Rightarrow> string + json \<times> string" where
  "parse_number n s = (let rest = skip_number s; num_str = take (length s - length rest) s
     in if num_str = [] \<or> num_str = ''-'' then Inl (at_offset ''invalid number'' n s)
        else Inr (JNumber (strtod num_str), rest))"

subsection \<open>Recursive descent\<close>

fun parse_value :: "nat \<Rightarrow> nat \<Rightarrow> string \<Rightarrow> (string + json \<times> string) option"
  and parse_members :: "nat \<Rightarrow> nat \<Rightarrow> (string \<times> json) list \<Rightarrow> string \<Rightarrow> (string + json \<times> string) option"
  and parse_elements :: "nat \<Rightarrow> nat \<Rightarrow> json list \<Rightarrow> string \<Rightarrow> (string + json \<times> string) option" where
  "parse_value n 0 s0 = None"
| "parse_value n (Suc f) s0 =
     (let s = skip_ws s0 in case s of
        [] \<Rightarrow> Some (Inl ''unexpected end of input'')
      | c # r \<Rightarrow>
          if c = CHR ''{'' then
            (let t = skip_ws r in if peek t CHR ''}'' then Some (Inr (JObject [], tl t)) else parse_members n f [] t)
          else if c = CHR ''['' then
            (let t = skip_ws r in if peek t CHR '']'' then Some (Inr (JArray [], tl t)) else parse_elements n f [] t)
          else if c = DQ then
            Some (case parse_string_value s of Inl e \<Rightarrow> Inl e | Inr (str, r') \<Rightarrow> Inr (JString str, r'))
          else if c = CHR ''t'' \<or> c = CHR ''f'' then Some (parse_bool n s)
          else if c = CHR ''n'' then Some (parse_null n s)
          else if c = CHR ''-'' \<or> isdigit c then Some (parse_number n s)
          else Some (Inl (at_offset (''unexpected character '' @ [APOS, c, APOS]) n s)))"
| "parse_members n 0 obj s0 = None"
| "parse_members n (Suc f) obj s0 =
     (let s = skip_ws s0 in
      if \<not> peek s DQ then Some (Inl (at_offset ''expected string key'' n s))
      else case parse_string_value s of
        Inl e \<Rightarrow> Some (Inl e)
      | Inr (key, s1) \<Rightarrow>
          (let s2 = skip_ws s1 in
           if \<not> peek s2 CHR '':'' then Some (Inl (at_offset (''expected '' @ [APOS, CHR '':'', APOS]) n s2))
           else case parse_value n f (tl s2) of
             None \<Rightarrow> None
           | Some (Inl e) \<Rightarrow> Some (Inl e)
           | Some (Inr (v, s3)) \<Rightarrow>
               (let obj' = sput key v obj; s4 = skip_ws s3 in
                if peek s4 CHR '','' then parse_members n f obj' (tl s4)
                else if peek s4 CHR ''}'' then Some (Inr (JObject obj', tl s4))
                else Some (Inl (at_offset (''expected '' @ [APOS, CHR '','', APOS] @ '' or ''
                       @ [APOS, CHR ''}'', APOS]) n s4)))))"
| "parse_elements n 0 arr s0 = None"
| "parse_elements n (Suc f) arr s0 =
     (case parse_value n f s0 of
        None \<Rightarrow> None
      | Some (Inl e) \<Rightarrow> Some (Inl e)
      | Some (Inr (v, s1)) \<Rightarrow>
          (let arr' = arr @ [v]; s2 = skip_ws s1 in
           if peek s2 CHR '','' then parse_elements n f arr' (tl s2)
           else if peek s2 CHR '']'' then Some (Inr (JArray arr', tl s2))
           else Some (Inl (at_offset (''expected '' @ [APOS, CHR '','', APOS] @ '' or ''
                  @ [APOS, CHR '']'', APOS]) n s2))))"

definition json_fuel :: "string \<Rightarrow> nat" where
  "json_fuel s = 2 * length s + 2"

definition parse_json :: "string \<Rightarrow> string + json" where
  "parse_json text =
     (case parse_value (length text) (json_fuel text) (skip_ws text) of
        None \<Rightarrow> Inl ''out of fuel''
      | Some (Inl e) \<Rightarrow> Inl e
      | Some (Inr (v, rest)) \<Rightarrow>
          if skip_ws rest \<noteq> [] then Inl ''trailing data after JSON value'' else Inr v)"

subsection \<open>toString\<close>

text \<open>\<open>fmt\<close> is \<open>std::format("{}", double)\<close>.\<close>

definition scalar_to_string :: "(double \<Rightarrow> string) \<Rightarrow> json \<Rightarrow> string" where
  "scalar_to_string fmt j = (case j of JBool b \<Rightarrow> bool_lit b | JNumber d \<Rightarrow> fmt d | JString s \<Rightarrow> s | _ \<Rightarrow> ''null'')"

function (sequential) stringify_object :: "(double \<Rightarrow> string) \<Rightarrow> string \<Rightarrow> (string \<times> json) list \<Rightarrow> string"
  and stringify_array :: "(double \<Rightarrow> string) \<Rightarrow> string \<Rightarrow> json list \<Rightarrow> string" where
  "stringify_object fmt indent [] = []"
| "stringify_object fmt indent ((key, JObject m) # r) =
     indent @ key @ '':'' @ [NL] @ stringify_object fmt (indent @ [TAB]) m @ stringify_object fmt indent r"
| "stringify_object fmt indent ((key, JArray a) # r) =
     indent @ key @ '':'' @ [NL] @ stringify_array fmt (indent @ [TAB]) a @ stringify_object fmt indent r"
| "stringify_object fmt indent ((key, v) # r) =
     indent @ key @ '': '' @ scalar_to_string fmt v @ [NL] @ stringify_object fmt indent r"
| "stringify_array fmt indent [] = []"
| "stringify_array fmt indent (JObject m # r) =
     indent @ ''- '' @ stringify_object fmt (indent @ [TAB]) m @ stringify_array fmt indent r"
| "stringify_array fmt indent (JArray a # r) =
     indent @ ''-'' @ [NL] @ stringify_array fmt (indent @ [TAB]) a @ stringify_array fmt indent r"
| "stringify_array fmt indent (v # r) =
     indent @ ''- '' @ scalar_to_string fmt v @ [NL] @ stringify_array fmt indent r"
  by pat_completeness auto
termination
  by (relation "measure (\<lambda>x. case x of Inl (_, _, m) \<Rightarrow> size_list (size_prod (\<lambda>_. 0) size) m
        | Inr (_, _, a) \<Rightarrow> size_list size a)") auto

definition drop_final_newline :: "string \<Rightarrow> string" where
  "drop_final_newline s = (if s \<noteq> [] \<and> last s = NL then butlast s else s)"

definition json_to_string :: "(double \<Rightarrow> string) \<Rightarrow> json \<Rightarrow> string" where
  "json_to_string fmt j = (case j of
      JObject m \<Rightarrow> drop_final_newline (stringify_object fmt [] m)
    | JArray a \<Rightarrow> drop_final_newline (stringify_array fmt [] a)
    | JNull \<Rightarrow> []
    | _ \<Rightarrow> scalar_to_string fmt j)"

end
