(* ===== verification/JsonRoundtrip.thy ===== *)
theory JsonRoundtrip
  imports JsonParser
begin

text \<open>
  Facts about the JSON parser: it always consumes input and never runs out of fuel, escaped
  strings and decimal integers read back exactly, and every document the server and the character
  store print (\<open>render\<close>) parses to the value it denotes (\<open>denote\<close>), with the rest of the input
  untouched.
\<close>

subsection \<open>Progress and fuel\<close>

lemma parse_string_loop_shorter: "parse_string_loop acc s = Inr (v, r) \<Longrightarrow> length r < length s"
proof (induction acc s rule: parse_string_loop.induct)
  case (2 acc c r')
  consider "c = DQ" | "c \<noteq> DQ" "c \<noteq> BS" | (esc) "c = BS" by blast
  then show ?case
  proof cases
    case esc
    with "2.prems" obtain d r'' e where d: "r' = d # r''" "unescape d = Some e"
      and "parse_string_loop (acc @ [e]) r'' = Inr (v, r)"
      by (auto split: list.splits option.splits)
    then have "length r < length r''" using "2.IH"(1)[OF _ esc d] esc by simp
    then show ?thesis using d by simp
  qed (use 2 in \<open>auto simp: less_SucI\<close>)
qed simp

lemma parse_string_value_shorter: "parse_string_value s = Inr (v, r) \<Longrightarrow> length r < length s"
  unfolding parse_string_value_def using parse_string_loop_shorter[of "[]" "tl s" v r] by simp

lemma peek_Cons [simp]: "peek (x # s) c = (x = c)" and peek_Nil [simp]: "peek [] c = False"
  by (simp_all add: peek_def)

lemma peek_iff: "peek s c \<longleftrightarrow> (\<exists>t. s = c # t)"
  by (cases s) auto

lemma length_tl_peek: "peek s c \<Longrightarrow> length (tl s) < length s"
  by (auto simp: peek_iff)

lemma skip_number_le: "length (skip_number s) \<le> length s"
proof -
  have d: "length (dropWhile isdigit t) \<le> length t" for t by (rule length_dropWhile_le')
  have tl: "length (if P then tl t else t) \<le> length t" for P and t :: string by simp
  have dt: "length (dropWhile isdigit (tl t)) \<le> length t" for t
    by (rule order_trans[OF d]) simp
  have dif: "length (dropWhile isdigit (if P then tl t else t)) \<le> length t" for P t
    by (rule order_trans[OF d tl])
  have dif': "length (if P then dropWhile isdigit (tl t) else t) \<le> length t" for P t
    using dt[of t] by simp
  define s2 where "s2 = dropWhile isdigit (if peek s CHR ''-'' then tl s else s)"
  define s3 where "s3 = (if peek s2 CHR ''.'' then dropWhile isdigit (tl s2) else s2)"
  have 1: "length s3 \<le> length s"
    unfolding s3_def by (rule order_trans[OF dif']) (simp only: s2_def dif)
  have 2: "length (dropWhile isdigit (if P then tl (tl s3) else tl s3)) \<le> length s" for P
    by (rule order_trans[OF dif]) (use 1 in simp)
  show ?thesis
    unfolding skip_number_def Let_def s2_def[symmetric] s3_def[symmetric] using 1 2 by simp
qed

lemma parse_number_shorter: "parse_number n s = Inr (v, r) \<Longrightarrow> s \<noteq> [] \<Longrightarrow> length r < length s"
proof -
  assume p: "parse_number n s = Inr (v, r)"
  then have r: "r = skip_number s" and ne: "take (length s - length r) s \<noteq> []"
    by (auto simp: parse_number_def Let_def split: if_splits)
  from ne have "0 < length s - length r" by (metis gr0I take_eq_Nil)
  then show ?thesis by simp
qed

lemma parse_bool_shorter: "parse_bool n s = Inr (v, r) \<Longrightarrow> length r < length s"
  by (cases s) (auto simp: parse_bool_def split: if_splits)

lemma parse_null_shorter: "parse_null n s = Inr (v, r) \<Longrightarrow> length r < length s"
  by (cases s) (auto simp: parse_null_def split: if_splits)

lemmas token_shorter = parse_string_value_shorter parse_number_shorter parse_bool_shorter parse_null_shorter

lemma parse_shorter:
  "parse_value n f s = Some (Inr (v, r)) \<Longrightarrow> length r < length s"
  "parse_members n f obj s = Some (Inr (v, r)) \<Longrightarrow> length r < length s"
  "parse_elements n f arr s = Some (Inr (v, r)) \<Longrightarrow> length r < length s"
proof (induction n f s and n f obj s and n f arr s arbitrary: v r and v r and v r
    rule: parse_value_parse_members_parse_elements.induct)
  case (2 n f s0)
  have le: "length (skip_ws s0) \<le> length s0" by (rule length_skip_ws)
  show ?case
  proof (cases "skip_ws s0")
    case Nil
    with "2.prems" show ?thesis by simp
  next
    case (Cons c r')
    with le have less: "length r' < length s0" by simp
    have ws: "length (skip_ws r') \<le> length r'" by (rule length_skip_ws)
    have tl: "length (tl (skip_ws r')) < length s0"
      by (rule le_less_trans[OF _ less], rule order_trans[OF _ ws]) simp
    from Cons "2.prems" consider
      (obj0) "peek (skip_ws r') CHR ''}''" "r = tl (skip_ws r')"
      | (obj) "c = CHR ''{''" "\<not> peek (skip_ws r') CHR ''}''" "parse_members n f [] (skip_ws r') = Some (Inr (v, r))"
      | (arr0) "peek (skip_ws r') CHR '']''" "r = tl (skip_ws r')"
      | (arr) "c = CHR ''[''" "\<not> peek (skip_ws r') CHR '']''" "parse_elements n f [] (skip_ws r') = Some (Inr (v, r))"
      | (str) str where "parse_string_value (skip_ws s0) = Inr (str, r)"
      | (tok) "parse_bool n (skip_ws s0) = Inr (v, r) \<or> parse_null n (skip_ws s0) = Inr (v, r)
            \<or> parse_number n (skip_ws s0) = Inr (v, r)"
      by (auto simp: Let_def split: if_splits sum.splits)
    then show ?thesis
    proof cases
      case obj
      then have "length r < length (skip_ws r')" using "2.IH"(1)[OF refl Cons _ refl] by simp
      with less ws show ?thesis by linarith
    next
      case arr
      then have "length r < length (skip_ws r')" using "2.IH"(2)[OF refl Cons _ _ refl] by simp
      with less ws show ?thesis by linarith
    next
      case (str u)
      from parse_string_value_shorter[OF this] le show ?thesis by linarith
    next
      case tok
      then have "length r < length (skip_ws s0)" using Cons by (auto dest: token_shorter)
      with le show ?thesis by linarith
    qed (use tl in simp_all)
  qed
next
  case (4 n f obj s0)
  have le: "length (skip_ws s0) \<le> length s0" by (rule length_skip_ws)
  from "4.prems" obtain key s1 v' s3 where
    k: "peek (skip_ws s0) DQ" "parse_string_value (skip_ws s0) = Inr (key, s1)"
      "peek (skip_ws s1) CHR '':''" "parse_value n f (tl (skip_ws s1)) = Some (Inr (v', s3))"
    and rest: "peek (skip_ws s3) CHR '','' \<and> parse_members n f (sput key v' obj) (tl (skip_ws s3)) = Some (Inr (v, r))
      \<or> r = tl (skip_ws s3)"
    by (auto simp: Let_def split: if_splits sum.splits option.splits prod.splits)
  have a: "length s1 < length s0" using parse_string_value_shorter[OF k(2)] le by simp
  have "length s3 < length (tl (skip_ws s1))"
    using "4.IH"(1)[OF refl _ k(2) refl refl] k by simp
  moreover have "length (tl (skip_ws s1)) \<le> length s1" by (rule length_tl_skip_ws)
  ultimately have b: "length s3 < length s0" using a by linarith
  have c: "length (tl (skip_ws s3)) \<le> length s3" by (rule length_tl_skip_ws)
  from rest show ?case
  proof
    assume m: "peek (skip_ws s3) CHR '','' \<and> parse_members n f (sput key v' obj) (tl (skip_ws s3)) = Some (Inr (v, r))"
    have "length r < length (tl (skip_ws s3))"
      using "4.IH"(2)[OF refl _ k(2) refl refl _ k(4) refl refl refl refl] k m by simp
    with b c show ?thesis by linarith
  qed (use b c in auto)
next
  case (6 n f arr s0)
  from "6.prems" obtain v' s1 where
    k: "parse_value n f s0 = Some (Inr (v', s1))"
    and rest: "peek (skip_ws s1) CHR '','' \<and> parse_elements n f (arr @ [v']) (tl (skip_ws s1)) = Some (Inr (v, r))
      \<or> r = tl (skip_ws s1)"
    by (auto simp: Let_def split: if_splits sum.splits option.splits prod.splits)
  have a: "length s1 < length s0" using "6.IH"(1)[OF k] .
  have c: "length (tl (skip_ws s1)) \<le> length s1" by (rule length_tl_skip_ws)
  from rest show ?case
  proof
    assume m: "peek (skip_ws s1) CHR '','' \<and> parse_elements n f (arr @ [v']) (tl (skip_ws s1)) = Some (Inr (v, r))"
    have "length r < length (tl (skip_ws s1))"
      using "6.IH"(2)[OF k refl refl refl refl] m by simp
    with a c show ?thesis by linarith
  qed (use a c in auto)
qed simp_all

lemma parse_enough_fuel:
  "2 * length s + 1 \<le> f \<Longrightarrow> parse_value n f s \<noteq> None"
  "2 * length s + 1 \<le> f \<Longrightarrow> parse_members n f obj s \<noteq> None"
  "2 * length s + 2 \<le> f \<Longrightarrow> parse_elements n f arr s \<noteq> None"
proof (induction n f s and n f obj s and n f arr s rule: parse_value_parse_members_parse_elements.induct)
  case (2 n f s0)
  show ?case
  proof (cases "skip_ws s0")
    case (Cons c r)
    have "length (skip_ws s0) \<le> length s0" by (rule length_skip_ws)
    with Cons have "length r < length s0" by simp
    moreover have "length (skip_ws r) \<le> length r" by (rule length_skip_ws)
    ultimately have l: "2 * length (skip_ws r) + 2 \<le> f" using "2.prems" by linarith
    have o: "parse_members n f [] (skip_ws r) \<noteq> None" if "c = CHR ''{''" "\<not> peek (skip_ws r) CHR ''}''"
      using "2.IH"(1)[OF refl Cons that(1) refl that(2)] l by simp
    have a: "parse_elements n f [] (skip_ws r) \<noteq> None" if "c = CHR ''[''" "\<not> peek (skip_ws r) CHR '']''"
      using "2.IH"(2)[OF refl Cons _ that(1) refl that(2)] that(1) l by simp
    show ?thesis using Cons o a by (simp add: Let_def)
  qed simp
next
  case (4 n f obj s0)
  have le: "length (skip_ws s0) \<le> length s0" by (rule length_skip_ws)
  show ?case
  proof (cases "peek (skip_ws s0) DQ")
    case True
    show ?thesis
    proof (cases "parse_string_value (skip_ws s0)")
      case (Inr b)
      obtain key s1 where k: "parse_string_value (skip_ws s0) = Inr (key, s1)" using Inr by (cases b) auto
      from parse_string_value_shorter[OF k] le have a: "length s1 < length s0" by linarith
      have c: "length (tl (skip_ws s1)) \<le> length s1" by (rule length_tl_skip_ws)
      have b: "2 * length (tl (skip_ws s1)) + 1 \<le> f" using a c "4.prems" by linarith
      have v: "parse_value n f (tl (skip_ws s1)) \<noteq> None" if "peek (skip_ws s1) CHR '':''"
        using "4.IH"(1)[OF refl _ k refl refl] True that b by simp
      have m: "parse_members n f (sput key v obj) (tl (skip_ws s3)) \<noteq> None"
        if p: "peek (skip_ws s1) CHR '':''" and pv: "parse_value n f (tl (skip_ws s1)) = Some (Inr (v, s3))"
          and "peek (skip_ws s3) CHR '',''" for v s3
      proof -
        have "length (tl (skip_ws s3)) \<le> length s3" by (rule length_tl_skip_ws)
        moreover have "length s3 < length s0" using parse_shorter(1)[OF pv] a c by linarith
        ultimately have "2 * length (tl (skip_ws s3)) + 1 \<le> f" using "4.prems" by linarith
        then show ?thesis using "4.IH"(2)[OF refl _ k refl refl _ pv refl refl refl refl] True that by simp
      qed
      show ?thesis using True k v m by (auto simp: Let_def split: option.splits sum.splits)
    qed (use True in simp)
  qed simp
next
  case (6 n f arr s0)
  have b: "2 * length s0 + 1 \<le> f" using "6.prems" by linarith
  have m: "parse_elements n f (arr @ [v]) (tl (skip_ws s1)) \<noteq> None"
    if pv: "parse_value n f s0 = Some (Inr (v, s1))" and "peek (skip_ws s1) CHR '',''" for v s1
  proof -
    have "length (tl (skip_ws s1)) \<le> length s1" by (rule length_tl_skip_ws)
    moreover have "length s1 < length s0" by (rule parse_shorter(1)[OF pv])
    ultimately have "2 * length (tl (skip_ws s1)) + 2 \<le> f" using b by linarith
    then show ?thesis using "6.IH"(2)[OF pv refl refl refl refl] that by simp
  qed
  show ?case using "6.IH"(1)[OF b] m by (auto simp: Let_def split: sum.splits)
qed simp_all

lemma parse_json_has_fuel: "parse_value (length text) (json_fuel text) (skip_ws text) \<noteq> None"
proof (rule parse_enough_fuel(1))
  have "length (skip_ws text) \<le> length text" by (rule length_skip_ws)
  then show "2 * length (skip_ws text) + 1 \<le> json_fuel text" by (simp add: json_fuel_def)
qed

subsection \<open>Escaping\<close>

text \<open>The escape function of the server (\<open>common.cpp\<close>; the character store and the logger hold
  copies of it).\<close>

fun json_escape :: "string \<Rightarrow> string" where
  "json_escape [] = []"
| "json_escape (c # s) =
     (if c = DQ \<or> c = BS then [BS] else []) @ (if c = NL then [BS, CHR ''n''] else [c]) @ json_escape s"

definition clean :: "string \<Rightarrow> bool" where
  "clean s = (DQ \<notin> set s \<and> BS \<notin> set s \<and> NL \<notin> set s)"

lemma json_escape_clean [simp]: "clean s \<Longrightarrow> json_escape s = s"
  by (induction s) (auto simp: clean_def)

lemma json_escape_no_newline: "NL \<notin> set (json_escape s)"
  by (induction s) auto

lemma parse_string_loop_escape:
  "parse_string_loop acc (json_escape s @ DQ # rest) = Inr (acc @ s, rest)"
  by (induction s arbitrary: acc) (auto simp: unescape_def)

lemma parse_quoted: "parse_string_value (quoted (json_escape s) @ rest) = Inr (s, rest)"
  by (simp add: parse_string_value_def quoted_def parse_string_loop_escape)

subsection \<open>Numbers\<close>

lemma pow2_pos: "0 < pow2 e"
  by (simp add: pow2_def)

lemma round_half_even_int [simp]: "round_half_even (of_int i) = i"
  by (simp add: round_half_even_def)

lemma ilog2_nat_le:
  assumes "n < 2 ^ 53"
  shows "ilog2 (of_nat n) \<le> 52"
proof -
  have q: "quotient_of (of_nat n) = (int n, 1)"
    by (simp add: of_nat_rat quotient_of_Fract Rat.normalize_def)
  have "floorlog 2 n \<le> 53"
    using floorlog_leI[of n 2 53] assms by simp
  moreover have "floorlog 2 1 = 1"
    by (simp add: floorlog_def)
  ultimately show ?thesis by (simp add: ilog2_def q Let_def)
qed

lemma round_double_int:
  assumes "\<bar>i\<bar> < 2 ^ 53"
  shows "round_double (of_int i) = Finite (of_int i)"
proof (cases "i = 0")
  case False
  define n where "n = nat \<bar>i\<bar>"
  have abs: "\<bar>rat_of_int i\<bar> = of_nat n" by (simp add: n_def)
  have n: "n < 2 ^ 53" using assms by (simp add: n_def nat_less_iff)
  define e where "e = max (ilog2 (of_nat n) - 52) (-1074)"
  have "e \<le> 0" using ilog2_nat_le[OF n] by (simp add: e_def)
  then have p: "pow2 e = 1 / 2 ^ nat (- e)"
    by (auto simp: pow2_def)
  have "rat_of_nat n / pow2 e = of_int (int n * 2 ^ nat (- e))" by (simp add: p)
  then have "round_half_even (rat_of_nat n / pow2 e) = int n * 2 ^ nat (- e)"
    by (simp only: round_half_even_int)
  then have r: "of_int (round_half_even (rat_of_nat n / pow2 e)) * pow2 e = rat_of_nat n"
    by (simp add: p)
  have "rat_of_nat n < of_nat (2 ^ 53)" using n by (simp only: of_nat_less_iff)
  also have "rat_of_nat (2 ^ 53) < 2 ^ 1024" by simp
  finally have "\<not> 2 ^ 1024 \<le> rat_of_nat n" by simp
  moreover have "sgn (rat_of_int i) * rat_of_nat n = of_int i"
    using abs by (metis mult.commute abs_mult_sgn)
  ultimately show ?thesis
    using False by (simp add: round_double_def Let_def abs e_def[symmetric] r)
qed (simp add: round_double_def)

lemma takeWhile_digits [simp]: "takeWhile isdigit (show_nat n) = show_nat n"
  by (simp add: takeWhile_eq_all_conv show_nat_digits)

lemma dropWhile_digits [simp]: "dropWhile isdigit (show_nat n) = []"
  by (simp add: dropWhile_eq_Nil_conv show_nat_digits)

lemma show_nat_not_minus [simp]: "\<not> peek (show_nat n) CHR ''-''"
proof
  assume "peek (show_nat n) CHR ''-''"
  then have "CHR ''-'' \<in> set (show_nat n)" by (auto simp: peek_iff)
  then show False by (auto dest!: show_nat_digits simp: char_class_defs)
qed

lemma strtod_show_int: "\<bar>i\<bar> < 2 ^ 53 \<Longrightarrow> strtod (show_int i) = Finite (of_int i)"
  using round_double_int[of i]
  by (auto simp: strtod_def show_int_def Let_def exp_part_def)

text \<open>What may follow a number in the text.\<close>

definition ends_number :: "string \<Rightarrow> bool" where
  "ends_number r = (case r of [] \<Rightarrow> True
     | c # _ \<Rightarrow> \<not> isdigit c \<and> c \<noteq> CHR ''.'' \<and> c \<noteq> CHR ''e'' \<and> c \<noteq> CHR ''E'')"

lemma dropWhile_digits_app: "ends_number r \<Longrightarrow> dropWhile isdigit (show_nat n @ r) = r"
  by (cases r) (auto simp: dropWhile_append show_nat_digits ends_number_def)

lemma skip_number_show_int: "ends_number r \<Longrightarrow> skip_number (show_int i @ r) = r"
proof -
  assume r: "ends_number r"
  then have np: "\<not> peek r CHR ''.''" "\<not> peek r CHR ''e''" "\<not> peek r CHR ''E''"
    by (auto simp: ends_number_def peek_iff)
  have "\<not> peek (show_nat n @ r) CHR ''-''" for n
    using show_nat_not_minus[of n] show_nat_nonempty[of n] by (cases "show_nat n") auto
  then show ?thesis
    using np by (simp add: skip_number_def Let_def show_int_def dropWhile_digits_app[OF r])
qed

lemma parse_number_show_int:
  "ends_number r \<Longrightarrow> parse_number n (show_int i @ r) = Inr (JNumber (strtod (show_int i)), r)"
proof -
  assume r: "ends_number r"
  have "show_nat k \<noteq> ''-''" for k using show_nat_not_minus[of k] by (metis peek_Cons)
  then have "show_int i \<noteq> []" "show_int i \<noteq> ''-''" by (auto simp: show_int_def)
  then show ?thesis using r by (simp add: parse_number_def Let_def skip_number_show_int)
qed

lemma double_to_int_of_int:
  "INT_MIN \<le> i \<Longrightarrow> i \<le> INT_MAX \<Longrightarrow> double_to_int (Finite (of_int i)) = i"
  by (simp add: double_to_int_def truncate_rat_def Let_def)

lemma as_int_show_int:
  assumes "INT_MIN \<le> i" "i \<le> INT_MAX"
  shows "as_int (JNumber (strtod (show_int i))) = i"
proof -
  have "\<bar>i\<bar> < 2 ^ 53" using assms by simp
  then show ?thesis using assms by (simp add: as_int_def strtod_show_int double_to_int_of_int)
qed

subsection \<open>Documents\<close>

text \<open>The JSON texts the program prints: no white space, strings escaped, integers in decimal.\<close>

datatype jdoc = DNull | DBool bool | DInt int | DStr string
  | DArr "jdoc list" | DObj "(string \<times> jdoc) list"

fun render :: "jdoc \<Rightarrow> string" where
  "render DNull = ''null''"
| "render (DBool b) = bool_lit b"
| "render (DInt i) = show_int i"
| "render (DStr s) = quoted (json_escape s)"
| "render (DArr ds) = CHR ''['' # commas (map render ds) @ '']''"
| "render (DObj m) = CHR ''{'' # commas (map (\<lambda>(k, d). quoted (json_escape k) @ CHR '':'' # render d) m) @ ''}''"

fun denote :: "jdoc \<Rightarrow> json" where
  "denote DNull = JNull"
| "denote (DBool b) = JBool b"
| "denote (DInt i) = JNumber (strtod (show_int i))"
| "denote (DStr s) = JString s"
| "denote (DArr ds) = JArray (map denote ds)"
| "denote (DObj m) = JObject (fold (\<lambda>(k, d). sput k (denote d)) m [])"

abbreviation member_text :: "string \<times> jdoc \<Rightarrow> string" where
  "member_text \<equiv> \<lambda>(k, d). quoted (json_escape k) @ CHR '':'' # render d"

lemma show_int_head: "\<exists>c r. show_int i = c # r \<and> (c = CHR ''-'' \<or> isdigit c)"
proof (cases "i < 0")
  case False
  then obtain c r where "show_int i = c # r" "show_nat (nat i) = c # r"
    using show_nat_nonempty[of "nat i"] by (cases "show_nat (nat i)") (auto simp: show_int_def)
  then show ?thesis using show_nat_digits[of c "nat i"] by simp
qed (simp add: show_int_def)

lemma render_head: "\<exists>c r. render d = c # r \<and> \<not> isspace c \<and> c \<noteq> CHR '']''"
proof (cases d)
  case (DInt i)
  then show ?thesis using show_int_head[of i] by (auto simp: char_class_defs)
qed (auto simp: quoted_def bool_lit_def char_class_defs)

lemma skip_ws_nonspace [simp]: "\<not> isspace c \<Longrightarrow> skip_ws (c # s) = c # s"
  by (simp add: skip_ws_def)

lemma not_space_punct [simp]:
  "\<not> isspace DQ" "\<not> isspace CHR ''{''" "\<not> isspace CHR ''}''" "\<not> isspace CHR ''[''" "\<not> isspace CHR '']''"
  "\<not> isspace CHR '',''" "\<not> isspace CHR '':''" "\<not> isspace CHR ''-''"
  "\<not> isspace CHR ''t''" "\<not> isspace CHR ''f''" "\<not> isspace CHR ''n''"
  by (simp_all add: char_class_defs)

lemma not_digit_punct [simp]:
  "\<not> isdigit DQ" "\<not> isdigit CHR ''{''" "\<not> isdigit CHR ''}''" "\<not> isdigit CHR ''[''" "\<not> isdigit CHR '']''"
  "\<not> isdigit CHR '',''" "\<not> isdigit CHR '':''" "\<not> isdigit CHR ''t''" "\<not> isdigit CHR ''f''" "\<not> isdigit CHR ''n''"
  by (simp_all add: char_class_defs)

lemma skip_ws_render [simp]: "skip_ws (render d @ rest) = render d @ rest"
  using render_head[of d] by auto

lemma ends_number_punct [simp]:
  "ends_number (CHR '','' # r)" "ends_number (CHR ''}'' # r)" "ends_number (CHR '']'' # r)" "ends_number []"
  by (simp_all add: ends_number_def)

lemma parse_int_value:
  assumes "ends_number rest"
  shows "parse_value n (Suc f) (show_int i @ rest) = Some (Inr (JNumber (strtod (show_int i)), rest))"
proof -
  obtain c r where c: "show_int i = c # r" and h: "c = CHR ''-'' \<or> isdigit c"
    using show_int_head by blast
  have skip: "skip_ws (show_int i @ rest) = show_int i @ rest"
    using skip_ws_render[of "DInt i" rest] by simp
  then have "parse_value n (Suc f) (show_int i @ rest) = Some (parse_number n (show_int i @ rest))"
  proof -
    have "c \<noteq> CHR ''{''" "c \<noteq> CHR ''[''" "c \<noteq> DQ" "c \<noteq> CHR ''t''" "c \<noteq> CHR ''f''" "c \<noteq> CHR ''n''"
      using h by auto
    then show ?thesis using h skip unfolding c by (simp add: Let_def)
  qed
  then show ?thesis using parse_number_show_int[OF assms] by simp
qed

lemma parse_render_elements:
  assumes IH: "\<And>d f rest. d \<in> set ds \<Longrightarrow> ends_number rest \<Longrightarrow> 2 * length (render d) + 1 \<le> f \<Longrightarrow>
      parse_value n f (render d @ rest) = Some (Inr (denote d, rest))"
    and "ds \<noteq> []" and "2 * length (commas (map render ds)) + 2 \<le> f"
  shows "parse_elements n f arr (commas (map render ds) @ CHR '']'' # rest)
      = Some (Inr (JArray (arr @ map denote ds), rest))"
  using assms
proof (induction ds arbitrary: f arr)
  case (Cons d ds)
  obtain f' where f: "f = Suc f'" using Cons.prems(3) by (cases f) auto
  have IHd: "ends_number rest' \<Longrightarrow> 2 * length (render d) + 1 \<le> f' \<Longrightarrow>
      parse_value n f' (render d @ rest') = Some (Inr (denote d, rest'))" for rest'
    using Cons.prems(1) by simp
  show ?case
  proof (cases ds)
    case Nil
    then show ?thesis using Cons.prems(3) by (simp add: f IHd Let_def)
  next
    case (Cons d' ds')
    then have "2 * length (commas (map render ds)) + 2 \<le> f'" "2 * length (render d) + 1 \<le> f'"
      using Cons.prems(3) f by auto
    moreover have "parse_elements n f' (arr @ [denote d]) (commas (map render ds) @ CHR '']'' # rest)
      = Some (Inr (JArray ((arr @ [denote d]) @ map denote ds), rest))"
      using Cons.IH[of f' "arr @ [denote d]"] Cons.prems(1) Cons calculation(1) by simp
    ultimately show ?thesis using Cons by (simp add: f IHd Let_def)
  qed
qed simp

lemma parse_render_members:
  assumes IH: "\<And>k d f rest. (k, d) \<in> set m \<Longrightarrow> ends_number rest \<Longrightarrow> 2 * length (render d) + 1 \<le> f \<Longrightarrow>
      parse_value n f (render d @ rest) = Some (Inr (denote d, rest))"
    and "m \<noteq> []" and "2 * length (commas (map member_text m)) + 1 \<le> f"
  shows "parse_members n f obj (commas (map member_text m) @ CHR ''}'' # rest)
      = Some (Inr (JObject (fold (\<lambda>(k, d). sput k (denote d)) m obj), rest))"
  using assms
proof (induction m arbitrary: f obj)
  case (Cons kd m)
  obtain k d where kd: "kd = (k, d)" by (cases kd)
  obtain f' where f: "f = Suc f'" using Cons.prems(3) by (cases f) auto
  have IHd: "ends_number rest' \<Longrightarrow> 2 * length (render d) + 1 \<le> f' \<Longrightarrow>
      parse_value n f' (render d @ rest') = Some (Inr (denote d, rest'))" for rest'
    using Cons.prems(1)[of k d] kd by simp
  have str: "parse_string_value (DQ # json_escape k @ DQ # r) = Inr (k, r)" for r
    using parse_quoted[of k r] by (simp add: quoted_def)
  show ?case
  proof (cases m)
    case Nil
    then show ?thesis using Cons.prems(3) by (simp add: f kd IHd Let_def quoted_def str)
  next
    case (Cons kd' m')
    then have "2 * length (commas (map member_text m)) + 1 \<le> f'" "2 * length (render d) + 1 \<le> f'"
      using Cons.prems(3) f kd by auto
    moreover have "parse_members n f' (sput k (denote d) obj) (commas (map member_text m) @ CHR ''}'' # rest)
      = Some (Inr (JObject (fold (\<lambda>(k, d). sput k (denote d)) m (sput k (denote d) obj)), rest))"
    proof (rule Cons.IH)
      show "parse_value n f (render d @ rest) = Some (Inr (denote d, rest))"
        if "(k, d) \<in> set m" "ends_number rest" "2 * length (render d) + 1 \<le> f" for k d f rest
        using Cons.prems(1)[of k d] that by simp
    qed (use Cons calculation(1) in simp_all)
    ultimately show ?thesis using Cons by (simp add: f kd IHd Let_def quoted_def str)
  qed
qed simp

theorem parse_render_value:
  "ends_number rest \<Longrightarrow> 2 * length (render d) + 1 \<le> f \<Longrightarrow>
   parse_value n f (render d @ rest) = Some (Inr (denote d, rest))"
proof (induction d arbitrary: f rest)
  case DNull
  then show ?case by (cases f) (auto simp: parse_null_def Let_def)
next
  case (DBool b)
  then show ?case by (cases f) (auto simp: parse_bool_def bool_lit_def Let_def)
next
  case (DInt i)
  then obtain f' where "f = Suc f'" by (cases f) auto
  then show ?case using parse_int_value[OF DInt.prems(1)] by simp
next
  case (DStr s)
  then obtain f' where "f = Suc f'" by (cases f) auto
  then show ?case using parse_quoted[of s rest] by (simp add: quoted_def)
next
  case (DArr ds)
  obtain f' where f: "f = Suc f'" using DArr.prems(2) by (cases f) auto
  show ?case
  proof (cases "ds = []")
    case False
    then obtain d ds' where ds: "ds = d # ds'" by (cases ds) auto
    obtain c t where "render d = c # t" and c: "\<not> isspace c" "c \<noteq> CHR '']''"
      using render_head by blast
    then obtain t' where ct: "commas (map render ds) = c # t'" by (cases ds') (auto simp: ds)
    have np: "\<not> peek (commas (map render ds) @ r) CHR '']''" and
      ws: "skip_ws (commas (map render ds) @ r) = commas (map render ds) @ r" for r
      unfolding ct using c by simp_all
    have "parse_elements n f' [] (commas (map render ds) @ CHR '']'' # rest)
        = Some (Inr (JArray ([] @ map denote ds), rest))"
      by (rule parse_render_elements) (use DArr f False in auto)
    then show ?thesis using np ws by (simp add: f Let_def)
  qed (simp add: f Let_def)
next
  case (DObj m)
  obtain f' where f: "f = Suc f'" using DObj.prems(2) by (cases f) auto
  show ?case
  proof (cases "m = []")
    case False
    then obtain k d m' where m: "m = (k, d) # m'" by (cases m) auto
    have np: "\<not> peek (commas (map member_text m) @ r) CHR ''}''" and
      ws: "skip_ws (commas (map member_text m) @ r) = commas (map member_text m) @ r" for r
      by (cases m'; auto simp: m quoted_def)+
    have "parse_members n f' [] (commas (map member_text m) @ CHR ''}'' # rest)
        = Some (Inr (JObject (fold (\<lambda>(k, d). sput k (denote d)) m []), rest))"
      by (rule parse_render_members) (use DObj f False in fastforce)+
    then show ?thesis using np ws by (simp add: f Let_def)
  qed (simp add: f Let_def)
qed

theorem parse_json_render: "parse_json (render d) = Inr (denote d)"
proof -
  have "parse_value (length (render d)) (json_fuel (render d)) (render d @ []) = Some (Inr (denote d, []))"
    by (rule parse_render_value) (auto simp: json_fuel_def)
  then show ?thesis using skip_ws_render[of d "[]"] by (simp add: parse_json_def skip_ws_def)
qed

text \<open>Reading members of a printed object.\<close>

lemma map_of_fold_sput:
  "map_of (fold (\<lambda>(k, d). sput k (f d)) m acc) k =
     (case map_of (rev m) k of None \<Rightarrow> map_of acc k | Some d \<Rightarrow> Some (f d))"
  by (induction m arbitrary: acc) (auto split: option.splits simp: map_add_def)

lemma map_of_rev: "distinct (keys m) \<Longrightarrow> map_of (rev m) = map_of m"
  by (rule map_of_inject_set[THEN iffD2]) (simp_all add: rev_map[symmetric])

lemma json_at_denote:
  "distinct (keys m) \<Longrightarrow> json_at (denote (DObj m)) k = (case map_of m k of None \<Rightarrow> JNull | Some d \<Rightarrow> denote d)"
  by (simp add: json_at_def map_of_fold_sput map_of_rev split: option.splits)

lemma object_value_denote:
  "distinct (keys m) \<Longrightarrow> map_of (object_value (denote (DObj m))) k = map_option denote (map_of m k)"
  by (simp add: object_value_def map_of_fold_sput map_of_rev split: option.splits)

lemma distinct_fold_sput:
  "sorted_wrt (<) (keys acc) \<Longrightarrow> sorted_wrt (<) (keys (fold (\<lambda>(k, d). sput k (f d)) m acc))"
  by (induction m arbitrary: acc) (auto simp: sorted_sput)

lemma set_commas: "set (commas xs) \<subseteq> insert CHR '','' (\<Union>x \<in> set xs. set x)"
  by (induction xs rule: commas.induct) auto

lemma render_one_line: "NL \<notin> set (render d)"
proof (induction d)
  case (DInt i)
  then show ?case using show_nat_digits[of NL] by (auto simp: show_int_def char_class_defs)
next
  case (DArr ds)
  then show ?case using set_commas[of "map render ds"] by auto
next
  case (DObj m)
  then have "NL \<notin> (\<Union>x \<in> set (map member_text m). set x)"
    using json_escape_no_newline by (fastforce simp: quoted_def)
  then show ?case using set_commas[of "map member_text m"] by auto
qed (use json_escape_no_newline in \<open>auto simp: bool_lit_def quoted_def\<close>)

end
