(* ===== verification/ServerState.thy ===== *)
theory ServerState
  imports WorldModel JsonRoundtrip "HOL-Library.Monad_Syntax"
begin

text \<open>
  The mutable state of the server process outside \<open>World\<close>: sessions (\<open>network/session.hpp\<close>),
  the registry of online players (\<open>network/registry.cpp\<close>), the log (\<open>logging/logger.cpp\<close>) and
  the character files.  \<open>wire\<close> and \<open>logs\<close> are the histories of lines handed to the sockets and of
  log records, oldest first.  A session object is named by a number, the registry maps a player to
  such a number; its \<open>recv_buffer\<close>, which only the owning thread touches, is an argument of the
  functions of theory \<open>Network\<close>.  \<open>disk\<close> is the outcome of each coming write of a character file.
\<close>

declare map_of_eq_Some_iff [simp del] Some_eq_map_of_iff [simp del]

type_synonym log_fields = "(string \<times> string) list"
type_synonym log_entry = "string \<times> string \<times> log_fields"

text \<open>\<open>Wrote k r\<close>: the temporary file was opened; \<open>k\<close> is \<open>Some n\<close> when only \<open>n\<close> bytes reached it
  (the code does not look at the stream's state after writing), \<open>r\<close> the message of a failed rename.\<close>

datatype disk_outcome = CannotOpen | Wrote "nat option" "string option"

record session =
  s_player_id :: string
  s_current_room :: string
  connected :: bool
  peer_ip :: string
  timestamps :: "int list"

record server =
  sv_world :: world
  sess :: "nat \<Rightarrow> session"
  registry :: "(string \<times> nat) list"
  files :: "(string \<times> string) list"
  disk :: "disk_outcome list"
  wire :: "(nat \<times> string) list"
  logs :: "log_entry list"

subsection \<open>The logger\<close>

definition write_log :: "string \<Rightarrow> string \<Rightarrow> log_fields \<Rightarrow> server \<Rightarrow> server" where
  "write_log level event flds sv = sv\<lparr>logs := logs sv @ [(level, event, flds)]\<rparr>"

definition log_info :: "string \<Rightarrow> log_fields \<Rightarrow> server \<Rightarrow> server" where
  "log_info event flds = write_log ''INFO'' event flds"

definition log_warn :: "string \<Rightarrow> log_fields \<Rightarrow> server \<Rightarrow> server" where
  "log_warn event flds = write_log ''WARN'' event flds"

definition log_error :: "string \<Rightarrow> log_fields \<Rightarrow> server \<Rightarrow> server" where
  "log_error event flds = write_log ''ERROR'' event flds"

text \<open>The bytes printed for a record: \<open>printf\<close>'s \<open>%s\<close> stops at the first NUL of a string.\<close>

definition c_str :: "string \<Rightarrow> string" where
  "c_str s = takeWhile (\<lambda>c. c \<noteq> CHR 0x00) s"

definition log_line :: "string \<Rightarrow> log_entry \<Rightarrow> string" where
  "log_line ts e = (case e of (level, event, flds) \<Rightarrow>
     ''{'' @ quoted ''ts'' @ '':'' @ quoted (c_str ts) @ '','' @ quoted ''level'' @ '':'' @ quoted level
       @ '','' @ quoted ''event'' @ '':'' @ quoted (c_str (json_escape event))
       @ concat (map (\<lambda>(k, v). '','' @ quoted (c_str (json_escape k)) @ '':'' @ quoted (c_str (json_escape v))) flds)
       @ ''}'' @ [NL])"

lemma json_escape_append: "json_escape (s @ t) = json_escape s @ json_escape t"
  by (induction s) auto

lemma c_str_escape: "c_str (json_escape s) = json_escape (c_str s)"
  by (induction s) (auto simp: c_str_def)

lemma commas_Cons: "commas (x # xs) = x @ concat (map (\<lambda>y. '','' @ y) xs)"
  by (induction xs arbitrary: x) auto

text \<open>A record is one line holding one JSON document, whatever text was logged.\<close>

lemma log_line_render:
  assumes "clean ts" "clean level"
  shows "log_line ts (level, event, flds) =
    render (DObj ([(''ts'', DStr (c_str ts)), (''level'', DStr level), (''event'', DStr (c_str event))]
      @ map (\<lambda>(k, v). (c_str k, DStr (c_str v))) flds)) @ [NL]"
proof -
  have "clean (c_str ts)" using assms(1) by (auto simp: clean_def c_str_def dest: set_takeWhileD)
  moreover have "clean ''ts''" "clean ''level''" "clean ''event''" by (auto simp: clean_def)
  ultimately show ?thesis using assms(2)
    by (simp add: log_line_def commas_Cons c_str_escape comp_def case_prod_unfold quoted_def)
qed

subsection \<open>Sending\<close>

definition token3 :: "string \<Rightarrow> string \<times> string \<times> string" where
  "token3 s = (let (kind, r) = next_token s; (a, r) = next_token r; (b, r) = next_token r in (kind, a, b))"

definition dash_if_empty :: "string \<Rightarrow> string" where
  "dash_if_empty s = (if s = [] then ''-'' else s)"

definition log_outgoing :: "session \<Rightarrow> string \<Rightarrow> server \<Rightarrow> server" where
  "log_outgoing ss message =
     (case token3 message of (kind, a, b) \<Rightarrow>
        let player = dash_if_empty (s_player_id ss) in
        if kind = ''ERR'' then log_warn ''error_sent'' [(''player'', player), (''code'', a), (''name'', b)]
        else if kind = ''EVT'' then log_info ''event_sent'' [(''player'', player), (''evt'', a @ '' '' @ b)]
        else log_info ''response_sent'' [(''player'', player), (''status'', kind)])"

definition send_line :: "nat \<Rightarrow> string \<Rightarrow> server \<Rightarrow> server" where
  "send_line sid message sv =
     (if \<not> connected (sess sv sid) then sv
      else log_outgoing (sess sv sid) message (sv\<lparr>wire := wire sv @ [(sid, message @ [NL])]\<rparr>))"

subsection \<open>The registry\<close>

definition registry_add :: "string \<Rightarrow> nat \<Rightarrow> server \<Rightarrow> server" where
  "registry_add pid sid sv = sv\<lparr>registry := put pid sid (registry sv)\<rparr>"

definition registry_remove :: "string \<Rightarrow> server \<Rightarrow> server" where
  "registry_remove pid sv = sv\<lparr>registry := erase_key pid (registry sv)\<rparr>"

definition registry_get :: "server \<Rightarrow> string \<Rightarrow> nat option" where
  "registry_get sv pid = map_of (registry sv) pid"

definition registry_all :: "server \<Rightarrow> nat list" where
  "registry_all sv = map snd (registry sv)"

definition registry_count :: "server \<Rightarrow> nat" where
  "registry_count sv = length (registry sv)"

text \<open>Assignments through the session pointer and to the shared world.\<close>

definition set_session :: "nat \<Rightarrow> session \<Rightarrow> server \<Rightarrow> server" where
  "set_session sid ss sv = sv\<lparr>sess := (sess sv)(sid := ss)\<rparr>"

definition set_world :: "world \<Rightarrow> server \<Rightarrow> server" where
  "set_world w sv = sv\<lparr>sv_world := w\<rparr>"

definition pid_of :: "server \<Rightarrow> nat \<Rightarrow> string" where
  "pid_of sv sid = s_player_id (sess sv sid)"

text \<open>Sending to the sessions of a list of players, the second half of the broadcasts.\<close>

definition send_to_players :: "string list \<Rightarrow> string \<Rightarrow> server \<Rightarrow> server" where
  "send_to_players pids message sv =
     fold (\<lambda>pid sv. case registry_get sv pid of None \<Rightarrow> sv | Some sid \<Rightarrow> send_line sid message sv) pids sv"

definition send_to_sessions :: "nat list \<Rightarrow> string \<Rightarrow> server \<Rightarrow> server" where
  "send_to_sessions sids message sv = fold (\<lambda>sid. send_line sid message) sids sv"

subsection \<open>Frames\<close>

text \<open>What sending and logging leave alone.\<close>

definition same_core :: "server \<Rightarrow> server \<Rightarrow> bool" where
  "same_core sv' sv = (sv_world sv' = sv_world sv \<and> sess sv' = sess sv \<and> registry sv' = registry sv \<and>
     files sv' = files sv \<and> disk sv' = disk sv)"

lemma write_log_frame [simp]:
  "sv_world (write_log l e f sv) = sv_world sv" "sess (write_log l e f sv) = sess sv"
  "registry (write_log l e f sv) = registry sv" "files (write_log l e f sv) = files sv"
  "disk (write_log l e f sv) = disk sv" "wire (write_log l e f sv) = wire sv"
  "logs (write_log l e f sv) = logs sv @ [(l, e, f)]"
  by (simp_all add: write_log_def)

lemma log_info_frame [simp]:
  "sv_world (log_info e f sv) = sv_world sv" "sess (log_info e f sv) = sess sv"
  "registry (log_info e f sv) = registry sv" "files (log_info e f sv) = files sv"
  "disk (log_info e f sv) = disk sv" "wire (log_info e f sv) = wire sv"
  by (simp_all add: log_info_def)

lemma log_warn_frame [simp]:
  "sv_world (log_warn e f sv) = sv_world sv" "sess (log_warn e f sv) = sess sv"
  "registry (log_warn e f sv) = registry sv" "files (log_warn e f sv) = files sv"
  "disk (log_warn e f sv) = disk sv" "wire (log_warn e f sv) = wire sv"
  by (simp_all add: log_warn_def)

lemma log_error_frame [simp]:
  "sv_world (log_error e f sv) = sv_world sv" "sess (log_error e f sv) = sess sv"
  "registry (log_error e f sv) = registry sv" "files (log_error e f sv) = files sv"
  "disk (log_error e f sv) = disk sv" "wire (log_error e f sv) = wire sv"
  by (simp_all add: log_error_def)

lemma log_outgoing_frame [simp]:
  "sv_world (log_outgoing ss m sv) = sv_world sv" "sess (log_outgoing ss m sv) = sess sv"
  "registry (log_outgoing ss m sv) = registry sv" "files (log_outgoing ss m sv) = files sv"
  "disk (log_outgoing ss m sv) = disk sv" "wire (log_outgoing ss m sv) = wire sv"
  by (simp_all add: log_outgoing_def Let_def split: prod.splits)

lemma send_line_frame [simp]:
  "sv_world (send_line sid m sv) = sv_world sv" "sess (send_line sid m sv) = sess sv"
  "registry (send_line sid m sv) = registry sv" "files (send_line sid m sv) = files sv"
  "disk (send_line sid m sv) = disk sv"
  by (simp_all add: send_line_def)

lemma wire_send_line:
  "wire (send_line sid m sv) = wire sv @ (if connected (sess sv sid) then [(sid, m @ [NL])] else [])"
  by (simp add: send_line_def)

lemma same_core_refl [simp]: "same_core sv sv"
  by (simp add: same_core_def)

lemma same_core_trans: "same_core a b \<Longrightarrow> same_core b c \<Longrightarrow> same_core a c"
  by (simp add: same_core_def)

lemma same_core_send_line [simp]: "same_core (send_line sid m sv) sv"
  by (simp add: same_core_def)

lemma same_core_send_to_players: "same_core (send_to_players pids m sv) sv"
  unfolding send_to_players_def
  by (induction pids arbitrary: sv)
    (auto intro: same_core_trans[OF _ same_core_send_line] split: option.splits)

lemma same_core_send_to_sessions: "same_core (send_to_sessions sids m sv) sv"
  unfolding send_to_sessions_def
  by (induction sids arbitrary: sv) (auto intro: same_core_trans[OF _ same_core_send_line])

lemma send_to_players_frame [simp]:
  "sv_world (send_to_players pids m sv) = sv_world sv" "sess (send_to_players pids m sv) = sess sv"
  "registry (send_to_players pids m sv) = registry sv" "files (send_to_players pids m sv) = files sv"
  "disk (send_to_players pids m sv) = disk sv"
  using same_core_send_to_players[of pids m sv] by (simp_all add: same_core_def)

lemma send_to_sessions_frame [simp]:
  "sv_world (send_to_sessions sids m sv) = sv_world sv" "sess (send_to_sessions sids m sv) = sess sv"
  "registry (send_to_sessions sids m sv) = registry sv" "files (send_to_sessions sids m sv) = files sv"
  "disk (send_to_sessions sids m sv) = disk sv"
  using same_core_send_to_sessions[of sids m sv] by (simp_all add: same_core_def)

lemma registry_ops_frame [simp]:
  "sv_world (registry_add p s sv) = sv_world sv" "sess (registry_add p s sv) = sess sv"
  "files (registry_add p s sv) = files sv" "disk (registry_add p s sv) = disk sv"
  "wire (registry_add p s sv) = wire sv" "registry (registry_add p s sv) = put p s (registry sv)"
  "sv_world (registry_remove p sv) = sv_world sv" "sess (registry_remove p sv) = sess sv"
  "files (registry_remove p sv) = files sv" "disk (registry_remove p sv) = disk sv"
  "wire (registry_remove p sv) = wire sv" "registry (registry_remove p sv) = erase_key p (registry sv)"
  by (simp_all add: registry_add_def registry_remove_def)

lemma set_session_frame [simp]:
  "sv_world (set_session sid ss sv) = sv_world sv" "sess (set_session sid ss sv) = (sess sv)(sid := ss)"
  "registry (set_session sid ss sv) = registry sv" "files (set_session sid ss sv) = files sv"
  "disk (set_session sid ss sv) = disk sv" "wire (set_session sid ss sv) = wire sv"
  by (simp_all add: set_session_def)

lemma set_world_frame [simp]:
  "sv_world (set_world w sv) = w" "sess (set_world w sv) = sess sv"
  "registry (set_world w sv) = registry sv" "files (set_world w sv) = files sv"
  "disk (set_world w sv) = disk sv" "wire (set_world w sv) = wire sv"
  by (simp_all add: set_world_def)

subsection \<open>Replies and events\<close>

text \<open>A line is an event when it starts with \<open>EVT\<close>; the others answer a command.\<close>

definition is_event :: "string \<Rightarrow> bool" where
  "is_event m = (take 4 m = ''EVT '')"

definition replies :: "server \<Rightarrow> (nat \<times> string) list" where
  "replies sv = filter (\<lambda>(sid, m). \<not> is_event m) (wire sv)"

lemma is_event_newline [simp]: "is_event (m @ [NL]) = is_event m"
proof (cases "length m < 4")
  case True
  then have "length m = 0 \<or> length m = 1 \<or> length m = 2 \<or> length m = 3" by linarith
  then show ?thesis by (auto simp: is_event_def length_Suc_conv eval_nat_numeral)
qed (simp add: is_event_def)

lemma is_event_EVT [simp]: "is_event (CHR ''E'' # CHR ''V'' # CHR ''T'' # CHR '' '' # m)"
  by (simp add: is_event_def)

lemma not_event_OK [simp]: "\<not> is_event (CHR ''O'' # m)" "\<not> is_event (CHR ''E'' # CHR ''R'' # m)"
  by (simp_all add: is_event_def)

lemma replies_send_line [simp]:
  "replies (send_line sid m sv) =
     replies sv @ (if connected (sess sv sid) \<and> \<not> is_event m then [(sid, m @ [NL])] else [])"
  by (auto simp: replies_def wire_send_line)

lemma replies_frame [simp]:
  "replies (log_info e f sv) = replies sv" "replies (log_warn e f sv) = replies sv"
  "replies (log_error e f sv) = replies sv" "replies (registry_add p s sv) = replies sv"
  "replies (registry_remove p sv) = replies sv" "replies (set_session sid ss sv) = replies sv"
  "replies (set_world w sv) = replies sv"
  by (simp_all add: replies_def)

lemma replies_send_to_players [simp]: "is_event m \<Longrightarrow> replies (send_to_players pids m sv) = replies sv"
  unfolding send_to_players_def by (induction pids arbitrary: sv) (auto split: option.splits)

lemma replies_send_to_sessions [simp]: "is_event m \<Longrightarrow> replies (send_to_sessions sids m sv) = replies sv"
  unfolding send_to_sessions_def by (induction sids arbitrary: sv) auto

text \<open>Who receives a broadcast: every listed player with a connected session, in order.\<close>

lemma wire_send_to_players:
  "wire (send_to_players pids m sv) = wire sv @
     concat (map (\<lambda>pid. case registry_get sv pid of None \<Rightarrow> []
       | Some sid \<Rightarrow> if connected (sess sv sid) then [(sid, m @ [NL])] else []) pids)"
proof (induction pids arbitrary: sv)
  case (Cons pid pids)
  have g: "registry_get (send_line sid m sv) = registry_get sv" for sid by (simp add: registry_get_def fun_eq_iff)
  show ?case
    using Cons.IH[of "send_line _ m sv"] Cons.IH[of sv]
    by (cases "registry_get sv pid") (simp_all add: send_to_players_def g wire_send_line cong: option.case_cong)
qed (simp add: send_to_players_def)

end
