(* ===== verification/CharacterStore.thy ===== *)
theory CharacterStore
  imports ServerState
begin

text \<open>
  \<open>server/src/world/character_store.cpp\<close>: one JSON file per character, written to a temporary file
  that is renamed over the old one.  The directory is the one \<open>main\<close> passes to \<open>init\<close>.  The
  per-name mutex only orders saves of the same character; each save is one step here, and
  \<open>save_disk_states\<close> spells out the states of the disk in between.
\<close>

definition g_directory :: string where
  "g_directory = ''data/characters''"

definition path_for :: "string \<Rightarrow> string" where
  "path_for name = g_directory @ ''/'' @ name @ ''.json''"

definition tmp_path_for :: "string \<Rightarrow> string" where
  "tmp_path_for name = path_for name @ ''.tmp''"

definition is_valid_name :: "string \<Rightarrow> bool" where
  "is_valid_name name = (name \<noteq> [] \<and> length name \<le> 32 \<and>
     (\<forall>c \<in> set name. isalnum c \<or> c = CHR ''_'' \<or> c = CHR ''-''))"

definition exists_file :: "string \<Rightarrow> server \<Rightarrow> bool" where
  "exists_file name sv = count_key (files sv) (path_for name)"

text \<open>The conversion of an \<open>int\<close> to \<open>size_t\<close>.\<close>

definition to_size_t :: "int \<Rightarrow> nat" where
  "to_size_t i = nat (i mod 2 ^ 64)"

definition player_of_json :: "string \<Rightarrow> json \<Rightarrow> player_state" where
  "player_of_json name doc = default_player\<lparr>player_id := name,
     race := as_string (json_at doc ''race''),
     special_attributes := as_string (json_at doc ''special_attributes''),
     current_room := as_string (json_at doc ''current_room''),
     hp := as_int (json_at doc ''hp''), max_hp := as_int (json_at doc ''max_hp''),
     last_target := as_string (json_at doc ''last_target''),
     inventory := map as_string (array_value (json_at doc ''inventory'')),
     quest_status := fold (\<lambda>(quest_id, status). put quest_id (as_string status))
       (object_value (json_at doc ''quest_status'')) [],
     npc_dialogue_progress := fold (\<lambda>(npc_id, idx). put npc_id (to_size_t (as_int idx)))
       (object_value (json_at doc ''npc_dialogue_progress'')) []\<rparr>"

definition load_file :: "string \<Rightarrow> (string \<times> string) list \<Rightarrow> (string + player_state) option" where
  "load_file name fs = (case map_of fs (path_for name) of
       None \<Rightarrow> None
     | Some raw \<Rightarrow> Some (case parse_json raw of Inl e \<Rightarrow> Inl e | Inr doc \<Rightarrow> Inr (player_of_json name doc)))"

definition load :: "string \<Rightarrow> server \<Rightarrow> player_state option \<times> server" where
  "load name sv = (case load_file name (files sv) of
       None \<Rightarrow> (None, sv)
     | Some (Inl e) \<Rightarrow> (None, log_error ''character_load_failed'' [(''name'', name), (''error'', e)] sv)
     | Some (Inr p) \<Rightarrow> (Some p, sv))"

definition character_text :: "player_state \<Rightarrow> string" where
  "character_text p = ''{'' @ quoted ''name'' @ '':'' @ quoted (json_escape (player_id p))
     @ '','' @ quoted ''race'' @ '':'' @ quoted (json_escape (race p))
     @ '','' @ quoted ''special_attributes'' @ '':'' @ quoted (json_escape (special_attributes p))
     @ '','' @ quoted ''current_room'' @ '':'' @ quoted (current_room p)
     @ '','' @ quoted ''hp'' @ '':'' @ show_int (hp p) @ '','' @ quoted ''max_hp'' @ '':'' @ show_int (max_hp p)
     @ '','' @ quoted ''last_target'' @ '':'' @ quoted (last_target p)
     @ '','' @ quoted ''inventory'' @ '':['' @ commas (map quoted (inventory p))
     @ ''],'' @ quoted ''quest_status'' @ '':{''
     @ commas (map (\<lambda>(quest_id, status). quoted quest_id @ '':'' @ quoted status) (quest_status p))
     @ ''},'' @ quoted ''npc_dialogue_progress'' @ '':{''
     @ commas (map (\<lambda>(npc_id, idx). quoted npc_id @ '':'' @ show_nat idx) (npc_dialogue_progress p)) @ ''}}''"

definition save :: "player_state \<Rightarrow> server \<Rightarrow> server" where
  "save p sv =
     (let name = player_id p; text = character_text p; sv1 = sv\<lparr>disk := tl (disk sv)\<rparr> in
      case (case disk sv of [] \<Rightarrow> Wrote None None | d # _ \<Rightarrow> d) of
        CannotOpen \<Rightarrow> log_error ''character_save_failed''
          [(''name'', name), (''error'', ''cannot open temp file for write'')] sv1
      | Wrote k r \<Rightarrow>
          let content = (case k of None \<Rightarrow> text | Some n \<Rightarrow> take n text);
              fs = put (tmp_path_for name) content (files sv1) in
          (case r of
             None \<Rightarrow> sv1\<lparr>files := put (path_for name) content (erase_key (tmp_path_for name) fs)\<rparr>
           | Some msg \<Rightarrow> log_error ''character_save_failed''
               [(''name'', name), (''error'', ''rename failed: '' @ msg)] (sv1\<lparr>files := fs\<rparr>)))"

text \<open>The states the disk goes through while a save is running: the temporary file is truncated, then
  grows byte by byte, then is renamed.\<close>

definition save_disk_states :: "player_state \<Rightarrow> (string \<times> string) list \<Rightarrow> (string \<times> string) list list" where
  "save_disk_states p fs =
     (let tmp = tmp_path_for (player_id p); text = character_text p in
      fs # map (\<lambda>n. put tmp (take n text) fs) [0..<Suc (length text)]
      @ [put (path_for (player_id p)) text (erase_key tmp (put tmp text fs))])"

subsection \<open>Paths\<close>

lemma path_for_inj [simp]: "path_for a = path_for b \<longleftrightarrow> a = b"
  by (simp add: path_for_def)

lemma tmp_neq_path [simp]: "tmp_path_for a \<noteq> path_for b" "path_for b \<noteq> tmp_path_for a"
proof -
  have "last (tmp_path_for a) \<noteq> last (path_for b)" by (simp add: tmp_path_for_def path_for_def)
  then show "tmp_path_for a \<noteq> path_for b" "path_for b \<noteq> tmp_path_for a" by metis+
qed

lemma valid_name_clean: "is_valid_name n \<Longrightarrow> clean n"
  by (auto simp: is_valid_name_def clean_def char_class_defs)

lemma valid_name_no_dot: "is_valid_name n \<Longrightarrow> CHR ''.'' \<notin> set n \<and> CHR ''/'' \<notin> set n"
  by (auto simp: is_valid_name_def char_class_defs)

subsection \<open>Frames\<close>

lemma save_frame [simp]:
  "sv_world (save p sv) = sv_world sv" "sess (save p sv) = sess sv" "registry (save p sv) = registry sv"
  "wire (save p sv) = wire sv" "replies (save p sv) = replies sv"
  by (auto simp: save_def Let_def replies_def split: disk_outcome.splits option.splits)

lemma load_frame:
  assumes "load n sv = (r, sv')"
  shows "sv_world sv' = sv_world sv" "sess sv' = sess sv" "registry sv' = registry sv"
    "files sv' = files sv" "disk sv' = disk sv" "wire sv' = wire sv" "replies sv' = replies sv"
  using assms by (auto simp: load_def split: option.splits sum.splits)

text \<open>Whatever the disk does, a save only touches the two files of its own character.\<close>

lemma save_other_file:
  "n \<noteq> player_id p \<Longrightarrow> map_of (files (save p sv)) (path_for n) = map_of (files sv) (path_for n)"
  by (auto simp: save_def Let_def split: disk_outcome.splits option.splits)

lemma load_file_other: "n \<noteq> player_id p \<Longrightarrow> load_file n (files (save p sv)) = load_file n (files sv)"
  by (simp add: load_file_def save_other_file)

lemma save_own_file:
  "map_of (files (save p sv)) (path_for (player_id p)) \<in>
     {map_of (files sv) (path_for (player_id p)), Some (character_text p)} \<or>
   (\<exists>n r d. disk sv = Wrote (Some n) r # d \<and>
      map_of (files (save p sv)) (path_for (player_id p)) = Some (take n (character_text p)))"
  by (auto simp: save_def Let_def split: disk_outcome.splits option.splits list.splits)

subsection \<open>The saved text\<close>

definition player_doc :: "player_state \<Rightarrow> jdoc" where
  "player_doc p = DObj [(''name'', DStr (player_id p)), (''race'', DStr (race p)),
     (''special_attributes'', DStr (special_attributes p)), (''current_room'', DStr (current_room p)),
     (''hp'', DInt (hp p)), (''max_hp'', DInt (max_hp p)), (''last_target'', DStr (last_target p)),
     (''inventory'', DArr (map DStr (inventory p))),
     (''quest_status'', DObj (map (\<lambda>(k, v). (k, DStr v)) (quest_status p))),
     (''npc_dialogue_progress'', DObj (map (\<lambda>(k, v). (k, DInt (int v))) (npc_dialogue_progress p)))]"

text \<open>The ids the code prints without escaping them.\<close>

definition ids_printable :: "player_state \<Rightarrow> bool" where
  "ids_printable p = (clean (current_room p) \<and> clean (last_target p) \<and> (\<forall>i \<in> set (inventory p). clean i) \<and>
     (\<forall>(k, v) \<in> set (quest_status p). clean k \<and> clean v) \<and> (\<forall>(k, v) \<in> set (npc_dialogue_progress p). clean k))"

lemma show_int_of_nat [simp]: "show_int (int n) = show_nat n"
  by (simp add: show_int_def)

lemma clean_literals [simp]:
  "clean ''name''" "clean ''race''" "clean ''special_attributes''" "clean ''current_room''" "clean ''hp''"
  "clean ''max_hp''" "clean ''last_target''" "clean ''inventory''" "clean ''quest_status''"
  "clean ''npc_dialogue_progress''" "clean ''completed''" "clean ''in_progress''"
  by (auto simp: clean_def)

lemma character_text_render:
  assumes "ids_printable p"
  shows "character_text p = render (player_doc p)"
proof -
  have i: "map (render \<circ> DStr) (inventory p) = map quoted (inventory p)"
    using assms by (auto simp: ids_printable_def)
  have q: "map (member_text \<circ> (\<lambda>(k, v). (k, DStr v))) (quest_status p)
      = map (\<lambda>(quest_id, status). quoted quest_id @ '':'' @ quoted status) (quest_status p)"
    using assms by (auto simp: ids_printable_def)
  have n: "map (member_text \<circ> (\<lambda>(k, v). (k, DInt (int v)))) (npc_dialogue_progress p)
      = map (\<lambda>(npc_id, idx). quoted npc_id @ '':'' @ show_nat idx) (npc_dialogue_progress p)"
    using assms by (auto simp: ids_printable_def)
  have c: "clean (current_room p)" "clean (last_target p)" using assms by (auto simp: ids_printable_def)
  show ?thesis by (simp add: character_text_def player_doc_def i q n c del: json_escape.simps)
qed

subsection \<open>Reading back\<close>

text \<open>Equality of characters up to the order of the two hash maps.\<close>

definition same_player :: "player_state \<Rightarrow> player_state \<Rightarrow> bool" where
  "same_player a b = (player_id a = player_id b \<and> race a = race b \<and> special_attributes a = special_attributes b \<and>
     current_room a = current_room b \<and> inventory a = inventory b \<and> hp a = hp b \<and> max_hp a = max_hp b \<and>
     last_target a = last_target b \<and> map_of (quest_status a) = map_of (quest_status b) \<and>
     map_of (npc_dialogue_progress a) = map_of (npc_dialogue_progress b))"

lemma same_player_refl [simp]: "same_player p p" by (simp add: same_player_def)

lemma same_player_trans: "same_player a b \<Longrightarrow> same_player b c \<Longrightarrow> same_player a c"
  by (simp add: same_player_def)

definition storable :: "player_state \<Rightarrow> bool" where
  "storable p = (ids_printable p \<and> hp p \<in> {INT_MIN..INT_MAX} \<and> max_hp p \<in> {INT_MIN..INT_MAX} \<and>
     distinct (keys (quest_status p)) \<and> distinct (keys (npc_dialogue_progress p)) \<and>
     (\<forall>v \<in> snd ` set (npc_dialogue_progress p). int v \<le> INT_MAX))"

lemma map_of_fold_put:
  "map_of (fold (\<lambda>(k, j). put k (f j)) m acc) k =
     (case map_of (rev m) k of None \<Rightarrow> map_of acc k | Some j \<Rightarrow> Some (f j))"
  by (induction m arbitrary: acc) (auto split: option.splits simp: map_add_def)

lemma read_members:
  assumes "distinct (keys m)"
  shows "map_of (fold (\<lambda>(k, j). put k (f j)) (object_value (denote (DObj (map (\<lambda>(k, v). (k, g v)) m)))) []) =
    (\<lambda>k. map_option (\<lambda>v. f (denote (g v))) (map_of m k))"
proof
  fix k
  let ?m = "map (\<lambda>(k, v). (k, g v)) m"
  let ?o = "object_value (denote (DObj ?m))"
  have k: "keys ?m = keys m" by (induction m) auto
  have "sorted_wrt (<) (keys (fold (\<lambda>(k, d). sput k (denote d)) ?m []))" by (rule distinct_fold_sput) simp
  then have d: "distinct (keys ?o)" by (simp add: object_value_def strict_sorted_iff)
  have "map_of ?m k = map_option g (map_of m k)" by (simp add: map_of_map)
  moreover have "distinct (keys ?m)" unfolding k by (rule assms)
  ultimately have o: "map_of ?o k = map_option denote (map_option g (map_of m k))"
    using object_value_denote[of ?m k] by metis
  have "map_of (fold (\<lambda>(k, j). put k (f j)) ?o []) k = map_option f (map_of ?o k)"
    by (simp only: map_of_fold_put map_of_rev[OF d]) (simp split: option.splits)
  then show "map_of (fold (\<lambda>(k, j). put k (f j)) ?o []) k = map_option (\<lambda>v. f (denote (g v))) (map_of m k)"
    unfolding o by (simp add: option.map_comp comp_def)
qed

lemma size_t_roundtrip: "int v \<le> INT_MAX \<Longrightarrow> to_size_t (as_int (denote (DInt (int v)))) = v"
  using as_int_show_int[of "int v"] by (simp add: to_size_t_def)

lemma player_doc_roundtrip:
  assumes "storable p"
  shows "same_player (player_of_json (player_id p) (denote (player_doc p))) p"
proof -
  let ?j = "denote (player_doc p)"
  have at: "json_at ?j ''race'' = JString (race p)" "json_at ?j ''special_attributes'' = JString (special_attributes p)"
    "json_at ?j ''current_room'' = JString (current_room p)" "json_at ?j ''hp'' = denote (DInt (hp p))"
    "json_at ?j ''max_hp'' = denote (DInt (max_hp p))" "json_at ?j ''last_target'' = JString (last_target p)"
    "json_at ?j ''inventory'' = JArray (map denote (map DStr (inventory p)))"
    "json_at ?j ''quest_status'' = denote (DObj (map (\<lambda>(k, v). (k, DStr v)) (quest_status p)))"
    "json_at ?j ''npc_dialogue_progress'' = denote (DObj (map (\<lambda>(k, v). (k, DInt (int v))) (npc_dialogue_progress p)))"
    unfolding player_doc_def by (subst json_at_denote; simp)+
  have ints: "as_int (denote (DInt (hp p))) = hp p" "as_int (denote (DInt (max_hp p))) = max_hp p"
    using assms by (auto simp: storable_def intro!: as_int_show_int)
  have as_str: "as_string (JString s) = s" for s by (simp add: as_string_def)
  have q: "map_of (fold (\<lambda>(k, j). put k (as_string j)) (object_value (json_at ?j ''quest_status'')) []) = map_of (quest_status p)"
    unfolding at using assms by (subst read_members) (auto simp: storable_def as_string_def option.map_ident)
  have n: "map_of (fold (\<lambda>(k, j). put k (to_size_t (as_int j))) (object_value (json_at ?j ''npc_dialogue_progress'')) [])
      = map_of (npc_dialogue_progress p)"
  proof
    fix k
    have "map_option (\<lambda>v. to_size_t (as_int (denote (DInt (int v))))) (map_of (npc_dialogue_progress p) k)
        = map_of (npc_dialogue_progress p) k"
    proof (cases "map_of (npc_dialogue_progress p) k")
      case (Some v)
      then have "int v \<le> INT_MAX" using assms map_of_SomeD[OF Some] by (force simp: storable_def)
      then show ?thesis using Some size_t_roundtrip[of v] by simp
    qed simp
    then show "map_of (fold (\<lambda>(k, j). put k (to_size_t (as_int j))) (object_value (json_at ?j ''npc_dialogue_progress'')) []) k
      = map_of (npc_dialogue_progress p) k"
      unfolding at using assms by (subst read_members) (simp_all add: storable_def)
  qed
  show ?thesis
    unfolding same_player_def player_of_json_def
    by (simp add: q n ints[simplified] at(1-7) as_str array_value_def comp_def)
qed

text \<open>A character whose ids print unescaped survives a save and a load.\<close>

lemma parse_character_text:
  "storable p \<Longrightarrow> parse_json (character_text p) = Inr (denote (player_doc p))"
  by (simp add: character_text_render[of p] parse_json_render storable_def)

lemma load_file_stored:
  assumes "storable p" and "map_of fs (path_for (player_id p)) = Some (character_text p)"
  shows "\<exists>q. load_file (player_id p) fs = Some (Inr q) \<and> same_player q p"
  using assms player_doc_roundtrip[of p] by (simp add: load_file_def parse_character_text)

subsection \<open>The storage contract\<close>

text \<open>What the commands rely on: a stored character is found again under its name, and storing one
  leaves the others alone.\<close>

locale character_storage =
  fixes store :: "'p \<Rightarrow> 's \<Rightarrow> 's" and fetch :: "string \<Rightarrow> 's \<Rightarrow> 'p option"
    and name_of :: "'p \<Rightarrow> string" and ok :: "'p \<Rightarrow> bool" and same :: "'p \<Rightarrow> 'p \<Rightarrow> bool"
  assumes fetch_stored: "ok p \<Longrightarrow> \<exists>q. fetch (name_of p) (store p s) = Some q \<and> same q p"
    and fetch_other: "n \<noteq> name_of p \<Longrightarrow> fetch n (store p s) = fetch n s"
begin

lemma fetch_unsaved: "\<forall>p \<in> set ps. name_of p \<noteq> n \<Longrightarrow> fetch n (fold store ps s) = fetch n s"
  by (induction ps arbitrary: s) (simp_all add: fetch_other[OF not_sym])

text \<open>After any sequence of saves a name holds its last saved state.\<close>

lemma fetch_last:
  assumes "ok p" "\<forall>q \<in> set later. name_of q \<noteq> name_of p"
  shows "\<exists>q. fetch (name_of p) (fold store (earlier @ p # later) s) = Some q \<and> same q p"
proof -
  have "fetch (name_of p) (fold store (earlier @ p # later) s) = fetch (name_of p) (store p (fold store earlier s))"
    using fetch_unsaved[OF assms(2)] by simp
  then show ?thesis using fetch_stored[OF assms(1)] by simp
qed

end

definition fetch_file :: "string \<Rightarrow> server \<Rightarrow> player_state option" where
  "fetch_file name sv = fst (load name sv)"

text \<open>A disk that never fails.\<close>

definition save_reliably :: "player_state \<Rightarrow> server \<Rightarrow> server" where
  "save_reliably p sv = save p (sv\<lparr>disk := []\<rparr>)"

lemma save_reliably_file:
  "map_of (files (save_reliably p sv)) (path_for (player_id p)) = Some (character_text p)"
  by (simp add: save_reliably_def save_def Let_def)

lemma save_reliably_saves: "disk sv = [] \<Longrightarrow> fold save_reliably ps sv = fold save ps sv"
proof (induction ps arbitrary: sv)
  case (Cons p ps)
  have "disk (save p sv) = []" using Cons.prems by (simp add: save_def Let_def)
  moreover have "sv\<lparr>disk := []\<rparr> = sv" using Cons.prems by (cases sv) simp
  ultimately show ?case using Cons.IH[of "save p sv"] by (simp add: save_reliably_def)
qed simp

interpretation store: character_storage save_reliably fetch_file player_id storable same_player
proof
  fix p :: player_state and sv :: server
  assume "storable p"
  then obtain q where "load_file (player_id p) (files (save_reliably p sv)) = Some (Inr q)" "same_player q p"
    using load_file_stored save_reliably_file by blast
  then show "\<exists>q. fetch_file (player_id p) (save_reliably p sv) = Some q \<and> same_player q p"
    by (auto simp: fetch_file_def load_def)
next
  fix n :: string and p :: player_state and sv :: server
  assume "n \<noteq> player_id p"
  then have "load_file n (files (save_reliably p sv)) = load_file n (files sv)"
    by (simp add: save_reliably_def load_file_other)
  then show "fetch_file n (save_reliably p sv) = fetch_file n sv"
    by (simp add: fetch_file_def load_def split: option.splits sum.splits)
qed

subsection \<open>Crashes\<close>

lemma save_disk_states_atomic:
  assumes "fs' \<in> set (save_disk_states p fs)"
  shows "map_of fs' (path_for n) = map_of fs (path_for n) \<or>
    n = player_id p \<and> map_of fs' (path_for n) = Some (character_text p)"
  using assms by (auto simp: save_disk_states_def Let_def split: if_splits)

lemma save_disk_states_last:
  "disk sv = [] \<Longrightarrow> files (save p sv) = last (save_disk_states p (files sv))"
  by (simp add: save_def save_disk_states_def Let_def)

end
