(* ===== verification/Common.thy ===== *)
theory Common
  imports CharacterStore
begin

text \<open>
  \<open>server/src/commands/common.cpp\<close>: the helpers of the command handlers.  A handler is a function
  \<open>nat \<Rightarrow> string list \<Rightarrow> server \<Rightarrow> server option\<close> from the session and the arguments; \<open>None\<close> is an
  uncaught \<open>std::out_of_range\<close> of \<open>.at\<close> (which ends the process) or undefined behaviour.  What a
  handler does under \<open>world.mutex\<close> is a function on the world of its own, named \<open>_locked\<close>.
\<close>

type_synonym handler = "nat \<Rightarrow> string list \<Rightarrow> server \<Rightarrow> server option"

function split_ws :: "string \<Rightarrow> string list" where
  "split_ws s = (case next_token s of (tok, r) \<Rightarrow> if tok = [] then [] else tok # split_ws r)"
  by auto
termination by (relation "measure length") (auto dest: next_token_shorter[OF sym])

declare split_ws.simps [simp del]

fun join_with_space :: "string list \<Rightarrow> string" where
  "join_with_space [] = []"
| "join_with_space [x] = x"
| "join_with_space (x # y # xs) = x @ '' '' @ join_with_space (y # xs)"

definition join_from :: "string list \<Rightarrow> nat \<Rightarrow> string" where
  "join_from tokens start = join_with_space (drop start tokens)"

definition to_lower :: "string \<Rightarrow> string" where
  "to_lower s = map tolower s"

text \<open>JSON text written by hand in the handlers.\<close>

definition member :: "string \<Rightarrow> string \<Rightarrow> string" where
  "member k v = quoted k @ '':'' @ v"

definition obj :: "string list \<Rightarrow> string" where
  "obj ms = ''{'' @ commas ms @ ''}''"

definition arr :: "string list \<Rightarrow> string" where
  "arr vs = ''['' @ commas vs @ '']''"

subsection \<open>Broadcasts\<close>

definition room_targets :: "string \<Rightarrow> string \<Rightarrow> world \<Rightarrow> string list" where
  "room_targets room_id except_player w =
     map fst (filter (\<lambda>(pid, p). current_room p = room_id \<and> pid \<noteq> except_player) (players w))"

definition broadcast_to_room :: "string \<Rightarrow> string \<Rightarrow> string \<Rightarrow> server \<Rightarrow> server" where
  "broadcast_to_room room_id except_player message sv =
     send_to_players (room_targets room_id except_player (sv_world sv)) message sv"

definition group_targets :: "string \<Rightarrow> string \<Rightarrow> world \<Rightarrow> string list" where
  "group_targets group_id except_player w =
     filter (\<lambda>pid. pid \<noteq> except_player) (find_def (groups w) group_id [])"

definition broadcast_to_group :: "string \<Rightarrow> string \<Rightarrow> string \<Rightarrow> server \<Rightarrow> server" where
  "broadcast_to_group group_id except_player message sv =
     (if group_id = [] then sv
      else send_to_players (group_targets group_id except_player (sv_world sv)) message sv)"

definition broadcast_stats :: "server \<Rightarrow> server" where
  "broadcast_stats sv =
     send_to_sessions (registry_all sv) (''EVT STATS players='' @ show_nat (registry_count sv)) sv"

definition serialize_room_locked :: "world \<Rightarrow> room \<Rightarrow> string" where
  "serialize_room_locked w room =
     obj [member ''room'' (obj [member ''id'' (quoted (rm_id room)),
            member ''name'' (quoted (json_escape (rm_name room))),
            member ''description'' (quoted (json_escape (rm_description room))),
            member ''exits'' (obj (map (\<lambda>(dir, dest). member dir (quoted dest)) (exits room)))]),
          member ''players'' (arr (map (\<lambda>(pid, p). quoted pid)
            (filter (\<lambda>(pid, p). current_room p = rm_id room) (players w)))),
          member ''items'' (arr (map quoted (item_instance_ids room))),
          member ''npcs'' (arr (map quoted (npc_ids room)))]"

subsection \<open>Resolving references\<close>

definition item_named :: "world \<Rightarrow> string \<Rightarrow> string \<Rightarrow> bool" where
  "item_named w ref i = (case map_of (items w) i of None \<Rightarrow> False
     | Some it \<Rightarrow> to_lower (it_name it) = to_lower ref)"

definition resolve_item_ref_locked :: "world \<Rightarrow> string list \<Rightarrow> string \<Rightarrow> string" where
  "resolve_item_ref_locked w candidates ref =
     (case find (\<lambda>i. i = ref) candidates of
        Some i \<Rightarrow> i
      | None \<Rightarrow> (case find (item_named w ref) candidates of Some i \<Rightarrow> i | None \<Rightarrow> []))"

definition npc_named :: "world \<Rightarrow> string \<Rightarrow> string \<Rightarrow> bool" where
  "npc_named w ref n = (case map_of (npcs w) n of None \<Rightarrow> False
     | Some np \<Rightarrow> to_lower (np_name np) = to_lower ref)"

definition resolve_npc_ref_locked :: "world \<Rightarrow> string list \<Rightarrow> string \<Rightarrow> string" where
  "resolve_npc_ref_locked w candidates ref =
     (case find (\<lambda>n. n = ref) candidates of
        Some n \<Rightarrow> n
      | None \<Rightarrow> (case find (npc_named w ref) candidates of Some n \<Rightarrow> n | None \<Rightarrow> []))"

text \<open>The contract both resolvers share.\<close>

locale resolver =
  fixes resolve :: "string list \<Rightarrow> string \<Rightarrow> string" and named :: "string \<Rightarrow> string \<Rightarrow> bool"
  assumes exact: "ref \<in> set cs \<Longrightarrow> resolve cs ref = ref"
    and by_name: "ref \<notin> set cs \<Longrightarrow> c \<in> set cs \<Longrightarrow> named ref c \<Longrightarrow>
      resolve cs ref \<in> set cs \<and> named ref (resolve cs ref)"
    and absent: "ref \<notin> set cs \<Longrightarrow> \<forall>c \<in> set cs. \<not> named ref c \<Longrightarrow> resolve cs ref = []"
begin

lemma resolve_in: "resolve cs ref \<noteq> [] \<Longrightarrow> resolve cs ref \<in> set cs"
  using exact[of ref cs] by_name[of ref cs] absent[of ref cs] by metis

lemma resolve_none: "[] \<notin> set cs \<Longrightarrow> resolve cs ref = [] \<longleftrightarrow> ref \<notin> set cs \<and> (\<forall>c \<in> set cs. \<not> named ref c)"
  using exact[of ref cs] by_name[of ref cs] absent[of ref cs] by metis

end

lemma find_hit:
  "c \<in> set xs \<Longrightarrow> P c \<Longrightarrow> (case find P xs of None \<Rightarrow> d | Some x \<Rightarrow> x) \<in> set xs \<and> P (case find P xs of None \<Rightarrow> d | Some x \<Rightarrow> x)"
  by (induction xs) auto

lemma find_miss: "\<forall>x \<in> set xs. \<not> P x \<Longrightarrow> find P xs = None"
  by (induction xs) auto

lemma find_exact: "find (\<lambda>i. i = ref) cs = (if ref \<in> set cs then Some ref else None)"
  by (induction cs) auto

interpretation item_ref: resolver "resolve_item_ref_locked w" "item_named w" for w
  by unfold_locales
    (auto simp: resolve_item_ref_locked_def find_exact find_miss find_hit)

interpretation npc_ref: resolver "resolve_npc_ref_locked w" "npc_named w" for w
  by unfold_locales
    (auto simp: resolve_npc_ref_locked_def find_exact find_miss find_hit)

subsection \<open>Tokens\<close>

lemma split_ws_words: "t \<in> set (split_ws s) \<Longrightarrow> word_ok t"
proof (induction s rule: split_ws.induct)
  case (1 s)
  obtain tok r where t: "next_token s = (tok, r)" by (cases "next_token s")
  show ?case
  proof (cases "tok = []")
    case True
    with "1.prems" t show ?thesis by (subst (asm) split_ws.simps) simp
  next
    case False
    with "1.prems" t have "t = tok \<or> t \<in> set (split_ws r)" by (subst (asm) split_ws.simps) simp
    with "1.IH"[OF t[symmetric]] False next_token_no_space[OF t] show ?thesis by (auto simp: word_ok_def)
  qed
qed

lemma split_join: "\<forall>t \<in> set ts. word_ok t \<Longrightarrow> split_ws (join_with_space ts) = ts"
proof (induction ts rule: join_with_space.induct)
  case 1
  show ?case by (subst split_ws.simps) (simp add: next_token_def skip_ws_def)
next
  case (2 x)
  have "next_token ([]) = ([], [])" by (simp add: next_token_def skip_ws_def)
  then have e: "split_ws [] = []" by (subst split_ws.simps) simp
  have "next_token (x @ []) = (x, [])" by (rule next_token_word) (use 2 in auto)
  then show ?case using 2 by (subst split_ws.simps) (simp add: e word_ok_def)
next
  case (3 x y xs)
  have n: "next_token (x @ '' '' @ join_with_space (y # xs)) = (x, '' '' @ join_with_space (y # xs))"
    by (rule next_token_word) (use "3.prems" in \<open>auto simp: char_class_defs\<close>)
  have s: "split_ws ('' '' @ t) = split_ws t" for t
  proof -
    have "next_token ('' '' @ t) = next_token t" by (simp add: next_token_def skip_ws_def char_class_defs)
    then show ?thesis by (subst (1 2) split_ws.simps) simp
  qed
  have x: "x \<noteq> []" using "3.prems" by (simp add: word_ok_def)
  have "split_ws (x @ '' '' @ join_with_space (y # xs)) = x # split_ws ('' '' @ join_with_space (y # xs))"
    by (subst split_ws.simps) (simp add: n[simplified] x)
  then show ?case using "3.IH" "3.prems" s[of "join_with_space (y # xs)"] by simp
qed

lemma join_from_word: "args \<noteq> [] \<Longrightarrow> \<forall>t \<in> set args. word_ok t \<Longrightarrow> join_from args 0 \<noteq> []"
  by (cases args rule: join_with_space.cases) (auto simp: join_from_def word_ok_def)

lemma word_not_nil [simp]: "word_ok t \<Longrightarrow> t \<noteq> []"
  by (simp add: word_ok_def)

subsection \<open>Frames\<close>

lemma broadcast_to_room_frame [simp]:
  "sv_world (broadcast_to_room r e m sv) = sv_world sv" "sess (broadcast_to_room r e m sv) = sess sv"
  "registry (broadcast_to_room r e m sv) = registry sv" "files (broadcast_to_room r e m sv) = files sv"
  "disk (broadcast_to_room r e m sv) = disk sv"
  by (simp_all add: broadcast_to_room_def)

lemma broadcast_to_group_frame [simp]:
  "sv_world (broadcast_to_group r e m sv) = sv_world sv" "sess (broadcast_to_group r e m sv) = sess sv"
  "registry (broadcast_to_group r e m sv) = registry sv" "files (broadcast_to_group r e m sv) = files sv"
  "disk (broadcast_to_group r e m sv) = disk sv"
  by (simp_all add: broadcast_to_group_def)

lemma broadcast_stats_frame [simp]:
  "sv_world (broadcast_stats sv) = sv_world sv" "sess (broadcast_stats sv) = sess sv"
  "registry (broadcast_stats sv) = registry sv" "files (broadcast_stats sv) = files sv"
  "disk (broadcast_stats sv) = disk sv" "replies (broadcast_stats sv) = replies sv"
  by (simp_all add: broadcast_stats_def)

lemma replies_broadcast [simp]:
  "is_event m \<Longrightarrow> replies (broadcast_to_room r e m sv) = replies sv"
  "is_event m \<Longrightarrow> replies (broadcast_to_group r e m sv) = replies sv"
  by (simp_all add: broadcast_to_room_def broadcast_to_group_def)

end
