(* ===== verification/ServerInv.thy ===== *)
theory ServerInv
  imports Common
begin

text \<open>
  The invariant of the server: the static world data is as the loader validated it, its numbers and
  ids are sane (\<open>balance_ok\<close>, \<open>ids_clean\<close>: conditions the loader does not check), every online
  player and every character file is well formed, groups and memberships agree, sessions and
  registry agree with the online players.  \<open>server_ok\<close> is kept by every handler between commands.
\<close>

definition RESPAWN_HP :: int where "RESPAWN_HP = 50"

abbreviation HP_LIMIT :: int where "HP_LIMIT \<equiv> 1000000000"

definition player_ok :: "world \<Rightarrow> string \<Rightarrow> player_state \<Rightarrow> bool" where
  "player_ok w pid p =
     (player_id p = pid \<and> is_valid_name pid \<and> count_key (rooms w) (current_room p) \<and>
      (\<forall>i \<in> set (inventory p). count_key (items w) i) \<and>
      0 < hp p \<and> hp p \<le> max_hp p \<and> RESPAWN_HP \<le> max_hp p \<and> max_hp p \<le> HP_LIMIT \<and>
      (last_target p = [] \<or> count_key (npcs w) (last_target p)) \<and>
      distinct (keys (quest_status p)) \<and> distinct (keys (npc_dialogue_progress p)) \<and>
      (\<forall>q s. map_of (quest_status p) q = Some s \<longrightarrow> count_key (quests w) q \<and> (s = ''completed'' \<or> s = ''in_progress'')) \<and>
      (\<forall>n k. map_of (npc_dialogue_progress p) n = Some k \<longrightarrow> count_key (npcs w) n \<and> int k \<le> INT_MAX))"

definition item_balanced :: "item \<Rightarrow> bool" where
  "item_balanced it = (0 \<le> effect_amount it \<and> effect_amount it \<le> HP_LIMIT)"

definition npc_balanced :: "npc \<Rightarrow> bool" where
  "npc_balanced n = (0 \<le> np_hp n \<and> np_hp n \<le> HP_LIMIT \<and> 0 \<le> counter_damage_min n \<and>
     counter_damage_min n \<le> counter_damage_max n \<and> counter_damage_max n \<le> HP_LIMIT \<and>
     int (length (dialogue n) + length (bonus_dialogue n)) \<le> INT_MAX)"

definition balance_ok :: "world \<Rightarrow> bool" where
  "balance_ok w = ((\<forall>i it. map_of (items w) i = Some it \<longrightarrow> item_balanced it) \<and>
     (\<forall>i n. map_of (npcs w) i = Some n \<longrightarrow> npc_balanced n))"

definition ids_clean :: "world \<Rightarrow> bool" where
  "ids_clean w = (\<forall>k \<in> set (keys (rooms w)) \<union> set (keys (items w)) \<union> set (keys (npcs w)) \<union> set (keys (quests w)).
     clean k \<and> k \<noteq> [])"

definition players_ok :: "world \<Rightarrow> bool" where
  "players_ok w = (distinct (keys (players w)) \<and> (\<forall>pid p. map_of (players w) pid = Some p \<longrightarrow> player_ok w pid p))"

definition groups_ok :: "world \<Rightarrow> bool" where
  "groups_ok w = (distinct (keys (player_group w)) \<and> distinct (keys (groups w)) \<and>
     (\<forall>pid g. map_of (player_group w) pid = Some g \<and> g \<noteq> [] \<longrightarrow>
        count_key (players w) pid \<and> (\<exists>ms. map_of (groups w) g = Some ms \<and> pid \<in> set ms)) \<and>
     (\<forall>g ms. map_of (groups w) g = Some ms \<longrightarrow> g \<noteq> [] \<and> ms \<noteq> [] \<and> distinct ms \<and>
        (\<forall>pid \<in> set ms. map_of (player_group w) pid = Some g)) \<and>
     (\<forall>(t, g) \<in> set (pending_invites w). g \<noteq> []))"

definition world_ok :: "world \<Rightarrow> bool" where
  "world_ok w = (world_data_ok w \<and> balance_ok w \<and> ids_clean w \<and> players_ok w \<and> groups_ok w)"

text \<open>The ids of the static data, which no command changes.\<close>

definition static_eq :: "world \<Rightarrow> world \<Rightarrow> bool" where
  "static_eq w' w = (keys (rooms w') = keys (rooms w) \<and> items w' = items w \<and>
     keys (npcs w') = keys (npcs w) \<and> quests w' = quests w)"

definition room_of :: "world \<Rightarrow> string \<Rightarrow> string option" where
  "room_of w pid = map_option current_room (map_of (players w) pid)"

lemma count_room_of: "count_key (players w) k = (room_of w k \<noteq> None)"
  by (simp add: room_of_def)

definition sessions_ok :: "server \<Rightarrow> bool" where
  "sessions_ok sv =
     ((\<forall>sid. pid_of sv sid \<noteq> [] \<longrightarrow> registry_get sv (pid_of sv sid) = Some sid \<and>
         room_of (sv_world sv) (pid_of sv sid) = Some (s_current_room (sess sv sid))) \<and>
      (\<forall>pid sid. registry_get sv pid = Some sid \<longrightarrow> pid_of sv sid = pid \<and> pid \<noteq> []) \<and>
      distinct (keys (registry sv)) \<and>
      (\<forall>pid. count_key (players (sv_world sv)) pid \<longrightarrow> registry_get sv pid \<noteq> None))"

definition files_ok :: "server \<Rightarrow> bool" where
  "files_ok sv = (\<forall>name p. is_valid_name name \<longrightarrow> load_file name (files sv) = Some (Inr p) \<longrightarrow>
     player_ok (sv_world sv) name p)"

text \<open>No write of a character file is cut short (the code would not notice).\<close>

definition disk_ok :: "server \<Rightarrow> bool" where
  "disk_ok sv = (\<forall>n r. Wrote (Some n) r \<notin> set (disk sv))"

definition server_ok :: "server \<Rightarrow> bool" where
  "server_ok sv = (world_ok (sv_world sv) \<and> sessions_ok sv \<and> files_ok sv \<and> disk_ok sv)"

lemmas server_defs = server_ok_def sessions_ok_def files_ok_def disk_ok_def pid_of_def registry_get_def

subsection \<open>The static data\<close>

lemma keys_count: "keys m' = keys m \<Longrightarrow> count_key m' k = count_key m k"
  by (metis map_of_eq_None_iff set_map)

lemma static_eq_refl [simp]: "static_eq w w" by (simp add: static_eq_def)

lemma static_eq_trans: "static_eq a b \<Longrightarrow> static_eq b c \<Longrightarrow> static_eq a c"
  by (simp add: static_eq_def)

lemma static_count:
  assumes "static_eq w' w"
  shows "count_key (rooms w') k = count_key (rooms w) k" "count_key (npcs w') k = count_key (npcs w) k"
    "count_key (items w') k = count_key (items w) k" "count_key (quests w') k = count_key (quests w) k"
  using assms keys_count[of "rooms w'" "rooms w" k] keys_count[of "npcs w'" "npcs w" k]
  by (simp_all add: static_eq_def)

lemma player_ok_static: "static_eq w' w \<Longrightarrow> player_ok w' pid p = player_ok w pid p"
  by (simp only: player_ok_def static_count)

lemma room_ok_static: "static_eq w' w \<Longrightarrow> room_ok w' rid r = room_ok w rid r"
  by (simp only: room_ok_def static_count)

lemma quest_ok_static: "static_eq w' w \<Longrightarrow> quest_ok w' q = quest_ok w q"
  by (simp only: quest_ok_def static_count)

lemma ids_clean_static: "static_eq w' w \<Longrightarrow> ids_clean w' = ids_clean w"
  by (simp only: ids_clean_def static_eq_def)

lemma static_upd_player [simp]: "static_eq (upd_player pid p w) w"
  by (simp add: static_eq_def)

lemma static_upd_room: "count_key (rooms w) rid \<Longrightarrow> static_eq (upd_room rid r w) w"
  by (simp add: static_eq_def keys_put_present)

lemma static_upd_npc: "count_key (npcs w) nid \<Longrightarrow> static_eq (upd_npc nid n w) w"
  by (simp add: static_eq_def keys_put_present)

subsection \<open>Updates that keep the world well formed\<close>

lemma groups_ok_frame:
  assumes "groups_ok w" "player_group w' = player_group w" "groups w' = groups w"
    "pending_invites w' = pending_invites w" "\<And>pid. count_key (players w) pid \<Longrightarrow> count_key (players w') pid"
  shows "groups_ok w'"
  using assms(1,5) unfolding groups_ok_def assms(2-4) by blast

lemma balance_ok_frame: "items w' = items w \<Longrightarrow> npcs w' = npcs w \<Longrightarrow> balance_ok w' = balance_ok w"
  by (simp add: balance_ok_def)

lemma npcs_ok_frame: "quests w' = quests w \<Longrightarrow> npcs w' = npcs w \<Longrightarrow> npcs_ok w' = npcs_ok w"
  by (simp add: npcs_ok_def)

lemma world_ok_players:
  assumes "world_ok w" and "distinct (keys ps)"
    and "\<And>pid p. map_of ps pid = Some p \<Longrightarrow> player_ok w pid p"
    and "\<And>pid. count_key (players w) pid \<Longrightarrow> count_key ps pid"
  shows "world_ok (w\<lparr>players := ps\<rparr>)"
proof -
  have s: "static_eq (w\<lparr>players := ps\<rparr>) w" by (simp add: static_eq_def)
  have "players_ok (w\<lparr>players := ps\<rparr>)" using assms(2,3) by (simp add: players_ok_def player_ok_static[OF s])
  moreover have "groups_ok (w\<lparr>players := ps\<rparr>)"
    by (rule groups_ok_frame[of w]) (use assms(1,4) in \<open>simp_all add: world_ok_def\<close>)
  moreover have "world_data_ok (w\<lparr>players := ps\<rparr>)"
    using assms(1) by (simp add: world_ok_def world_data_ok_def rooms_ok_def room_ok_def quests_ok_def quest_ok_def npcs_ok_def)
  moreover have "balance_ok (w\<lparr>players := ps\<rparr>)" "ids_clean (w\<lparr>players := ps\<rparr>)"
    using assms(1) by (simp_all add: world_ok_def balance_ok_def ids_clean_def)
  ultimately show ?thesis by (simp add: world_ok_def)
qed

lemma world_ok_upd_player:
  assumes "world_ok w" "player_ok w pid p"
  shows "world_ok (upd_player pid p w)"
  unfolding upd_player_def
proof (rule world_ok_players[OF assms(1)])
  show "distinct (keys (put pid p (players w)))" using assms(1) by (simp add: world_ok_def players_ok_def)
  show "player_ok w a b" if "map_of (put pid p (players w)) a = Some b" for a b
    using that assms by (auto simp: world_ok_def players_ok_def split: if_splits)
qed auto

lemma world_ok_upd_room:
  assumes "world_ok w" "count_key (rooms w) rid" "room_ok w rid r"
  shows "world_ok (upd_room rid r w)"
proof -
  have s: "static_eq (upd_room rid r w) w" by (rule static_upd_room[OF assms(2)])
  have d: "world_data_ok w" "balance_ok w" "ids_clean w" "players_ok w" "groups_ok w"
    using assms(1) by (auto simp: world_ok_def)
  have "rooms_ok (upd_room rid r w)"
    using d(1) assms(2,3) by (auto simp: world_data_ok_def rooms_ok_def room_ok_static[OF s])
  moreover have "quests_ok (upd_room rid r w)"
    using d(1) by (simp add: world_data_ok_def quests_ok_def quest_ok_static[OF s])
  moreover have "npcs_ok (upd_room rid r w)" "balance_ok (upd_room rid r w)"
    using d by (simp_all add: world_data_ok_def npcs_ok_frame[of "upd_room rid r w" w] balance_ok_frame[of "upd_room rid r w" w])
  moreover have "groups_ok (upd_room rid r w)" by (rule groups_ok_frame[OF d(5)]) simp_all
  moreover have "players_ok (upd_room rid r w)" using d(4) by (simp add: players_ok_def player_ok_static[OF s])
  ultimately show ?thesis using d by (simp add: world_ok_def world_data_ok_def ids_clean_static[OF s])
qed

lemma world_ok_upd_npc:
  assumes "world_ok w" "map_of (npcs w) nid = Some n0" "npc_balanced n" "unlock_quest_ids n = unlock_quest_ids n0"
  shows "world_ok (upd_npc nid n w)"
proof -
  have s: "static_eq (upd_npc nid n w) w" by (rule static_upd_npc) (simp add: assms(2))
  have d: "world_data_ok w" "balance_ok w" "ids_clean w" "players_ok w" "groups_ok w"
    using assms(1) by (auto simp: world_ok_def)
  have "rooms_ok (upd_npc nid n w)" "quests_ok (upd_npc nid n w)"
    using d(1) by (simp_all add: world_data_ok_def rooms_ok_def quests_ok_def room_ok_static[OF s] quest_ok_static[OF s])
  moreover have "npcs_ok (upd_npc nid n w)" using d(1) assms(2,4) by (auto simp: world_data_ok_def npcs_ok_def)
  moreover have "balance_ok (upd_npc nid n w)" using d(2) assms(3) by (auto simp: balance_ok_def)
  moreover have "groups_ok (upd_npc nid n w)" by (rule groups_ok_frame[OF d(5)]) simp_all
  moreover have "players_ok (upd_npc nid n w)" using d(4) by (simp add: players_ok_def player_ok_static[OF s])
  ultimately show ?thesis using d by (simp add: world_ok_def world_data_ok_def ids_clean_static[OF s])
qed

lemma world_ok_player: "world_ok w \<Longrightarrow> map_of (players w) pid = Some p \<Longrightarrow> player_ok w pid p"
  by (simp add: world_ok_def players_ok_def)

lemma world_ok_room: "world_ok w \<Longrightarrow> map_of (rooms w) rid = Some r \<Longrightarrow> room_ok w rid r"
  by (simp add: world_ok_def world_data_ok_def rooms_ok_def)

lemma world_ok_npc: "world_ok w \<Longrightarrow> map_of (npcs w) nid = Some n \<Longrightarrow> npc_balanced n"
  by (simp add: world_ok_def balance_ok_def)

lemma world_ok_item: "world_ok w \<Longrightarrow> map_of (items w) i = Some it \<Longrightarrow> item_balanced it"
  by (simp add: world_ok_def balance_ok_def)

lemma world_ok_id:
  assumes "world_ok w"
  shows "count_key (rooms w) k \<Longrightarrow> k \<noteq> [] \<and> clean k" "count_key (items w) k \<Longrightarrow> k \<noteq> [] \<and> clean k"
    "count_key (npcs w) k \<Longrightarrow> k \<noteq> [] \<and> clean k" "count_key (quests w) k \<Longrightarrow> k \<noteq> [] \<and> clean k"
  using assms by (auto simp: world_ok_def ids_clean_def map_of_eq_None_iff)

lemma player_room: "player_ok w pid p \<Longrightarrow> \<exists>r. map_of (rooms w) (current_room p) = Some r"
  by (simp add: player_ok_def)

subsection \<open>Saved characters\<close>

lemma player_ok_storable:
  assumes "world_ok w" "player_ok w pid p"
  shows "storable p"
proof -
  note id = world_ok_id[OF assms(1)]
  note p = assms(2)[unfolded player_ok_def]
  have d: "distinct (keys (quest_status p))" "distinct (keys (npc_dialogue_progress p))" using p by simp_all
  have qs: "count_key (quests w) q \<and> (s = ''completed'' \<or> s = ''in_progress'')" if "map_of (quest_status p) q = Some s" for q s
    using p that by simp
  have ns: "count_key (npcs w) n \<and> int k \<le> INT_MAX" if "map_of (npc_dialogue_progress p) n = Some k" for n k
    using p that by simp
  have "clean (current_room p)" using p id(1) by blast
  moreover have "clean (last_target p)" using p id(3) by (metis clean_def empty_iff empty_set)
  moreover have "\<forall>i \<in> set (inventory p). clean i" using p id(2) by blast
  moreover have "clean k \<and> clean v" if "(k, v) \<in> set (quest_status p)" for k v
  proof -
    have "map_of (quest_status p) k = Some v" using that by (simp add: map_of_mem[OF d(1)])
    from qs[OF this] show ?thesis using id(4)[of k] clean_literals(11,12) by metis
  qed
  moreover have "clean k \<and> int v \<le> INT_MAX" if "(k, v) \<in> set (npc_dialogue_progress p)" for k v
  proof -
    have "map_of (npc_dialogue_progress p) k = Some v" using that by (simp add: map_of_mem[OF d(2)])
    from ns[OF this] show ?thesis using id(3)[of k] by blast
  qed
  moreover have "hp p \<in> {INT_MIN..INT_MAX}" "max_hp p \<in> {INT_MIN..INT_MAX}" using p by auto
  ultimately show ?thesis using d unfolding storable_def ids_printable_def by auto
qed

lemma distinct_fold_put: "distinct (keys acc) \<Longrightarrow> distinct (keys (fold (\<lambda>(k, j). put k (f j)) m acc))"
  by (induction m arbitrary: acc) auto

lemma player_of_json_distinct:
  "distinct (keys (quest_status (player_of_json n j)))" "distinct (keys (npc_dialogue_progress (player_of_json n j)))"
  using distinct_fold_put[of "[]" as_string "object_value (json_at j ''quest_status'')"]
    distinct_fold_put[of "[]" "\<lambda>i. to_size_t (as_int i)" "object_value (json_at j ''npc_dialogue_progress'')"]
  by (simp_all add: player_of_json_def)

lemma load_file_distinct:
  "load_file n fs = Some (Inr p) \<Longrightarrow> distinct (keys (quest_status p)) \<and> distinct (keys (npc_dialogue_progress p)) \<and> player_id p = n"
  by (auto simp: load_file_def player_of_json_distinct split: option.splits sum.splits)
    (simp add: player_of_json_def)

lemma player_ok_same:
  "same_player q p \<Longrightarrow> player_ok w pid p \<Longrightarrow> distinct (keys (quest_status q)) \<Longrightarrow>
   distinct (keys (npc_dialogue_progress q)) \<Longrightarrow> player_ok w pid q"
  by (simp add: same_player_def player_ok_def)

lemma files_ok_save:
  assumes "world_ok (sv_world sv)" "player_ok (sv_world sv) pid p" "files_ok sv" "disk_ok sv"
  shows "files_ok (save p sv)"
  unfolding files_ok_def
proof (intro allI impI)
  fix name q
  assume v: "is_valid_name name" and l: "load_file name (files (save p sv)) = Some (Inr q)"
  have st: "storable p" by (rule player_ok_storable[OF assms(1,2)])
  have pid: "player_id p = pid" using assms(2) by (simp add: player_ok_def)
  consider "load_file name (files (save p sv)) = load_file name (files sv)"
    | "name = pid" "map_of (files (save p sv)) (path_for pid) = Some (character_text p)"
  proof (cases "name = pid")
    case True
    have "map_of (files (save p sv)) (path_for pid) \<in> {map_of (files sv) (path_for pid), Some (character_text p)}"
      using save_own_file[of p sv] assms(4) pid unfolding disk_ok_def by (metis list.set_intros(1))
    then show ?thesis using that True by (auto simp: load_file_def)
  qed (use load_file_other[of name p sv] pid that in simp)
  then have "player_ok (sv_world sv) name q"
  proof cases
    case 1
    then show ?thesis using l v assms(3) by (simp add: files_ok_def)
  next
    case 2
    then obtain q' where "load_file name (files (save p sv)) = Some (Inr q')" "same_player q' p"
      using load_file_stored[OF st] pid by metis
    then show ?thesis using l assms(2) 2(1) load_file_distinct[OF l] player_ok_same by auto
  qed
  then show "player_ok (sv_world (save p sv)) name q" by simp
qed

lemma disk_ok_save [simp]: "disk_ok sv \<Longrightarrow> disk_ok (save p sv)"
proof -
  have "disk (save p sv) = tl (disk sv)"
    by (simp add: save_def Let_def log_error_def split: disk_outcome.splits option.splits)
  then have "set (disk (save p sv)) \<subseteq> set (disk sv)" by (cases "disk sv") auto
  then show "disk_ok sv \<Longrightarrow> disk_ok (save p sv)" by (auto simp: disk_ok_def)
qed

lemma server_ok_save:
  "server_ok sv \<Longrightarrow> player_ok (sv_world sv) pid p \<Longrightarrow> server_ok (save p sv)"
  using files_ok_save[of sv pid p] unfolding server_ok_def sessions_ok_def pid_of_def registry_get_def by simp

subsection \<open>Sending and logging keep the invariant\<close>

lemma server_ok_core: "same_core sv' sv \<Longrightarrow> server_ok sv' = server_ok sv"
  by (simp add: same_core_def server_defs)

lemma server_ok_output [simp]:
  "server_ok (send_line sid m sv) = server_ok sv" "server_ok (log_info e f sv) = server_ok sv"
  "server_ok (log_warn e f sv) = server_ok sv" "server_ok (log_error e f sv) = server_ok sv"
  "server_ok (send_to_players pids m sv) = server_ok sv" "server_ok (send_to_sessions sids m sv) = server_ok sv"
  "server_ok (broadcast_to_room r e m sv) = server_ok sv" "server_ok (broadcast_to_group r e m sv) = server_ok sv"
  "server_ok (broadcast_stats sv) = server_ok sv"
  by (rule server_ok_core; simp add: same_core_def)+

subsection \<open>Updates of the shared state\<close>

lemma server_ok_set_world:
  assumes "server_ok sv" "world_ok w'" "static_eq w' (sv_world sv)" "room_of w' = room_of (sv_world sv)"
  shows "server_ok (set_world w' sv)"
proof -
  have "count_key (players w') k = count_key (players (sv_world sv)) k" for k
    by (simp only: count_room_of assms(4))
  then have "sessions_ok (set_world w' sv)"
    using assms(1,4) by (simp add: server_defs)
  moreover have "files_ok (set_world w' sv)" using assms(1) by (simp add: server_defs player_ok_static[OF assms(3)])
  ultimately show ?thesis using assms(1,2) by (simp add: server_ok_def disk_ok_def)
qed

lemma server_ok_relocate:
  assumes ok: "server_ok sv" and "world_ok w'" "static_eq w' (sv_world sv)" and pid: "pid_of sv sid \<noteq> []"
    and r: "room_of w' = (room_of (sv_world sv))(pid_of sv sid \<mapsto> r)"
  shows "server_ok (set_session sid ((sess sv sid)\<lparr>s_current_room := r\<rparr>) (set_world w' sv))"
proof -
  let ?sv = "set_session sid ((sess sv sid)\<lparr>s_current_room := r\<rparr>) (set_world w' sv)"
  have s: "sessions_ok sv" using ok by (simp add: server_ok_def)
  have p: "pid_of ?sv = pid_of sv" by (auto simp: pid_of_def fun_eq_iff)
  have g: "registry_get ?sv = registry_get sv" by (simp add: registry_get_def fun_eq_iff)
  have on: "room_of (sv_world sv) (pid_of sv sid) \<noteq> None" using s pid by (auto simp: sessions_ok_def)
  have c: "count_key (players w') k = count_key (players (sv_world sv)) k" for k
    unfolding count_room_of r using on by simp
  have u: "a = sid" if "pid_of sv a = pid_of sv sid" for a
    using s pid that by (metis option.inject sessions_ok_def)
  have "sessions_ok ?sv"
    unfolding sessions_ok_def p g using s r u pid c by (auto simp: sessions_ok_def)
  moreover have "files_ok ?sv" using ok by (simp add: server_defs player_ok_static[OF assms(3)])
  ultimately show ?thesis using ok assms(2) by (simp add: server_ok_def disk_ok_def)
qed

lemma server_ok_player:
  assumes "server_ok sv" "pid_of sv sid \<noteq> []"
  shows "\<exists>p r. map_of (players (sv_world sv)) (pid_of sv sid) = Some p \<and>
    map_of (rooms (sv_world sv)) (current_room p) = Some r \<and> player_ok (sv_world sv) (pid_of sv sid) p \<and>
    room_ok (sv_world sv) (current_room p) r \<and> s_current_room (sess sv sid) = current_room p"
proof -
  have w: "world_ok (sv_world sv)" using assms(1) by (simp add: server_ok_def)
  have "room_of (sv_world sv) (pid_of sv sid) = Some (s_current_room (sess sv sid))"
    using assms unfolding server_ok_def sessions_ok_def by blast
  then obtain p where p: "map_of (players (sv_world sv)) (pid_of sv sid) = Some p"
      "s_current_room (sess sv sid) = current_room p"
    by (auto simp: room_of_def)
  then show ?thesis using world_ok_player[OF w p(1)] player_room world_ok_room[OF w] by metis
qed

end
