(* ===== verification/QuestCommands.thy ===== *)
theory QuestCommands
  imports ServerInv
begin

text \<open>
  \<open>server/src/commands/quest_commands.cpp\<close>: quest state of a connecting player, the two triggers
  that complete quests, and the commands QUESTS and QUEST.
\<close>

definition quest_type_str :: "quest_type \<Rightarrow> string" where
  "quest_type_str t = (if t = Fetch then ''fetch'' else ''defeat'')"

definition all_defeat_targets_dead_locked :: "world \<Rightarrow> quest \<Rightarrow> bool" where
  "all_defeat_targets_dead_locked w quest =
     list_all (\<lambda>n. case map_of (npcs w) n of None \<Rightarrow> False | Some np \<Rightarrow> \<not> np_hp np > 0) (target_ids quest)"

definition complete_quest_and_notify :: "string \<Rightarrow> string \<Rightarrow> string \<Rightarrow> string \<Rightarrow> server \<Rightarrow> server" where
  "complete_quest_and_notify pid qid trigger trigger_ref sv =
     log_info ''quest_completed'' [(''player'', pid), (''quest'', qid), (''trigger'', trigger), (''ref'', trigger_ref)]
       (case registry_get sv pid of
          None \<Rightarrow> sv
        | Some sid \<Rightarrow> send_line sid (''EVT ROOM QUEST_COMPLETE '' @ pid @ '' '' @ qid) sv)"

definition initial_status :: "world \<Rightarrow> quest \<Rightarrow> string" where
  "initial_status w quest =
     (if q_type quest = Defeat \<and> all_defeat_targets_dead_locked w quest then ''completed'' else ''in_progress'')"

definition init_player_quests_locked :: "world \<Rightarrow> player_state \<Rightarrow> player_state" where
  "init_player_quests_locked w p = p\<lparr>quest_status :=
     fold (\<lambda>(qid, quest) st. if count_key st qid then st else put qid (initial_status w quest) st)
       (quests w) (quest_status p)\<rparr>"

text \<open>One player finishes one quest, if it is in progress for the player (the body of both triggers).\<close>

definition finish_quest :: "string \<Rightarrow> quest \<Rightarrow> player_state \<Rightarrow> player_state option" where
  "finish_quest qid quest p =
     (if map_of (quest_status p) qid = Some ''in_progress''
      then Some (p\<lparr>quest_status := put qid ''completed'' (quest_status p),
        inventory := inventory p @ (if reward_item_id quest \<noteq> [] then [reward_item_id quest] else [])\<rparr>)
      else None)"

definition take_step :: "string \<Rightarrow> string \<times> quest \<Rightarrow> player_state \<times> string list \<Rightarrow> player_state \<times> string list" where
  "take_step item_id = (\<lambda>(qid, quest) (p, completed).
     if q_type quest \<noteq> Fetch \<or> target_id quest \<noteq> item_id then (p, completed)
     else (case finish_quest qid quest p of None \<Rightarrow> (p, completed) | Some p' \<Rightarrow> (p', completed @ [qid])))"

definition on_item_taken :: "string \<Rightarrow> string \<Rightarrow> server \<Rightarrow> server" where
  "on_item_taken pid item_id sv =
     (let w = sv_world sv in
      case map_of (players w) pid of
        None \<Rightarrow> sv
      | Some p \<Rightarrow> (case fold (take_step item_id) (quests w) (p, []) of (taker, completed) \<Rightarrow>
          let sv1 = set_world (upd_player pid taker w) sv;
              sv2 = (if completed \<noteq> [] then save taker sv1 else sv1)
          in fold (\<lambda>qid. complete_quest_and_notify pid qid ''take'' item_id) completed sv2))"

text \<open>\<open>completions\<close> and \<open>mutated_players\<close> of the code grow together; they are one list here.\<close>

type_synonym completion = "string \<times> string \<times> player_state"

definition finish_for_all :: "string \<Rightarrow> quest \<Rightarrow> (string \<times> player_state) list \<Rightarrow> (string \<times> player_state) list" where
  "finish_for_all qid quest ps =
     map (\<lambda>(pid, p). (pid, case finish_quest qid quest p of None \<Rightarrow> p | Some p' \<Rightarrow> p')) ps"

definition completions_of :: "string \<Rightarrow> quest \<Rightarrow> (string \<times> player_state) list \<Rightarrow> completion list" where
  "completions_of qid quest ps =
     concat (map (\<lambda>(pid, p). case finish_quest qid quest p of None \<Rightarrow> [] | Some p' \<Rightarrow> [(pid, qid, p')]) ps)"

definition cleared_by :: "world \<Rightarrow> string \<Rightarrow> quest \<Rightarrow> bool" where
  "cleared_by w npc_id quest =
     (q_type quest = Defeat \<and> npc_id \<in> set (target_ids quest) \<and> all_defeat_targets_dead_locked w quest)"

definition defeat_step :: "world \<Rightarrow> string \<Rightarrow> string \<times> quest \<Rightarrow> (string \<times> player_state) list \<times> completion list
    \<Rightarrow> (string \<times> player_state) list \<times> completion list" where
  "defeat_step w npc_id = (\<lambda>(qid, quest) (ps, cs).
     if cleared_by w npc_id quest then (finish_for_all qid quest ps, cs @ completions_of qid quest ps) else (ps, cs))"

definition on_npc_defeated :: "string \<Rightarrow> string \<Rightarrow> server \<Rightarrow> server" where
  "on_npc_defeated pid npc_id sv =
     (let w = sv_world sv in
      case fold (defeat_step w npc_id) (quests w) (players w, []) of (ps, cs) \<Rightarrow>
        let sv1 = set_world (w\<lparr>players := ps\<rparr>) sv;
            sv2 = (if cs \<noteq> [] then log_info ''quest_world_cleared'' [(''triggered_by'', pid), (''npc'', npc_id)] sv1 else sv1);
            sv3 = fold (\<lambda>(_, _, p). save p) cs sv2
        in fold (\<lambda>(who, qid, _). complete_quest_and_notify who qid ''defeat'' npc_id) cs sv3)"

definition quest_status_of :: "player_state \<Rightarrow> string \<Rightarrow> string" where
  "quest_status_of p qid = find_def (quest_status p) qid ''not_started''"

definition guard_connected :: "nat \<Rightarrow> server \<Rightarrow> server option \<Rightarrow> server option" where
  "guard_connected sid sv k =
     (if pid_of sv sid = [] then Some (send_line sid ''ERR 102 NOT_CONNECTED CONNECT first'' sv) else k)"

definition cmd_quests :: "nat \<Rightarrow> server \<Rightarrow> server option" where
  "cmd_quests sid sv = guard_connected sid sv (do {
     let w = sv_world sv;
     player \<leftarrow> map_of (players w) (pid_of sv sid);
     Some (send_line sid (''OK '' @ arr (map (\<lambda>(qid, quest).
       obj [member ''id'' (quoted (q_id quest)), member ''name'' (quoted (json_escape (q_name quest))),
            member ''status'' (quoted (quest_status_of player qid))]) (quests w))) sv)
   })"

definition cmd_quest :: handler where
  "cmd_quest sid args sv = guard_connected sid sv (
     if args = [] then Some (send_line sid ''ERR 200 BAD_MESSAGE QUEST requires an id'' sv)
     else (let w = sv_world sv in
       case map_of (quests w) (hd args) of
         None \<Rightarrow> Some (send_line sid (''ERR 404 QUEST_NOT_FOUND '' @ hd args) sv)
       | Some q \<Rightarrow> do {
           player \<leftarrow> map_of (players w) (pid_of sv sid);
           Some (send_line sid (''OK '' @ obj [member ''id'' (quoted (q_id q)),
             member ''name'' (quoted (json_escape (q_name q))),
             member ''description'' (quoted (json_escape (q_description q))),
             member ''type'' (quoted (quest_type_str (q_type q))),
             member ''status'' (quoted (quest_status_of player (hd args)))]) sv)
         }))"

subsection \<open>Frames\<close>

lemma complete_quest_frame [simp]:
  "sv_world (complete_quest_and_notify p q t r sv) = sv_world sv" "sess (complete_quest_and_notify p q t r sv) = sess sv"
  "registry (complete_quest_and_notify p q t r sv) = registry sv" "files (complete_quest_and_notify p q t r sv) = files sv"
  "disk (complete_quest_and_notify p q t r sv) = disk sv" "replies (complete_quest_and_notify p q t r sv) = replies sv"
  "server_ok (complete_quest_and_notify p q t r sv) = server_ok sv"
  by (simp_all add: complete_quest_and_notify_def split: option.splits)

lemma fold_complete_frame:
  assumes "\<And>x sv. \<exists>p q t r. f x sv = complete_quest_and_notify p q t r sv"
  shows "sv_world (fold f xs sv) = sv_world sv" "sess (fold f xs sv) = sess sv"
    "registry (fold f xs sv) = registry sv" "files (fold f xs sv) = files sv"
    "replies (fold f xs sv) = replies sv" "server_ok (fold f xs sv) = server_ok sv"
proof -
  have *: "sv_world (fold f xs sv) = sv_world sv \<and> sess (fold f xs sv) = sess sv \<and>
    registry (fold f xs sv) = registry sv \<and> files (fold f xs sv) = files sv \<and>
    replies (fold f xs sv) = replies sv \<and> server_ok (fold f xs sv) = server_ok sv"
  proof (induction xs arbitrary: sv)
    case (Cons x xs)
    obtain p q t r where "f x sv = complete_quest_and_notify p q t r sv" using assms by blast
    then show ?case using Cons[of "f x sv"] by simp
  qed simp
  then show "sv_world (fold f xs sv) = sv_world sv" "sess (fold f xs sv) = sess sv"
    "registry (fold f xs sv) = registry sv" "files (fold f xs sv) = files sv"
    "replies (fold f xs sv) = replies sv" "server_ok (fold f xs sv) = server_ok sv" by blast+
qed

subsection \<open>Finishing a quest\<close>

lemma finish_quest_ok:
  assumes "player_ok w pid p" "finish_quest qid quest p = Some p'" "quest_ok w quest"
  shows "player_ok w pid p'"
proof -
  have st: "map_of (quest_status p) qid = Some ''in_progress''"
    and p': "p' = p\<lparr>quest_status := put qid ''completed'' (quest_status p),
        inventory := inventory p @ (if reward_item_id quest \<noteq> [] then [reward_item_id quest] else [])\<rparr>"
    using assms(2) by (auto simp: finish_quest_def split: if_splits)
  note ok = assms(1)[unfolded player_ok_def]
  have q: "count_key (quests w) qid" using ok st by blast
  have "\<forall>i \<in> set (inventory p'). count_key (items w) i"
    using ok assms(3) by (auto simp: p' quest_ok_def)
  moreover have "count_key (quests w) r \<and> (s = ''completed'' \<or> s = ''in_progress'')" if "map_of (quest_status p') r = Some s" for r s
    using that ok q by (cases "r = qid") (simp_all add: p')
  ultimately show ?thesis using ok unfolding player_ok_def by (simp add: p')
qed

lemma finish_quest_room: "finish_quest qid quest p = Some p' \<Longrightarrow> current_room p' = current_room p"
  by (auto simp: finish_quest_def split: if_splits)

lemma finish_quest_status:
  "finish_quest qid quest p = Some p' \<Longrightarrow>
   map_of (quest_status p) qid = Some ''in_progress'' \<and> map_of (quest_status p') = (map_of (quest_status p))(qid \<mapsto> ''completed'')"
  by (auto simp: finish_quest_def split: if_splits)

lemma finish_quest_None: "finish_quest qid quest p = None \<longleftrightarrow> map_of (quest_status p) qid \<noteq> Some ''in_progress''"
  by (simp add: finish_quest_def)

definition quests_grow :: "player_state \<Rightarrow> player_state \<Rightarrow> bool" where
  "quests_grow p p' = (\<forall>q. map_of (quest_status p') q = map_of (quest_status p) q \<or>
     map_of (quest_status p) q = Some ''in_progress'' \<and> map_of (quest_status p') q = Some ''completed'')"

lemma quests_grow_refl [simp]: "quests_grow p p" by (simp add: quests_grow_def)

lemma quests_grow_trans: "quests_grow a b \<Longrightarrow> quests_grow b c \<Longrightarrow> quests_grow a c"
  unfolding quests_grow_def by metis

lemma finish_quest_grow: "finish_quest qid quest p = Some p' \<Longrightarrow> quests_grow p p'"
  unfolding quests_grow_def using finish_quest_status[of qid quest p p'] by (simp del: not_None_eq)

subsection \<open>Taking an item\<close>

lemma take_fold:
  assumes "\<forall>(qid, quest) \<in> set qs. quest_ok w quest" "player_ok w pid p"
    and "fold (take_step item) qs (p, cs) = (p', cs')"
  shows "player_ok w pid p' \<and> current_room p' = current_room p \<and> quests_grow p p'"
  using assms
proof (induction qs arbitrary: p cs)
  case (Cons x qs)
  obtain qid quest where x: "x = (qid, quest)" by (cases x)
  obtain p1 cs1 where s: "take_step item x (p, cs) = (p1, cs1)" by (cases "take_step item x (p, cs)")
  have "player_ok w pid p1 \<and> current_room p1 = current_room p \<and> quests_grow p p1"
  proof (cases "p1 = p")
    case False
    then have "finish_quest qid quest p = Some p1"
      using s by (auto simp: take_step_def x split: if_splits option.splits)
    moreover have "quest_ok w quest" using Cons.prems(1) by (simp add: x)
    ultimately show ?thesis using finish_quest_ok[OF Cons.prems(2)] finish_quest_room finish_quest_grow by blast
  qed (use Cons.prems in simp)
  moreover from this have "player_ok w pid p' \<and> current_room p' = current_room p1 \<and> quests_grow p1 p'"
    using Cons.IH[of p1 cs1] Cons.prems s by simp
  ultimately show ?case using quests_grow_trans[of p p1 p'] by simp
qed simp

lemma world_ok_quests: "world_ok w \<Longrightarrow> \<forall>(qid, quest) \<in> set (quests w). quest_ok w quest"
proof -
  assume "world_ok w"
  then have "quests_ok w" by (simp add: world_ok_def world_data_ok_def)
  then show ?thesis using all_pairs_map_of[of "quests w" "\<lambda>_. quest_ok w"] by (simp add: quests_ok_def)
qed

lemma room_of_upd [simp]:
  "room_of (upd_player pid p w) = (room_of w)(pid \<mapsto> current_room p)" "room_of (upd_room rid r w) = room_of w"
  "room_of (upd_npc nid n w) = room_of w"
  by (auto simp: room_of_def fun_eq_iff)

lemma room_of_self: "map_of (players w) pid = Some p \<Longrightarrow> current_room p' = current_room p \<Longrightarrow>
    (room_of w)(pid \<mapsto> current_room p') = room_of w"
  by (auto simp: room_of_def fun_eq_iff)

lemma on_item_taken_ok:
  assumes ok: "server_ok sv"
  shows "server_ok (on_item_taken pid item sv)" and "replies (on_item_taken pid item sv) = replies sv"
    and "sess (on_item_taken pid item sv) = sess sv"
proof -
  have w: "world_ok (sv_world sv)" using ok by (simp add: server_ok_def)
  show "server_ok (on_item_taken pid item sv)"
  proof (cases "map_of (players (sv_world sv)) pid")
    case (Some p)
    obtain p' cs where f: "fold (take_step item) (quests (sv_world sv)) (p, []) = (p', cs)" by fastforce
    have p': "player_ok (sv_world sv) pid p'" "current_room p' = current_room p"
      using take_fold[OF world_ok_quests[OF w] world_ok_player[OF w Some] f] by auto
    have 1: "server_ok (set_world (upd_player pid p' (sv_world sv)) sv)"
      by (rule server_ok_set_world[OF ok world_ok_upd_player[OF w p'(1)]])
        (simp_all add: room_of_self[OF Some p'(2)])
    have "server_ok (save p' (set_world (upd_player pid p' (sv_world sv)) sv))"
      by (rule server_ok_save[OF 1, of pid]) (simp add: player_ok_static[OF static_upd_player] p')
    then show ?thesis using 1 Some f
      by (simp add: on_item_taken_def Let_def) (subst fold_complete_frame(6); fastforce)
  qed (simp add: on_item_taken_def Let_def ok)
  have e: "\<And>qid sv. \<exists>p q t r. complete_quest_and_notify pid qid ''take'' item sv = complete_quest_and_notify p q t r sv" by blast
  show "replies (on_item_taken pid item sv) = replies sv" "sess (on_item_taken pid item sv) = sess sv"
    by (auto simp: on_item_taken_def Let_def fold_complete_frame[OF e] split: option.splits prod.splits)
qed

subsection \<open>Defeating an NPC\<close>

lemma map_of_finish_for_all:
  "map_of (finish_for_all qid quest ps) pid =
     map_option (\<lambda>p. case finish_quest qid quest p of None \<Rightarrow> p | Some p' \<Rightarrow> p') (map_of ps pid)"
  unfolding finish_for_all_def by (subst map_of_map) simp

lemma keys_finish_for_all [simp]: "keys (finish_for_all qid quest ps) = keys ps"
  by (simp add: finish_for_all_def comp_def case_prod_unfold)

lemma completions_of_ok:
  assumes "\<forall>(pid, p) \<in> set ps. player_ok w pid p" "quest_ok w quest"
  shows "\<forall>(pid, q, p) \<in> set (completions_of qid quest ps). player_ok w pid p"
  using assms finish_quest_ok by (fastforce simp: completions_of_def split: option.splits)

lemma finish_for_all_ok:
  assumes "\<forall>(pid, p) \<in> set ps. player_ok w pid p" "quest_ok w quest"
  shows "\<forall>(pid, p) \<in> set (finish_for_all qid quest ps). player_ok w pid p"
  using assms finish_quest_ok by (fastforce simp: finish_for_all_def split: option.splits)

definition same_places :: "(string \<times> player_state) list \<Rightarrow> (string \<times> player_state) list \<Rightarrow> bool" where
  "same_places ps ps' = (keys ps' = keys ps \<and> (\<forall>pid. map_option current_room (map_of ps' pid) = map_option current_room (map_of ps pid)) \<and>
     (\<forall>pid p p'. map_of ps pid = Some p \<longrightarrow> map_of ps' pid = Some p' \<longrightarrow> quests_grow p p'))"

lemma same_places_finish: "same_places ps (finish_for_all qid quest ps)"
proof -
  have "map_option current_room (map_of (finish_for_all qid quest ps) pid) = map_option current_room (map_of ps pid)" for pid
    unfolding map_of_finish_for_all using finish_quest_room
    by (cases "map_of ps pid") (auto split: option.splits)
  then show ?thesis using finish_quest_grow
    by (auto simp: same_places_def map_of_finish_for_all split: option.splits)
qed

lemma same_places_refl [simp]: "same_places ps ps" by (simp add: same_places_def)

lemma same_places_trans:
  assumes a: "same_places ps ps'" and b: "same_places ps' ps''"
  shows "same_places ps ps''"
proof -
  have "quests_grow p p''" if m: "map_of ps pid = Some p" "map_of ps'' pid = Some p''" for pid p p''
  proof -
    have "keys ps' = keys ps" using a by (simp add: same_places_def)
    then obtain p' where "map_of ps' pid = Some p'" using keys_count[of ps' ps pid] m by auto
    then have "quests_grow p p'" "quests_grow p' p''" using m a b unfolding same_places_def by metis+
    then show ?thesis by (rule quests_grow_trans)
  qed
  then show ?thesis using a b by (simp add: same_places_def)
qed

lemma defeat_fold:
  assumes "\<forall>(qid, quest) \<in> set qs. quest_ok w quest" "\<forall>(pid, p) \<in> set ps. player_ok w pid p"
    "\<forall>(pid, q, p) \<in> set cs. player_ok w pid p"
    and "fold (defeat_step w npc) qs (ps, cs) = (ps', cs')"
  shows "(\<forall>(pid, p) \<in> set ps'. player_ok w pid p) \<and> (\<forall>(pid, q, p) \<in> set cs'. player_ok w pid p) \<and> same_places ps ps'"
  using assms
proof (induction qs arbitrary: ps cs)
  case (Cons x qs)
  obtain qid quest where x: "x = (qid, quest)" by (cases x)
  have q: "quest_ok w quest" using Cons.prems(1) by (simp add: x)
  show ?case
  proof (cases "cleared_by w npc quest")
    case True
    let ?ps = "finish_for_all qid quest ps" and ?cs = "cs @ completions_of qid quest ps"
    have "fold (defeat_step w npc) qs (?ps, ?cs) = (ps', cs')"
      using Cons.prems(4) True by (simp add: defeat_step_def x)
    moreover have "\<forall>(pid, q, p) \<in> set ?cs. player_ok w pid p"
      using Cons.prems(3) completions_of_ok[OF Cons.prems(2) q, of qid] by auto
    ultimately have "(\<forall>(pid, p) \<in> set ps'. player_ok w pid p) \<and> (\<forall>(pid, q, p) \<in> set cs'. player_ok w pid p) \<and>
        same_places ?ps ps'"
      using Cons.IH[of ?ps ?cs] Cons.prems(1) finish_for_all_ok[OF Cons.prems(2) q] by simp
    then show ?thesis using same_places_trans[OF same_places_finish] by blast
  next
    case False
    then have "fold (defeat_step w npc) qs (ps, cs) = (ps', cs')"
      using Cons.prems(4) by (simp add: defeat_step_def x)
    then show ?thesis using Cons.IH[of ps cs] Cons.prems by simp
  qed
qed simp

text \<open>After the trigger no online player has a quest in progress that is cleared.\<close>

lemma defeat_fold_none_left:
  assumes "fold (defeat_step w npc) qs (ps, cs) = (ps', cs')" "distinct (keys qs)"
    and "(qid, quest) \<in> set qs" "cleared_by w npc quest" "map_of ps' pid = Some p'"
  shows "map_of (quest_status p') qid \<noteq> Some ''in_progress''"
  using assms
proof (induction qs arbitrary: ps cs)
  case (Cons x qs)
  obtain q qu where x: "x = (q, qu)" by (cases x)
  obtain ps1 cs1 where s: "defeat_step w npc x (ps, cs) = (ps1, cs1)" by (cases "defeat_step w npc x (ps, cs)")
  show ?case
  proof (cases "(qid, quest) \<in> set qs")
    case True
    then show ?thesis using Cons.IH[of ps1 cs1] Cons.prems s by simp
  next
    case False
    then have e: "q = qid" "qu = quest" using Cons.prems(3) x by auto
    have ps1: "ps1 = finish_for_all qid quest ps" using s Cons.prems(4) by (simp add: defeat_step_def x e)
    have done_stays: "same_places a b" if "fold (defeat_step w npc) qs (a, c) = (b, d)" for a b c d
      using that
    proof (induction qs arbitrary: a c)
      case (Cons y ys)
      obtain a1 c1 where t: "defeat_step w npc y (a, c) = (a1, c1)" by (cases "defeat_step w npc y (a, c)")
      then have "same_places a a1" by (auto simp: defeat_step_def same_places_finish split: prod.splits if_splits)
      then show ?case using Cons.IH[of a1 c1] Cons.prems t same_places_trans by simp
    qed simp
    have sp: "same_places ps1 ps'" using done_stays Cons.prems(1) s by simp
    have "keys ps' = keys ps1" using sp by (simp add: same_places_def)
    then have "map_of ps1 pid \<noteq> None" using keys_count[of ps' ps1 pid] Cons.prems(5) by simp
    then obtain p1 where p1: "map_of ps1 pid = Some p1" by blast
    have "map_of (quest_status p1) qid \<noteq> Some ''in_progress''"
    proof -
      obtain p0 where p0: "map_of ps pid = Some p0"
        and e: "p1 = (case finish_quest qid quest p0 of None \<Rightarrow> p0 | Some p' \<Rightarrow> p')"
        using p1 by (auto simp: ps1 map_of_finish_for_all)
      show ?thesis using e finish_quest_status[of qid quest p0] finish_quest_None[of qid quest p0]
        by (cases "finish_quest qid quest p0") auto
    qed
    then show ?thesis using sp p1 Cons.prems(5) unfolding same_places_def quests_grow_def by metis
  qed
qed simp

lemma fold_save_ok:
  assumes "server_ok sv" "\<forall>(pid, q, p) \<in> set cs. player_ok (sv_world sv) pid p"
  shows "server_ok (fold (\<lambda>(_, _, p). save p) cs sv) \<and> sv_world (fold (\<lambda>(_, _, p). save p) cs sv) = sv_world sv"
  using assms
proof (induction cs arbitrary: sv)
  case (Cons c cs)
  obtain a q p where c: "c = (a, q, p)" by (cases c)
  have "server_ok (save p sv)" by (rule server_ok_save) (use Cons.prems c in auto)
  then show ?case using Cons.IH[of "save p sv"] Cons.prems by (simp add: c)
qed simp

lemma fold_save_frame:
  "sv_world (fold (\<lambda>(_, _, p). save p) cs sv) = sv_world sv" "sess (fold (\<lambda>(_, _, p). save p) cs sv) = sess sv"
  "replies (fold (\<lambda>(_, _, p). save p) cs sv) = replies sv" "registry (fold (\<lambda>(_, _, p). save p) cs sv) = registry sv"
  by (induction cs arbitrary: sv) (auto split: prod.splits)

lemma players_fold:
  assumes w: "world_ok w" and f: "fold (defeat_step w npc) (quests w) (players w, []) = (ps, cs)"
  shows "world_ok (w\<lparr>players := ps\<rparr>)" "room_of (w\<lparr>players := ps\<rparr>) = room_of w"
    "\<forall>(pid, q, p) \<in> set cs. player_ok w pid p" "same_places (players w) ps"
proof -
  have d: "distinct (keys (players w))" using w by (simp add: world_ok_def players_ok_def)
  then have "\<forall>(pid, p) \<in> set (players w). player_ok w pid p"
    unfolding all_pairs_map_of[OF d] using world_ok_player[OF w] by blast
  then have r: "\<forall>(pid, p) \<in> set ps. player_ok w pid p" "\<forall>(pid, q, p) \<in> set cs. player_ok w pid p" "same_places (players w) ps"
    using defeat_fold[OF world_ok_quests[OF w] _ _ f] by auto
  show "\<forall>(pid, q, p) \<in> set cs. player_ok w pid p" "same_places (players w) ps" using r by auto
  show "room_of (w\<lparr>players := ps\<rparr>) = room_of w" using r(3) by (simp add: room_of_def same_places_def fun_eq_iff)
  have k: "keys ps = keys (players w)" using r(3) by (simp add: same_places_def)
  show "world_ok (w\<lparr>players := ps\<rparr>)"
  proof (rule world_ok_players[OF w])
    show "distinct (keys ps)" using d k by simp
    show "player_ok w pid p" if "map_of ps pid = Some p" for pid p using r(1) map_of_SomeD[OF that] by auto
    show "count_key ps pid" if "count_key (players w) pid" for pid using that keys_count[OF k] by simp
  qed
qed

lemma on_npc_defeated_ok:
  assumes ok: "server_ok sv"
  shows "server_ok (on_npc_defeated pid npc sv)" and "replies (on_npc_defeated pid npc sv) = replies sv"
    and "sess (on_npc_defeated pid npc sv) = sess sv"
proof -
  let ?w = "sv_world sv"
  have w: "world_ok ?w" using ok by (simp add: server_ok_def)
  obtain ps cs where f: "fold (defeat_step ?w npc) (quests ?w) (players ?w, []) = (ps, cs)" by fastforce
  note pf = players_fold[OF w f]
  have s: "static_eq (?w\<lparr>players := ps\<rparr>) ?w" by (simp add: static_eq_def)
  have 1: "server_ok (set_world (?w\<lparr>players := ps\<rparr>) sv)"
    by (rule server_ok_set_world[OF ok pf(1) s pf(2)])
  have c: "\<forall>(pid, q, p) \<in> set cs. player_ok (?w\<lparr>players := ps\<rparr>) pid p" using pf(3) by (simp add: player_ok_static[OF s])
  have 2: "server_ok (fold (\<lambda>(_, _, p). save p) cs sv')" if "server_ok sv'" "sv_world sv' = ?w\<lparr>players := ps\<rparr>" for sv'
    using fold_save_ok[of sv' cs] that c by simp
  show "server_ok (on_npc_defeated pid npc sv)"
    using 1 2 f by (simp add: on_npc_defeated_def Let_def) (subst fold_complete_frame(6); fastforce)
  have e: "\<And>x sv. \<exists>p q t r. (case x of (who, qid, _) \<Rightarrow> complete_quest_and_notify who qid ''defeat'' npc) sv
      = complete_quest_and_notify p q t r sv" by (auto split: prod.splits)
  show "replies (on_npc_defeated pid npc sv) = replies sv" "sess (on_npc_defeated pid npc sv) = sess sv"
    using f by (simp_all add: on_npc_defeated_def Let_def fold_complete_frame[OF e] fold_save_frame)
qed

lemma on_npc_defeated_world:
  "sv_world (on_npc_defeated pid npc sv) =
     (sv_world sv)\<lparr>players := fst (fold (defeat_step (sv_world sv) npc) (quests (sv_world sv)) (players (sv_world sv), []))\<rparr>"
proof -
  have e: "\<And>x sv. \<exists>p q t r. (case x of (who, qid, _) \<Rightarrow> complete_quest_and_notify who qid ''defeat'' npc) sv
      = complete_quest_and_notify p q t r sv" by (auto split: prod.splits)
  show ?thesis by (simp add: on_npc_defeated_def Let_def fold_complete_frame[OF e] fold_save_frame split: prod.splits)
qed

subsection \<open>A connecting player\<close>

definition seed_quests :: "world \<Rightarrow> (string \<times> quest) list \<Rightarrow> (string \<times> string) list \<Rightarrow> (string \<times> string) list" where
  "seed_quests w = fold (\<lambda>(qid, quest) st. if count_key st qid then st else put qid (initial_status w quest) st)"

lemma seed_quests_simps [simp]:
  "seed_quests w [] st = st"
  "seed_quests w ((qid, quest) # qs) st =
     seed_quests w qs (if count_key st qid then st else put qid (initial_status w quest) st)"
  by (simp_all add: seed_quests_def)

lemma seed_distinct: "distinct (keys st) \<Longrightarrow> distinct (keys (seed_quests w qs st))"
  by (induction qs arbitrary: st) auto

lemma seed_lookup:
  "map_of (seed_quests w qs st) q =
     (case map_of st q of Some s \<Rightarrow> Some s | None \<Rightarrow> map_option (initial_status w) (map_of qs q))"
proof (induction qs arbitrary: st)
  case (Cons x qs)
  then show ?case by (cases x) (auto split: option.splits)
qed (simp split: option.splits)

lemma init_player_quests_ok:
  assumes "world_ok w" "player_ok w pid p"
  shows "player_ok w pid (init_player_quests_locked w p)"
    and "current_room (init_player_quests_locked w p) = current_room p"
    and "\<forall>q s. map_of (quest_status p) q = Some s \<longrightarrow> map_of (quest_status (init_player_quests_locked w p)) q = Some s"
    and "\<forall>q. count_key (quests w) q \<longrightarrow> count_key (quest_status (init_player_quests_locked w p)) q"
proof -
  have st: "distinct (keys (quest_status p))"
    "\<forall>q s. map_of (quest_status p) q = Some s \<longrightarrow> count_key (quests w) q \<and> (s = ''completed'' \<or> s = ''in_progress'')"
    using assms(2) by (simp_all add: player_ok_def)
  have e: "quest_status (init_player_quests_locked w p) = seed_quests w (quests w) (quest_status p)"
    by (simp add: init_player_quests_locked_def seed_quests_def)
  have "count_key (quests w) q \<and> (s = ''completed'' \<or> s = ''in_progress'')"
    if "map_of (seed_quests w (quests w) (quest_status p)) q = Some s" for q s
    using that st(2) by (auto simp: seed_lookup initial_status_def split: option.splits if_splits)
  then show "player_ok w pid (init_player_quests_locked w p)"
    using assms(2) seed_distinct[OF st(1)] unfolding player_ok_def e by (simp add: init_player_quests_locked_def)
  show "current_room (init_player_quests_locked w p) = current_room p" by (simp add: init_player_quests_locked_def)
  show "\<forall>q s. map_of (quest_status p) q = Some s \<longrightarrow> map_of (quest_status (init_player_quests_locked w p)) q = Some s"
    by (simp add: e seed_lookup)
  show "\<forall>q. count_key (quests w) q \<longrightarrow> count_key (quest_status (init_player_quests_locked w p)) q"
    by (auto simp: e seed_lookup split: option.splits)
qed

subsection \<open>The query commands\<close>

text \<open>What every handler is shown to do: it returns, keeps the invariant, and answers its own session
  with exactly one line that is not an event.\<close>

definition handled :: "nat \<Rightarrow> server \<Rightarrow> server option \<Rightarrow> bool" where
  "handled sid sv r = (\<exists>sv' m. r = Some sv' \<and> server_ok sv' \<and> \<not> is_event m \<and>
     replies sv' = replies sv @ (if connected (sess sv sid) then [(sid, m @ [NL])] else []))"

lemma handled_reply: "server_ok sv \<Longrightarrow> \<not> is_event m \<Longrightarrow> handled sid sv (Some (send_line sid m sv))"
  by (auto simp: handled_def)

lemma handledI:
  "server_ok sv' \<Longrightarrow> \<not> is_event m \<Longrightarrow>
   replies sv' = replies sv @ (if connected (sess sv sid) then [(sid, m @ [NL])] else []) \<Longrightarrow> handled sid sv (Some sv')"
  unfolding handled_def by blast

lemma handled_cong:
  "replies sv' = replies sv \<Longrightarrow> connected (sess sv' sid) = connected (sess sv sid) \<Longrightarrow>
   handled sid sv' r = handled sid sv r"
  unfolding handled_def by simp

lemma handled_guard:
  "server_ok sv \<Longrightarrow> (pid_of sv sid \<noteq> [] \<Longrightarrow> handled sid sv k) \<Longrightarrow> handled sid sv (guard_connected sid sv k)"
  by (auto simp: guard_connected_def intro: handled_reply)

text \<open>A handler that has sent its reply may go on with steps that keep the invariant and reply to no one.\<close>

lemma handled_after:
  assumes "handled sid sv (Some sv1)" "server_ok sv2" "replies sv2 = replies sv1"
  shows "handled sid sv (Some sv2)"
  using assms by (auto simp: handled_def)

lemma cmd_quests_handled:
  assumes "server_ok sv"
  shows "handled sid sv (cmd_quests sid sv)"
  unfolding cmd_quests_def
proof (rule handled_guard[OF assms])
  assume "pid_of sv sid \<noteq> []"
  from server_ok_player[OF assms this] obtain p where "map_of (players (sv_world sv)) (pid_of sv sid) = Some p" by blast
  then show "handled sid sv (do { let w = sv_world sv; player \<leftarrow> map_of (players w) (pid_of sv sid);
     Some (send_line sid (''OK '' @ arr (map (\<lambda>(qid, quest).
       obj [member ''id'' (quoted (q_id quest)), member ''name'' (quoted (json_escape (q_name quest))),
            member ''status'' (quoted (quest_status_of player qid))]) (quests w))) sv) })"
    by (auto simp: Let_def intro!: handled_reply assms)
qed

lemma cmd_quest_handled:
  assumes "server_ok sv"
  shows "handled sid sv (cmd_quest sid args sv)"
  unfolding cmd_quest_def
proof (rule handled_guard[OF assms])
  assume "pid_of sv sid \<noteq> []"
  from server_ok_player[OF assms this] obtain p where "map_of (players (sv_world sv)) (pid_of sv sid) = Some p" by blast
  then show "handled sid sv (if args = [] then Some (send_line sid ''ERR 200 BAD_MESSAGE QUEST requires an id'' sv)
     else (let w = sv_world sv in
       case map_of (quests w) (hd args) of
         None \<Rightarrow> Some (send_line sid (''ERR 404 QUEST_NOT_FOUND '' @ hd args) sv)
       | Some q \<Rightarrow> do {
           player \<leftarrow> map_of (players w) (pid_of sv sid);
           Some (send_line sid (''OK '' @ obj [member ''id'' (quoted (q_id q)),
             member ''name'' (quoted (json_escape (q_name q))),
             member ''description'' (quoted (json_escape (q_description q))),
             member ''type'' (quoted (quest_type_str (q_type q))),
             member ''status'' (quoted (quest_status_of player (hd args)))]) sv)
         }))"
    by (auto simp: Let_def intro!: handled_reply assms split: option.splits)
qed

end
