(* ===== verification/GroupCommands.thy ===== *)
theory GroupCommands
  imports QuestCommands
begin

text \<open>
  \<open>server/src/commands/group_commands.cpp\<close>: GROUP CREATE / INVITE / ACCEPT (alias JOIN) / LEAVE.
  \<open>membership\<close> is the abstract view of the two maps \<open>player_group\<close> and \<open>groups\<close>: the group of each
  player.  The operations refine updates of that function.
\<close>

definition player_group_at :: "world \<Rightarrow> string \<Rightarrow> string" where
  "player_group_at w pid = find_def (player_group w) pid []"

text \<open>Reading \<open>player_group[pid]\<close> inserts the empty string for a new player.\<close>

definition touch_group :: "string \<Rightarrow> world \<Rightarrow> world" where
  "touch_group pid w = w\<lparr>player_group := touch pid [] (player_group w)\<rparr>"

definition leave_group_locked :: "string \<Rightarrow> world \<Rightarrow> world" where
  "leave_group_locked pid w =
     (case map_of (player_group w) pid of
        None \<Rightarrow> w
      | Some g \<Rightarrow> if g = [] then w else
          (let members = erase_remove pid (find_def (groups w) g [])
           in w\<lparr>groups := (if members = [] then erase_key g (groups w) else put g members (groups w)),
                player_group := erase_key pid (player_group w)\<rparr>))"

definition create_locked :: "string \<Rightarrow> string list \<Rightarrow> world \<Rightarrow> string \<times> string \<times> world" where
  "create_locked pid args w =
     (let w0 = touch_group pid w in
      if player_group_at w0 pid \<noteq> [] then (''ERR 402 ALREADY_IN_GROUP'', [], w0)
      else (let requested_id = (if length args > 1 then args ! 1 else pid) in
        if count_key (groups w0) requested_id then (''ERR 201 NAME_IN_USE group name already taken'', [], w0)
        else (''OK '' @ obj [member ''created'' (quoted requested_id)], requested_id,
              w0\<lparr>player_group := put pid requested_id (player_group w0),
                 groups := put requested_id [pid] (groups w0)\<rparr>)))"

definition cmd_group_create :: handler where
  "cmd_group_create sid args sv =
     (let pid = pid_of sv sid in
      case create_locked pid args (sv_world sv) of (response, group_id, w) \<Rightarrow>
        let sv1 = send_line sid response (set_world w sv) in
        Some (if group_id \<noteq> [] then log_info ''group_created'' [(''player'', pid), (''group'', group_id)] sv1 else sv1))"

text \<open>\<open>std::multimap::emplace\<close>: after the entries with the same key.\<close>

definition emplace :: "string \<Rightarrow> string \<Rightarrow> (string \<times> string) list \<Rightarrow> (string \<times> string) list" where
  "emplace k v m = takeWhile (\<lambda>(a, _). a \<le> k) m @ (k, v) # dropWhile (\<lambda>(a, _). a \<le> k) m"

definition invite_locked :: "string \<Rightarrow> string \<Rightarrow> world \<Rightarrow> string \<times> string \<times> world" where
  "invite_locked pid target w =
     (if \<not> count_key (players w) target then (''ERR 404 PLAYER_NOT_FOUND '' @ target, [], w)
      else (let w0 = touch_group pid w; group_id = player_group_at w0 pid in
        if group_id = [] then (''ERR 401 NOT_IN_GROUP'', [], w0)
        else (''OK '' @ obj [member ''invited'' (quoted target)], group_id,
              w0\<lparr>pending_invites := emplace target group_id (pending_invites w0)\<rparr>)))"

definition cmd_group_invite :: handler where
  "cmd_group_invite sid args sv =
     (if length args < 2 then Some (send_line sid ''ERR 200 BAD_MESSAGE GROUP INVITE requires a player name'' sv)
      else (let pid = pid_of sv sid; target = args ! 1 in
        if target = pid then Some (send_line sid ''ERR 200 BAD_MESSAGE cannot invite yourself'' sv)
        else (case invite_locked pid target (sv_world sv) of (response, group_id, w) \<Rightarrow>
          let sv1 = send_line sid response (set_world w sv) in
          Some (if group_id = [] then sv1
            else log_info ''group_invite'' [(''inviter'', pid), (''invited'', target), (''group'', group_id)]
              (case registry_get sv1 target of
                 None \<Rightarrow> sv1
               | Some tsid \<Rightarrow> send_line tsid (''EVT GROUP INVITE '' @ obj [member ''inviter'' (quoted pid),
                   member ''invited'' (quoted target), member ''group'' (quoted group_id)]) sv1)))))"

text \<open>\<open>equal_range(pid).first == end()\<close> holds when no key of the multimap is at least \<open>pid\<close>.  The
  comparison of the loop's iterator after the entry was erased is taken as false.\<close>

definition accept_locked :: "string \<Rightarrow> string \<Rightarrow> world \<Rightarrow> string \<times> string \<times> world" where
  "accept_locked pid group_to_join w =
     (if list_all (\<lambda>(k, _). k < pid) (pending_invites w)
      then (''ERR 200 BAD_MESSAGE no pending invite for '' @ pid, [], w)
      else if (pid, group_to_join) \<in> set (pending_invites w)
      then (let w1 = leave_group_locked pid w in
        (''OK '' @ obj [member ''joined'' (quoted group_to_join)], group_to_join,
         w1\<lparr>groups := put group_to_join (find_def (groups w1) group_to_join [] @ [pid]) (groups w1),
            player_group := put pid group_to_join (player_group w1),
            pending_invites := remove1 (pid, group_to_join) (pending_invites w1)\<rparr>))
      else (''ERR 500 INTERNAL no invite from group '' @ group_to_join, [], w))"

definition cmd_group_accept :: handler where
  "cmd_group_accept sid args sv =
     (if length args < 2 then Some (send_line sid ''ERR 200 BAD_MESSAGE GROUP ACCEPT requires the group's name'' sv)
      else (let pid = pid_of sv sid in
        case accept_locked pid (args ! 1) (sv_world sv) of (response, group_id, w) \<Rightarrow>
          let sv1 = send_line sid response (set_world w sv) in
          Some (if group_id = [] then sv1
            else log_info ''group_join'' [(''player'', pid), (''group'', group_id)]
              (broadcast_to_group group_id pid (''EVT GROUP JOIN '' @
                 obj [member ''player'' (quoted pid), member ''group'' (quoted group_id)]) sv1))))"

definition cmd_group_leave :: "nat \<Rightarrow> server \<Rightarrow> server option" where
  "cmd_group_leave sid sv =
     (let pid = pid_of sv sid; w0 = touch_group pid (sv_world sv); group_id = player_group_at w0 pid;
          sv1 = send_line sid (''OK '' @ obj [member ''left'' (quoted group_id)]) (set_world (leave_group_locked pid w0) sv)
      in Some (if group_id = [] then sv1
        else log_info ''group_leave'' [(''player'', pid), (''group'', group_id)]
          (broadcast_to_group group_id [] (''EVT GROUP LEAVE '' @
             obj [member ''player'' (quoted pid), member ''group'' (quoted group_id)]) sv1)))"

definition cmd_group :: handler where
  "cmd_group sid args sv = guard_connected sid sv (
     if args = [] then Some (send_line sid ''ERR 200 BAD_MESSAGE GROUP requires a subcommand'' sv)
     else if hd args = ''CREATE'' then cmd_group_create sid args sv
     else if hd args = ''INVITE'' then cmd_group_invite sid args sv
     else if hd args = ''ACCEPT'' \<or> hd args = ''JOIN'' then cmd_group_accept sid args sv
     else if hd args = ''LEAVE'' then cmd_group_leave sid sv
     else Some (send_line sid (''ERR 200 BAD_MESSAGE unknown GROUP subcommand '' @ hd args) sv))"

subsection \<open>The abstract view\<close>

definition membership :: "world \<Rightarrow> string \<Rightarrow> string option" where
  "membership w pid = (if player_group_at w pid = [] then None else Some (player_group_at w pid))"

lemma membership_Some: "membership w pid = Some g \<longleftrightarrow> map_of (player_group w) pid = Some g \<and> g \<noteq> []"
  by (auto simp: membership_def player_group_at_def find_def_def split: option.splits if_splits)

lemma membership_None: "membership w pid = None \<longleftrightarrow> player_group_at w pid = []"
  by (simp add: membership_def)

lemma player_group_at_Some: "g \<noteq> [] \<Longrightarrow> player_group_at w pid = g \<longleftrightarrow> map_of (player_group w) pid = Some g"
  by (auto simp: player_group_at_def find_def_def split: option.splits)

text \<open>\<open>groups_ok\<close> in terms of the abstract view: \<open>groups\<close> lists each group's members once, and no group
  is empty.\<close>

definition group_exact :: "string list option \<Rightarrow> string set \<Rightarrow> bool" where
  "group_exact ms S = (case ms of None \<Rightarrow> S = {} | Some xs \<Rightarrow> xs \<noteq> [] \<and> distinct xs \<and> set xs = S)"

abbreviation members_of :: "world \<Rightarrow> string \<Rightarrow> string set" where
  "members_of w g \<equiv> {pid. membership w pid = Some g}"

lemma group_exact_simps [simp]:
  "group_exact None S = (S = {})" "group_exact (Some xs) S = (xs \<noteq> [] \<and> distinct xs \<and> set xs = S)"
  by (simp_all add: group_exact_def)

lemma groups_okD:
  assumes ok: "groups_ok w"
  shows "distinct (keys (player_group w))" "distinct (keys (groups w))"
    "\<forall>(t, g) \<in> set (pending_invites w). g \<noteq> []" "membership w pid = Some g \<Longrightarrow> count_key (players w) pid"
    "group_exact (map_of (groups w) g) (members_of w g)"
proof -
  show "distinct (keys (player_group w))" "distinct (keys (groups w))"
    "\<forall>(t, g) \<in> set (pending_invites w). g \<noteq> []" using ok by (simp_all add: groups_ok_def)
  have p: "count_key (players w) a \<and> (\<exists>ms. map_of (groups w) h = Some ms \<and> a \<in> set ms)"
    if "membership w a = Some h" for a h
    using ok that unfolding groups_ok_def membership_Some by blast
  show "membership w pid = Some g \<Longrightarrow> count_key (players w) pid" using p by blast
  show "group_exact (map_of (groups w) g) (members_of w g)"
  proof (cases "map_of (groups w) g")
    case None
    then have "membership w a \<noteq> Some g" for a using p[of a g] by auto
    with None show ?thesis by simp
  next
    case (Some ms)
    then have m: "g \<noteq> []" "ms \<noteq> []" "distinct ms" "\<And>a. a \<in> set ms \<Longrightarrow> map_of (player_group w) a = Some g"
      using ok unfolding groups_ok_def by blast+
    have "set ms = members_of w g"
    proof (intro set_eqI iffI)
      show "a \<in> members_of w g" if "a \<in> set ms" for a using m(1) m(4)[OF that] by (simp add: membership_Some)
      show "a \<in> set ms" if "a \<in> members_of w g" for a using p[of a g] that Some by auto
    qed
    with Some m show ?thesis by simp
  qed
qed

lemma groups_okI:
  assumes "distinct (keys (player_group w))" "distinct (keys (groups w))"
    "\<forall>(t, g) \<in> set (pending_invites w). g \<noteq> []" "\<And>pid g. membership w pid = Some g \<Longrightarrow> count_key (players w) pid"
    and e: "\<And>g. group_exact (map_of (groups w) g) (members_of w g)"
  shows "groups_ok w"
proof -
  have "count_key (players w) pid \<and> (\<exists>ms. map_of (groups w) g = Some ms \<and> pid \<in> set ms)" if "membership w pid = Some g" for pid g
  proof -
    have "members_of w g \<noteq> {}" using that by blast
    then obtain ms where "map_of (groups w) g = Some ms" using e[of g] by (cases "map_of (groups w) g") auto
    then show ?thesis using e[of g] assms(4)[OF that] that by simp
  qed
  moreover have "g \<noteq> [] \<and> ms \<noteq> [] \<and> distinct ms \<and> (\<forall>pid \<in> set ms. membership w pid = Some g)" if "map_of (groups w) g = Some ms" for g ms
  proof -
    have *: "ms \<noteq> []" "distinct ms" "set ms = members_of w g" using e[of g] that by simp_all
    then have "membership w (hd ms) = Some g" using hd_in_set[of ms] by blast
    then have "g \<noteq> []" by (simp add: membership_Some)
    with * show ?thesis by blast
  qed
  ultimately show "groups_ok w" using assms(1-3) unfolding groups_ok_def membership_Some by blast
qed

lemma groups_members:
  assumes "groups_ok w"
  shows "set (find_def (groups w) g []) = members_of w g" "distinct (find_def (groups w) g [])"
  using groups_okD(5)[OF assms, of g] by (cases "map_of (groups w) g"; simp add: find_def_def)+

subsection \<open>The operations refine updates of the membership\<close>

lemma touch_group_frame [simp]:
  "players (touch_group pid w) = players w" "rooms (touch_group pid w) = rooms w" "items (touch_group pid w) = items w"
  "npcs (touch_group pid w) = npcs w" "quests (touch_group pid w) = quests w" "groups (touch_group pid w) = groups w"
  "pending_invites (touch_group pid w) = pending_invites w" "player_group_at (touch_group pid w) = player_group_at w"
  "membership (touch_group pid w) = membership w"
  by (auto simp: touch_group_def player_group_at_def membership_def fun_eq_iff)

lemma touch_group_ok: "groups_ok w \<Longrightarrow> groups_ok (touch_group pid w)"
  by (rule groups_okI) (use groups_okD[of w] in \<open>simp_all add: touch_group_def[of pid w]
    touch_group_frame(9)[of pid w, unfolded touch_group_def]\<close>)

lemma membership_invites [simp]: "membership (w\<lparr>pending_invites := i\<rparr>) = membership w"
  by (simp add: membership_def player_group_at_def fun_eq_iff)

lemma set_invites_ok:
  "groups_ok w \<Longrightarrow> \<forall>(t, g) \<in> set i. g \<noteq> [] \<Longrightarrow> groups_ok (w\<lparr>pending_invites := i\<rparr>)"
  by (rule groups_okI) (use groups_okD[of w] in simp_all)

lemma leave_frame [simp]:
  "players (leave_group_locked pid w) = players w" "rooms (leave_group_locked pid w) = rooms w"
  "items (leave_group_locked pid w) = items w" "npcs (leave_group_locked pid w) = npcs w"
  "quests (leave_group_locked pid w) = quests w" "pending_invites (leave_group_locked pid w) = pending_invites w"
  by (auto simp: leave_group_locked_def Let_def split: option.splits)

lemma leave_membership: "membership (leave_group_locked pid w) = (membership w)(pid := None)"
  by (auto simp: leave_group_locked_def membership_def player_group_at_def find_def_def Let_def fun_eq_iff split: option.splits)

lemma leave_groups:
  assumes "membership w pid = Some g"
  shows "groups (leave_group_locked pid w) =
    (let ms = erase_remove pid (find_def (groups w) g []) in if ms = [] then erase_key g (groups w) else put g ms (groups w))"
  using assms unfolding membership_Some by (simp add: leave_group_locked_def Let_def)

lemma leave_idle: "membership w pid = None \<Longrightarrow> leave_group_locked pid w = w"
  by (auto simp: membership_None player_group_at_def find_def_def leave_group_locked_def split: option.splits)

lemma leave_group_ok:
  assumes ok: "groups_ok w"
  shows "groups_ok (leave_group_locked pid w)"
proof (cases "membership w pid")
  case None
  then show ?thesis using ok by (simp add: leave_idle)
next
  case (Some g)
  let ?w = "leave_group_locked pid w" and ?ms = "erase_remove pid (find_def (groups w) g [])"
  note m = groups_members[OF ok, of g]
  have s: "set ?ms = {p. membership ?w p = Some g}" "distinct ?ms"
    using m by (auto simp: leave_membership distinct_removeAll)
  have e: "group_exact (map_of (groups ?w) h) (members_of ?w h)" for h
  proof (cases "h = g")
    case True
    have g: "map_of (groups ?w) g = (if ?ms = [] then None else Some ?ms)"
      by (simp add: leave_groups[OF Some] Let_def)
    show ?thesis
    proof (cases "?ms = []")
      case True
      then have "members_of ?w g = {}" using s(1) by (metis empty_set)
      then show ?thesis using g True \<open>h = g\<close> by (simp only: if_True group_exact_simps simp_thms)
    next
      case False
      then show ?thesis unfolding \<open>h = g\<close> using g s by (simp only: if_False group_exact_simps simp_thms)
    qed
  next
    case False
    have "map_of (groups ?w) h = map_of (groups w) h" using False by (simp add: leave_groups[OF Some] Let_def)
    moreover have "members_of ?w h = members_of w h" using Some False by (auto simp: leave_membership)
    ultimately show ?thesis using groups_okD(5)[OF ok, of h] by simp
  qed
  have d: "distinct (keys (player_group ?w))" "distinct (keys (groups ?w))"
    using groups_okD(1,2)[OF ok] by (auto simp: leave_group_locked_def Let_def split: option.splits)
  have p: "count_key (players ?w) a" if "membership ?w a = Some h" for a h
    using that groups_okD(4)[OF ok, of a h] by (simp add: leave_membership split: if_splits)
  show ?thesis by (rule groups_okI) (use d e p groups_okD(3)[OF ok] in simp_all)
qed

text \<open>Putting a player without a group into a group, the common part of CREATE and ACCEPT.\<close>

lemma join_group_ok:
  assumes ok: "groups_ok w" and g: "g \<noteq> []" and free: "membership w pid = None" and on: "count_key (players w) pid"
    and w': "w' = w\<lparr>groups := put g (find_def (groups w) g [] @ [pid]) (groups w), player_group := put pid g (player_group w),
      pending_invites := ivs\<rparr>" and ivs: "set ivs \<subseteq> set (pending_invites w)"
  shows "groups_ok w'" and "membership w' = (membership w)(pid \<mapsto> g)"
proof -
  show mem: "membership w' = (membership w)(pid \<mapsto> g)"
    using g by (auto simp: w' membership_def player_group_at_def find_def_def fun_eq_iff)
  have e: "group_exact (map_of (groups w') h) (members_of w' h)" for h
  proof (cases "h = g")
    case True
    have "map_of (groups w') h = Some (find_def (groups w) g [] @ [pid])" using True by (simp add: w')
    then show ?thesis using True free groups_members[OF ok, of g] by (auto simp: mem)
  next
    case False
    have "map_of (groups w') h = map_of (groups w) h" using False by (simp add: w')
    moreover have "members_of w' h = members_of w h" using False free by (auto simp: mem)
    ultimately show ?thesis using groups_okD(5)[OF ok, of h] by simp
  qed
  have d: "distinct (keys (player_group w'))" "distinct (keys (groups w'))"
    using groups_okD(1,2)[OF ok] by (simp_all add: w')
  have p: "count_key (players w') a" if "membership w' a = Some h" for a h
  proof -
    have "a = pid \<or> membership w a = Some h" using that unfolding mem by (auto split: if_splits)
    then have "count_key (players w) a" using on groups_okD(4)[OF ok, of a h] by blast
    then show ?thesis by (simp add: w')
  qed
  have i: "\<forall>(t, g) \<in> set (pending_invites w'). g \<noteq> []" using groups_okD(3)[OF ok] ivs by (auto simp: w')
  show "groups_ok w'" by (rule groups_okI) (use d e p i in simp_all)
qed

lemma create_locked_ok:
  assumes ok: "groups_ok w" and on: "count_key (players w) pid" and pid: "pid \<noteq> []" and args: "[] \<notin> set args"
    and r: "create_locked pid args w = (response, g, w')"
  shows "groups_ok w'" "\<not> is_event response"
    "g \<noteq> [] \<Longrightarrow> membership w pid = None \<and> (\<forall>p. membership w p \<noteq> Some g) \<and> membership w' = (membership w)(pid \<mapsto> g) \<and>
       map_of (groups w') g = Some [pid]"
    "g = [] \<Longrightarrow> membership w' = membership w"
proof -
  let ?w0 = "touch_group pid w" and ?g = "if length args > 1 then args ! 1 else pid"
  have g: "?g \<noteq> []" using pid args by (metis nth_mem)
  consider (fail) "g = []" "w' = ?w0" "\<not> is_event response"
    | (ok) "g = ?g" "player_group_at w pid = []" "\<not> count_key (groups w) ?g" "\<not> is_event response"
      "w' = ?w0\<lparr>player_group := put pid ?g (player_group ?w0), groups := put ?g [pid] (groups ?w0)\<rparr>"
    using r g unfolding create_locked_def Let_def by (auto split: if_splits)
  then have "groups_ok w' \<and> \<not> is_event response \<and> (g \<noteq> [] \<longrightarrow> membership w pid = None \<and> (\<forall>p. membership w p \<noteq> Some g) \<and>
      membership w' = (membership w)(pid \<mapsto> g) \<and> map_of (groups w') g = Some [pid]) \<and> (g = [] \<longrightarrow> membership w' = membership w)"
  proof cases
    case fail
    then show ?thesis using touch_group_ok[OF ok] by simp
  next
    case ok': ok
    have n: "find_def (groups w) g [] = []" using ok' by (simp add: find_def_def)
    have eq: "w' = ?w0\<lparr>groups := put g (find_def (groups ?w0) g [] @ [pid]) (groups ?w0), player_group := put pid g (player_group ?w0),
      pending_invites := pending_invites ?w0\<rparr>" using ok' n by simp
    have fr: "membership ?w0 pid = None" using ok' by (simp add: membership_None)
    have gn: "g \<noteq> []" using ok' g by simp
    note j = join_group_ok[OF touch_group_ok[OF ok, of pid] gn fr _ eq subset_refl]
    have "\<forall>p. membership w p \<noteq> Some g" using groups_members(1)[OF ok, of g] n by auto
    then show ?thesis using j on fr gn ok' by simp
  qed
  then show "groups_ok w'" "\<not> is_event response"
    "g \<noteq> [] \<Longrightarrow> membership w pid = None \<and> (\<forall>p. membership w p \<noteq> Some g) \<and> membership w' = (membership w)(pid \<mapsto> g) \<and>
       map_of (groups w') g = Some [pid]"
    "g = [] \<Longrightarrow> membership w' = membership w" by blast+
qed

lemma accept_locked_ok:
  assumes ok: "groups_ok w" and on: "count_key (players w) pid"
    and r: "accept_locked pid join w = (response, g, w')"
  shows "groups_ok w'" "\<not> is_event response"
    "g \<noteq> [] \<Longrightarrow> g = join \<and> membership w' = (membership w)(pid \<mapsto> g)" "g = [] \<Longrightarrow> w' = w"
proof -
  let ?w1 = "leave_group_locked pid w"
  have "groups_ok w' \<and> \<not> is_event response \<and> (g \<noteq> [] \<longrightarrow> g = join \<and> membership w' = (membership w)(pid \<mapsto> g)) \<and> (g = [] \<longrightarrow> w' = w)"
  proof (cases "(pid, join) \<in> set (pending_invites w) \<and> \<not> list_all (\<lambda>(k, _). k < pid) (pending_invites w)")
    case True
    then have eq: "w' = ?w1\<lparr>groups := put join (find_def (groups ?w1) join [] @ [pid]) (groups ?w1),
        player_group := put pid join (player_group ?w1), pending_invites := remove1 (pid, join) (pending_invites ?w1)\<rparr>"
      and g: "g = join" "\<not> is_event response"
      using r by (auto simp: accept_locked_def Let_def)
    have jn: "join \<noteq> []" using groups_okD(3)[OF ok] True by blast
    have fr: "membership ?w1 pid = None" by (simp add: leave_membership)
    note j = join_group_ok[OF leave_group_ok[OF ok, of pid] jn fr _ eq set_remove1_subset]
    then show ?thesis using on g jn by (simp add: leave_membership)
  next
    case False
    then show ?thesis using r ok by (auto simp: accept_locked_def split: if_splits)
  qed
  then show "groups_ok w'" "\<not> is_event response"
    "g \<noteq> [] \<Longrightarrow> g = join \<and> membership w' = (membership w)(pid \<mapsto> g)" "g = [] \<Longrightarrow> w' = w" by blast+
qed

lemma set_emplace: "set (emplace k v m) = insert (k, v) (set m)"
proof -
  let ?P = "\<lambda>(a, _). a \<le> k"
  have "set m = set (takeWhile ?P m) \<union> set (dropWhile ?P m)" by (metis set_append takeWhile_dropWhile_id)
  then show ?thesis by (auto simp: emplace_def)
qed

lemma invite_locked_ok:
  assumes ok: "groups_ok w" and r: "invite_locked pid target w = (response, g, w')"
  shows "groups_ok w'" "\<not> is_event response" "membership w' = membership w"
    "g \<noteq> [] \<Longrightarrow> membership w pid = Some g \<and> (target, g) \<in> set (pending_invites w')"
proof -
  let ?w0 = "touch_group pid w"
  have "groups_ok (?w0\<lparr>pending_invites := emplace target h (pending_invites ?w0)\<rparr>)" if "h \<noteq> []" for h
    by (rule set_invites_ok[OF touch_group_ok[OF ok]]) (use that groups_okD(3)[OF ok] in \<open>simp add: set_emplace\<close>)
  then have "groups_ok w' \<and> \<not> is_event response \<and> membership w' = membership w \<and>
      (g \<noteq> [] \<longrightarrow> membership w pid = Some g \<and> (target, g) \<in> set (pending_invites w'))"
    using r touch_group_ok[OF ok, of pid] ok
    by (auto simp: invite_locked_def Let_def set_emplace membership_def player_group_at_def fun_eq_iff split: if_splits)
       (auto simp: touch_group_def)
  then show "groups_ok w'" "\<not> is_event response" "membership w' = membership w"
    "g \<noteq> [] \<Longrightarrow> membership w pid = Some g \<and> (target, g) \<in> set (pending_invites w')" by blast+
qed

subsection \<open>The commands\<close>

text \<open>Updates of the group maps alone.\<close>

definition groups_only :: "world \<Rightarrow> world \<Rightarrow> bool" where
  "groups_only w' w = (rooms w' = rooms w \<and> items w' = items w \<and> npcs w' = npcs w \<and> quests w' = quests w \<and> players w' = players w)"

lemma world_ok_groups:
  assumes "world_ok w" "groups_only w' w" "groups_ok w'"
  shows "world_ok w'"
proof -
  have s: "static_eq w' w" using assms(2) by (simp add: static_eq_def groups_only_def)
  have "rooms_ok w'" "quests_ok w'" "npcs_ok w'" "players_ok w'" "balance_ok w'" "ids_clean w'"
    using assms(1,2) unfolding world_ok_def world_data_ok_def rooms_ok_def quests_ok_def npcs_ok_def players_ok_def
      balance_ok_def groups_only_def
    by (simp_all add: room_ok_static[OF s] quest_ok_static[OF s] player_ok_static[OF s] ids_clean_static[OF s])
  then show ?thesis using assms by (simp add: world_ok_def world_data_ok_def groups_only_def)
qed

lemma server_ok_groups:
  assumes "server_ok sv" "groups_only w' (sv_world sv)" "groups_ok w'"
  shows "server_ok (set_world w' sv)"
proof (rule server_ok_set_world[OF assms(1)])
  show "world_ok w'" using assms by (intro world_ok_groups[OF _ assms(2,3)]) (simp add: server_ok_def)
  show "static_eq w' (sv_world sv)" using assms(2) by (simp add: static_eq_def groups_only_def)
  show "room_of w' = room_of (sv_world sv)" using assms(2) by (simp add: room_of_def groups_only_def fun_eq_iff)
qed

lemma server_groups_ok: "server_ok sv \<Longrightarrow> groups_ok (sv_world sv)"
  by (simp add: server_ok_def world_ok_def)

lemma online_count:
  assumes "server_ok sv" "pid_of sv sid \<noteq> []"
  shows "count_key (players (sv_world sv)) (pid_of sv sid)"
  using server_ok_player[OF assms] by auto

lemma groups_only_simps [simp]:
  "groups_only (touch_group pid w) w" "groups_only (leave_group_locked pid w) w"
  "groups_only w w"
  by (simp_all add: groups_only_def)

lemma groups_only_locked:
  "create_locked pid args w = (r, g, w') \<Longrightarrow> groups_only w' w"
  "invite_locked pid target w = (r, g, w') \<Longrightarrow> groups_only w' w"
  "accept_locked pid join w = (r, g, w') \<Longrightarrow> groups_only w' w"
  by (auto simp: create_locked_def invite_locked_def accept_locked_def groups_only_def Let_def split: if_splits)

text \<open>The shape shared by the handlers: a locked section, a reply, then events and log records.\<close>

lemma handled_locked:
  assumes "server_ok (set_world w sv)" "\<not> is_event m"
    and "server_ok sv2" "replies sv2 = replies (send_line sid m (set_world w sv))"
  shows "handled sid sv (Some sv2)"
  using assms by (auto simp: handled_def)

lemma cmd_group_create_handled:
  assumes ok: "server_ok sv" and pid: "pid_of sv sid \<noteq> []" and args: "\<forall>t \<in> set args. word_ok t"
  shows "handled sid sv (cmd_group_create sid args sv)"
proof -
  obtain r g w where c: "create_locked (pid_of sv sid) args (sv_world sv) = (r, g, w)"
    by (cases "create_locked (pid_of sv sid) args (sv_world sv)")
  have "[] \<notin> set args" using args word_not_nil by blast
  note l = create_locked_ok[OF server_groups_ok[OF ok] online_count[OF ok pid] pid this c]
  have "server_ok (set_world w sv)" by (rule server_ok_groups[OF ok groups_only_locked(1)[OF c] l(1)])
  then show ?thesis using l(2) by (auto simp: cmd_group_create_def c Let_def intro: handled_locked)
qed

lemma cmd_group_invite_handled:
  assumes ok: "server_ok sv" and pid: "pid_of sv sid \<noteq> []"
  shows "handled sid sv (cmd_group_invite sid args sv)"
proof -
  obtain r g w where c: "invite_locked (pid_of sv sid) (args ! 1) (sv_world sv) = (r, g, w)"
    by (cases "invite_locked (pid_of sv sid) (args ! 1) (sv_world sv)")
  note l = invite_locked_ok[OF server_groups_ok[OF ok] c]
  have "server_ok (set_world w sv)" by (rule server_ok_groups[OF ok groups_only_locked(2)[OF c] l(1)])
  then show ?thesis using l(2) ok
    by (auto simp: cmd_group_invite_def c[simplified] Let_def handled_reply[OF ok] intro!: handled_locked[of w sv r] split: option.splits)
qed

lemma cmd_group_accept_handled:
  assumes ok: "server_ok sv" and pid: "pid_of sv sid \<noteq> []"
  shows "handled sid sv (cmd_group_accept sid args sv)"
proof -
  obtain r g w where c: "accept_locked (pid_of sv sid) (args ! 1) (sv_world sv) = (r, g, w)"
    by (cases "accept_locked (pid_of sv sid) (args ! 1) (sv_world sv)")
  note l = accept_locked_ok[OF server_groups_ok[OF ok] online_count[OF ok pid] c]
  have "server_ok (set_world w sv)" by (rule server_ok_groups[OF ok groups_only_locked(3)[OF c] l(1)])
  then show ?thesis using l(2) ok
    by (auto simp: cmd_group_accept_def c[simplified] Let_def handled_reply[OF ok] intro!: handled_locked[of w sv r])
qed

lemma cmd_group_leave_handled:
  assumes ok: "server_ok sv"
  shows "handled sid sv (cmd_group_leave sid sv)"
proof -
  let ?w = "leave_group_locked (pid_of sv sid) (touch_group (pid_of sv sid) (sv_world sv))"
  have "server_ok (set_world ?w sv)"
    by (rule server_ok_groups[OF ok _ leave_group_ok[OF touch_group_ok[OF server_groups_ok[OF ok]]]])
      (simp add: groups_only_def)
  then show ?thesis by (auto simp: cmd_group_leave_def Let_def intro!: handled_locked)
qed

lemma cmd_group_handled:
  assumes ok: "server_ok sv" and args: "\<forall>t \<in> set args. word_ok t"
  shows "handled sid sv (cmd_group sid args sv)"
  unfolding cmd_group_def
  by (rule handled_guard[OF ok])
    (simp add: handled_reply ok args cmd_group_create_handled cmd_group_invite_handled cmd_group_accept_handled
      cmd_group_leave_handled)

end
