(* ===== verification/ItemCommands.thy ===== *)
theory ItemCommands
  imports GroupCommands
begin

text \<open>
  \<open>server/src/commands/item_commands.cpp\<close>: TAKE, DROP, USE and INVENTORY.  \<open>int\<close> additions that could
  overflow go through \<open>int_checked\<close>: overflow is undefined behaviour, the value \<open>None\<close>.
\<close>

definition int_checked :: "int \<Rightarrow> int option" where
  "int_checked i = (if INT_MIN \<le> i \<and> i \<le> INT_MAX then Some i else None)"

text \<open>What a locked section hands to the rest of its handler: the reply, what was done, the world.\<close>

type_synonym 'a locked = "(string \<times> 'a option \<times> world) option"

definition take_locked :: "string \<Rightarrow> string \<Rightarrow> world \<Rightarrow> (string \<times> player_state) locked" where
  "take_locked pid ref w = do {
     player \<leftarrow> map_of (players w) pid;
     room \<leftarrow> map_of (rooms w) (current_room player);
     let item_id = resolve_item_ref_locked w (item_instance_ids room) ref;
     Some (if item_id = [] then (''ERR 404 ITEM_NOT_FOUND '' @ ref, None, w)
       else let room' = room\<lparr>item_instance_ids := erase_remove item_id (item_instance_ids room)\<rparr>;
                taker = player\<lparr>inventory := inventory player @ [item_id]\<rparr>
            in (''OK '' @ obj [member ''taken'' (quoted item_id)], Some (item_id, taker),
                upd_player pid taker (upd_room (current_room player) room' w)))
   }"

definition cmd_take :: handler where
  "cmd_take sid args sv = guard_connected sid sv (
     if args = [] then Some (send_line sid ''ERR 200 BAD_MESSAGE TAKE requires an item'' sv)
     else let pid = pid_of sv sid in do {
       (response, taken, w) \<leftarrow> take_locked pid (join_from args 0) (sv_world sv);
       let sv1 = send_line sid response (set_world w sv);
       Some (case taken of None \<Rightarrow> sv1
         | Some (taken_id, taker) \<Rightarrow> on_item_taken pid taken_id
             (log_info ''item_taken'' [(''player'', pid), (''item'', taken_id)] (save taker sv1)))
     })"

definition drop_locked :: "string \<Rightarrow> string \<Rightarrow> world \<Rightarrow> (string \<times> player_state) locked" where
  "drop_locked pid ref w = do {
     player \<leftarrow> map_of (players w) pid;
     room \<leftarrow> map_of (rooms w) (current_room player);
     let item_id = resolve_item_ref_locked w (inventory player) ref;
     Some (if item_id = [] then (''ERR 404 ITEM_NOT_IN_INVENTORY '' @ ref, None, w)
       else let dropper = player\<lparr>inventory := erase_remove item_id (inventory player)\<rparr>;
                room' = room\<lparr>item_instance_ids := item_instance_ids room @ [item_id]\<rparr>
            in (''OK '' @ obj [member ''dropped'' (quoted item_id)], Some (item_id, dropper),
                upd_player pid dropper (upd_room (current_room player) room' w)))
   }"

definition cmd_drop :: handler where
  "cmd_drop sid args sv = guard_connected sid sv (
     if args = [] then Some (send_line sid ''ERR 200 BAD_MESSAGE DROP requires an item'' sv)
     else let pid = pid_of sv sid in do {
       (response, dropped, w) \<leftarrow> drop_locked pid (join_from args 0) (sv_world sv);
       let sv1 = send_line sid response (set_world w sv);
       Some (case dropped of None \<Rightarrow> sv1
         | Some (dropped_id, dropper) \<Rightarrow>
             log_info ''item_dropped'' [(''player'', pid), (''item'', dropped_id)] (save dropper sv1))
     })"

text \<open>The two kinds of use: item and amount; item, NPC, damage, hit points left and whether it died.\<close>

datatype use_effect = Healed string int | Damaged string string int int bool

definition use_locked :: "string \<Rightarrow> string \<Rightarrow> string \<Rightarrow> world \<Rightarrow> (use_effect \<times> string \<times> player_state) locked" where
  "use_locked pid item_ref target_ref w = do {
     player \<leftarrow> map_of (players w) pid;
     if hp player \<le> 0 then Some (''ERR 409 DEAD you are down, cannot use items'', None, w)
     else let item_id = resolve_item_ref_locked w (inventory player) item_ref in
     if item_id = [] then Some (''ERR 404 ITEM_NOT_IN_INVENTORY '' @ item_ref, None, w)
     else do {
       it \<leftarrow> map_of (items w) item_id;
       let room_id = current_room player;
       let amount = effect_amount it;
       let used = player\<lparr>inventory := erase_remove item_id (inventory player)\<rparr>;
       case effect it of
         EffHeal \<Rightarrow> do {
           raised \<leftarrow> int_checked (hp player + amount);
           let user = used\<lparr>hp := min (max_hp player) raised\<rparr>;
           Some (''OK '' @ obj [member ''used'' (quoted item_id), member ''effect'' (obj
               [member ''healed'' (show_int amount), member ''hp'' (show_int (hp user))])],
             Some (Healed item_id amount, room_id, user), upd_player pid user w)
         }
       | EffDamage \<Rightarrow>
           if target_ref = [] then Some (''ERR 200 BAD_MESSAGE USE '' @ item_ref @ '' requires a target'', None, w)
           else do {
             room \<leftarrow> map_of (rooms w) room_id;
             let npc_id = resolve_npc_ref_locked w (npc_ids room) target_ref;
             if npc_id = [] then Some (''ERR 404 NPC_NOT_FOUND '' @ target_ref, None, w)
             else do {
               n \<leftarrow> map_of (npcs w) npc_id;
               left \<leftarrow> int_checked (np_hp n - amount);
               let target_hp = max 0 left;
               let npc_died = target_hp \<le> 0;
               let room' = (if npc_died then room\<lparr>npc_ids := erase_remove npc_id (npc_ids room)\<rparr> else room);
               Some (''OK '' @ obj [member ''used'' (quoted item_id), member ''effect'' (obj
                   [member ''target'' (quoted npc_id), member ''damage_dealt'' (show_int amount),
                    member ''target_hp'' (show_int target_hp)])],
                 Some (Damaged item_id npc_id amount target_hp npc_died, room_id, used),
                 upd_player pid used (upd_room room_id room' (upd_npc npc_id (n\<lparr>np_hp := target_hp\<rparr>) w)))
             }
           }
       | EffNone \<Rightarrow> Some (''ERR 200 BAD_MESSAGE '' @ item_ref @ '' cannot be used'', None, w)
     }
   }"

definition npc_event :: "string \<Rightarrow> string \<Rightarrow> string" where
  "npc_event pid npc_id = obj [member ''player'' (quoted pid), member ''npc'' (quoted npc_id)]"

definition combat_event :: "string \<Rightarrow> string \<Rightarrow> int \<Rightarrow> int \<Rightarrow> string" where
  "combat_event pid npc_id damage health =
     obj [member ''player'' (quoted pid), member ''npc'' (quoted npc_id),
          member ''damage'' (quoted (show_int damage)), member ''health'' (quoted (show_int health))]"

text \<open>The end of USE and ATTACK when the target died or not (the same code in both files).\<close>

definition announce_hit :: "string \<Rightarrow> string \<Rightarrow> string \<Rightarrow> int \<Rightarrow> int \<Rightarrow> bool \<Rightarrow> server \<Rightarrow> server" where
  "announce_hit pid room_id npc_id damage target_hp npc_died sv =
     (if npc_died then on_npc_defeated pid npc_id
         (log_info ''npc_defeated'' [(''player'', pid), (''npc'', npc_id)]
           (broadcast_to_room room_id [] (''EVT ROOM COMBAT_DEATH_NPC '' @ npc_event pid npc_id) sv))
      else broadcast_to_room room_id pid (''EVT ROOM COMBAT '' @ combat_event pid npc_id damage target_hp) sv)"

definition cmd_use :: handler where
  "cmd_use sid args sv = guard_connected sid sv (
     if args = [] then Some (send_line sid ''ERR 200 BAD_MESSAGE USE requires an item'' sv)
     else let pid = pid_of sv sid in do {
       (response, used, w) \<leftarrow> use_locked pid (hd args) (if length args > 1 then join_from args 1 else []) (sv_world sv);
       let sv1 = send_line sid response (set_world w sv);
       Some (case used of None \<Rightarrow> sv1
         | Some (Healed item_id amount, room_id, user) \<Rightarrow>
             broadcast_to_room room_id pid
               (''EVT ROOM ITEM_USE '' @ obj [member ''player'' (quoted pid), member ''item'' (quoted item_id)])
               (log_info ''item_used'' [(''player'', pid), (''item'', item_id), (''effect'', ''heal''),
                  (''amount'', show_int amount)] (save user sv1))
         | Some (Damaged item_id npc_id damage target_hp npc_died, room_id, user) \<Rightarrow>
             announce_hit pid room_id npc_id damage target_hp npc_died
               (log_info ''item_used'' [(''player'', pid), (''item'', item_id), (''effect'', ''damage''),
                  (''target'', npc_id), (''damage'', show_int damage)] (save user sv1)))
     })"

definition cmd_inventory :: "nat \<Rightarrow> server \<Rightarrow> server option" where
  "cmd_inventory sid sv = guard_connected sid sv (do {
     player \<leftarrow> map_of (players (sv_world sv)) (pid_of sv sid);
     Some (send_line sid (''OK '' @ arr (map quoted (inventory player))) sv)
   })"

subsection \<open>What the locked sections do\<close>

text \<open>The common outcome: a well-formed world with the same static ids and places, a reply, and a
  well-formed state to save.\<close>

definition locked_ok :: "string \<Rightarrow> world \<Rightarrow> string \<Rightarrow> player_state option \<Rightarrow> world \<Rightarrow> bool" where
  "locked_ok pid w response saved w' = (world_ok w' \<and> static_eq w' w \<and> room_of w' = room_of w \<and> \<not> is_event response \<and>
     (\<forall>p. saved = Some p \<longrightarrow> player_ok w pid p \<and> map_of (players w') pid = Some p))"

lemma locked_ok_same: "world_ok w \<Longrightarrow> \<not> is_event r \<Longrightarrow> locked_ok pid w r None w"
  by (simp add: locked_ok_def)

lemma locked_ok_server:
  assumes ok: "server_ok sv" and l: "locked_ok pid (sv_world sv) r saved w"
  shows "server_ok (set_world w sv)" "\<not> is_event r"
    "saved = Some p \<Longrightarrow> server_ok (save p (send_line sid r (set_world w sv)))"
proof -
  note l' = l[unfolded locked_ok_def]
  have s: "server_ok (set_world w sv)" by (rule server_ok_set_world[OF ok]) (use l' in auto)
  then show "server_ok (set_world w sv)" .
  show "\<not> is_event r" using l' by blast
  assume "saved = Some p"
  then have "player_ok w pid p" using l' player_ok_static[of w "sv_world sv"] by blast
  then show "server_ok (save p (send_line sid r (set_world w sv)))"
    by (intro server_ok_save[of _ pid]) (simp_all add: s)
qed

lemma world_ok_room_items:
  assumes "world_ok w" "map_of (rooms w) rid = Some r" "set is \<subseteq> set (item_instance_ids r) \<union> {i. count_key (items w) i}"
    "set ns \<subseteq> set (npc_ids r)"
  shows "world_ok (upd_room rid (r\<lparr>item_instance_ids := is, npc_ids := ns\<rparr>) w)"
  by (rule world_ok_upd_room[OF assms(1)]) (use assms world_ok_room[OF assms(1,2)] in \<open>auto simp: room_ok_def\<close>)

lemma player_ok_inventory:
  assumes "player_ok w pid p" "set inv' \<subseteq> set (inventory p) \<union> {i. count_key (items w) i}"
  shows "player_ok w pid (p\<lparr>inventory := inv'\<rparr>)"
  using assms unfolding player_ok_def by auto

lemma resolve_item_known:
  assumes "resolve_item_ref_locked w cs ref \<noteq> []"
  shows "resolve_item_ref_locked w cs ref \<in> set cs"
  by (rule item_ref.resolve_in[OF assms])

lemma resolve_npc_known:
  assumes "resolve_npc_ref_locked w cs ref \<noteq> []"
  shows "resolve_npc_ref_locked w cs ref \<in> set cs"
  by (rule npc_ref.resolve_in[OF assms])

lemma locked_ok_player_room:
  assumes w: "world_ok w" and p: "map_of (players w) pid = Some p" and r: "map_of (rooms w) (current_room p) = Some r"
    and p': "player_ok w pid p'" "current_room p' = current_room p"
    and r': "world_ok (upd_room (current_room p) r' w)" and m: "\<not> is_event m"
  shows "locked_ok pid w m (Some p') (upd_player pid p' (upd_room (current_room p) r' w))"
proof -
  have s: "static_eq (upd_room (current_room p) r' w) w" by (rule static_upd_room) (simp add: r)
  have "world_ok (upd_player pid p' (upd_room (current_room p) r' w))"
    by (rule world_ok_upd_player[OF r']) (simp add: player_ok_static[OF s] p')
  then show ?thesis using m p' static_eq_trans[OF static_upd_player s]
    by (simp add: locked_ok_def room_of_self[OF p])
qed

lemma take_locked_ok:
  assumes w: "world_ok w" and p: "map_of (players w) pid = Some p"
  shows "\<exists>m t w'. take_locked pid ref w = Some (m, t, w') \<and> locked_ok pid w m (map_option snd t) w'"
proof -
  obtain r where r: "map_of (rooms w) (current_room p) = Some r" using player_room[OF world_ok_player[OF w p]] by blast
  let ?i = "resolve_item_ref_locked w (item_instance_ids r) ref"
  show ?thesis
  proof (cases "?i = []")
    case True
    then show ?thesis using locked_ok_same[OF w] by (simp add: take_locked_def p r Let_def)
  next
    case False
    have i: "?i \<in> set (item_instance_ids r)" by (rule resolve_item_known[OF False])
    then have k: "count_key (items w) ?i" using world_ok_room[OF w r] unfolding room_ok_def by blast
    have p': "player_ok w pid (p\<lparr>inventory := inventory p @ [?i]\<rparr>)"
      by (rule player_ok_inventory[OF world_ok_player[OF w p]]) (use k in auto)
    have r': "world_ok (upd_room (current_room p) (r\<lparr>item_instance_ids := erase_remove ?i (item_instance_ids r)\<rparr>) w)"
      using world_ok_room_items[OF w r, of "erase_remove ?i (item_instance_ids r)" "npc_ids r"] by auto
    show ?thesis using False
      by (auto simp: take_locked_def p r Let_def intro!: locked_ok_player_room[OF w p r p' _ r'])
  qed
qed

lemma drop_locked_ok:
  assumes w: "world_ok w" and p: "map_of (players w) pid = Some p"
  shows "\<exists>m t w'. drop_locked pid ref w = Some (m, t, w') \<and> locked_ok pid w m (map_option snd t) w'"
proof -
  obtain r where r: "map_of (rooms w) (current_room p) = Some r" using player_room[OF world_ok_player[OF w p]] by blast
  let ?i = "resolve_item_ref_locked w (inventory p) ref"
  show ?thesis
  proof (cases "?i = []")
    case True
    then show ?thesis using locked_ok_same[OF w] by (simp add: drop_locked_def p r Let_def)
  next
    case False
    have i: "?i \<in> set (inventory p)" by (rule resolve_item_known[OF False])
    then have k: "count_key (items w) ?i" using world_ok_player[OF w p] unfolding player_ok_def by blast
    have p': "player_ok w pid (p\<lparr>inventory := erase_remove ?i (inventory p)\<rparr>)"
      by (rule player_ok_inventory[OF world_ok_player[OF w p]]) auto
    have r': "world_ok (upd_room (current_room p) (r\<lparr>item_instance_ids := item_instance_ids r @ [?i]\<rparr>) w)"
      using world_ok_room_items[OF w r, of "item_instance_ids r @ [?i]" "npc_ids r"] k by auto
    show ?thesis using False
      by (auto simp: drop_locked_def p r Let_def intro!: locked_ok_player_room[OF w p r p' _ r'])
  qed
qed

lemma int_checked_small: "\<bar>i\<bar> \<le> 2 * HP_LIMIT \<Longrightarrow> int_checked i = Some i"
  by (auto simp: int_checked_def abs_le_iff)

lemma player_ok_hp: "player_ok w pid p \<Longrightarrow> 0 < h \<Longrightarrow> h \<le> max_hp p \<Longrightarrow> player_ok w pid (p\<lparr>hp := h\<rparr>)"
  unfolding player_ok_def by simp

text \<open>Hitting an NPC for an amount that its range allows: the common part of USE and ATTACK.\<close>

lemma hit_npc_ok:
  assumes w: "world_ok w" and n: "map_of (npcs w) nid = Some n" and r: "map_of (rooms w) rid = Some r"
    and h: "0 \<le> h" "h \<le> np_hp n" and ns: "set ns \<subseteq> set (npc_ids r)"
  shows "world_ok (upd_room rid (r\<lparr>npc_ids := ns\<rparr>) (upd_npc nid (n\<lparr>np_hp := h\<rparr>) w))"
    "static_eq (upd_room rid (r\<lparr>npc_ids := ns\<rparr>) (upd_npc nid (n\<lparr>np_hp := h\<rparr>) w)) w"
proof -
  have "npc_balanced (n\<lparr>np_hp := h\<rparr>)" using world_ok_npc[OF w n] h by (simp add: npc_balanced_def)
  then have w1: "world_ok (upd_npc nid (n\<lparr>np_hp := h\<rparr>) w)" by (intro world_ok_upd_npc[OF w n]) simp_all
  have r1: "map_of (rooms (upd_npc nid (n\<lparr>np_hp := h\<rparr>) w)) rid = Some r" by (simp add: r)
  show "world_ok (upd_room rid (r\<lparr>npc_ids := ns\<rparr>) (upd_npc nid (n\<lparr>np_hp := h\<rparr>) w))"
    using world_ok_room_items[OF w1 r1, of "item_instance_ids r" ns] ns by simp
  show "static_eq (upd_room rid (r\<lparr>npc_ids := ns\<rparr>) (upd_npc nid (n\<lparr>np_hp := h\<rparr>) w)) w"
    by (rule static_eq_trans[OF static_upd_room static_upd_npc]) (simp_all add: r n)
qed

lemma room_npc_known:
  assumes "world_ok w" "map_of (rooms w) rid = Some r" "resolve_npc_ref_locked w (npc_ids r) ref \<noteq> []"
  shows "\<exists>n. map_of (npcs w) (resolve_npc_ref_locked w (npc_ids r) ref) = Some n"
  using world_ok_room[OF assms(1,2)] resolve_npc_known[OF assms(3)] unfolding room_ok_def by blast

lemma use_heal_ok:
  assumes w: "world_ok w" and p: "map_of (players w) pid = Some p" and it: "map_of (items w) i = Some it"
    and m: "\<not> is_event m"
  defines "user \<equiv> p\<lparr>inventory := erase_remove i (inventory p), hp := min (max_hp p) (hp p + effect_amount it)\<rparr>"
  shows "int_checked (hp p + effect_amount it) = Some (hp p + effect_amount it)"
    "locked_ok pid w m (Some user) (upd_player pid user w)"
proof -
  have b: "0 < hp p" "hp p \<le> max_hp p" "max_hp p \<le> HP_LIMIT" "0 \<le> effect_amount it" "effect_amount it \<le> HP_LIMIT"
    using world_ok_player[OF w p] world_ok_item[OF w it] by (auto simp: player_ok_def item_balanced_def)
  show "int_checked (hp p + effect_amount it) = Some (hp p + effect_amount it)" by (rule int_checked_small) (use b in simp)
  have "player_ok w pid (p\<lparr>inventory := erase_remove i (inventory p)\<rparr>)"
    by (rule player_ok_inventory[OF world_ok_player[OF w p]]) auto
  from player_ok_hp[OF this, of "min (max_hp p) (hp p + effect_amount it)"]
  have u: "player_ok w pid user" using b by (simp add: user_def)
  have "world_ok (upd_player pid user w)" by (rule world_ok_upd_player[OF w u])
  then show "locked_ok pid w m (Some user) (upd_player pid user w)"
    using u m room_of_self[OF p, of user] by (simp add: locked_ok_def user_def)
qed

lemma use_damage_ok:
  assumes w: "world_ok w" and p: "map_of (players w) pid = Some p" and it: "map_of (items w) i = Some it"
    and r: "map_of (rooms w) (current_room p) = Some r" and n: "map_of (npcs w) nid = Some n" and m: "\<not> is_event m"
    and ns: "set ns \<subseteq> set (npc_ids r)"
  defines "user \<equiv> p\<lparr>inventory := erase_remove i (inventory p)\<rparr>" and "left \<equiv> np_hp n - effect_amount it"
  shows "int_checked left = Some left"
    "locked_ok pid w m (Some user) (upd_player pid user (upd_room (current_room p) (r\<lparr>npc_ids := ns\<rparr>)
       (upd_npc nid (n\<lparr>np_hp := max 0 left\<rparr>) w)))"
proof -
  have b: "0 \<le> np_hp n" "np_hp n \<le> HP_LIMIT" "0 \<le> effect_amount it" "effect_amount it \<le> HP_LIMIT"
    using world_ok_npc[OF w n] world_ok_item[OF w it] by (auto simp: npc_balanced_def item_balanced_def)
  show "int_checked left = Some left" by (rule int_checked_small) (use b in \<open>simp add: left_def\<close>)
  have u: "player_ok w pid user" unfolding user_def by (rule player_ok_inventory[OF world_ok_player[OF w p]]) auto
  have h: "0 \<le> max 0 left" "max 0 left \<le> np_hp n" using b by (auto simp: left_def)
  note ok = hit_npc_ok[OF w n r h ns]
  have "world_ok (upd_player pid user (upd_room (current_room p) (r\<lparr>npc_ids := ns\<rparr>) (upd_npc nid (n\<lparr>np_hp := max 0 left\<rparr>) w)))"
    by (rule world_ok_upd_player[OF ok(1)]) (simp add: player_ok_static[OF ok(2)] u)
  then show "locked_ok pid w m (Some user) (upd_player pid user (upd_room (current_room p) (r\<lparr>npc_ids := ns\<rparr>)
       (upd_npc nid (n\<lparr>np_hp := max 0 left\<rparr>) w)))"
    using u m room_of_self[OF p, of user] static_eq_trans[OF static_upd_player ok(2)]
    by (simp add: locked_ok_def user_def)
qed

lemma use_locked_ok:
  assumes w: "world_ok w" and p: "map_of (players w) pid = Some p"
  shows "\<exists>m t w'. use_locked pid iref tref w = Some (m, t, w') \<and> locked_ok pid w m (map_option (snd \<circ> snd) t) w'"
proof -
  obtain r where r: "map_of (rooms w) (current_room p) = Some r" using player_room[OF world_ok_player[OF w p]] by blast
  have alive: "\<not> hp p \<le> 0" using world_ok_player[OF w p] by (simp add: player_ok_def)
  let ?i = "resolve_item_ref_locked w (inventory p) iref"
  note same = locked_ok_same[OF w]
  show ?thesis
  proof (cases "?i = []")
    case True
    then show ?thesis using same by (simp add: use_locked_def p alive Let_def)
  next
    case False
    have "?i \<in> set (inventory p)" by (rule resolve_item_known[OF False])
    then obtain it where it: "map_of (items w) ?i = Some it"
      using world_ok_player[OF w p] unfolding player_ok_def by blast
    show ?thesis
    proof (cases "effect it")
      case EffNone
      then show ?thesis using same False by (simp add: use_locked_def p alive it Let_def)
    next
      case EffHeal
      then show ?thesis using False
        by (auto simp: use_locked_def p alive it Let_def use_heal_ok(1)[OF w p it not_event_OK(1)] intro!: use_heal_ok(2)[OF w p it])
    next
      case EffDamage
      let ?n = "resolve_npc_ref_locked w (npc_ids r) tref"
      show ?thesis
      proof (cases "tref = [] \<or> ?n = []")
        case True
        then show ?thesis using same False EffDamage by (auto simp: use_locked_def p alive it r Let_def)
      next
        case n0: False
        then obtain n where n: "map_of (npcs w) ?n = Some n" using room_npc_known[OF w r] by blast
        note d = use_damage_ok[OF w p it r n]
        show ?thesis
        proof (cases "np_hp n - effect_amount it \<le> 0")
          case True
          then show ?thesis using False EffDamage n0 d(2)[of _ "erase_remove ?n (npc_ids r)"]
            by (auto simp: use_locked_def p alive it r n Let_def use_damage_ok(1)[OF w p it r n not_event_OK(1) subset_refl])
        next
          case alive': False
          have "r\<lparr>npc_ids := npc_ids r\<rparr> = r" by simp
          then show ?thesis using alive' False EffDamage n0 d(2)[of _ "npc_ids r"]
            by (auto simp: use_locked_def p alive it r n Let_def use_damage_ok(1)[OF w p it r n not_event_OK(1) subset_refl])
        qed
      qed
    qed
  qed
qed

subsection \<open>The handlers\<close>

lemma announce_hit_ok [simp]:
  assumes "server_ok sv"
  shows "server_ok (announce_hit pid rid nid d h died sv)" "replies (announce_hit pid rid nid d h died sv) = replies sv"
    "sess (announce_hit pid rid nid d h died sv) = sess sv"
  using assms by (simp_all add: announce_hit_def on_npc_defeated_ok)

lemma handled_after_save:
  assumes ok: "server_ok sv" and l: "locked_ok pid (sv_world sv) m (Some p) w"
    and f: "\<And>sv. server_ok sv \<Longrightarrow> server_ok (f sv)" "\<And>sv. server_ok sv \<Longrightarrow> replies (f sv) = replies sv"
  shows "handled sid sv (Some (f (save p (send_line sid m (set_world w sv)))))"
proof -
  note s = locked_ok_server[OF ok l]
  show ?thesis by (rule handled_locked[OF s(1,2)]) (simp_all add: f s)
qed

lemma handled_no_save:
  assumes ok: "server_ok sv" and l: "locked_ok pid (sv_world sv) m None w"
  shows "handled sid sv (Some (send_line sid m (set_world w sv)))"
  using handled_locked[OF locked_ok_server(1,2)[OF ok l]] locked_ok_server(1)[OF ok l] by simp

lemma cmd_take_handled:
  assumes ok: "server_ok sv"
  shows "handled sid sv (cmd_take sid args sv)"
  unfolding cmd_take_def
proof (rule handled_guard[OF ok])
  let ?pid = "pid_of sv sid"
  assume "?pid \<noteq> []"
  from server_ok_player[OF ok this] obtain p where p: "map_of (players (sv_world sv)) ?pid = Some p" by blast
  have w: "world_ok (sv_world sv)" using ok by (simp add: server_ok_def)
  obtain m t w' where t: "take_locked ?pid (join_from args 0) (sv_world sv) = Some (m, t, w')"
    "locked_ok ?pid (sv_world sv) m (map_option snd t) w'" using take_locked_ok[OF w p] by blast
  show "handled sid sv (if args = [] then Some (send_line sid ''ERR 200 BAD_MESSAGE TAKE requires an item'' sv)
     else let pid = pid_of sv sid in do {
       (response, taken, w) \<leftarrow> take_locked pid (join_from args 0) (sv_world sv);
       let sv1 = send_line sid response (set_world w sv);
       Some (case taken of None \<Rightarrow> sv1
         | Some (taken_id, taker) \<Rightarrow> on_item_taken pid taken_id
             (log_info ''item_taken'' [(''player'', pid), (''item'', taken_id)] (save taker sv1)))
     })"
  proof (cases t)
    case None
    then show ?thesis using t handled_no_save[OF ok] by (simp add: handled_reply[OF ok] Let_def)
  next
    case (Some x)
    then show ?thesis
      using t handled_after_save[OF ok, of ?pid m "snd x" w' "\<lambda>sv. on_item_taken ?pid (fst x)
          (log_info ''item_taken'' [(''player'', ?pid), (''item'', fst x)] sv)"]
      by (cases x) (simp add: handled_reply[OF ok] on_item_taken_ok Let_def)
  qed
qed

lemma cmd_drop_handled:
  assumes ok: "server_ok sv"
  shows "handled sid sv (cmd_drop sid args sv)"
  unfolding cmd_drop_def
proof (rule handled_guard[OF ok])
  let ?pid = "pid_of sv sid"
  assume "?pid \<noteq> []"
  from server_ok_player[OF ok this] obtain p where p: "map_of (players (sv_world sv)) ?pid = Some p" by blast
  have w: "world_ok (sv_world sv)" using ok by (simp add: server_ok_def)
  obtain m t w' where t: "drop_locked ?pid (join_from args 0) (sv_world sv) = Some (m, t, w')"
    "locked_ok ?pid (sv_world sv) m (map_option snd t) w'" using drop_locked_ok[OF w p] by blast
  show "handled sid sv (if args = [] then Some (send_line sid ''ERR 200 BAD_MESSAGE DROP requires an item'' sv)
     else let pid = pid_of sv sid in do {
       (response, dropped, w) \<leftarrow> drop_locked pid (join_from args 0) (sv_world sv);
       let sv1 = send_line sid response (set_world w sv);
       Some (case dropped of None \<Rightarrow> sv1
         | Some (dropped_id, dropper) \<Rightarrow>
             log_info ''item_dropped'' [(''player'', pid), (''item'', dropped_id)] (save dropper sv1))
     })"
  proof (cases t)
    case None
    then show ?thesis using t handled_no_save[OF ok] by (simp add: handled_reply[OF ok] Let_def)
  next
    case (Some x)
    then show ?thesis
      using t handled_after_save[OF ok, of ?pid m "snd x" w'
          "log_info ''item_dropped'' [(''player'', ?pid), (''item'', fst x)]"]
      by (cases x) (simp add: handled_reply[OF ok] Let_def)
  qed
qed

lemma cmd_use_handled:
  assumes ok: "server_ok sv"
  shows "handled sid sv (cmd_use sid args sv)"
  unfolding cmd_use_def
proof (rule handled_guard[OF ok])
  let ?pid = "pid_of sv sid" and ?t = "if length args > 1 then join_from args 1 else []"
  assume "?pid \<noteq> []"
  from server_ok_player[OF ok this] obtain p where p: "map_of (players (sv_world sv)) ?pid = Some p" by blast
  have w: "world_ok (sv_world sv)" using ok by (simp add: server_ok_def)
  obtain m t w' where t: "use_locked ?pid (hd args) ?t (sv_world sv) = Some (m, t, w')"
    "locked_ok ?pid (sv_world sv) m (map_option (snd \<circ> snd) t) w'" using use_locked_ok[OF w p] by blast
  have "handled sid sv (let sv1 = send_line sid m (set_world w' sv) in
       Some (case t of None \<Rightarrow> sv1
         | Some (Healed item_id amount, room_id, user) \<Rightarrow>
             broadcast_to_room room_id ?pid
               (''EVT ROOM ITEM_USE '' @ obj [member ''player'' (quoted ?pid), member ''item'' (quoted item_id)])
               (log_info ''item_used'' [(''player'', ?pid), (''item'', item_id), (''effect'', ''heal''),
                  (''amount'', show_int amount)] (save user sv1))
         | Some (Damaged item_id npc_id damage target_hp npc_died, room_id, user) \<Rightarrow>
             announce_hit ?pid room_id npc_id damage target_hp npc_died
               (log_info ''item_used'' [(''player'', ?pid), (''item'', item_id), (''effect'', ''damage''),
                  (''target'', npc_id), (''damage'', show_int damage)] (save user sv1))))"
  proof (cases t)
    case None
    then show ?thesis using t handled_no_save[OF ok] by (simp add: Let_def)
  next
    case (Some x)
    obtain e rid user where x: "x = (e, rid, user)" by (cases x)
    note s = locked_ok_server[OF ok t(2)]
    have s3: "server_ok (save user (send_line sid m (set_world w' sv)))" using s(3)[of user] Some x by simp
    show ?thesis
      by (cases e) (auto simp: Some x Let_def s3 intro!: handled_locked[OF s(1,2)])
  qed
  then show "handled sid sv (if args = [] then Some (send_line sid ''ERR 200 BAD_MESSAGE USE requires an item'' sv)
     else let pid = ?pid in do {
       (response, used, w) \<leftarrow> use_locked pid (hd args) ?t (sv_world sv);
       let sv1 = send_line sid response (set_world w sv);
       Some (case used of None \<Rightarrow> sv1
         | Some (Healed item_id amount, room_id, user) \<Rightarrow>
             broadcast_to_room room_id pid
               (''EVT ROOM ITEM_USE '' @ obj [member ''player'' (quoted pid), member ''item'' (quoted item_id)])
               (log_info ''item_used'' [(''player'', pid), (''item'', item_id), (''effect'', ''heal''),
                  (''amount'', show_int amount)] (save user sv1))
         | Some (Damaged item_id npc_id damage target_hp npc_died, room_id, user) \<Rightarrow>
             announce_hit pid room_id npc_id damage target_hp npc_died
               (log_info ''item_used'' [(''player'', pid), (''item'', item_id), (''effect'', ''damage''),
                  (''target'', npc_id), (''damage'', show_int damage)] (save user sv1)))
     })"
    using t(1) by (simp add: handled_reply[OF ok] Let_def)
qed

lemma cmd_inventory_handled:
  assumes ok: "server_ok sv"
  shows "handled sid sv (cmd_inventory sid sv)"
  unfolding cmd_inventory_def
proof (rule handled_guard[OF ok])
  assume "pid_of sv sid \<noteq> []"
  from server_ok_player[OF ok this] obtain p where "map_of (players (sv_world sv)) (pid_of sv sid) = Some p" by blast
  then show "handled sid sv (do { player \<leftarrow> map_of (players (sv_world sv)) (pid_of sv sid);
     Some (send_line sid (''OK '' @ arr (map quoted (inventory player))) sv) })"
    by (simp add: handled_reply[OF ok])
qed

subsection \<open>Where the items are\<close>

text \<open>Every item instance is in at most one place: no list holds it twice, no two lists hold it.\<close>

definition items_unique :: "world \<Rightarrow> bool" where
  "items_unique w = (\<forall>i. count (items_in_play w) i \<le> 1)"

lemma items_upd_room:
  "map_of (rooms w) rid = Some r \<Longrightarrow>
   items_in_rooms (upd_room rid r' w) + mset (item_instance_ids r) = items_in_rooms w + mset (item_instance_ids r')"
  unfolding items_in_rooms_def using msum_put_old[of "rooms w" rid r "\<lambda>r. mset (item_instance_ids r)" r'] by simp

lemma items_upd_player:
  "map_of (players w) pid = Some p \<Longrightarrow>
   items_carried (upd_player pid p' w) + mset (inventory p) = items_carried w + mset (inventory p')"
  unfolding items_carried_def using msum_put_old[of "players w" pid p "\<lambda>p. mset (inventory p)" p'] by simp

lemma items_frame [simp]:
  "items_in_rooms (upd_player pid p w) = items_in_rooms w" "items_carried (upd_room rid r w) = items_carried w"
  "items_in_rooms (upd_npc nid n w) = items_in_rooms w" "items_carried (upd_npc nid n w) = items_carried w"
  by (simp_all add: items_in_rooms_def items_carried_def)

lemma room_items_le: "map_of (rooms w) rid = Some r \<Longrightarrow> mset (item_instance_ids r) \<subseteq># items_in_play w"
  unfolding items_in_play_def items_in_rooms_def by (rule subset_mset.add_increasing2[OF _ msum_le]) auto

lemma inventory_le: "map_of (players w) pid = Some p \<Longrightarrow> mset (inventory p) \<subseteq># items_in_play w"
  unfolding items_in_play_def items_carried_def by (rule subset_mset.add_increasing[OF _ msum_le]) auto

lemma remove_unique:
  assumes "items_unique w" "mset xs \<subseteq># items_in_play w" "i \<in> set xs"
  shows "mset (erase_remove i xs) + {#i#} = mset xs"
proof -
  have "count (mset xs) i \<le> 1" using assms(1) mset_subset_eq_count[OF assms(2), of i] unfolding items_unique_def
    by (meson le_trans)
  moreover have "count (mset xs) i \<noteq> 0" using assms(3) by simp
  ultimately have "count (mset xs) i = 1" by linarith
  from mset_removeAll_single[OF this] show ?thesis using assms(3) by simp
qed

lemma items_move:
  assumes r: "map_of (rooms w) rid = Some r" and p: "map_of (players w) pid = Some p"
  shows "items_in_play (upd_player pid p' (upd_room rid r' w)) + (mset (item_instance_ids r) + mset (inventory p)) =
    items_in_play w + (mset (item_instance_ids r') + mset (inventory p'))"
  using items_upd_room[OF r, of r'] items_upd_player[of "upd_room rid r' w" pid p p'] p
  by (simp add: items_in_play_def) (metis (no_types, lifting) add.assoc add.commute)

lemma items_move_balanced:
  assumes "map_of (rooms w) rid = Some r" "map_of (players w) pid = Some p"
    and "mset (item_instance_ids r') + mset (inventory p') = mset (item_instance_ids r) + mset (inventory p)"
  shows "items_in_play (upd_player pid p' (upd_room rid r' w)) = items_in_play w"
  using items_move[OF assms(1,2), of p' r'] assms(3) by simp

lemma take_locked_items:
  assumes u: "items_unique w" and t: "take_locked pid ref w = Some (m, t, w')"
  shows "items_in_play w' = items_in_play w"
proof -
  obtain p r where p: "map_of (players w) pid = Some p" and r: "map_of (rooms w) (current_room p) = Some r"
    using t by (auto simp: take_locked_def split: Option.bind_splits)
  let ?i = "resolve_item_ref_locked w (item_instance_ids r) ref"
  show ?thesis
  proof (cases "?i = []")
    case False
    have "mset (erase_remove ?i (item_instance_ids r)) + {#?i#} = mset (item_instance_ids r)"
      by (rule remove_unique[OF u room_items_le[OF r] resolve_item_known[OF False]])
    then have b: "mset (item_instance_ids (r\<lparr>item_instance_ids := erase_remove ?i (item_instance_ids r)\<rparr>)) +
        mset (inventory (p\<lparr>inventory := inventory p @ [?i]\<rparr>)) = mset (item_instance_ids r) + mset (inventory p)" by simp
    have "w' = upd_player pid (p\<lparr>inventory := inventory p @ [?i]\<rparr>)
        (upd_room (current_room p) (r\<lparr>item_instance_ids := erase_remove ?i (item_instance_ids r)\<rparr>) w)"
      using t False by (auto simp: take_locked_def p r Let_def)
    then show ?thesis using items_move_balanced[OF r p b] by (simp only:)
  qed (use t in \<open>simp add: take_locked_def p r Let_def\<close>)
qed

lemma drop_locked_items:
  assumes u: "items_unique w" and t: "drop_locked pid ref w = Some (m, t, w')"
  shows "items_in_play w' = items_in_play w"
proof -
  obtain p r where p: "map_of (players w) pid = Some p" and r: "map_of (rooms w) (current_room p) = Some r"
    using t by (auto simp: drop_locked_def split: Option.bind_splits)
  let ?i = "resolve_item_ref_locked w (inventory p) ref"
  show ?thesis
  proof (cases "?i = []")
    case False
    have "mset (erase_remove ?i (inventory p)) + {#?i#} = mset (inventory p)"
      by (rule remove_unique[OF u inventory_le[OF p] resolve_item_known[OF False]])
    then have b: "mset (item_instance_ids (r\<lparr>item_instance_ids := item_instance_ids r @ [?i]\<rparr>)) +
        mset (inventory (p\<lparr>inventory := erase_remove ?i (inventory p)\<rparr>)) = mset (item_instance_ids r) + mset (inventory p)" by simp
    have "w' = upd_player pid (p\<lparr>inventory := erase_remove ?i (inventory p)\<rparr>)
        (upd_room (current_room p) (r\<lparr>item_instance_ids := item_instance_ids r @ [?i]\<rparr>) w)"
      using t False by (auto simp: drop_locked_def p r Let_def)
    then show ?thesis using items_move_balanced[OF r p b] by (simp only:)
  qed (use t in \<open>simp add: drop_locked_def p r Let_def\<close>)
qed

text \<open>USE consumes exactly the item it reports.\<close>

definition consumed :: "(use_effect \<times> string \<times> player_state) option \<Rightarrow> string multiset" where
  "consumed t = (case t of None \<Rightarrow> {#} | Some (Healed i _, _) \<Rightarrow> {#i#} | Some (Damaged i _ _ _ _, _) \<Rightarrow> {#i#})"

lemma use_locked_shape:
  assumes "use_locked pid iref tref w = Some (m, Some x, w')" and p: "map_of (players w) pid = Some p"
  defines "i \<equiv> resolve_item_ref_locked w (inventory p) iref"
  shows "i \<noteq> []" "consumed (Some x) = {#i#}"
    "(\<exists>h. w' = upd_player pid (p\<lparr>inventory := erase_remove i (inventory p), hp := h\<rparr>) w) \<or>
     (\<exists>rid r r' nid n. w' = upd_player pid (p\<lparr>inventory := erase_remove i (inventory p)\<rparr>) (upd_room rid r' (upd_npc nid n w)) \<and>
        map_of (rooms w) rid = Some r \<and> item_instance_ids r' = item_instance_ids r)"
proof -
  note t = assms(1)[unfolded use_locked_def, simplified p Let_def, simplified, folded i_def]
  show "i \<noteq> []" "consumed (Some x) = {#i#}"
    using t by (auto simp: consumed_def split: Option.bind_splits if_splits item_effect.splits)
  consider (heal) h where "w' = upd_player pid (p\<lparr>inventory := erase_remove i (inventory p), hp := h\<rparr>) w"
    | (damage) rid r r' nid n where
      "w' = upd_player pid (p\<lparr>inventory := erase_remove i (inventory p)\<rparr>) (upd_room rid r' (upd_npc nid n w))"
      "map_of (rooms w) rid = Some r" "item_instance_ids r' = item_instance_ids r"
    using t by (auto split: Option.bind_splits if_splits item_effect.splits)
  then show "(\<exists>h. w' = upd_player pid (p\<lparr>inventory := erase_remove i (inventory p), hp := h\<rparr>) w) \<or>
     (\<exists>rid r r' nid n. w' = upd_player pid (p\<lparr>inventory := erase_remove i (inventory p)\<rparr>) (upd_room rid r' (upd_npc nid n w)) \<and>
        map_of (rooms w) rid = Some r \<and> item_instance_ids r' = item_instance_ids r)"
    by cases blast+
qed

lemma use_locked_idle: "use_locked pid iref tref w = Some (m, None, w') \<Longrightarrow> w' = w"
  by (auto simp: use_locked_def Let_def split: Option.bind_splits if_splits item_effect.splits)

lemma use_locked_items:
  assumes u: "items_unique w" and t: "use_locked pid iref tref w = Some (m, t, w')"
  shows "items_in_play w' + consumed t = items_in_play w"
proof (cases t)
  case None
  then show ?thesis using use_locked_idle[of pid iref tref w m w'] t by (simp add: consumed_def)
next
  case (Some x)
  obtain p where p: "map_of (players w) pid = Some p" using t by (auto simp: use_locked_def split: Option.bind_splits)
  let ?i = "resolve_item_ref_locked w (inventory p) iref"
  note s = use_locked_shape[OF t[unfolded Some] p]
  have "\<exists>p' w1. w' = upd_player pid p' w1 \<and> inventory p' = erase_remove ?i (inventory p) \<and>
      players w1 = players w \<and> items_in_rooms w1 = items_in_rooms w"
    using s(3)
  proof (elim disjE exE conjE)
    fix h assume "w' = upd_player pid (p\<lparr>inventory := erase_remove ?i (inventory p), hp := h\<rparr>) w"
    then show ?thesis by (intro exI conjI; assumption?) simp_all
  next
    fix rid r r' nid n
    assume e: "w' = upd_player pid (p\<lparr>inventory := erase_remove ?i (inventory p)\<rparr>) (upd_room rid r' (upd_npc nid n w))"
      and r: "map_of (rooms w) rid = Some r" "item_instance_ids r' = item_instance_ids r"
    have "items_in_rooms (upd_room rid r' (upd_npc nid n w)) = items_in_rooms w"
      using items_upd_room[of "upd_npc nid n w" rid r r'] r by simp
    then show ?thesis by (intro exI[of _ "p\<lparr>inventory := erase_remove ?i (inventory p)\<rparr>"] exI[of _ "upd_room rid r' (upd_npc nid n w)"])
      (simp add: e)
  qed
  then obtain p' w1 where e: "w' = upd_player pid p' w1" "inventory p' = erase_remove ?i (inventory p)"
    "players w1 = players w" "items_in_rooms w1 = items_in_rooms w" by blast
  have "mset (erase_remove ?i (inventory p)) + {#?i#} = mset (inventory p)"
    by (rule remove_unique[OF u inventory_le[OF p] resolve_item_known[OF s(1)]])
  moreover have "items_carried w1 = items_carried w" by (simp add: items_carried_def e)
  moreover have "items_carried w' + mset (inventory p) = items_carried w1 + mset (erase_remove ?i (inventory p))"
    using items_upd_player[of w1 pid p p'] e p by simp
  ultimately have "(items_carried w' + {#?i#}) + mset (erase_remove ?i (inventory p)) =
      items_carried w + mset (erase_remove ?i (inventory p))"
    by (metis add.assoc add.commute)
  then have "items_carried w' + {#?i#} = items_carried w" by (rule add_right_imp_eq)
  moreover have "items_in_rooms w' = items_in_rooms w" using e(1,4) by simp
  ultimately show ?thesis unfolding items_in_play_def Some s(2) by (metis add.assoc)
qed

end
