(* ===== verification/CombatCommands.thy ===== *)
theory CombatCommands
  imports ItemCommands
begin

text \<open>
  \<open>server/src/commands/combat_commands.cpp\<close>: ATTACK and STATUS.  The random rolls of one ATTACK are
  the input \<open>dice\<close>: whether each side hits (with the probabilities 0.85 and 0.70, which are not
  modelled) and a natural number from which \<open>uniform_int_distribution\<close> picks a value of its range;
  a range with \<open>min > max\<close> is undefined behaviour.
\<close>

record dice =
  player_hits :: bool
  player_roll :: nat
  npc_hits :: bool
  npc_roll :: nat

definition PLAYER_DAMAGE_MIN :: int where "PLAYER_DAMAGE_MIN = 10"
definition PLAYER_DAMAGE_MAX :: int where "PLAYER_DAMAGE_MAX = 15"
definition SAFE_RESPAWN_ROOM :: string where "SAFE_RESPAWN_ROOM = ''loc.start''"

definition roll_damage :: "int \<Rightarrow> int \<Rightarrow> nat \<Rightarrow> int option" where
  "roll_damage min_v max_v u = (if min_v \<le> max_v then Some (min_v + int u mod (max_v - min_v + 1)) else None)"

record attack_outcome =
  at_npc :: string
  at_room :: string
  at_damage :: int
  at_target_hp :: int
  at_npc_died :: bool
  at_player_died :: bool
  at_old_room :: string
  at_attacker :: player_state

text \<open>The rolls of the two sides; the NPC swings back only if it survived.\<close>

definition player_swing :: "dice \<Rightarrow> int option" where
  "player_swing d = (if player_hits d then roll_damage PLAYER_DAMAGE_MIN PLAYER_DAMAGE_MAX (player_roll d) else Some 0)"

definition npc_swing :: "dice \<Rightarrow> npc \<Rightarrow> bool \<Rightarrow> int option" where
  "npc_swing d n countered =
     (if countered then roll_damage (counter_damage_min n) (counter_damage_max n) (npc_roll d) else Some 0)"

text \<open>The attacker after the exchange: whether the player died, and the new state (respawned in that case).\<close>

definition attacker_after :: "player_state \<Rightarrow> string \<Rightarrow> bool \<Rightarrow> int \<Rightarrow> bool \<times> player_state" where
  "attacker_after player npc_id npc_died after =
     (let hp1 = (if npc_died then hp player else max 0 after);
          hit = player\<lparr>hp := hp1, last_target := npc_id\<rparr>
      in if hp1 \<le> 0 then (True, hit\<lparr>hp := RESPAWN_HP, current_room := SAFE_RESPAWN_ROOM\<rparr>) else (False, hit))"

definition room_after :: "string \<Rightarrow> bool \<Rightarrow> room \<Rightarrow> room" where
  "room_after npc_id npc_died r = (if npc_died then r\<lparr>npc_ids := erase_remove npc_id (npc_ids r)\<rparr> else r)"

definition attack_response :: "string \<Rightarrow> bool \<Rightarrow> int \<Rightarrow> int \<Rightarrow> bool \<Rightarrow> int \<Rightarrow> int \<Rightarrow> bool \<Rightarrow> string" where
  "attack_response npc_id player_hit damage target_hp countered counter player_hp player_died =
     ''OK '' @ obj [member ''target'' (quoted npc_id), member ''hit'' (bool_lit player_hit),
       member ''damage_dealt'' (show_int damage), member ''target_hp'' (show_int target_hp),
       member ''countered'' (bool_lit countered), member ''counter_damage'' (show_int counter),
       member ''player_hp'' (show_int player_hp), member ''respawned'' (bool_lit player_died)]"

definition attack_locked :: "dice \<Rightarrow> string \<Rightarrow> string \<Rightarrow> world \<Rightarrow> attack_outcome locked" where
  "attack_locked d pid ref w = do {
     player \<leftarrow> map_of (players w) pid;
     if hp player \<le> 0 then Some (''ERR 409 DEAD you are down, cannot attack'', None, w)
     else do {
       room \<leftarrow> map_of (rooms w) (current_room player);
       let npc_id = resolve_npc_ref_locked w (npc_ids room) ref;
       if npc_id = [] then Some (''ERR 404 NPC_NOT_FOUND '' @ ref, None, w)
       else do {
         n \<leftarrow> map_of (npcs w) npc_id;
         damage \<leftarrow> player_swing d;
         left \<leftarrow> int_checked (np_hp n - damage);
         let target_hp = max 0 left;
         let npc_died = (target_hp \<le> 0);
         let countered = (\<not> npc_died \<and> npc_hits d);
         counter \<leftarrow> npc_swing d n countered;
         after \<leftarrow> int_checked (hp player - counter);
         let (player_died, attacker) = attacker_after player npc_id npc_died after;
         Some (attack_response npc_id (player_hits d) damage target_hp countered counter (hp attacker) player_died,
           Some \<lparr>at_npc = npc_id, at_room = rm_id room, at_damage = damage, at_target_hp = target_hp,
             at_npc_died = npc_died, at_player_died = player_died, at_old_room = current_room player,
             at_attacker = attacker\<rparr>,
           upd_player pid attacker (upd_room (current_room player) (room_after npc_id npc_died room)
             (upd_npc npc_id (n\<lparr>np_hp := target_hp\<rparr>) w)))
       }
     }
   }"

definition announce_respawn :: "string \<Rightarrow> attack_outcome \<Rightarrow> server \<Rightarrow> server" where
  "announce_respawn pid a sv =
     log_info ''player_respawned'' [(''player'', pid), (''room'', SAFE_RESPAWN_ROOM), (''hp'', show_int (hp (at_attacker a)))]
       (broadcast_to_room SAFE_RESPAWN_ROOM pid (''EVT ROOM PRESENCE_ENTER '' @ pid)
         (broadcast_to_room (at_old_room a) pid (''EVT ROOM PRESENCE_LEAVE '' @ pid)
           (broadcast_to_room (at_old_room a) pid (''EVT ROOM COMBAT_DEATH_PLAYER '' @ npc_event pid (at_npc a)) sv)))"

definition announce_attack :: "string \<Rightarrow> attack_outcome \<Rightarrow> server \<Rightarrow> server" where
  "announce_attack pid a sv =
     (let sv1 = (if at_room a = [] then sv
            else announce_hit pid (at_room a) (at_npc a) (at_damage a) (at_target_hp a) (at_npc_died a)
              (log_info ''combat_attack'' [(''player'', pid), (''target'', at_npc a),
                 (''damage'', show_int (at_damage a)), (''target_hp'', show_int (at_target_hp a))] sv))
      in if at_player_died a then announce_respawn pid a sv1 else sv1)"

definition move_session :: "nat \<Rightarrow> string \<Rightarrow> server \<Rightarrow> server" where
  "move_session sid room_id sv = set_session sid ((sess sv sid)\<lparr>s_current_room := room_id\<rparr>) sv"

definition cmd_attack :: "dice \<Rightarrow> handler" where
  "cmd_attack d sid args sv = guard_connected sid sv (
     if args = [] then Some (send_line sid ''ERR 200 BAD_MESSAGE ATTACK requires a target'' sv)
     else let pid = pid_of sv sid in do {
       (response, outcome, w) \<leftarrow> attack_locked d pid (join_from args 0) (sv_world sv);
       let sv1 = set_world w sv;
       Some (case outcome of None \<Rightarrow> send_line sid response sv1
         | Some a \<Rightarrow>
             let sv2 = (if at_player_died a then move_session sid SAFE_RESPAWN_ROOM sv1 else sv1)
             in announce_attack pid a (save (at_attacker a) (send_line sid response sv2)))
     })"

definition cmd_status :: "nat \<Rightarrow> server \<Rightarrow> server option" where
  "cmd_status sid sv = guard_connected sid sv (do {
     let w = sv_world sv;
     player \<leftarrow> map_of (players w) (pid_of sv sid);
     let in_combat = (last_target player \<noteq> [] \<and>
       (case map_of (npcs w) (last_target player) of None \<Rightarrow> False | Some n \<Rightarrow> np_hp n > 0));
     Some (send_line sid (''OK '' @ obj [member ''hp'' (show_int (hp player)), member ''max_hp'' (show_int (max_hp player)),
       member ''in_combat'' (bool_lit in_combat),
       member ''target'' (if in_combat then quoted (last_target player) else ''null'')]) sv)
   })"

subsection \<open>The rolls\<close>

lemma roll_damage_range:
  assumes "roll_damage lo hi u = Some v"
  shows "lo \<le> v \<and> v \<le> hi"
proof -
  have "lo \<le> hi" "v = lo + int u mod (hi - lo + 1)" using assms by (auto simp: roll_damage_def split: if_splits)
  then show ?thesis using pos_mod_bound[of "hi - lo + 1" "int u"] pos_mod_sign[of "hi - lo + 1" "int u"] by linarith
qed

lemma roll_damage_total: "lo \<le> hi \<Longrightarrow> \<exists>v. roll_damage lo hi u = Some v"
  by (simp add: roll_damage_def)

text \<open>Every value of the range can come up.\<close>

lemma roll_damage_reaches:
  assumes "lo \<le> v" "v \<le> hi"
  shows "roll_damage lo hi (nat (v - lo)) = Some v"
  using assms by (simp add: roll_damage_def mod_pos_pos_trivial)

subsection \<open>One ATTACK\<close>

text \<open>What one successful ATTACK did to player and NPC.\<close>

definition attack_effect :: "world \<Rightarrow> string \<Rightarrow> player_state \<Rightarrow> npc \<Rightarrow> attack_outcome \<Rightarrow> bool" where
  "attack_effect w pid p n a =
     (let q = at_attacker a in
      at_target_hp a = max 0 (np_hp n - at_damage a) \<and> (at_npc_died a \<longleftrightarrow> at_target_hp a = 0) \<and>
      (at_damage a = 0 \<or> 10 \<le> at_damage a \<and> at_damage a \<le> 15) \<and>
      (at_npc_died a \<longrightarrow> hp q = hp p \<and> \<not> at_player_died a) \<and>
      (at_player_died a \<longrightarrow> hp q = RESPAWN_HP \<and> current_room q = SAFE_RESPAWN_ROOM) \<and>
      (\<not> at_player_died a \<longrightarrow> current_room q = current_room p \<and> 0 < hp q \<and> hp q \<le> hp p \<and>
         hp p - hp q \<le> counter_damage_max n) \<and>
      last_target q = at_npc a \<and> player_ok w pid q)"

lemma attack_locked_ok:
  assumes w: "world_ok w" and p: "map_of (players w) pid = Some p" and r: "map_of (rooms w) (current_room p) = Some r"
    and i: "resolve_npc_ref_locked w (npc_ids r) ref \<noteq> []"
  shows "\<exists>m a w' n. attack_locked d pid ref w = Some (m, Some a, w') \<and> \<not> is_event m \<and> world_ok w' \<and> static_eq w' w \<and>
    room_of w' = (room_of w)(pid \<mapsto> current_room (at_attacker a)) \<and> map_of (npcs w) (at_npc a) = Some n \<and>
    at_npc a = resolve_npc_ref_locked w (npc_ids r) ref \<and> attack_effect w pid p n a \<and>
    map_of (players w') pid = Some (at_attacker a) \<and>
    map_of (npcs w') (at_npc a) = Some (n\<lparr>np_hp := at_target_hp a\<rparr>) \<and>
    (\<exists>r'. map_of (rooms w') (current_room p) = Some r' \<and>
       npc_ids r' = (if at_npc_died a then erase_remove (at_npc a) (npc_ids r) else npc_ids r))"
proof -
  let ?i = "resolve_npc_ref_locked w (npc_ids r) ref"
  obtain n where n: "map_of (npcs w) ?i = Some n" using room_npc_known[OF w r i] by blast
  have pok: "player_ok w pid p" by (rule world_ok_player[OF w p])
  then have b: "0 < hp p" "hp p \<le> max_hp p" "max_hp p \<le> HP_LIMIT" "RESPAWN_HP \<le> max_hp p" by (auto simp: player_ok_def)
  have nb: "0 \<le> np_hp n" "np_hp n \<le> HP_LIMIT" "0 \<le> counter_damage_min n" "counter_damage_min n \<le> counter_damage_max n"
    "counter_damage_max n \<le> HP_LIMIT" using world_ok_npc[OF w n] by (auto simp: npc_balanced_def)
  have "\<exists>v. player_swing d = Some v \<and> (v = 0 \<or> 10 \<le> v \<and> v \<le> 15)"
    using roll_damage_total[of PLAYER_DAMAGE_MIN PLAYER_DAMAGE_MAX "player_roll d"]
      roll_damage_range[of PLAYER_DAMAGE_MIN PLAYER_DAMAGE_MAX "player_roll d"]
    by (auto simp: player_swing_def PLAYER_DAMAGE_MIN_def PLAYER_DAMAGE_MAX_def)
  then obtain v where v: "player_swing d = Some v" "v = 0 \<or> 10 \<le> v \<and> v \<le> 15" by blast
  define th where "th = max 0 (np_hp n - v)"
  have th: "0 \<le> th" "th \<le> np_hp n" using nb v by (auto simp: th_def)
  define died where "died = (th \<le> 0)"
  define co where "co = (\<not> died \<and> npc_hits d)"
  have "\<exists>k. npc_swing d n co = Some k \<and> 0 \<le> k \<and> k \<le> counter_damage_max n"
    using roll_damage_total[OF nb(4), of "npc_roll d"] roll_damage_range[of "counter_damage_min n" "counter_damage_max n" "npc_roll d"] nb
    by (fastforce simp: npc_swing_def)
  then obtain k where k: "npc_swing d n co = Some k" "0 \<le> k" "k \<le> counter_damage_max n" by blast
  have ic: "int_checked (np_hp n - v) = Some (np_hp n - v)" "int_checked (hp p - k) = Some (hp p - k)"
    by (rule int_checked_small; use nb b v k in linarith)+
  obtain pd q where pq: "attacker_after p ?i died (hp p - k) = (pd, q)" by fastforce
  have spawn: "count_key (rooms w) SAFE_RESPAWN_ROOM"
    using w by (simp add: world_ok_def world_data_ok_def rooms_ok_def SAFE_RESPAWN_ROOM_def)
  have q: "last_target q = ?i" "pd \<Longrightarrow> hp q = RESPAWN_HP \<and> current_room q = SAFE_RESPAWN_ROOM \<and> \<not> died"
    "\<not> pd \<Longrightarrow> current_room q = current_room p \<and> 0 < hp q \<and> hp q \<le> hp p \<and> hp p - hp q \<le> counter_damage_max n"
    "died \<Longrightarrow> hp q = hp p" "inventory q = inventory p" "quest_status q = quest_status p" "max_hp q = max_hp p"
    "npc_dialogue_progress q = npc_dialogue_progress p" "player_id q = player_id p"
    using pq b k nb by (auto simp: attacker_after_def Let_def split: if_splits)
  have qok: "player_ok w pid q"
  proof (cases pd)
    case True
    then show ?thesis using pok n spawn b q unfolding player_ok_def by (simp add: RESPAWN_HP_def)
  next
    case False
    then show ?thesis using pok n b q unfolding player_ok_def by simp
  qed
  define ns where "ns = (if died then erase_remove ?i (npc_ids r) else npc_ids r)"
  have rq: "room_after ?i died r = r\<lparr>npc_ids := ns\<rparr>" by (simp add: ns_def room_after_def)
  let ?w1 = "upd_room (current_room p) (r\<lparr>npc_ids := ns\<rparr>) (upd_npc ?i (n\<lparr>np_hp := th\<rparr>) w)"
  have ns: "set ns \<subseteq> set (npc_ids r)" by (auto simp: ns_def)
  note h = hit_npc_ok[OF w n r th ns]
  have w': "world_ok (upd_player pid q ?w1)" by (rule world_ok_upd_player[OF h(1)]) (simp add: player_ok_static[OF h(2)] qok)
  have s': "static_eq (upd_player pid q ?w1) w" by (rule static_eq_trans[OF static_upd_player h(2)])
  define a where "a = \<lparr>at_npc = ?i, at_room = rm_id r, at_damage = v, at_target_hp = th, at_npc_died = died,
    at_player_died = pd, at_old_room = current_room p, at_attacker = q\<rparr>"
  define m where "m = attack_response ?i (player_hits d) v th co k (hp q) pd"
  have alive: "\<not> hp p \<le> 0" using b by simp
  have run: "attack_locked d pid ref w = Some (m, Some a, upd_player pid q ?w1)"
    unfolding attack_locked_def Let_def p r n v(1) bind.bind_lunit ic(1) if_not_P[OF alive] if_not_P[OF i]
      th_def[symmetric] died_def[symmetric] co_def[symmetric] k(1) ic(2) pq
    by (simp add: rq a_def m_def)
  have "\<not> is_event m" by (simp add: m_def attack_response_def)
  moreover have "attack_effect w pid p n a"
    using v(2) th q qok by (auto simp: attack_effect_def a_def Let_def th_def died_def)
  ultimately show ?thesis using run w' s' n
    by (intro exI[of _ m] exI[of _ a] exI[of _ "upd_player pid q ?w1"] exI[of _ n])
      (simp add: a_def ns_def)
qed

text \<open>Everything ATTACK can answer.\<close>

lemma attack_locked_cases:
  assumes w: "world_ok w" and p: "map_of (players w) pid = Some p"
  obtains (miss) m where "attack_locked d pid ref w = Some (m, None, w)" "\<not> is_event m"
  | (attack) m a w' where "attack_locked d pid ref w = Some (m, Some a, w')" "\<not> is_event m" "world_ok w'" "static_eq w' w"
    "room_of w' = (room_of w)(pid \<mapsto> current_room (at_attacker a))" "player_ok w pid (at_attacker a)"
    "at_player_died a \<Longrightarrow> current_room (at_attacker a) = SAFE_RESPAWN_ROOM"
    "\<not> at_player_died a \<Longrightarrow> current_room (at_attacker a) = current_room p"
proof -
  obtain r where r: "map_of (rooms w) (current_room p) = Some r" using player_room[OF world_ok_player[OF w p]] by blast
  have alive: "\<not> hp p \<le> 0" using world_ok_player[OF w p] by (simp add: player_ok_def)
  show ?thesis
  proof (cases "resolve_npc_ref_locked w (npc_ids r) ref = []")
    case True
    then show ?thesis using miss alive by (simp add: attack_locked_def p r Let_def)
  next
    case False
    from attack_locked_ok[OF w p r False, of d] obtain m a w' n
      where run: "attack_locked d pid ref w = Some (m, Some a, w')" "\<not> is_event m" "world_ok w'" "static_eq w' w"
        "room_of w' = (room_of w)(pid \<mapsto> current_room (at_attacker a))" and e: "attack_effect w pid p n a" by blast
    show ?thesis by (rule attack[OF run]) (use e in \<open>auto simp: attack_effect_def Let_def\<close>)
  qed
qed

lemma announce_attack_ok [simp]:
  assumes "server_ok sv"
  shows "server_ok (announce_attack pid a sv)" "replies (announce_attack pid a sv) = replies sv"
    "sess (announce_attack pid a sv) = sess sv"
  using assms by (simp_all add: announce_attack_def announce_respawn_def Let_def)

lemma cmd_attack_handled:
  assumes ok: "server_ok sv"
  shows "handled sid sv (cmd_attack d sid args sv)"
  unfolding cmd_attack_def
proof (rule handled_guard[OF ok])
  let ?pid = "pid_of sv sid"
  assume pid: "?pid \<noteq> []"
  from server_ok_player[OF ok pid] obtain p where p: "map_of (players (sv_world sv)) ?pid = Some p" by blast
  have w: "world_ok (sv_world sv)" using ok by (simp add: server_ok_def)
  show "handled sid sv (if args = [] then Some (send_line sid ''ERR 200 BAD_MESSAGE ATTACK requires a target'' sv)
     else let pid = pid_of sv sid in do {
       (response, outcome, w) \<leftarrow> attack_locked d pid (join_from args 0) (sv_world sv);
       let sv1 = set_world w sv;
       Some (case outcome of None \<Rightarrow> send_line sid response sv1
         | Some a \<Rightarrow>
             let sv2 = (if at_player_died a then move_session sid SAFE_RESPAWN_ROOM sv1 else sv1)
             in announce_attack pid a (save (at_attacker a) (send_line sid response sv2)))
     })"
  proof (cases rule: attack_locked_cases[OF w p, of d "join_from args 0"])
    case (1 m)
    then show ?thesis
      using handled_no_save[OF ok locked_ok_same[OF w]] by (simp add: handled_reply[OF ok] Let_def)
  next
    case attack: (2 m a w')
    define sv2 where "sv2 = (if at_player_died a then move_session sid SAFE_RESPAWN_ROOM (set_world w' sv) else set_world w' sv)"
    have s2: "server_ok sv2"
    proof (cases "at_player_died a")
      case True
      then show ?thesis using server_ok_relocate[OF ok attack(3,4) pid, of SAFE_RESPAWN_ROOM] attack(5,7)
        by (simp add: sv2_def move_session_def)
    next
      case False
      have "room_of w' = room_of (sv_world sv)" using attack(5,8) False room_of_self[OF p refl] by simp
      then show ?thesis using server_ok_set_world[OF ok attack(3,4)] False by (simp add: sv2_def)
    qed
    have f: "sv_world sv2 = w'" "replies sv2 = replies sv" "connected (sess sv2 sid) = connected (sess sv sid)"
      by (simp_all add: sv2_def move_session_def)
    have "player_ok w' ?pid (at_attacker a)" using attack(6) player_ok_static[OF attack(4)] by simp
    then have "server_ok (save (at_attacker a) (send_line sid m sv2))" by (intro server_ok_save[of _ ?pid]) (simp_all add: s2 f)
    then have "handled sid sv (Some (announce_attack ?pid a (save (at_attacker a) (send_line sid m sv2))))"
      using attack(2) f by (auto simp: handled_def)
    then show ?thesis using attack(1) by (simp add: handled_reply[OF ok] Let_def sv2_def)
  qed
qed

lemma cmd_status_handled:
  assumes ok: "server_ok sv"
  shows "handled sid sv (cmd_status sid sv)"
  unfolding cmd_status_def
proof (rule handled_guard[OF ok])
  assume "pid_of sv sid \<noteq> []"
  from server_ok_player[OF ok this] obtain p where "map_of (players (sv_world sv)) (pid_of sv sid) = Some p" by blast
  then show "handled sid sv (do {
     let w = sv_world sv;
     player \<leftarrow> map_of (players w) (pid_of sv sid);
     let in_combat = (last_target player \<noteq> [] \<and>
       (case map_of (npcs w) (last_target player) of None \<Rightarrow> False | Some n \<Rightarrow> np_hp n > 0));
     Some (send_line sid (''OK '' @ obj [member ''hp'' (show_int (hp player)), member ''max_hp'' (show_int (max_hp player)),
       member ''in_combat'' (bool_lit in_combat),
       member ''target'' (if in_combat then quoted (last_target player) else ''null'')]) sv)
   })" by (simp add: handled_reply[OF ok] Let_def)
qed

end
