(* ===== verification/NpcCommands.thy ===== *)
theory NpcCommands
  imports CombatCommands
begin

text \<open>
  \<open>server/src/commands/npc_commands.cpp\<close>: TALK.  Each player walks cyclically through the lines of an
  NPC; the bonus lines join the cycle once the player has completed the quests the NPC lists.
\<close>

definition bonus_unlocked :: "npc \<Rightarrow> player_state \<Rightarrow> bool" where
  "bonus_unlocked n p = (unlock_quest_ids n \<noteq> [] \<and>
     list_all (\<lambda>q. map_of (quest_status p) q = Some ''completed'') (unlock_quest_ids n))"

text \<open>The line shown for the progress, and the progress after it.\<close>

definition next_line :: "npc \<Rightarrow> bool \<Rightarrow> nat \<Rightarrow> string \<times> nat" where
  "next_line n bonus progress =
     (let base_size = length (dialogue n);
          total_size = base_size + (if bonus then length (bonus_dialogue n) else 0)
      in if total_size > 0
         then (let idx = progress mod total_size in
           (if idx < base_size then dialogue n ! idx else bonus_dialogue n ! (idx - base_size),
            (progress + 1) mod total_size))
         else ([], progress))"

definition talk_locked :: "string \<Rightarrow> string \<Rightarrow> world \<Rightarrow> player_state locked" where
  "talk_locked pid ref w = do {
     player \<leftarrow> map_of (players w) pid;
     room \<leftarrow> map_of (rooms w) (current_room player);
     let npc_id = resolve_npc_ref_locked w (npc_ids room) ref;
     if npc_id = [] then Some (''ERR 404 NPC_NOT_FOUND '' @ ref, None, w)
     else do {
       n \<leftarrow> map_of (npcs w) npc_id;
       let (line, progress) = next_line n (bonus_unlocked n player) (find_def (npc_dialogue_progress player) npc_id 0);
       let talker = player\<lparr>npc_dialogue_progress := put npc_id progress (npc_dialogue_progress player)\<rparr>;
       Some (''OK '' @ obj [member ''npc'' (quoted npc_id), member ''dialogue'' (quoted (json_escape line))],
         Some talker, upd_player pid talker w)
     }
   }"

definition cmd_talk :: handler where
  "cmd_talk sid args sv = guard_connected sid sv (
     if args = [] then Some (send_line sid ''ERR 200 BAD_MESSAGE TALK requires an npc'' sv)
     else do {
       (response, talker, w) \<leftarrow> talk_locked (pid_of sv sid) (join_from args 0) (sv_world sv);
       let sv1 = send_line sid response (set_world w sv);
       Some (case talker of None \<Rightarrow> sv1 | Some p \<Rightarrow> save p sv1)
     })"

subsection \<open>The cycle\<close>

definition script :: "npc \<Rightarrow> bool \<Rightarrow> string list" where
  "script n bonus = dialogue n @ (if bonus then bonus_dialogue n else [])"

lemma next_line_script:
  "script n b \<noteq> [] \<Longrightarrow> next_line n b k = (script n b ! (k mod length (script n b)), (k + 1) mod length (script n b))"
  by (auto simp: next_line_def script_def Let_def nth_append)

lemma next_line_bounded: "next_line n b k = (l, k') \<Longrightarrow> script n b \<noteq> [] \<Longrightarrow> k' < length (script n b)"
  by (auto simp: next_line_script)

text \<open>The lines of \<open>m\<close> TALKs in a row while the set of lines stays the same.\<close>

fun talk_lines :: "npc \<Rightarrow> bool \<Rightarrow> nat \<Rightarrow> nat \<Rightarrow> string list" where
  "talk_lines n b k 0 = []"
| "talk_lines n b k (Suc m) = (let (l, k') = next_line n b k in l # talk_lines n b k' m)"

lemma talk_lines_nth:
  assumes "script n b \<noteq> []" "i < m"
  shows "talk_lines n b k m ! i = script n b ! ((k + i) mod length (script n b))"
  using assms(2)
proof (induction m arbitrary: k i)
  case (Suc m)
  then show ?case
    by (cases i) (simp_all add: next_line_script[OF assms(1)] mod_simps)
qed simp

lemma length_talk_lines [simp]: "length (talk_lines n b k m) = m"
  by (induction m arbitrary: k) (auto split: prod.splits)

lemma talk_lines_first_round: "script n b \<noteq> [] \<Longrightarrow> talk_lines n b 0 (length (script n b)) = script n b"
  by (rule nth_equalityI) (simp_all add: talk_lines_nth)

subsection \<open>The handler\<close>

lemma talk_locked_ok:
  assumes w: "world_ok w" and p: "map_of (players w) pid = Some p"
  shows "\<exists>m t w'. talk_locked pid ref w = Some (m, t, w') \<and> locked_ok pid w m t w'"
proof -
  obtain r where r: "map_of (rooms w) (current_room p) = Some r" using player_room[OF world_ok_player[OF w p]] by blast
  let ?i = "resolve_npc_ref_locked w (npc_ids r) ref"
  show ?thesis
  proof (cases "?i = []")
    case True
    then show ?thesis using locked_ok_same[OF w] by (simp add: talk_locked_def p r Let_def)
  next
    case False
    then obtain n where n: "map_of (npcs w) ?i = Some n" using room_npc_known[OF w r] by blast
    let ?k = "find_def (npc_dialogue_progress p) ?i 0"
    obtain l k where nl: "next_line n (bonus_unlocked n p) ?k = (l, k)" by fastforce
    have pok: "player_ok w pid p" by (rule world_ok_player[OF w p])
    have old: "int ?k \<le> INT_MAX" using pok unfolding player_ok_def by (simp add: find_def_def split: option.splits)
    have "int (length (dialogue n) + length (bonus_dialogue n)) \<le> INT_MAX"
      using world_ok_npc[OF w n] by (simp add: npc_balanced_def)
    then have len: "int (length (script n (bonus_unlocked n p))) \<le> INT_MAX" by (simp add: script_def)
    have k: "int k \<le> INT_MAX"
    proof (cases "script n (bonus_unlocked n p) = []")
      case True
      then show ?thesis using nl old by (simp add: script_def next_line_def split: if_splits)
    next
      case False
      then show ?thesis using next_line_bounded[OF nl] len by simp
    qed
    let ?t = "p\<lparr>npc_dialogue_progress := put ?i k (npc_dialogue_progress p)\<rparr>"
    have t: "player_ok w pid ?t" using pok n k unfolding player_ok_def by simp
    have "world_ok (upd_player pid ?t w)" by (rule world_ok_upd_player[OF w t])
    then have "locked_ok pid w (''OK '' @ obj [member ''npc'' (quoted ?i), member ''dialogue'' (quoted (json_escape l))])
        (Some ?t) (upd_player pid ?t w)"
      using t room_of_self[OF p, of ?t] by (simp add: locked_ok_def)
    then show ?thesis using False by (simp add: talk_locked_def p r n Let_def nl)
  qed
qed

lemma cmd_talk_handled:
  assumes ok: "server_ok sv"
  shows "handled sid sv (cmd_talk sid args sv)"
  unfolding cmd_talk_def
proof (rule handled_guard[OF ok])
  let ?pid = "pid_of sv sid"
  assume "?pid \<noteq> []"
  from server_ok_player[OF ok this] obtain p where p: "map_of (players (sv_world sv)) ?pid = Some p" by blast
  have w: "world_ok (sv_world sv)" using ok by (simp add: server_ok_def)
  obtain m t w' where t: "talk_locked ?pid (join_from args 0) (sv_world sv) = Some (m, t, w')"
    "locked_ok ?pid (sv_world sv) m t w'" using talk_locked_ok[OF w p] by blast
  show "handled sid sv (if args = [] then Some (send_line sid ''ERR 200 BAD_MESSAGE TALK requires an npc'' sv)
     else do {
       (response, talker, w) \<leftarrow> talk_locked ?pid (join_from args 0) (sv_world sv);
       let sv1 = send_line sid response (set_world w sv);
       Some (case talker of None \<Rightarrow> sv1 | Some p \<Rightarrow> save p sv1)
     })"
    using t handled_no_save[OF ok] handled_after_save[OF ok, of ?pid m _ w' "\<lambda>sv. sv"]
    by (cases t) (simp_all add: handled_reply[OF ok] Let_def)
qed

end
