(* ===== verification/Dispatcher.thy ===== *)
theory Dispatcher
  imports NpcCommands
begin

text \<open>
  \<open>server/src/commands/dispatcher.cpp\<close>: the commands of connecting, looking, moving and chatting, the
  dispatch of a line to its handler, and the end of a connection.  Also the command flood counter of
  \<open>logging/abuse_monitor.cpp\<close> (time points in nanoseconds).  The phases of CONNECT,
  CREATE_CHARACTER and the disconnect that run under separate locks are functions of their own.
\<close>

definition character_info_json :: "world \<Rightarrow> player_state \<Rightarrow> string" where
  "character_info_json w p =
     (let group_id = player_group_at w (player_id p) in
      obj [member ''name'' (quoted (player_id p)), member ''race'' (quoted (json_escape (race p))),
           member ''special_attributes'' (quoted (json_escape (special_attributes p))),
           member ''room'' (quoted (current_room p)), member ''hp'' (show_int (hp p)),
           member ''max_hp'' (show_int (max_hp p)),
           member ''group'' (if group_id = [] then ''null'' else quoted group_id),
           member ''inventory'' (arr (map quoted (inventory p)))])"

definition new_player :: "world \<Rightarrow> string \<Rightarrow> string \<Rightarrow> string \<Rightarrow> player_state" where
  "new_player w name rc attrs = init_player_quests_locked w
     (default_player\<lparr>player_id := name, race := rc, special_attributes := attrs, current_room := ''loc.start''\<rparr>)"

definition login_session :: "nat \<Rightarrow> string \<Rightarrow> string \<Rightarrow> server \<Rightarrow> server" where
  "login_session sid name room_id sv =
     set_session sid ((sess sv sid)\<lparr>s_player_id := name, s_current_room := room_id\<rparr>) sv"

text \<open>The critical section of CREATE_CHARACTER: \<open>None\<close> when the name is taken.\<close>

definition reserve_new :: "nat \<Rightarrow> string \<Rightarrow> string \<Rightarrow> string \<Rightarrow> server \<Rightarrow> (player_state \<times> server) option" where
  "reserve_new sid name rc attrs sv =
     (if count_key (players (sv_world sv)) name \<or> exists_file name sv then None
      else let p = new_player (sv_world sv) name rc attrs in
        Some (p, login_session sid name ''loc.start'' (set_world (upd_player name p (sv_world sv)) sv)))"

definition cmd_create_character :: handler where
  "cmd_create_character sid args sv =
     (if pid_of sv sid \<noteq> [] then Some (send_line sid (''ERR 201 NAME_IN_USE already connected as '' @ pid_of sv sid) sv)
      else if args = [] then Some (send_line sid ''ERR 200 BAD_MESSAGE CREATE_CHARACTER requires a name'' sv)
      else let name = hd args; rc = (if length args > 1 then args ! 1 else []);
               attrs = (if length args > 2 then join_from args 2 else []) in
        if \<not> is_valid_name name then Some (send_line sid ''ERR 200 BAD_MESSAGE invalid character name'' sv)
        else (case reserve_new sid name rc attrs sv of
            None \<Rightarrow> Some (send_line sid ''ERR 201 NAME_IN_USE name already in use'' sv)
          | Some (created, sv1) \<Rightarrow>
              Some (broadcast_stats (send_line sid ''OK connected''
                (log_info ''character_created'' [(''player'', name), (''race'', rc), (''ip'', peer_ip (sess sv1 sid))]
                  (registry_add name sid (save created sv1)))))))"

text \<open>The second critical section of CONNECT, after the character was read from disk.\<close>

definition enter_world :: "nat \<Rightarrow> string \<Rightarrow> player_state \<Rightarrow> server \<Rightarrow> server option" where
  "enter_world sid name loaded sv =
     (if count_key (players (sv_world sv)) name then None
      else let p = init_player_quests_locked (sv_world sv) loaded in
        Some (login_session sid name (current_room p) (set_world (upd_player name p (sv_world sv)) sv)))"

definition cmd_connect :: handler where
  "cmd_connect sid args sv =
     (if pid_of sv sid \<noteq> [] then Some (send_line sid (''ERR 201 NAME_IN_USE already connected as '' @ pid_of sv sid) sv)
      else if args = [] then Some (send_line sid ''ERR 200 BAD_MESSAGE CONNECT requires a name'' sv)
      else let name = hd args in
        if \<not> is_valid_name name then Some (send_line sid ''ERR 200 BAD_MESSAGE invalid character name'' sv)
        else if count_key (players (sv_world sv)) name
        then Some (send_line sid ''ERR 201 NAME_IN_USE character is already online'' sv)
        else (case load name sv of
            (None, sv1) \<Rightarrow> Some (send_line sid (''ERR 404 CHARACTER_NOT_FOUND '' @ name) sv1)
          | (Some loaded, sv1) \<Rightarrow> (case enter_world sid name loaded sv1 of
                None \<Rightarrow> Some (send_line sid ''ERR 201 NAME_IN_USE character is already online'' sv1)
              | Some sv2 \<Rightarrow> Some (broadcast_stats (send_line sid ''OK connected''
                  (log_info ''player_connected'' [(''player'', name), (''ip'', peer_ip (sess sv2 sid))]
                    (registry_add name sid sv2)))))))"

definition cmd_look :: "nat \<Rightarrow> server \<Rightarrow> server option" where
  "cmd_look sid sv = guard_connected sid sv (Some (send_line sid
     (case map_of (rooms (sv_world sv)) (s_current_room (sess sv sid)) of
        None \<Rightarrow> ''ERR 500 INTERNAL room not found''
      | Some r \<Rightarrow> ''OK '' @ serialize_room_locked (sv_world sv) r) sv))"

definition move_locked :: "string \<Rightarrow> string \<Rightarrow> world \<Rightarrow> (string \<times> player_state) locked" where
  "move_locked pid direction w = do {
     player \<leftarrow> map_of (players w) pid;
     room \<leftarrow> map_of (rooms w) (current_room player);
     Some (case map_of (exits room) direction of
       None \<Rightarrow> (''ERR 301 NO_EXIT no exit '' @ direction, None, w)
     | Some new_room \<Rightarrow> let moved = player\<lparr>current_room := new_room\<rparr> in
         (''OK '' @ obj [member ''room'' (quoted new_room)], Some (current_room player, moved), upd_player pid moved w))
   }"

definition cmd_move :: handler where
  "cmd_move sid args sv = guard_connected sid sv (
     if args = [] then Some (send_line sid ''ERR 200 BAD_MESSAGE MOVE requires a direction'' sv)
     else let pid = pid_of sv sid in do {
       (response, step, w) \<leftarrow> move_locked pid (hd args) (sv_world sv);
       Some (case step of
         None \<Rightarrow> send_line sid response (set_world w sv)
       | Some (old_room, moved) \<Rightarrow>
           let new_room = current_room moved;
               sv1 = send_line sid response (move_session sid new_room (set_world w sv))
           in if new_room = [] then sv1
              else log_info ''player_moved'' [(''player'', pid), (''from'', old_room), (''to'', new_room)]
                (broadcast_to_room new_room pid (''EVT ROOM PRESENCE_ENTER '' @ pid)
                  (broadcast_to_room old_room pid (''EVT ROOM PRESENCE_LEAVE '' @ pid) (save moved sv1))))
     })"

definition cmd_who :: "nat \<Rightarrow> server \<Rightarrow> server option" where
  "cmd_who sid sv = guard_connected sid sv (
     let w = sv_world sv in
     Some (send_line sid (''OK '' @ obj
       [member ''room'' (arr (map (\<lambda>(pid, p). quoted pid)
          (filter (\<lambda>(pid, p). current_room p = s_current_room (sess sv sid)) (players w)))),
        member ''server'' (show_nat (length (players w)))]) sv))"

definition cmd_profile :: "nat \<Rightarrow> server \<Rightarrow> server option" where
  "cmd_profile sid sv = guard_connected sid sv (do {
     player \<leftarrow> map_of (players (sv_world sv)) (pid_of sv sid);
     Some (send_line sid (''OK '' @ character_info_json (sv_world sv) player) sv)
   })"

definition chat_event :: "string \<Rightarrow> string \<Rightarrow> string \<Rightarrow> string" where
  "chat_event scope pid txt = ''EVT '' @ scope @ '' CHAT '' @
     obj [member ''player'' (quoted pid), member ''text'' (quoted (json_escape txt))]"

definition cmd_chat :: handler where
  "cmd_chat sid args sv = guard_connected sid sv (
     if length args < 2 then Some (send_line sid ''ERR 200 BAD_MESSAGE CHAT requires scope and text'' sv)
     else let scope = hd args; pid = pid_of sv sid in
       if scope \<noteq> ''GLOBAL'' \<and> scope \<noteq> ''ROOM'' \<and> scope \<noteq> ''GROUP''
       then Some (send_line sid (''ERR 200 BAD_MESSAGE unknown chat scope '' @ scope) sv)
       else let evt = chat_event scope pid (join_from args 1);
                record_chat = log_info ''chat'' [(''player'', pid), (''scope'', scope)] in
         if scope = ''GROUP'' then
           (let group_id = player_group_at (sv_world sv) pid in
            if group_id = [] then Some (send_line sid ''ERR 401 NOT_IN_GROUP'' sv)
            else Some (record_chat (broadcast_to_group group_id [] evt (send_line sid ''OK'' sv))))
         else let sv1 = send_line sid ''OK'' sv in
           Some (record_chat (if scope = ''GLOBAL'' then send_to_sessions (registry_all sv1) evt sv1
             else broadcast_to_room (s_current_room (sess sv1 sid)) [] evt sv1)))"

definition cmd_quit :: "nat \<Rightarrow> server \<Rightarrow> server option" where
  "cmd_quit sid sv =
     (let sv1 = send_line sid ''OK bye'' sv in Some (set_session sid ((sess sv1 sid)\<lparr>connected := False\<rparr>) sv1))"

subsection \<open>The flood counter\<close>

definition COMMAND_FLOOD_THRESHOLD :: nat where "COMMAND_FLOOD_THRESHOLD = 10"
definition COMMAND_FLOOD_WINDOW :: int where "COMMAND_FLOOD_WINDOW = 1000000000"
definition RECONNECT_THRESHOLD :: nat where "RECONNECT_THRESHOLD = 5"
definition RECONNECT_WINDOW :: int where "RECONNECT_WINDOW = 10000000000"

definition slide_window :: "int \<Rightarrow> int \<Rightarrow> int list \<Rightarrow> int list" where
  "slide_window window now ts = dropWhile (\<lambda>t. now - t > window) (ts @ [now])"

definition record_and_check_flood :: "int \<Rightarrow> nat \<Rightarrow> server \<Rightarrow> bool \<times> server" where
  "record_and_check_flood now sid sv =
     (let ss = sess sv sid; ts = slide_window COMMAND_FLOOD_WINDOW now (timestamps ss)
      in (length ts > COMMAND_FLOOD_THRESHOLD, set_session sid (ss\<lparr>timestamps := ts\<rparr>) sv))"

definition record_connection_and_check_rapid_reconnect :: "int \<Rightarrow> string \<Rightarrow> (string \<times> int list) list
    \<Rightarrow> bool \<times> (string \<times> int list) list" where
  "record_connection_and_check_rapid_reconnect now ip history =
     (let ts = slide_window RECONNECT_WINDOW now (find_def history ip [])
      in (length ts > RECONNECT_THRESHOLD, put ip ts history))"

subsection \<open>Dispatch\<close>

definition run_command :: "dice \<Rightarrow> string \<Rightarrow> handler" where
  "run_command d cmd sid args sv =
     (if cmd = ''CONNECT'' then cmd_connect sid args sv
      else if cmd = ''CREATE_CHARACTER'' then cmd_create_character sid args sv
      else if cmd = ''CREATE'' \<and> args \<noteq> [] \<and> hd args = ''PLAYER'' then cmd_create_character sid (tl args) sv
      else if cmd = ''PROFILE'' then cmd_profile sid sv
      else if cmd = ''LOOK'' then cmd_look sid sv
      else if cmd = ''MOVE'' then cmd_move sid args sv
      else if cmd = ''WHO'' then cmd_who sid sv
      else if cmd = ''CHAT'' then cmd_chat sid args sv
      else if cmd = ''TAKE'' then cmd_take sid args sv
      else if cmd = ''DROP'' then cmd_drop sid args sv
      else if cmd = ''INVENTORY'' then cmd_inventory sid sv
      else if cmd = ''USE'' then cmd_use sid args sv
      else if cmd = ''TALK'' then cmd_talk sid args sv
      else if cmd = ''ATTACK'' then cmd_attack d sid args sv
      else if cmd = ''STATUS'' then cmd_status sid sv
      else if cmd = ''QUEST'' then cmd_quest sid args sv
      else if cmd = ''QUESTS'' then cmd_quests sid sv
      else if cmd = ''GROUP'' then cmd_group sid args sv
      else if cmd = ''QUIT'' then cmd_quit sid sv
      else Some (send_line sid (''ERR 200 BAD_MESSAGE unknown command '' @ cmd) sv))"

definition handle_command :: "int \<Rightarrow> dice \<Rightarrow> nat \<Rightarrow> string \<Rightarrow> server \<Rightarrow> server option" where
  "handle_command now d sid line sv =
     (let tokens = split_ws line in
      if tokens = [] then Some (send_line sid ''ERR 200 BAD_MESSAGE empty command'' sv)
      else let cmd = hd tokens; args = tl tokens; who = dash_if_empty (pid_of sv sid);
               sv1 = log_info ''command_received'' [(''player'', who), (''command'', cmd)] sv;
               (flood, sv2) = record_and_check_flood now sid sv1;
               sv3 = (if flood then log_warn ''command_flood_detected''
                 [(''player'', who), (''ip'', peer_ip (sess sv2 sid))] sv2 else sv2)
           in run_command d cmd sid args sv3)"

subsection \<open>The end of a connection\<close>

text \<open>The critical section of \<open>handle_disconnect\<close>: what was removed, and the group that was left.\<close>

definition remove_player :: "string \<Rightarrow> world \<Rightarrow> player_state option \<times> string \<times> world" where
  "remove_player pid w =
     (let w1 = w\<lparr>players := erase_key pid (players w)\<rparr>
      in (map_of (players w) pid, player_group_at w1 pid, leave_group_locked pid w1))"

definition announce_leave :: "string \<Rightarrow> player_state option \<Rightarrow> string \<Rightarrow> server \<Rightarrow> server" where
  "announce_leave pid had group_id sv =
     (let room_id = (case had of None \<Rightarrow> [] | Some p \<Rightarrow> current_room p);
          sv1 = log_info ''player_disconnected'' [(''player'', pid)] sv;
          sv2 = (if room_id \<noteq> [] then broadcast_to_room room_id pid (''EVT ROOM PRESENCE_LEAVE '' @ pid) sv1 else sv1);
          sv3 = (if group_id \<noteq> [] then broadcast_to_group group_id pid (''EVT GROUP LEAVE '' @ pid) sv2 else sv2)
      in if had \<noteq> None then broadcast_stats sv3 else sv3)"

definition handle_disconnect :: "nat \<Rightarrow> server \<Rightarrow> server" where
  "handle_disconnect sid sv =
     (let pid = pid_of sv sid in
      if pid = [] then sv
      else (case remove_player pid (sv_world sv) of (had, group_id, w) \<Rightarrow>
        let sv1 = set_world w sv;
            sv2 = (case had of None \<Rightarrow> sv1 | Some p \<Rightarrow> save p sv1)
        in announce_leave pid had group_id (registry_remove pid sv2)))"

text \<open>The end of \<open>client_loop\<close>: the socket is closed and the session object goes away with its last
  pointer, which is recorded as a session without a player.\<close>

definition close_session :: "nat \<Rightarrow> server \<Rightarrow> server" where
  "close_session sid sv =
     log_info ''client_disconnected'' [(''ip'', peer_ip (sess sv sid))]
       (set_session sid ((sess sv sid)\<lparr>connected := False, s_player_id := []\<rparr>) sv)"

end
