(* ===== verification/ServerCorrect.thy ===== *)
theory ServerCorrect
  imports Dispatcher
begin

text \<open>
  Every command keeps the server invariant, never fails, and is answered by exactly one line; a
  disconnect keeps the invariant once the session is gone.  The contract of a command handler is the
  locale \<open>command_loop\<close>, interpreted on \<open>handle_command\<close>.
\<close>

subsection \<open>Logging in\<close>

lemma offline_unregistered:
  assumes "server_ok sv" "map_of (players (sv_world sv)) name = None"
  shows "registry_get sv name = None"
proof (rule ccontr)
  assume "registry_get sv name \<noteq> None"
  then obtain sid where "registry_get sv name = Some sid" by blast
  then have "pid_of sv sid = name" "name \<noteq> []" using assms(1) unfolding server_ok_def sessions_ok_def by blast+
  then have "room_of (sv_world sv) name \<noteq> None" using assms(1) unfolding server_ok_def sessions_ok_def by (metis option.distinct(1))
  then show False using assms(2) by (simp add: room_of_def)
qed

lemma login_ok:
  assumes ok: "server_ok sv" and off: "map_of (players (sv_world sv)) name = None" and pid: "pid_of sv sid = []"
    and p: "player_ok (sv_world sv) name p"
  defines "sv' \<equiv> login_session sid name (current_room p) (set_world (upd_player name p (sv_world sv)) sv)"
  shows "world_ok (sv_world sv')" "files_ok sv'" "disk_ok sv'" "sessions_ok (registry_add name sid sv')"
    "static_eq (sv_world sv') (sv_world sv)"
proof -
  let ?w = "upd_player name p (sv_world sv)"
  have w: "sv_world sv' = ?w" by (simp add: sv'_def login_session_def)
  show "world_ok (sv_world sv')" unfolding w by (rule world_ok_upd_player[OF _ p]) (use ok in \<open>simp add: server_ok_def\<close>)
  show s: "static_eq (sv_world sv') (sv_world sv)" unfolding w by simp
  show "files_ok sv'" using ok unfolding server_ok_def files_ok_def
    by (simp add: sv'_def login_session_def player_ok_static[OF static_upd_player])
  show "disk_ok sv'" using ok by (simp add: server_ok_def disk_ok_def sv'_def login_session_def)
  have name: "name \<noteq> []" using p by (auto simp: player_ok_def is_valid_name_def)
  have so: "sessions_ok sv" using ok by (simp add: server_ok_def)
  have reg: "registry_get sv name = None" by (rule offline_unregistered[OF ok off])
  have nobody: "pid_of sv a \<noteq> name" for a
  proof
    assume "pid_of sv a = name"
    then have "registry_get sv name = Some a" using so name unfolding sessions_ok_def by metis
    then show False using reg by simp
  qed
  let ?r = "registry_add name sid sv'"
  have g: "registry_get ?r q = (if q = name then Some sid else registry_get sv q)" for q
    by (simp add: registry_get_def sv'_def login_session_def)
  have pd: "pid_of ?r a = (if a = sid then name else pid_of sv a)" for a
    by (simp add: pid_of_def sv'_def login_session_def)
  have rm: "room_of (sv_world ?r) q = (if q = name then Some (current_room p) else room_of (sv_world sv) q)" for q
    by (simp add: sv'_def login_session_def)
  have cr: "s_current_room (sess ?r a) = (if a = sid then current_room p else s_current_room (sess sv a))" for a
    by (simp add: sv'_def login_session_def)
  show "sessions_ok ?r"
    unfolding sessions_ok_def
  proof (intro conjI allI impI)
    fix a assume a: "pid_of ?r a \<noteq> []"
    show "registry_get ?r (pid_of ?r a) = Some a" using a so nobody[of a] unfolding sessions_ok_def g pd by auto
    show "room_of (sv_world ?r) (pid_of ?r a) = Some (s_current_room (sess ?r a))"
      using a so nobody[of a] unfolding sessions_ok_def rm pd cr by auto
  next
    fix q a assume q: "registry_get ?r q = Some a"
    show "pid_of ?r a = q" using q so pid unfolding sessions_ok_def g pd by (auto split: if_splits)
    show "q \<noteq> []" using q so name unfolding sessions_ok_def g by (auto split: if_splits)
  next
    show "distinct (keys (registry ?r))" using so by (simp add: sessions_ok_def sv'_def login_session_def)
  next
    fix q assume "count_key (players (sv_world ?r)) q"
    then show "registry_get ?r q \<noteq> None"
      using so unfolding sessions_ok_def g count_room_of rm by (auto split: if_splits)
  qed
qed

lemma default_player_ok:
  assumes "world_ok w" "is_valid_name name"
  shows "player_ok w name (default_player\<lparr>player_id := name, race := rc, special_attributes := attrs, current_room := ''loc.start''\<rparr>)"
  using assms by (simp add: player_ok_def default_player_def RESPAWN_HP_def world_ok_def world_data_ok_def rooms_ok_def)

lemma new_player_ok:
  assumes "world_ok w" "is_valid_name name"
  shows "player_ok w name (new_player w name rc attrs)" "current_room (new_player w name rc attrs) = ''loc.start''"
  using init_player_quests_ok(1,2)[OF assms(1) default_player_ok[OF assms, of attrs rc]]
  by (simp_all add: new_player_def)

lemma handled_login:
  assumes "world_ok (sv_world sv1)" "files_ok sv1" "disk_ok sv1" "sessions_ok (registry_add name sid sv1)"
    and "connected (sess sv1 sid) = connected (sess sv sid)" "replies sv1 = replies sv" "\<not> is_event m"
  shows "handled sid sv (Some (broadcast_stats (send_line sid m (log_info e f (registry_add name sid sv1)))))"
proof -
  have "server_ok (registry_add name sid sv1)"
    using assms(1-4) by (simp add: server_ok_def files_ok_def disk_ok_def)
  then show ?thesis using assms(5-7) by (auto simp: handled_def)
qed

lemma cmd_create_character_handled:
  assumes ok: "server_ok sv"
  shows "handled sid sv (cmd_create_character sid args sv)"
proof -
  let ?n = "hd args" and ?rc = "if length args > 1 then args ! 1 else []" and ?at = "if length args > 2 then join_from args 2 else []"
  have w: "world_ok (sv_world sv)" using ok by (simp add: server_ok_def)
  have main: "handled sid sv (case reserve_new sid ?n ?rc ?at sv of
            None \<Rightarrow> Some (send_line sid ''ERR 201 NAME_IN_USE name already in use'' sv)
          | Some (created, sv1) \<Rightarrow>
              Some (broadcast_stats (send_line sid ''OK connected''
                (log_info ''character_created'' [(''player'', ?n), (''race'', ?rc), (''ip'', peer_ip (sess sv1 sid))]
                  (registry_add ?n sid (save created sv1))))))"
    if pid: "pid_of sv sid = []" and v: "is_valid_name ?n"
  proof (cases "reserve_new sid ?n ?rc ?at sv")
    case None
    then show ?thesis by (simp add: handled_reply[OF ok])
  next
    case (Some x)
    let ?p = "new_player (sv_world sv) ?n ?rc ?at"
    have off: "map_of (players (sv_world sv)) ?n = None" and
      x: "x = (?p, login_session sid ?n ''loc.start'' (set_world (upd_player ?n ?p (sv_world sv)) sv))"
      using Some by (auto simp: reserve_new_def Let_def split: if_splits)
    note p = new_player_ok[OF w v, of ?rc ?at]
    note l = login_ok[OF ok off pid p(1), unfolded p(2)]
    let ?s = "login_session sid ?n ''loc.start'' (set_world (upd_player ?n ?p (sv_world sv)) sv)"
    have pw: "player_ok (sv_world ?s) ?n ?p" using p(1) player_ok_static[OF l(5)] by simp
    have "files_ok (save ?p ?s)" by (rule files_ok_save[OF l(1) pw l(2,3)])
    moreover have "sessions_ok (registry_add ?n sid (save ?p ?s))"
      using l(4) by (simp add: sessions_ok_def pid_of_def registry_get_def)
    ultimately show ?thesis using l(1,3) Some x
      by (auto intro!: handled_login simp: login_session_def)
  qed
  then show ?thesis unfolding cmd_create_character_def Let_def
    by (simp add: handled_reply[OF ok] split del: if_split) (simp add: handled_reply[OF ok])
qed

lemma cmd_connect_handled:
  assumes ok: "server_ok sv"
  shows "handled sid sv (cmd_connect sid args sv)"
proof -
  let ?n = "hd args"
  have main: "handled sid sv (case load ?n sv of
            (None, sv1) \<Rightarrow> Some (send_line sid (''ERR 404 CHARACTER_NOT_FOUND '' @ ?n) sv1)
          | (Some loaded, sv1) \<Rightarrow> (case enter_world sid ?n loaded sv1 of
                None \<Rightarrow> Some (send_line sid ''ERR 201 NAME_IN_USE character is already online'' sv1)
              | Some sv2 \<Rightarrow> Some (broadcast_stats (send_line sid ''OK connected''
                  (log_info ''player_connected'' [(''player'', ?n), (''ip'', peer_ip (sess sv2 sid))]
                    (registry_add ?n sid sv2))))))"
    if pid: "pid_of sv sid = []" and v: "is_valid_name ?n" and off: "map_of (players (sv_world sv)) ?n = None"
  proof -
    obtain lo sv1 where ld: "load ?n sv = (lo, sv1)" by fastforce
    note f = load_frame[OF ld]
    have ok1: "server_ok sv1" using server_ok_core[of sv1 sv] f ok by (simp add: same_core_def)
    have c: "handled sid sv r = handled sid sv1 r" for r using f by (simp add: handled_def)
    show ?thesis
    proof (cases lo)
      case None
      then show ?thesis unfolding c using ld by (simp add: handled_reply[OF ok1])
    next
      case (Some p)
      have "load_file ?n (files sv) = Some (Inr p)"
        using ld Some by (auto simp: load_def split: option.splits sum.splits)
      then have pok: "player_ok (sv_world sv1) ?n p" using ok v f unfolding server_ok_def files_ok_def by simp
      have w1: "world_ok (sv_world sv1)" using ok1 by (simp add: server_ok_def)
      note q = init_player_quests_ok[OF w1 pok]
      note l = login_ok[OF ok1 _ _ q(1), of sid]
      have e: "enter_world sid ?n p sv1 = Some (login_session sid ?n (current_room (init_player_quests_locked (sv_world sv1) p))
          (set_world (upd_player ?n (init_player_quests_locked (sv_world sv1) p) (sv_world sv1)) sv1))"
        using off f by (simp add: enter_world_def Let_def)
      show ?thesis
        unfolding c ld Some e prod.case option.case
        by (rule handled_login; (rule l)?) (use off f pid in \<open>simp_all add: pid_of_def login_session_def\<close>)
    qed
  qed
  then show ?thesis by (simp add: cmd_connect_def Let_def handled_reply[OF ok])
qed

subsection \<open>The other commands of the dispatcher\<close>

lemma cmd_look_handled: "server_ok sv \<Longrightarrow> handled sid sv (cmd_look sid sv)"
  unfolding cmd_look_def by (intro handled_guard handled_reply) (auto split: option.splits)

lemma cmd_who_handled: "server_ok sv \<Longrightarrow> handled sid sv (cmd_who sid sv)"
  unfolding cmd_who_def Let_def by (intro handled_guard handled_reply) auto

lemma cmd_profile_handled: "server_ok sv \<Longrightarrow> handled sid sv (cmd_profile sid sv)"
proof -
  assume ok: "server_ok sv"
  show ?thesis
    unfolding cmd_profile_def
  proof (rule handled_guard[OF ok])
    assume "pid_of sv sid \<noteq> []"
    from server_ok_player[OF ok this] obtain p where "map_of (players (sv_world sv)) (pid_of sv sid) = Some p" by blast
    then show "handled sid sv (do { player \<leftarrow> map_of (players (sv_world sv)) (pid_of sv sid);
        Some (send_line sid (''OK '' @ character_info_json (sv_world sv) player) sv) })"
      by (simp add: handled_reply[OF ok])
  qed
qed

lemma move_locked_ok:
  assumes w: "world_ok w" and p: "map_of (players w) pid = Some p" and r: "map_of (rooms w) (current_room p) = Some r"
  shows "(map_of (exits r) dir = None \<and> (\<exists>m. move_locked pid dir w = Some (m, None, w) \<and> \<not> is_event m)) \<or>
    (\<exists>new m. map_of (exits r) dir = Some new \<and> \<not> is_event m \<and>
       move_locked pid dir w = Some (m, Some (current_room p, p\<lparr>current_room := new\<rparr>), upd_player pid (p\<lparr>current_room := new\<rparr>) w) \<and>
       player_ok w pid (p\<lparr>current_room := new\<rparr>) \<and> world_ok (upd_player pid (p\<lparr>current_room := new\<rparr>) w) \<and> new \<noteq> [])"
proof (cases "map_of (exits r) dir")
  case None
  then show ?thesis by (simp add: move_locked_def p r)
next
  case (Some new)
  have "new \<in> snd ` set (exits r)" using map_of_SomeD[OF Some] by force
  then have n: "count_key (rooms w) new" using world_ok_room[OF w r] unfolding room_ok_def by blast
  have pk: "player_ok w pid (p\<lparr>current_room := new\<rparr>)" using world_ok_player[OF w p] n unfolding player_ok_def by simp
  moreover have "new \<noteq> []" using world_ok_id(1)[OF w n] by blast
  ultimately show ?thesis using Some world_ok_upd_player[OF w pk] by (simp add: move_locked_def p r Let_def)
qed

lemma cmd_move_handled:
  assumes ok: "server_ok sv"
  shows "handled sid sv (cmd_move sid args sv)"
  unfolding cmd_move_def
proof (rule handled_guard[OF ok])
  let ?pid = "pid_of sv sid" and ?w = "sv_world sv"
  assume pid: "?pid \<noteq> []"
  from server_ok_player[OF ok pid] obtain p r where p: "map_of (players ?w) ?pid = Some p"
    and r: "map_of (rooms ?w) (current_room p) = Some r" by blast
  have w: "world_ok ?w" using ok by (simp add: server_ok_def)
  show "handled sid sv (if args = [] then Some (send_line sid ''ERR 200 BAD_MESSAGE MOVE requires a direction'' sv)
     else let pid = pid_of sv sid in do {
       (response, step, w) \<leftarrow> move_locked pid (hd args) (sv_world sv);
       Some (case step of
         None \<Rightarrow> send_line sid response (set_world w sv)
       | Some (old_room, moved) \<Rightarrow>
           let new_room = current_room moved;
               sv1 = send_line sid response (move_session sid new_room (set_world w sv))
           in if new_room = [] then sv1
              else log_info ''player_moved'' [(''player'', pid), (''from'', old_room), (''to'', new_room)]
                (broadcast_to_room new_room pid (''EVT ROOM PRESENCE_ENTER '' @ pid)
                  (broadcast_to_room old_room pid (''EVT ROOM PRESENCE_LEAVE '' @ pid) (save moved sv1))))
     })"
    using move_locked_ok[OF w p r, of "hd args"]
  proof (elim disjE exE conjE)
    fix m assume "move_locked ?pid (hd args) ?w = Some (m, None, ?w)" "\<not> is_event m"
    then show ?thesis using handled_no_save[OF ok locked_ok_same[OF w]] by (simp add: handled_reply[OF ok] Let_def)
  next
    fix new m
    let ?p = "p\<lparr>current_room := new\<rparr>" and ?w' = "upd_player ?pid (p\<lparr>current_room := new\<rparr>) ?w"
    assume m: "\<not> is_event m" "move_locked ?pid (hd args) ?w = Some (m, Some (current_room p, ?p), ?w')"
      and pk: "player_ok ?w ?pid ?p" and wk: "world_ok ?w'" and new: "new \<noteq> []"
    let ?s = "move_session sid new (set_world ?w' sv)"
    have s: "server_ok ?s"
      using server_ok_relocate[OF ok wk static_upd_player pid, of new] by (simp add: move_session_def)
    have "server_ok (save ?p (send_line sid m ?s))"
      by (rule server_ok_save[of _ ?pid]) (use s pk player_ok_static[OF static_upd_player] in \<open>simp_all add: move_session_def\<close>)
    moreover have "replies ?s = replies sv" "connected (sess ?s sid) = connected (sess sv sid)"
      by (simp_all add: move_session_def)
    ultimately have "handled sid sv (Some (log_info e f (broadcast_to_room new ?pid (''EVT ROOM PRESENCE_ENTER '' @ ?pid)
        (broadcast_to_room (current_room p) ?pid (''EVT ROOM PRESENCE_LEAVE '' @ ?pid) (save ?p (send_line sid m ?s))))))" for e f
      using m(1) by (auto simp: handled_def)
    then show ?thesis using m(2) new by (simp add: handled_reply[OF ok] Let_def)
  qed
qed

lemma cmd_chat_handled:
  assumes ok: "server_ok sv"
  shows "handled sid sv (cmd_chat sid args sv)"
  unfolding cmd_chat_def
proof (rule handled_guard[OF ok])
  have e: "is_event (chat_event scope pid t)" for scope pid t by (simp add: chat_event_def)
  have h: "handled sid sv (Some (log_info a b (broadcast_to_group g x (chat_event s p t) (send_line sid ''OK'' sv))))"
    "handled sid sv (Some (log_info a b (broadcast_to_room g x (chat_event s p t) (send_line sid ''OK'' sv))))"
    "handled sid sv (Some (log_info a b (send_to_sessions l (chat_event s p t) (send_line sid ''OK'' sv))))" for a b g x s p t l
    by (rule handledI[of _ "''OK''"]; simp add: ok e)+
  show "handled sid sv (if length args < 2 then Some (send_line sid ''ERR 200 BAD_MESSAGE CHAT requires scope and text'' sv)
     else let scope = hd args; pid = pid_of sv sid in
       if scope \<noteq> ''GLOBAL'' \<and> scope \<noteq> ''ROOM'' \<and> scope \<noteq> ''GROUP''
       then Some (send_line sid (''ERR 200 BAD_MESSAGE unknown chat scope '' @ scope) sv)
       else let evt = chat_event scope pid (join_from args 1);
                record_chat = log_info ''chat'' [(''player'', pid), (''scope'', scope)] in
         if scope = ''GROUP'' then
           (let group_id = player_group_at (sv_world sv) pid in
            if group_id = [] then Some (send_line sid ''ERR 401 NOT_IN_GROUP'' sv)
            else Some (record_chat (broadcast_to_group group_id [] evt (send_line sid ''OK'' sv))))
         else let sv1 = send_line sid ''OK'' sv in
           Some (record_chat (if scope = ''GLOBAL'' then send_to_sessions (registry_all sv1) evt sv1
             else broadcast_to_room (s_current_room (sess sv1 sid)) [] evt sv1)))"
    unfolding Let_def by (simp add: handled_reply[OF ok] h)
qed

lemma server_ok_session_flags:
  assumes "server_ok sv" "s_player_id ss = pid_of sv sid" "s_current_room ss = s_current_room (sess sv sid)"
  shows "server_ok (set_session sid ss sv)"
proof -
  let ?s = "set_session sid ss sv"
  have "pid_of ?s = pid_of sv" "registry_get ?s = registry_get sv"
    "(\<lambda>a. s_current_room (sess ?s a)) = (\<lambda>a. s_current_room (sess sv a))"
    using assms(2,3) by (auto simp: pid_of_def registry_get_def fun_eq_iff)
  then have "sessions_ok ?s" using assms(1) unfolding server_ok_def sessions_ok_def fun_eq_iff by simp
  then show ?thesis using assms(1) by (simp add: server_ok_def files_ok_def disk_ok_def)
qed

lemma cmd_quit_handled: "server_ok sv \<Longrightarrow> handled sid sv (cmd_quit sid sv)"
proof -
  assume ok: "server_ok sv"
  have "server_ok (set_session sid ((sess (send_line sid ''OK bye'' sv) sid)\<lparr>connected := False\<rparr>) (send_line sid ''OK bye'' sv))"
    by (rule server_ok_session_flags) (simp_all add: ok pid_of_def)
  then show ?thesis unfolding cmd_quit_def Let_def by (rule handledI[of _ "''OK bye''"]) simp_all
qed

lemmas commands_handled = cmd_connect_handled cmd_create_character_handled cmd_profile_handled cmd_look_handled
  cmd_move_handled cmd_who_handled cmd_chat_handled cmd_take_handled cmd_drop_handled cmd_inventory_handled cmd_use_handled
  cmd_talk_handled cmd_attack_handled cmd_status_handled cmd_quest_handled cmd_quests_handled cmd_quit_handled

lemma run_command_handled:
  assumes "server_ok sv" "\<forall>t \<in> set args. word_ok t"
  shows "handled sid sv (run_command d cmd sid args sv)"
  unfolding run_command_def
  by (simp add: commands_handled[OF assms(1)] cmd_group_handled[OF assms] handled_reply[OF assms(1)])

text \<open>Before the command runs, only the log and the session's time stamps change.\<close>

lemma handle_command_run:
  assumes ok: "server_ok sv" and words: "split_ws line \<noteq> []"
  obtains sv3 where "handle_command now d sid line sv = run_command d (hd (split_ws line)) sid (tl (split_ws line)) sv3"
    "server_ok sv3" "replies sv3 = replies sv" "connected (sess sv3 sid) = connected (sess sv sid)"
    "pid_of sv3 sid = pid_of sv sid" "sv_world sv3 = sv_world sv"
proof -
  let ?t = "split_ws line"
  obtain flood sv2 where fl: "record_and_check_flood now sid (log_info ''command_received''
      [(''player'', dash_if_empty (pid_of sv sid)), (''command'', hd ?t)] sv) = (flood, sv2)" by fastforce
  let ?sv3 = "if flood then log_warn ''command_flood_detected''
      [(''player'', dash_if_empty (pid_of sv sid)), (''ip'', peer_ip (sess sv2 sid))] sv2 else sv2"
  have f: "server_ok sv2" "replies sv2 = replies sv" "connected (sess sv2 sid) = connected (sess sv sid)"
    "pid_of sv2 sid = pid_of sv sid" "sv_world sv2 = sv_world sv"
    using fl ok by (auto simp: record_and_check_flood_def Let_def pid_of_def intro!: server_ok_session_flags)
  have "handle_command now d sid line sv = run_command d (hd ?t) sid (tl ?t) ?sv3"
    using words by (simp add: handle_command_def Let_def fl)
  moreover have "server_ok ?sv3" "replies ?sv3 = replies sv" "connected (sess ?sv3 sid) = connected (sess sv sid)"
    "pid_of ?sv3 sid = pid_of sv sid" "sv_world ?sv3 = sv_world sv" using f by (simp_all add: pid_of_def)
  ultimately show ?thesis by (rule that)
qed

lemma handle_command_handled:
  assumes ok: "server_ok sv"
  shows "handled sid sv (handle_command now d sid line sv)"
proof (cases "split_ws line = []")
  case True
  then show ?thesis by (simp add: handle_command_def Let_def handled_reply[OF ok])
next
  case False
  obtain sv3 where sv3: "handle_command now d sid line sv = run_command d (hd (split_ws line)) sid (tl (split_ws line)) sv3"
    "server_ok sv3" "replies sv3 = replies sv" "connected (sess sv3 sid) = connected (sess sv sid)"
    by (rule handle_command_run[OF ok False])
  have "\<forall>t \<in> set (tl (split_ws line)). word_ok t" using split_ws_words list.set_sel(2)[OF False] by blast
  then have "handled sid sv3 (run_command d (hd (split_ws line)) sid (tl (split_ws line)) sv3)" using run_command_handled sv3(2) by blast
  then show ?thesis using handled_cong[of sv3 sv sid] sv3 by simp
qed

subsection \<open>Leaving\<close>

lemma remove_player_ok:
  assumes w: "world_ok w" and r: "remove_player pid w = (had, g, w')"
  shows "world_ok w'" "static_eq w' w" "room_of w' = (room_of w)(pid := None)" "had = map_of (players w) pid"
    "membership w' = (membership w)(pid := None)"
proof -
  let ?w1 = "w\<lparr>players := erase_key pid (players w)\<rparr>"
  have e: "w' = leave_group_locked pid ?w1" "had = map_of (players w) pid" using r by (auto simp: remove_player_def Let_def)
  then show "had = map_of (players w) pid" by simp
  show s: "static_eq w' w" by (simp add: e static_eq_def)
  show "room_of w' = (room_of w)(pid := None)" by (auto simp: e room_of_def fun_eq_iff)
  have m1: "membership ?w1 = membership w" by (simp add: membership_def player_group_at_def fun_eq_iff)
  show mm: "membership w' = (membership w)(pid := None)" by (simp add: e leave_membership m1)
  have g0: "groups_ok w" using w by (simp add: world_ok_def)
  have lp: "player_group (leave_group_locked pid ?w1) = player_group (leave_group_locked pid w)"
    "groups (leave_group_locked pid ?w1) = groups (leave_group_locked pid w)"
    by (simp_all add: leave_group_locked_def Let_def split: option.splits)
  have gl: "groups_ok (leave_group_locked pid w)" by (rule leave_group_ok[OF g0])
  have "membership w' = membership (leave_group_locked pid w)" by (simp add: mm leave_membership)
  then have g': "groups_ok w'"
    using groups_okD[OF gl] groups_okD(4)[OF g0]
    by (intro groups_okI) (auto simp: e lp leave_membership split: if_splits)
  have d: "distinct (keys (players w'))" using w by (simp add: e world_ok_def players_ok_def)
  have pk: "player_ok w' a b" if "map_of (players w') a = Some b" for a b
    using that world_ok_player[OF w, of a b] by (simp add: e player_ok_static[OF s[unfolded e]] split: if_splits)
  have "rooms_ok w'" "quests_ok w'" "npcs_ok w'" "balance_ok w'" "distinct (keys (items w'))"
    using w unfolding world_ok_def world_data_ok_def rooms_ok_def quests_ok_def npcs_ok_def balance_ok_def
    by (simp_all add: e room_ok_static[OF s[unfolded e]] quest_ok_static[OF s[unfolded e]])
  then show "world_ok w'"
    using d pk g' w by (simp add: world_ok_def world_data_ok_def players_ok_def ids_clean_static[OF s])
qed

lemma announce_leave_frame [simp]:
  "sv_world (announce_leave p h g sv) = sv_world sv" "sess (announce_leave p h g sv) = sess sv"
  "registry (announce_leave p h g sv) = registry sv" "files (announce_leave p h g sv) = files sv"
  "disk (announce_leave p h g sv) = disk sv" "replies (announce_leave p h g sv) = replies sv"
  by (simp_all add: announce_leave_def Let_def)

lemma disconnect_ok:
  assumes ok: "server_ok sv"
  shows "server_ok (close_session sid (handle_disconnect sid sv))"
    "room_of (sv_world (handle_disconnect sid sv)) = (room_of (sv_world sv))(pid_of sv sid := None)"
    "replies (close_session sid (handle_disconnect sid sv)) = replies sv"
proof -
  let ?pid = "pid_of sv sid"
  have w: "world_ok (sv_world sv)" using ok by (simp add: server_ok_def)
  have so: "sessions_ok sv" using ok by (simp add: server_ok_def)
  have *: "server_ok (close_session sid (handle_disconnect sid sv)) \<and>
    room_of (sv_world (handle_disconnect sid sv)) = (room_of (sv_world sv))(?pid := None) \<and>
    replies (close_session sid (handle_disconnect sid sv)) = replies sv"
  proof (cases "?pid = []")
    case True
    have "room_of (sv_world sv) [] = None"
    proof (rule ccontr)
      assume "room_of (sv_world sv) [] \<noteq> None"
      then show False using world_ok_player[OF w, of "[]"] by (auto simp: room_of_def player_ok_def is_valid_name_def)
    qed
    then show ?thesis using True server_ok_session_flags[OF ok, of "(sess sv sid)\<lparr>connected := False, s_player_id := []\<rparr>" sid]
      by (auto simp: handle_disconnect_def close_session_def fun_eq_iff)
  next
    case False
    obtain had g w' where r: "remove_player ?pid (sv_world sv) = (had, g, w')" by (cases "remove_player ?pid (sv_world sv)")
    note rp = remove_player_ok[OF w r]
    from server_ok_player[OF ok False] obtain p where p: "map_of (players (sv_world sv)) ?pid = Some p"
      "player_ok (sv_world sv) ?pid p" by blast
    have had: "had = Some p" using rp(4) p by simp
    let ?s1 = "save p (set_world w' sv)" and ?s2 = "announce_leave ?pid had g (registry_remove ?pid (save p (set_world w' sv)))"
    have hd: "handle_disconnect sid sv = ?s2" using False r had by (simp add: handle_disconnect_def Let_def)
    have pw: "player_ok (sv_world (set_world w' sv)) ?pid p" using p(2) player_ok_static[OF rp(2)] by simp
    have f1: "files_ok (set_world w' sv)" using ok unfolding server_ok_def files_ok_def by (simp add: player_ok_static[OF rp(2)])
    have d1: "disk_ok (set_world w' sv)" using ok by (simp add: server_ok_def disk_ok_def)
    have f2: "files_ok ?s1" by (rule files_ok_save[OF _ pw f1 d1]) (simp add: rp(1))
    let ?c = "close_session sid ?s2"
    have pc: "pid_of ?c a = (if a = sid then [] else pid_of sv a)" for a by (simp add: pid_of_def close_session_def)
    have gc: "registry_get ?c q = (if q = ?pid then None else registry_get sv q)" for q by (simp add: registry_get_def close_session_def)
    have rc: "room_of (sv_world ?c) q = (if q = ?pid then None else room_of (sv_world sv) q)" for q
      by (simp add: close_session_def rp(3))
    have other: "pid_of sv a \<noteq> ?pid" if "a \<noteq> sid" for a
      using so False that unfolding sessions_ok_def by (metis option.inject)
    have cr: "s_current_room (sess ?c a) = s_current_room (sess sv a)" for a by (simp add: close_session_def)
    have "sessions_ok ?c"
      unfolding sessions_ok_def
    proof (intro conjI allI impI)
      fix a assume a: "pid_of ?c a \<noteq> []"
      then have na: "a \<noteq> sid" "pid_of ?c a = pid_of sv a" "pid_of sv a \<noteq> []" by (auto simp: pc split: if_splits)
      show "registry_get ?c (pid_of ?c a) = Some a" using na other[OF na(1)] so unfolding sessions_ok_def gc na(2) by auto
      show "room_of (sv_world ?c) (pid_of ?c a) = Some (s_current_room (sess ?c a))"
        using na other[OF na(1)] so unfolding sessions_ok_def rc cr na(2) by auto
    next
      fix q a assume q: "registry_get ?c q = Some a"
      then have q': "q \<noteq> ?pid" "registry_get sv q = Some a" by (auto simp: gc split: if_splits)
      then have "pid_of sv a = q" "q \<noteq> []" using so unfolding sessions_ok_def by blast+
      then show "pid_of ?c a = q" "q \<noteq> []" using q'(1) by (auto simp: pc)
    next
      show "distinct (keys (registry ?c))" using so by (simp add: sessions_ok_def close_session_def)
    next
      fix q assume "count_key (players (sv_world ?c)) q"
      then show "registry_get ?c q \<noteq> None" using so unfolding sessions_ok_def count_room_of rc gc by auto
    qed
    moreover have "files_ok ?c" using f2 by (simp add: files_ok_def close_session_def)
    moreover have "disk_ok ?c" using disk_ok_save[OF d1, of p] by (simp add: disk_ok_def close_session_def)
    moreover have "world_ok (sv_world ?c)" using rp(1) by (simp add: close_session_def)
    moreover have "replies ?c = replies sv" by (simp add: close_session_def)
    ultimately show ?thesis unfolding hd by (simp add: server_ok_def rp(3))
  qed
  then show "server_ok (close_session sid (handle_disconnect sid sv))"
    "room_of (sv_world (handle_disconnect sid sv)) = (room_of (sv_world sv))(pid_of sv sid := None)"
    "replies (close_session sid (handle_disconnect sid sv)) = replies sv" by blast+
qed

end
