(* ===== verification/Network.thy ===== *)
theory Network
  imports ServerCorrect
begin

text \<open>
  \<open>network/line_reader.cpp\<close>, the \<open>send_all\<close> loop of \<open>network/platform_socket.cpp\<close>, and the accept and
  client loops of \<open>network/server.cpp\<close>.  What \<open>recv\<close> and \<open>send\<close> return is input of the model: a
  list of \<open>recv_result\<close>s (a list that ends is a closed connection), a list of \<open>send_result\<close>s.
\<close>

definition MAX_LINE_LENGTH :: nat where "MAX_LINE_LENGTH = 8192"
definition RECV_CHUNK :: nat where "RECV_CHUNK = 4096"
definition PARTIAL_MESSAGE_TIMEOUT_MS :: nat where "PARTIAL_MESSAGE_TIMEOUT_MS = 5000"

text \<open>\<open>Ended\<close>: \<open>recv\<close> returned zero or less (closed, error or timeout).\<close>

datatype recv_result = Data string | Ended

text \<open>The timeout set before each \<open>recv\<close>; zero blocks without limit.\<close>

definition recv_timeout :: "string \<Rightarrow> nat" where
  "recv_timeout buf = (if buf = [] then 0 else PARTIAL_MESSAGE_TIMEOUT_MS)"

definition strip_cr :: "string \<Rightarrow> string" where
  "strip_cr l = (if l \<noteq> [] \<and> last l = CR then butlast l else l)"

datatype read_outcome = Line string | TooLong nat | Stalled nat | Gone

text \<open>The loop of \<open>read_line\<close>: outcome, new buffer, unread input.\<close>

fun read_loop :: "string \<Rightarrow> recv_result list \<Rightarrow> read_outcome \<times> string \<times> recv_result list" where
  "read_loop buf inp =
     (if NL \<in> set buf
      then (Line (strip_cr (takeWhile (\<lambda>c. c \<noteq> NL) buf)), tl (dropWhile (\<lambda>c. c \<noteq> NL) buf), inp)
      else if length buf > MAX_LINE_LENGTH then (TooLong (length buf), buf, inp)
      else (case inp of
          Data d # r \<Rightarrow> if d = [] then (if buf = [] then Gone else Stalled (length buf), buf, r) else read_loop (buf @ d) r
        | Ended # r \<Rightarrow> (if buf = [] then Gone else Stalled (length buf), buf, r)
        | [] \<Rightarrow> (if buf = [] then Gone else Stalled (length buf), buf, [])))"

declare read_loop.simps [simp del]

definition read_line :: "nat \<Rightarrow> string \<Rightarrow> recv_result list \<Rightarrow> server \<Rightarrow> string option \<times> string \<times> recv_result list \<times> server" where
  "read_line sid buf inp sv =
     (case read_loop buf inp of (outcome, buf', rest) \<Rightarrow>
        let ip = peer_ip (sess sv sid) in
        (case outcome of
           Line l \<Rightarrow> (Some l, buf', rest, sv)
         | TooLong n \<Rightarrow> (None, buf', rest, log_warn ''line_too_long'' [(''ip'', ip), (''size'', show_nat n)] sv)
         | Stalled n \<Rightarrow> (None, buf', rest, log_warn ''partial_message_stalled'' [(''ip'', ip), (''buffered'', show_nat n)] sv)
         | Gone \<Rightarrow> (None, buf', rest, sv)))"

subsection \<open>Sending every byte\<close>

datatype send_result = Sent nat | Interrupted | Failed int

text \<open>The bytes handed to the kernel and the value returned, which \<open>send_line\<close> ignores.  \<open>send\<close> takes at
  most what it is offered; an exhausted list stands for a call that has not returned.\<close>

fun send_all :: "string \<Rightarrow> nat \<Rightarrow> send_result list \<Rightarrow> (string \<times> int) option" where
  "send_all data sent rs =
     (if sent < length data then
        (case rs of
           [] \<Rightarrow> None
         | Interrupted # r \<Rightarrow> send_all data sent r
         | Failed e # r \<Rightarrow> Some (take sent data, e)
         | Sent n # r \<Rightarrow> if n = 0 then Some (take sent data, 0)
             else send_all data (min (length data) (sent + n)) r)
      else Some (data, int sent))"

declare send_all.simps [simp del]

subsection \<open>Connections\<close>

definition INITIAL_GREETING :: string where
  "INITIAL_GREETING = ''OK hello proto=1''"

definition fresh_session :: "string \<Rightarrow> session" where
  "fresh_session ip = \<lparr>s_player_id = [], s_current_room = [], connected = True, peer_ip = ip, timestamps = []\<rparr>"

definition open_session :: "nat \<Rightarrow> string \<Rightarrow> server \<Rightarrow> server" where
  "open_session sid ip sv =
     send_line sid INITIAL_GREETING (log_info ''client_connected'' [(''ip'', ip)] (set_session sid (fresh_session ip) sv))"

text \<open>The while loop of \<open>client_loop\<close>; \<open>env k\<close> is the clock and the dice of the \<open>k\<close>-th command.\<close>

definition input_size :: "recv_result list \<Rightarrow> nat" where
  "input_size inp = sum_list (map (\<lambda>r. case r of Data d \<Rightarrow> length d | Ended \<Rightarrow> 0) inp)"

lemma read_loop_size:
  "read_loop buf inp = (Line l, buf', rest) \<Longrightarrow> length buf' + input_size rest < length buf + input_size inp"
proof (induction buf inp rule: read_loop.induct)
  case (1 buf inp)
  show ?case
  proof (cases "NL \<in> set buf")
    case True
    have "dropWhile (\<lambda>c. c \<noteq> NL) buf \<noteq> []" using True by (simp add: dropWhile_eq_Nil_conv)
    moreover have "length (dropWhile (\<lambda>c. c \<noteq> NL) buf) \<le> length buf" by (rule length_dropWhile_le')
    ultimately have "length (tl (dropWhile (\<lambda>c. c \<noteq> NL) buf)) < length buf"
      by (cases "dropWhile (\<lambda>c. c \<noteq> NL) buf") auto
    then show ?thesis using "1.prems" True by (auto simp: read_loop.simps[of buf inp])
  next
    case F: False
    then have "\<not> length buf > MAX_LINE_LENGTH" using "1.prems" by (auto simp: read_loop.simps[of buf inp] split: if_splits)
    moreover obtain d r where inp: "inp = Data d # r" "d \<noteq> []" "read_loop (buf @ d) r = (Line l, buf', rest)"
      using "1.prems" F calculation
      by (subst (asm) read_loop.simps) (auto split: list.splits recv_result.splits if_splits)
    ultimately show ?thesis using "1.IH"[OF F _ inp(1) refl inp(2,3)] by (simp add: input_size_def inp(1))
  qed
qed

lemma read_line_size:
  "(Some l, buf', rest, sv') = read_line sid buf inp sv \<Longrightarrow> length buf' + input_size rest < length buf + input_size inp"
  by (auto simp: read_line_def Let_def dest: read_loop_size split: prod.splits read_outcome.splits)

function serve :: "(nat \<Rightarrow> int \<times> dice) \<Rightarrow> nat \<Rightarrow> nat \<Rightarrow> string \<Rightarrow> recv_result list \<Rightarrow> server \<Rightarrow> server option" where
  "serve env k sid buf inp sv =
     (if \<not> connected (sess sv sid) then Some sv
      else (case read_line sid buf inp sv of
          (None, _, _, sv1) \<Rightarrow> Some sv1
        | (Some l, buf', rest, sv1) \<Rightarrow>
            (case handle_command (fst (env k)) (snd (env k)) sid l sv1 of
               None \<Rightarrow> None
             | Some sv2 \<Rightarrow> serve env (Suc k) sid buf' rest sv2)))"
  by pat_completeness auto
termination
  by (relation "measure (\<lambda>(env, k, sid, buf, inp, sv). length buf + input_size inp)") (auto dest: read_line_size)

declare serve.simps [simp del]

definition client_loop :: "(nat \<Rightarrow> int \<times> dice) \<Rightarrow> nat \<Rightarrow> string \<Rightarrow> recv_result list \<Rightarrow> server \<Rightarrow> server option" where
  "client_loop env sid ip inp sv = do {
     sv1 \<leftarrow> serve env 0 sid [] inp (open_session sid ip sv);
     Some (close_session sid (handle_disconnect sid sv1))
   }"

text \<open>One turn of the accept loop of \<open>run_server\<close>: the history of connection times and the log.\<close>

definition accept_connection :: "int \<Rightarrow> string option \<Rightarrow> (string \<times> int list) list \<Rightarrow> server
    \<Rightarrow> (string \<times> int list) list \<times> server" where
  "accept_connection now client history sv =
     (case client of
        None \<Rightarrow> (history, log_warn ''accept_failed'' [] sv)
      | Some ip \<Rightarrow> (case record_connection_and_check_rapid_reconnect now ip history of
          (rapid, history') \<Rightarrow> (history', if rapid then log_warn ''rapid_reconnect_detected'' [(''ip'', ip)] sv else sv)))"

subsection \<open>Framing\<close>

text \<open>All lines \<open>read_line\<close> returns until it fails.\<close>

function read_lines :: "string \<Rightarrow> recv_result list \<Rightarrow> string list" where
  "read_lines buf inp = (case read_loop buf inp of (Line l, buf', rest) \<Rightarrow> l # read_lines buf' rest | _ \<Rightarrow> [])"
  by pat_completeness auto
termination
  by (relation "measure (\<lambda>(buf, inp). length buf + input_size inp)") (auto dest!: read_loop_size[OF sym])

declare read_lines.simps [simp del]

definition unframe :: "recv_result list \<Rightarrow> string" where
  "unframe inp = concat (map (\<lambda>r. case r of Data d \<Rightarrow> d | Ended \<Rightarrow> []) inp)"

definition framed :: "string list \<Rightarrow> string" where
  "framed ls = concat (map (\<lambda>l. l @ [NL]) ls)"

text \<open>A chunk is what one \<open>recv\<close> into the 4096-byte buffer can return.\<close>

definition chunk_ok :: "recv_result \<Rightarrow> bool" where
  "chunk_ok r = (case r of Data d \<Rightarrow> d \<noteq> [] \<and> length d \<le> RECV_CHUNK | Ended \<Rightarrow> False)"

lemma split_line:
  assumes "NL \<notin> set l"
  shows "takeWhile (\<lambda>c. c \<noteq> NL) (l @ NL # t) = l" "tl (dropWhile (\<lambda>c. c \<noteq> NL) (l @ NL # t)) = t"
  using assms by (induction l) auto

lemma read_loop_line:
  assumes "\<forall>r \<in> set inp. chunk_ok r" "buf @ unframe inp = l @ NL # t" "NL \<notin> set l" "length l \<le> MAX_LINE_LENGTH"
  shows "\<exists>buf' rest. read_loop buf inp = (Line (strip_cr l), buf', rest) \<and> buf' @ unframe rest = t \<and> set rest \<subseteq> set inp"
  using assms
proof (induction inp arbitrary: buf)
  case Nil
  then have b: "buf = l @ NL # t" by (simp add: unframe_def)
  have "NL \<in> set buf" by (simp add: b)
  then have "read_loop buf [] = (Line (strip_cr l), t, [])"
    by (subst read_loop.simps) (simp add: b split_line[OF Nil.prems(3)])
  then show ?case by (simp add: unframe_def)
next
  case (Cons r inp)
  show ?case
  proof (cases "NL \<in> set buf")
    case True
    obtain a b where ab: "buf = a @ NL # b" "NL \<notin> set a" using split_list_first[OF True] by blast
    have e: "a @ NL # (b @ unframe (r # inp)) = l @ NL # t" using Cons.prems(2) ab by simp
    from split_line(1)[OF ab(2), of "b @ unframe (r # inp)"] split_line(1)[OF Cons.prems(3), of t]
    have al: "a = l" unfolding e by simp
    have "read_loop buf (r # inp) = (Line (strip_cr a), b, r # inp)"
      by (subst read_loop.simps) (simp add: ab(1) split_line[OF ab(2)])
    then show ?thesis using e al by simp
  next
    case False
    obtain d where d: "r = Data d" "d \<noteq> []" using Cons.prems(1) by (cases r) (auto simp: chunk_ok_def)
    have u: "unframe (r # inp) = d @ unframe inp" by (simp add: unframe_def d)
    have le: "length buf \<le> length l"
    proof (rule ccontr)
      assume "\<not> length buf \<le> length l"
      then have lt: "length l < length buf" by simp
      have "(buf @ unframe (r # inp)) ! length l = NL" using Cons.prems(2) by simp
      then have "buf ! length l = NL" using lt by (simp add: nth_append)
      then show False using lt nth_mem[OF lt] False by simp
    qed
    have step: "read_loop buf (r # inp) = read_loop (buf @ d) inp"
      using le Cons.prems(4) d False by (subst read_loop.simps) simp
    have "\<exists>buf' rest. read_loop (buf @ d) inp = (Line (strip_cr l), buf', rest) \<and> buf' @ unframe rest = t \<and> set rest \<subseteq> set inp"
      by (rule Cons.IH) (use Cons.prems u in auto)
    then show ?thesis unfolding step by auto
  qed
qed

lemma read_lines_framed:
  assumes "\<forall>r \<in> set inp. chunk_ok r" "buf @ unframe inp = framed ls" "\<forall>l \<in> set ls. NL \<notin> set l \<and> length l \<le> MAX_LINE_LENGTH"
  shows "take (length ls) (read_lines buf inp) = map strip_cr ls"
  using assms
proof (induction ls arbitrary: buf inp)
  case (Cons l ls)
  have "buf @ unframe inp = l @ NL # framed ls" using Cons.prems(2) by (simp add: framed_def)
  then obtain buf' rest where r: "read_loop buf inp = (Line (strip_cr l), buf', rest)" "buf' @ unframe rest = framed ls"
      "set rest \<subseteq> set inp"
    using read_loop_line[OF Cons.prems(1), of buf l "framed ls"] Cons.prems(3) by auto
  have "take (length ls) (read_lines buf' rest) = map strip_cr ls"
    by (rule Cons.IH) (use r Cons.prems in auto)
  then show ?case by (subst read_lines.simps) (simp add: r(1))
qed simp

text \<open>The buffer stays bounded, whatever the peer sends.\<close>

lemma read_loop_bounded:
  assumes "\<forall>d. Data d \<in> set inp \<longrightarrow> length d \<le> RECV_CHUNK" "length buf \<le> MAX_LINE_LENGTH + RECV_CHUNK"
    "read_loop buf inp = (out, buf', rest)"
  shows "length buf' \<le> MAX_LINE_LENGTH + RECV_CHUNK"
  using assms
proof (induction buf inp rule: read_loop.induct)
  case (1 buf inp)
  have tl_le: "length (tl (dropWhile (\<lambda>c. c \<noteq> NL) buf)) \<le> length buf"
    using length_dropWhile_le'[of "\<lambda>c. c \<noteq> NL" buf] by simp
  show ?case
  proof (cases "NL \<in> set buf \<or> length buf > MAX_LINE_LENGTH")
    case True
    then show ?thesis using "1.prems" tl_le by (subst (asm) read_loop.simps) (auto split: if_splits)
  next
    case F: False
    show ?thesis
    proof (cases "\<exists>d r. inp = Data d # r \<and> d \<noteq> []")
      case True
      then obtain d r where inp: "inp = Data d # r" "d \<noteq> []" by blast
      have "read_loop (buf @ d) r = (out, buf', rest)"
        using "1.prems"(3) F inp by (subst (asm) read_loop.simps) simp
      then show ?thesis using F inp "1.prems"(1,2) "1.IH"[OF _ _ inp(1) refl inp(2)] by auto
    next
      case False
      then have "buf' = buf" using "1.prems"(3) F
        by (subst (asm) read_loop.simps) (auto split: list.splits recv_result.splits if_splits)
      then show ?thesis using "1.prems"(2) by simp
    qed
  qed
qed

subsection \<open>Sending\<close>

definition accepted :: "send_result list \<Rightarrow> nat" where
  "accepted rs = sum_list (map (\<lambda>r. case r of Sent n \<Rightarrow> n | _ \<Rightarrow> 0) rs)"

text \<open>Whatever the kernel answers, what was sent is a prefix of the data; everything was sent exactly
  when the length is returned.\<close>

lemma send_all_step:
  "\<not> sent < length data \<Longrightarrow> send_all data sent rs = Some (data, int sent)"
  "sent < length data \<Longrightarrow> send_all data sent [] = None"
  "sent < length data \<Longrightarrow> send_all data sent (Interrupted # r) = send_all data sent r"
  "sent < length data \<Longrightarrow> send_all data sent (Failed e # r) = Some (take sent data, e)"
  "sent < length data \<Longrightarrow> send_all data sent (Sent n # r) =
     (if n = 0 then Some (take sent data, 0) else send_all data (min (length data) (sent + n)) r)"
  by (subst send_all.simps, simp)+

lemma send_all_prefix:
  "send_all data sent rs = Some (out, code) \<Longrightarrow> sent \<le> length data \<Longrightarrow> \<forall>e. Failed e \<in> set rs \<longrightarrow> e < 0 \<Longrightarrow>
   out = take (length out) data \<and> (0 < code \<longrightarrow> out = data)"
proof (induction rs arbitrary: sent)
  case Nil
  then show ?case by (cases "sent < length data") (auto simp: send_all_step)
next
  case (Cons r rs)
  show ?case
  proof (cases "sent < length data")
    case True
    then show ?thesis using Cons.prems Cons.IH
      by (cases r) (auto simp: send_all_step split: if_splits)
  qed (use Cons.prems in \<open>auto simp: send_all_step\<close>)
qed

lemma send_all_complete:
  "length data \<le> sent + accepted rs \<Longrightarrow> \<forall>r \<in> set rs. r = Interrupted \<or> (\<exists>n > 0. r = Sent n) \<Longrightarrow>
   sent \<le> length data \<Longrightarrow> send_all data sent rs = Some (data, int (length data))"
proof (induction rs arbitrary: sent)
  case Nil
  then show ?case by (simp add: send_all_step accepted_def)
next
  case (Cons r rs)
  show ?case
  proof (cases "sent < length data")
    case True
    consider "r = Interrupted" | n where "r = Sent n" "0 < n" using Cons.prems(2) by auto
    then show ?thesis
    proof cases
      case 1
      have "accepted (r # rs) = accepted rs" by (simp add: 1 accepted_def)
      then show ?thesis using Cons.prems Cons.IH[of sent] 1 True by (simp add: send_all_step)
    next
      case 2
      have "accepted (r # rs) = n + accepted rs" by (simp add: 2 accepted_def)
      then have "send_all data (min (length data) (sent + n)) rs = Some (data, int (length data))"
        using Cons.prems by (intro Cons.IH) auto
      then show ?thesis using True 2 by (simp add: send_all_step)
    qed
  qed (use Cons.prems in \<open>simp add: send_all_step\<close>)
qed

end
