(* ===== verification/ServerRuns.thy ===== *)
theory ServerRuns
  imports Network
begin

text \<open>
  Runs of the whole server.  \<open>server_step\<close> interleaves the clients command by command: a connection
  opens, a line is handled, a connection ends.  (Theory \<open>Interleaving\<close> refines the commands that use
  several critical sections.)  The contract of the command handler is the locale \<open>request_reply\<close>.
\<close>

fun run_all :: "('s \<Rightarrow> bool) \<Rightarrow> ('c \<Rightarrow> 's \<Rightarrow> 's option) \<Rightarrow> 'c list \<Rightarrow> 's \<Rightarrow> ('s \<times> 'c list) option" where
  "run_all alive handle [] s = Some (s, [])"
| "run_all alive handle (c # cs) s =
     (if \<not> alive s then Some (s, c # cs) else (case handle c s of None \<Rightarrow> None | Some s' \<Rightarrow> run_all alive handle cs s'))"

locale request_reply =
  fixes inv :: "'s \<Rightarrow> bool" and alive :: "'s \<Rightarrow> bool" and handle :: "'c \<Rightarrow> 's \<Rightarrow> 's option" and answers :: "'s \<Rightarrow> nat"
  assumes one_answer: "inv s \<Longrightarrow> alive s \<Longrightarrow> \<exists>s'. handle c s = Some s' \<and> inv s' \<and> answers s' = Suc (answers s)"
begin

lemma all_answered:
  "inv s \<Longrightarrow> \<exists>s' rest. run_all alive handle cs s = Some (s', rest) \<and> inv s' \<and>
     answers s' + length rest = answers s + length cs \<and> (rest \<noteq> [] \<longrightarrow> \<not> alive s')"
proof (induction cs arbitrary: s)
  case (Cons c cs)
  show ?case
  proof (cases "alive s")
    case True
    obtain s1 where s1: "handle c s = Some s1" "inv s1" "answers s1 = Suc (answers s)"
      using one_answer[OF Cons.prems True] by blast
    then show ?thesis using Cons.IH[OF s1(2)] True by auto
  qed (use Cons.prems in simp)
qed simp

end

definition replies_to :: "nat \<Rightarrow> server \<Rightarrow> nat" where
  "replies_to sid sv = length (filter (\<lambda>(a, m). a = sid) (replies sv))"

interpretation client: request_reply server_ok "\<lambda>sv. connected (sess sv sid)"
    "\<lambda>(now, d, line). handle_command now d sid line" "replies_to sid" for sid
proof
  fix sv and c :: "int \<times> dice \<times> string"
  assume ok: "server_ok sv" and c: "connected (sess sv sid)"
  obtain now d line where cc: "c = (now, d, line)" by (cases c)
  from handle_command_handled[OF ok, of sid now d line] c
  show "\<exists>sv'. (case c of (now, d, line) \<Rightarrow> handle_command now d sid line) sv = Some sv' \<and> server_ok sv' \<and>
      replies_to sid sv' = Suc (replies_to sid sv)"
    by (auto simp: handled_def cc replies_to_def)
qed

subsection \<open>Reachable states\<close>

inductive server_step :: "server \<Rightarrow> server \<Rightarrow> bool" where
  opened: "pid_of sv sid = [] \<Longrightarrow> \<not> connected (sess sv sid) \<Longrightarrow> server_step sv (open_session sid ip sv)"
| received: "connected (sess sv sid) \<Longrightarrow> handle_command now d sid line sv = Some sv' \<Longrightarrow> server_step sv sv'"
| ended: "server_step sv (close_session sid (handle_disconnect sid sv))"

inductive_cases server_stepE: "server_step sv sv'"

inductive server_reach :: "server \<Rightarrow> server \<Rightarrow> bool" for sv0 where
  start: "server_reach sv0 sv0"
| step: "server_reach sv0 sv \<Longrightarrow> server_step sv sv' \<Longrightarrow> server_reach sv0 sv'"

lemma open_session_ok:
  assumes ok: "server_ok sv" and pid: "pid_of sv sid = []"
  shows "server_ok (open_session sid ip sv)"
proof -
  let ?s = "set_session sid (fresh_session ip) sv"
  have p: "pid_of ?s = pid_of sv" using pid by (auto simp: pid_of_def fresh_session_def fun_eq_iff)
  have r: "pid_of sv a \<noteq> [] \<Longrightarrow> s_current_room (sess ?s a) = s_current_room (sess sv a)" for a
    using pid by (auto simp: pid_of_def)
  have "sessions_ok ?s" using ok r unfolding server_ok_def sessions_ok_def p by (simp add: registry_get_def)
  then have "server_ok ?s" using ok by (simp add: server_ok_def files_ok_def disk_ok_def)
  then show ?thesis by (simp add: open_session_def)
qed

lemma server_step_ok: "server_step sv sv' \<Longrightarrow> server_ok sv \<Longrightarrow> server_ok sv'"
proof (erule server_stepE)
  fix sid ip assume "server_ok sv" "sv' = open_session sid ip sv" "pid_of sv sid = []"
  then show "server_ok sv'" by (simp add: open_session_ok)
next
  fix sid now d line assume ok: "server_ok sv" and "handle_command now d sid line sv = Some sv'"
  then show "server_ok sv'" using handle_command_handled[OF ok, of sid now d line] by (auto simp: handled_def)
next
  fix sid assume "server_ok sv" "sv' = close_session sid (handle_disconnect sid sv)"
  then show "server_ok sv'" by (simp add: disconnect_ok)
qed

lemma server_reach_ok: "server_reach sv0 sv \<Longrightarrow> server_ok sv0 \<Longrightarrow> server_ok sv"
  by (induction rule: server_reach.induct) (auto intro: server_step_ok)

subsection \<open>One client's loop\<close>

lemma read_line_frame:
  "read_line sid buf inp sv = (l, buf', rest, sv') \<Longrightarrow> same_core sv' sv \<and> replies sv' = replies sv"
  by (auto simp: read_line_def Let_def same_core_def split: prod.splits read_outcome.splits)

lemma serve_total: "server_ok sv \<Longrightarrow> \<exists>sv'. serve env k sid buf inp sv = Some sv' \<and> server_ok sv'"
proof (induction env k sid buf inp sv rule: serve.induct)
  case (1 env k sid buf inp sv)
  show ?case
  proof (cases "connected (sess sv sid)")
    case True
    obtain l buf' rest sv1 where r: "read_line sid buf inp sv = (l, buf', rest, sv1)" by (cases "read_line sid buf inp sv")
    have ok1: "server_ok sv1" using read_line_frame[OF r] server_ok_core "1.prems" by blast
    show ?thesis
    proof (cases l)
      case None
      then show ?thesis using True r ok1 by (subst serve.simps) simp
    next
      case (Some x)
      obtain sv2 where h: "handle_command (fst (env k)) (snd (env k)) sid x sv1 = Some sv2" "server_ok sv2"
        using handle_command_handled[OF ok1, of sid "fst (env k)" "snd (env k)" x] by (auto simp: handled_def)
      have "\<not> \<not> connected (sess sv sid)" using True by simp
      from "1.IH"[OF this r[symmetric] Some refl refl h(1) h(2)] show ?thesis
        using True r Some h by (subst serve.simps) simp
    qed
  qed (use "1.prems" in \<open>simp add: serve.simps\<close>)
qed

lemma client_loop_total:
  assumes ok: "server_ok sv" and pid: "pid_of sv sid = []"
  shows "\<exists>sv'. client_loop env sid ip inp sv = Some sv' \<and> server_ok sv'"
proof -
  obtain sv1 where "serve env 0 sid [] inp (open_session sid ip sv) = Some sv1" "server_ok sv1"
    using serve_total[OF open_session_ok[OF ok pid]] by blast
  then show ?thesis by (simp add: client_loop_def disconnect_ok)
qed

subsection \<open>Start-up\<close>

text \<open>The state \<open>main\<close> starts serving with: the loaded world, no players, the files of earlier runs.\<close>

definition boot :: "world \<Rightarrow> (string \<times> string) list \<Rightarrow> disk_outcome list \<Rightarrow> server" where
  "boot w fs d = \<lparr>sv_world = w, sess = (\<lambda>_. (fresh_session [])\<lparr>connected := False\<rparr>), registry = [], files = fs,
     disk = d, wire = [], logs = []\<rparr>"

lemma boot_ok:
  assumes w: "world_data_ok w" "balance_ok w" "ids_clean w" "players w = []" "player_group w = []" "groups w = []" "pending_invites w = []"
    and f: "\<And>name p. is_valid_name name \<Longrightarrow> load_file name fs = Some (Inr p) \<Longrightarrow> player_ok w name p"
    and d: "\<And>n r. Wrote (Some n) r \<notin> set d"
  shows "server_ok (boot w fs d)"
proof -
  have "world_ok w" using w by (simp add: world_ok_def players_ok_def groups_ok_def)
  moreover have "sessions_ok (boot w fs d)"
    using w by (simp add: sessions_ok_def boot_def pid_of_def registry_get_def fresh_session_def)
  ultimately show ?thesis using f d by (simp add: server_ok_def files_ok_def disk_ok_def boot_def)
qed

end
