(* ===== verification/Interleaving.thy ===== *)
theory Interleaving
  imports ServerRuns
begin

text \<open>
  CONNECT, CREATE_CHARACTER and the disconnect as the threads run them: several critical sections
  with disk and registry accesses between them.  \<open>phase\<close> says how far a session's thread has come;
  every other command of a session is one step.  Lost in this model are only the replies of the
  phased commands, which do not touch shared state.
\<close>

datatype phase = Idle | Connecting string | Loaded string player_state | Entered string
  | Reserved string player_state | Removed string "player_state option" | Unlisted string

record conc =
  srv :: server
  phase_of :: "nat \<Rightarrow> phase"

definition goto :: "nat \<Rightarrow> phase \<Rightarrow> server \<Rightarrow> conc \<Rightarrow> conc" where
  "goto sid ph sv c = c\<lparr>srv := sv, phase_of := (phase_of c)(sid := ph)\<rparr>"

inductive istep :: "conc \<Rightarrow> conc \<Rightarrow> bool" where
  connect_check: "phase_of c sid = Idle \<Longrightarrow> pid_of (srv c) sid = [] \<Longrightarrow> is_valid_name name \<Longrightarrow>
    \<not> count_key (players (sv_world (srv c))) name \<Longrightarrow> istep c (goto sid (Connecting name) (srv c) c)"
| connect_load: "phase_of c sid = Connecting name \<Longrightarrow> load name (srv c) = (Some p, sv) \<Longrightarrow>
    istep c (goto sid (Loaded name p) sv c)"
| connect_missing: "phase_of c sid = Connecting name \<Longrightarrow> load name (srv c) = (None, sv) \<Longrightarrow> istep c (goto sid Idle sv c)"
| connect_enter: "phase_of c sid = Loaded name p \<Longrightarrow> enter_world sid name p (srv c) = Some sv \<Longrightarrow>
    istep c (goto sid (Entered name) sv c)"
| connect_late: "phase_of c sid = Loaded name p \<Longrightarrow> enter_world sid name p (srv c) = None \<Longrightarrow>
    istep c (goto sid Idle (srv c) c)"
| create_reserve: "phase_of c sid = Idle \<Longrightarrow> pid_of (srv c) sid = [] \<Longrightarrow> is_valid_name name \<Longrightarrow>
    reserve_new sid name rc attrs (srv c) = Some (p, sv) \<Longrightarrow> istep c (goto sid (Reserved name p) sv c)"
| create_save: "phase_of c sid = Reserved name p \<Longrightarrow> istep c (goto sid (Entered name) (save p (srv c)) c)"
| register: "phase_of c sid = Entered name \<Longrightarrow> istep c (goto sid Idle (registry_add name sid (srv c)) c)"
| command: "phase_of c sid = Idle \<Longrightarrow> pid_of (srv c) sid \<noteq> [] \<Longrightarrow> handle_command now d sid line (srv c) = Some sv \<Longrightarrow>
    istep c (goto sid Idle sv c)"
| leave_remove: "phase_of c sid = Idle \<Longrightarrow> pid_of (srv c) sid = name \<Longrightarrow> name \<noteq> [] \<Longrightarrow>
    remove_player name (sv_world (srv c)) = (had, g, w) \<Longrightarrow> istep c (goto sid (Removed name had) (set_world w (srv c)) c)"
| leave_save: "phase_of c sid = Removed name had \<Longrightarrow>
    istep c (goto sid (Unlisted name) (case had of None \<Rightarrow> srv c | Some p \<Rightarrow> save p (srv c)) c)"
| leave_unregister: "phase_of c sid = Unlisted name \<Longrightarrow>
    istep c (goto sid Idle (close_session sid (registry_remove name (srv c))) c)"

inductive_cases istepE: "istep c c'"

inductive ireach :: "conc \<Rightarrow> conc \<Rightarrow> bool" for c0 where
  istart: "ireach c0 c0"
| imore: "ireach c0 c \<Longrightarrow> istep c c' \<Longrightarrow> ireach c0 c'"

subsection \<open>The other commands leave sessions and online players alone\<close>

definition same_online :: "world \<Rightarrow> world \<Rightarrow> bool" where
  "same_online w' w = (\<forall>q. count_key (players w') q = count_key (players w) q)"

definition same_people :: "server \<Rightarrow> server \<Rightarrow> bool" where
  "same_people sv' sv = (pid_of sv' = pid_of sv \<and> same_online (sv_world sv') (sv_world sv))"

lemma same_online_refl [simp]: "same_online w w" by (simp add: same_online_def)

lemma same_people_refl [simp]: "same_people sv sv" by (simp add: same_people_def)

lemma same_people_trans: "same_people a b \<Longrightarrow> same_people b c \<Longrightarrow> same_people a c"
  unfolding same_people_def same_online_def by simp

lemma same_people_eq: "sv_world sv' = sv_world sv \<Longrightarrow> sess sv' = sess sv \<Longrightarrow> same_people sv' sv"
  by (simp add: same_people_def pid_of_def fun_eq_iff)

lemma same_people_output [simp]:
  "same_people (send_line s m sv) sv0 = same_people sv sv0" "same_people (log_info e f sv) sv0 = same_people sv sv0"
  "same_people (log_warn e f sv) sv0 = same_people sv sv0" "same_people (save p sv) sv0 = same_people sv sv0"
  "same_people (broadcast_to_room r x m sv) sv0 = same_people sv sv0"
  "same_people (broadcast_to_group r x m sv) sv0 = same_people sv sv0"
  "same_people (send_to_sessions l m sv) sv0 = same_people sv sv0"
  by (simp_all add: same_people_def pid_of_def fun_eq_iff)

lemma same_people_set_world:
  "same_online w (sv_world sv) \<Longrightarrow> same_people (set_world w sv) sv"
  by (simp add: same_people_def pid_of_def fun_eq_iff)

lemma same_people_guard:
  "guard_connected sid sv k = Some sv' \<Longrightarrow> (k = Some sv' \<Longrightarrow> same_people sv' sv) \<Longrightarrow> same_people sv' sv"
  by (auto simp: guard_connected_def split: if_splits)

lemma same_people_move [simp]: "same_people (move_session sid r sv) sv0 = same_people sv sv0"
  by (auto simp: same_people_def pid_of_def move_session_def fun_eq_iff)

lemma same_people_taken: "same_people (on_item_taken pid i sv) sv"
proof -
  have e: "\<And>qid sv. \<exists>p q t r. complete_quest_and_notify pid qid ''take'' i sv = complete_quest_and_notify p q t r sv" by blast
  show ?thesis
    by (auto simp: same_people_def same_online_def pid_of_def on_item_taken_def Let_def fold_complete_frame[OF e] fun_eq_iff
        split: option.splits prod.splits)
qed

lemma keys_defeat_fold: "keys (fst (fold (defeat_step w npc) qs (ps, cs))) = keys ps"
  by (induction qs arbitrary: ps cs) (auto simp: defeat_step_def split: prod.splits)

lemma same_people_defeated: "same_people (on_npc_defeated pid i sv) sv"
proof -
  have e: "\<And>x sv. \<exists>p q t r. (case x of (who, qid, _) \<Rightarrow> complete_quest_and_notify who qid ''defeat'' i) sv
      = complete_quest_and_notify p q t r sv" by (auto split: prod.splits)
  have "sess (on_npc_defeated pid i sv) = sess sv"
    by (simp add: on_npc_defeated_def Let_def fold_complete_frame[OF e] fold_save_frame split: prod.splits)
  moreover have "count_key (players (sv_world (on_npc_defeated pid i sv))) q = count_key (players (sv_world sv)) q" for q
    using keys_count[OF keys_defeat_fold[of "sv_world sv" i "quests (sv_world sv)" "players (sv_world sv)" "[]"], of q]
    by (simp add: on_npc_defeated_world)
  ultimately show ?thesis unfolding same_people_def same_online_def by (simp add: pid_of_def fun_eq_iff)
qed

lemma same_people_announce: "same_people (announce_hit pid r n d h died sv) sv"
  by (auto simp: announce_hit_def intro!: same_people_trans[OF same_people_defeated])

lemma locked_people:
  "take_locked pid ref w = Some (m, t, w') \<Longrightarrow> same_online w' w"
  "drop_locked pid ref w = Some (m, t, w') \<Longrightarrow> same_online w' w"
  "talk_locked pid ref w = Some (m, tk, w') \<Longrightarrow> same_online w' w"
  "move_locked pid ref w = Some (m, mv, w') \<Longrightarrow> same_online w' w"
  by (auto simp: same_online_def take_locked_def drop_locked_def talk_locked_def move_locked_def Let_def
      split: Option.bind_splits if_splits option.splits prod.splits)

lemma use_people:
  "use_locked pid iref tref w = Some (m, u, w') \<Longrightarrow> same_online w' w"
  by (auto simp: same_online_def use_locked_def Let_def split: Option.bind_splits if_splits item_effect.splits)

lemma attack_people:
  "attack_locked d pid ref w = Some (m, a, w') \<Longrightarrow> same_online w' w"
  by (auto simp: same_online_def attack_locked_def Let_def split: Option.bind_splits if_splits prod.splits)

lemma group_people:
  "create_locked pid args w = (r, g, w') \<Longrightarrow> same_online w' w"
  "invite_locked pid target w = (r, g, w') \<Longrightarrow> same_online w' w"
  "accept_locked pid join w = (r, g, w') \<Longrightarrow> same_online w' w"
  "same_online (leave_group_locked pid (touch_group pid w)) w"
  by (auto simp: groups_only_def same_online_def dest: groups_only_locked)

lemma people_take: "cmd_take sid args sv = Some sv' \<Longrightarrow> same_people sv' sv"
  unfolding cmd_take_def
  by (erule same_people_guard)
    (auto simp: Let_def dest!: locked_people(1) intro!: same_people_trans[OF same_people_taken] same_people_set_world
      split: if_splits Option.bind_splits option.splits)

lemma people_drop: "cmd_drop sid args sv = Some sv' \<Longrightarrow> same_people sv' sv"
  unfolding cmd_drop_def
  by (erule same_people_guard)
    (auto simp: Let_def dest!: locked_people(2) intro!: same_people_set_world split: if_splits Option.bind_splits option.splits)

lemma people_talk: "cmd_talk sid args sv = Some sv' \<Longrightarrow> same_people sv' sv"
  unfolding cmd_talk_def
  by (erule same_people_guard)
    (auto simp: Let_def dest!: locked_people(3) intro!: same_people_set_world split: if_splits Option.bind_splits option.splits)

lemma people_move: "cmd_move sid args sv = Some sv' \<Longrightarrow> same_people sv' sv"
  unfolding cmd_move_def
  by (erule same_people_guard)
    (auto simp: Let_def dest!: locked_people(4) intro!: same_people_set_world split: if_splits Option.bind_splits option.splits)

lemma people_use: "cmd_use sid args sv = Some sv' \<Longrightarrow> same_people sv' sv"
  unfolding cmd_use_def
  by (erule same_people_guard)
    (auto simp: Let_def dest!: use_people intro!: same_people_set_world same_people_trans[OF same_people_announce]
      split: if_splits Option.bind_splits option.splits use_effect.splits)

lemma people_attack: "cmd_attack d sid args sv = Some sv' \<Longrightarrow> same_people sv' sv"
  unfolding cmd_attack_def
  by (erule same_people_guard)
    (auto simp: Let_def announce_attack_def announce_respawn_def dest!: attack_people
      intro!: same_people_set_world same_people_trans[OF same_people_announce]
      split: if_splits Option.bind_splits option.splits)

lemma people_group: "cmd_group sid args sv = Some sv' \<Longrightarrow> same_people sv' sv"
  unfolding cmd_group_def cmd_group_create_def cmd_group_invite_def cmd_group_accept_def cmd_group_leave_def
  by (erule same_people_guard)
    (auto simp: Let_def dest!: group_people(1-3) intro!: group_people(4) same_people_set_world
      split: if_splits option.splits prod.splits)

lemma people_query:
  "cmd_look sid sv = Some sv' \<Longrightarrow> same_people sv' sv" "cmd_who sid sv = Some sv' \<Longrightarrow> same_people sv' sv"
  "cmd_profile sid sv = Some sv' \<Longrightarrow> same_people sv' sv" "cmd_inventory sid sv = Some sv' \<Longrightarrow> same_people sv' sv"
  "cmd_status sid sv = Some sv' \<Longrightarrow> same_people sv' sv" "cmd_quests sid sv = Some sv' \<Longrightarrow> same_people sv' sv"
  "cmd_quest sid args sv = Some sv' \<Longrightarrow> same_people sv' sv" "cmd_chat sid args sv = Some sv' \<Longrightarrow> same_people sv' sv"
  unfolding cmd_look_def cmd_who_def cmd_profile_def cmd_inventory_def cmd_status_def cmd_quests_def cmd_quest_def cmd_chat_def
  by (erule same_people_guard; auto simp: Let_def split: if_splits Option.bind_splits option.splits)+

lemma people_quit: "cmd_quit sid sv = Some sv' \<Longrightarrow> same_people sv' sv"
  by (auto simp: cmd_quit_def Let_def same_people_def pid_of_def fun_eq_iff)

lemma people_login:
  assumes "pid_of sv sid \<noteq> []"
  shows "cmd_connect sid args sv = Some sv' \<Longrightarrow> same_people sv' sv"
    "cmd_create_character sid args sv = Some sv' \<Longrightarrow> same_people sv' sv"
  using assms by (auto simp: cmd_connect_def cmd_create_character_def)

lemmas people_commands = people_take people_drop people_talk people_move people_use people_attack people_group
  people_query people_quit people_login

lemma people_run_command:
  "pid_of sv sid \<noteq> [] \<Longrightarrow> run_command d cmd sid args sv = Some sv' \<Longrightarrow> same_people sv' sv"
  unfolding run_command_def by (auto split: if_splits intro: people_commands)

lemma people_handle_command:
  assumes "pid_of sv sid \<noteq> []" "handle_command now d sid line sv = Some sv'"
  shows "same_people sv' sv"
proof (cases "split_ws line = []")
  case True
  then show ?thesis using assms(2) by (auto simp: handle_command_def Let_def)
next
  case False
  let ?t = "split_ws line"
  obtain flood sv2 where fl: "record_and_check_flood now sid (log_info ''command_received''
      [(''player'', dash_if_empty (pid_of sv sid)), (''command'', hd ?t)] sv) = (flood, sv2)" by fastforce
  let ?sv3 = "if flood then log_warn ''command_flood_detected''
      [(''player'', dash_if_empty (pid_of sv sid)), (''ip'', peer_ip (sess sv2 sid))] sv2 else sv2"
  have s: "same_people ?sv3 sv"
    using fl by (auto simp: record_and_check_flood_def Let_def same_people_def pid_of_def fun_eq_iff)
  have "run_command d (hd ?t) sid (tl ?t) ?sv3 = Some sv'"
    using assms(2) False by (simp add: handle_command_def Let_def fl)
  moreover have "pid_of ?sv3 sid \<noteq> []" using s assms(1) by (simp add: same_people_def)
  ultimately show ?thesis using people_run_command same_people_trans s by blast
qed

subsection \<open>One session per player\<close>

text \<open>A session owns a player from the moment the player is put into the world until it is taken out.\<close>

definition holds_player :: "phase \<Rightarrow> bool" where
  "holds_player ph = (case ph of Removed _ _ \<Rightarrow> False | Unlisted _ \<Rightarrow> False | _ \<Rightarrow> True)"

lemma holds_player_simps [simp]:
  "holds_player Idle" "holds_player (Connecting n)" "holds_player (Loaded n p)" "holds_player (Entered n)"
  "holds_player (Reserved n p)" "\<not> holds_player (Removed n h)" "\<not> holds_player (Unlisted n)"
  by (simp_all add: holds_player_def)

definition owns :: "conc \<Rightarrow> nat \<Rightarrow> string \<Rightarrow> bool" where
  "owns c sid name = (pid_of (srv c) sid = name \<and> name \<noteq> [] \<and> holds_player (phase_of c sid))"

definition phase_fits :: "phase \<Rightarrow> string \<Rightarrow> bool" where
  "phase_fits ph pid = (case ph of Idle \<Rightarrow> True | Connecting n \<Rightarrow> pid = [] \<and> n \<noteq> [] | Loaded n _ \<Rightarrow> pid = [] \<and> n \<noteq> []
     | Entered n \<Rightarrow> pid = n | Reserved n _ \<Rightarrow> pid = n | Removed n _ \<Rightarrow> pid = n | Unlisted n \<Rightarrow> pid = n)"

definition phase_ok :: "conc \<Rightarrow> nat \<Rightarrow> bool" where
  "phase_ok c sid = phase_fits (phase_of c sid) (pid_of (srv c) sid)"

lemma phase_fits_simps [simp]:
  "phase_fits Idle pid" "phase_fits (Connecting n) pid = (pid = [] \<and> n \<noteq> [])"
  "phase_fits (Loaded n p) pid = (pid = [] \<and> n \<noteq> [])" "phase_fits (Entered n) pid = (pid = n)"
  "phase_fits (Reserved n p) pid = (pid = n)" "phase_fits (Removed n h) pid = (pid = n)"
  "phase_fits (Unlisted n) pid = (pid = n)"
  by (simp_all add: phase_fits_def)

definition conc_ok :: "conc \<Rightarrow> bool" where
  "conc_ok c = ((\<forall>sid. phase_ok c sid) \<and>
     (\<forall>a b name. owns c a name \<longrightarrow> owns c b name \<longrightarrow> a = b) \<and>
     (\<forall>sid name. owns c sid name \<longrightarrow> count_key (players (sv_world (srv c))) name))"

lemma goto_simps [simp]:
  "srv (goto sid ph sv c) = sv" "phase_of (goto sid ph sv c) = (phase_of c)(sid := ph)"
  by (simp_all add: goto_def)

text \<open>Steps that change neither sessions nor online players, and those that put a new player in.\<close>

lemma conc_ok_same:
  assumes ok: "conc_ok c" and p: "same_people sv (srv c)"
    and ph: "phase_ok (goto sid ph sv c) sid"
    and o: "\<And>n. owns (goto sid ph sv c) sid n \<Longrightarrow> owns c sid n"
  shows "conc_ok (goto sid ph sv c)"
proof -
  have pid: "pid_of sv = pid_of (srv c)" using p by (simp add: same_people_def)
  have other: "owns (goto sid ph sv c) a n = owns c a n" if "a \<noteq> sid" for a n
    using that by (simp add: owns_def pid)
  have own: "owns (goto sid ph sv c) a n \<Longrightarrow> owns c a n" for a n
    using other o by (cases "a = sid") auto
  have "phase_ok (goto sid ph sv c) a" for a
    using ph ok by (cases "a = sid") (auto simp: conc_ok_def phase_ok_def pid)
  then show ?thesis using ok own p unfolding conc_ok_def same_people_def same_online_def by (metis goto_simps(1))
qed

lemma conc_ok_login:
  assumes ok: "conc_ok c" and pid: "pid_of sv = (pid_of (srv c))(sid := name)" and name: "name \<noteq> []"
    and off: "\<not> count_key (players (sv_world (srv c))) name"
    and on: "\<And>q. count_key (players (sv_world sv)) q = (q = name \<or> count_key (players (sv_world (srv c))) q)"
    and mine: "pid_of (srv c) sid = []" and ph: "ph = Entered name \<or> ph = Reserved name p"
  shows "conc_ok (goto sid ph sv c)"
proof -
  have other: "owns (goto sid ph sv c) a n = owns c a n" if "a \<noteq> sid" for a n
    using that by (simp add: owns_def pid)
  have self: "owns (goto sid ph sv c) sid n = (n = name)" for n
    using ph name by (auto simp: owns_def pid)
  have nobody: "\<not> owns c a name" for a using ok off unfolding conc_ok_def by blast
  have "phase_ok (goto sid ph sv c) a" for a
    using ph ok by (cases "a = sid") (auto simp: conc_ok_def phase_ok_def pid)
  moreover have "a = b" if "owns (goto sid ph sv c) a n" "owns (goto sid ph sv c) b n" for a b n
    using that ok nobody self other unfolding conc_ok_def by metis
  moreover have "count_key (players (sv_world sv)) n" if "owns (goto sid ph sv c) a n" for a n
  proof (cases "a = sid")
    case True
    then have "n = name" using that self by simp
    then show ?thesis unfolding on by blast
  next
    case False
    then have "owns c a n" using that other by simp
    then have "count_key (players (sv_world (srv c))) n" using ok unfolding conc_ok_def by blast
    then show ?thesis unfolding on by blast
  qed
  ultimately show ?thesis by (simp add: conc_ok_def)
qed

lemma load_people: "load n sv = (r, sv') \<Longrightarrow> same_people sv' sv"
  using load_frame[of n sv r sv'] by (intro same_people_eq)

lemma conc_ok_phase: "conc_ok c \<Longrightarrow> phase_ok c sid"
  by (simp add: conc_ok_def)

lemma istep_ok:
  assumes s: "istep c c'" and ok: "conc_ok c"
  shows "conc_ok c'"
proof (rule istepE[OF s])
  fix sid name
  assume "c' = goto sid (Connecting name) (srv c) c" "phase_of c sid = Idle" "pid_of (srv c) sid = []" "is_valid_name name"
  then show ?thesis using ok by (auto intro!: conc_ok_same simp: phase_ok_def owns_def is_valid_name_def)
next
  fix sid name p sv
  assume a: "c' = goto sid (Loaded name p) sv c" "phase_of c sid = Connecting name" "load name (srv c) = (Some p, sv)"
  show ?thesis using conc_ok_phase[OF ok, of sid] load_people[OF a(3)] a ok
    by (auto intro!: conc_ok_same simp: phase_ok_def owns_def same_people_def)
next
  fix sid name sv
  assume a: "c' = goto sid Idle sv c" "phase_of c sid = Connecting name" "load name (srv c) = (None, sv)"
  show ?thesis using conc_ok_phase[OF ok, of sid] load_people[OF a(3)] a ok
    by (auto intro!: conc_ok_same simp: phase_ok_def owns_def same_people_def)
next
  fix sid name p sv
  assume a: "c' = goto sid (Entered name) sv c" "phase_of c sid = Loaded name p" "enter_world sid name p (srv c) = Some sv"
  have off: "\<not> count_key (players (sv_world (srv c))) name"
    and sv: "sv = (let q = init_player_quests_locked (sv_world (srv c)) p in
      login_session sid name (current_room q) (set_world (upd_player name q (sv_world (srv c))) (srv c)))"
    using a(3) by (auto simp: enter_world_def Let_def split: if_splits)
  have n: "name \<noteq> []" "pid_of (srv c) sid = []" using conc_ok_phase[OF ok, of sid] a(2) by (auto simp: phase_ok_def)
  show ?thesis unfolding a(1)
    by (rule conc_ok_login[OF ok _ n(1) off _ n(2)])
      (auto simp: sv Let_def login_session_def pid_of_def fun_eq_iff)
next
  fix sid name p
  assume a: "c' = goto sid Idle (srv c) c" "phase_of c sid = Loaded name p"
  show ?thesis using a ok by (auto intro!: conc_ok_same simp: phase_ok_def owns_def)
next
  fix sid name rc attrs p sv
  assume a: "c' = goto sid (Reserved name p) sv c" "phase_of c sid = Idle" "pid_of (srv c) sid = []" "is_valid_name name"
    "reserve_new sid name rc attrs (srv c) = Some (p, sv)"
  have off: "\<not> count_key (players (sv_world (srv c))) name"
    and sv: "sv = login_session sid name ''loc.start'' (set_world (upd_player name p (sv_world (srv c))) (srv c))"
    using a(5) by (auto simp: reserve_new_def Let_def split: if_splits)
  have n: "name \<noteq> []" using a(4) by (simp add: is_valid_name_def)
  show ?thesis unfolding a(1)
    by (rule conc_ok_login[OF ok _ n off _ a(3)])
      (auto simp: sv login_session_def pid_of_def fun_eq_iff)
next
  fix sid name p
  assume a: "c' = goto sid (Entered name) (save p (srv c)) c" "phase_of c sid = Reserved name p"
  show ?thesis using conc_ok_phase[OF ok, of sid] a ok
    by (auto intro!: conc_ok_same simp: phase_ok_def owns_def pid_of_def)
next
  fix sid name
  assume a: "c' = goto sid Idle (registry_add name sid (srv c)) c" "phase_of c sid = Entered name"
  show ?thesis using a ok
    by (auto intro!: conc_ok_same same_people_eq simp: phase_ok_def owns_def pid_of_def)
next
  fix sid now d line sv
  assume a: "c' = goto sid Idle sv c" "phase_of c sid = Idle" "pid_of (srv c) sid \<noteq> []"
    "handle_command now d sid line (srv c) = Some sv"
  show ?thesis using people_handle_command[OF a(3,4)] a ok
    by (auto intro!: conc_ok_same simp: phase_ok_def owns_def same_people_def)
next
  fix sid had g w
  define name where "name = pid_of (srv c) sid"
  assume "c' = goto sid (Removed (pid_of (srv c) sid) had) (set_world w (srv c)) c" "phase_of c sid = Idle"
    "pid_of (srv c) sid \<noteq> []" "remove_player (pid_of (srv c) sid) (sv_world (srv c)) = (had, g, w)"
  then have a: "c' = goto sid (Removed name had) (set_world w (srv c)) c" "phase_of c sid = Idle" "pid_of (srv c) sid = name"
    "name \<noteq> []" "remove_player name (sv_world (srv c)) = (had, g, w)" by (simp_all add: name_def)
  have pl: "players w = erase_key name (players (sv_world (srv c)))" using a(5) by (auto simp: remove_player_def Let_def)
  have pid: "pid_of (set_world w (srv c)) = pid_of (srv c)" by (simp add: pid_of_def fun_eq_iff)
  have mine: "owns c sid name" using a by (simp add: owns_def)
  have other: "owns c' b n = (b \<noteq> sid \<and> owns c b n)" for b n by (auto simp: a(1) owns_def pid)
  have "phase_ok c' b" for b
    using conc_ok_phase[OF ok, of b] a(3) by (cases "b = sid") (auto simp: a(1) phase_ok_def pid)
  moreover have "x = y" if "owns c' x n" "owns c' y n" for x y n
    using that ok other unfolding conc_ok_def by blast
  moreover have "count_key (players (sv_world (srv c'))) n" if o: "owns c' b n" for b n
  proof -
    have "b \<noteq> sid" "owns c b n" using o other by auto
    then have "n \<noteq> name" using ok mine unfolding conc_ok_def by blast
    moreover have "count_key (players (sv_world (srv c))) n" using ok \<open>owns c b n\<close> unfolding conc_ok_def by blast
    ultimately show ?thesis by (simp add: a(1) pl)
  qed
  ultimately show ?thesis unfolding conc_ok_def by blast
next
  fix sid name had
  assume a: "c' = goto sid (Unlisted name) (case had of None \<Rightarrow> srv c | Some p \<Rightarrow> save p (srv c)) c" "phase_of c sid = Removed name had"
  show ?thesis using conc_ok_phase[OF ok, of sid] a ok
    by (auto intro!: conc_ok_same simp: phase_ok_def owns_def pid_of_def split: option.splits)
next
  fix sid name
  assume a: "c' = goto sid Idle (close_session sid (registry_remove name (srv c))) c" "phase_of c sid = Unlisted name"
  let ?s = "close_session sid (registry_remove name (srv c))"
  have pid: "pid_of ?s b = (if b = sid then [] else pid_of (srv c) b)" for b by (simp add: pid_of_def close_session_def)
  have w: "sv_world ?s = sv_world (srv c)" by (simp add: close_session_def)
  have other: "owns c' b n = (b \<noteq> sid \<and> owns c b n)" for b n by (auto simp: a(1) owns_def pid)
  have "phase_ok c' b" for b
    using conc_ok_phase[OF ok, of b] by (cases "b = sid") (auto simp: a(1) phase_ok_def pid)
  then show ?thesis using ok other unfolding conc_ok_def by (simp add: a(1) w) blast
qed

lemma ireach_ok: "ireach c0 c \<Longrightarrow> conc_ok c0 \<Longrightarrow> conc_ok c"
  by (induction rule: ireach.induct) (auto intro: istep_ok)

subsection \<open>Reconnecting while the old connection ends\<close>

text \<open>A player who reconnects between the removal of the old session from the world and its removal from
  the registry ends up online without a registry entry: the late \<open>remove\<close> deletes the new entry.\<close>

lemma reconnect_unregisters:
  assumes a: "phase_of c a = Idle" "pid_of (srv c) a = name" and b: "phase_of c b = Idle" "pid_of (srv c) b = []"
    and name: "is_valid_name name" and p: "map_of (players (sv_world (srv c))) name = Some p"
    and st: "storable p" "player_id p = name" and d: "disk (srv c) = []"
  shows "\<exists>c'. ireach c c' \<and> phase_of c' b = Idle \<and> owns c' b name \<and> count_key (players (sv_world (srv c'))) name \<and>
    registry_get (srv c') name = None"
proof -
  have n: "name \<noteq> []" using name by (simp add: is_valid_name_def)
  have ab: "a \<noteq> b" using a b n by auto
  obtain had g w where r: "remove_player name (sv_world (srv c)) = (had, g, w)" by (cases "remove_player name (sv_world (srv c))")
  then have had: "had = Some p" and pl: "players w = erase_key name (players (sv_world (srv c)))"
    using p by (auto simp: remove_player_def Let_def)
  define s1 where "s1 = set_world w (srv c)"
  define c1 where "c1 = goto a (Removed name had) s1 c"
  define s2 where "s2 = save p s1"
  define c2 where "c2 = goto a (Unlisted name) s2 c1"
  define c3 where "c3 = goto b (Connecting name) s2 c2"
  have f: "map_of (files s2) (path_for name) = Some (character_text p)"
  proof -
    have "disk s1 = []" using d by (simp add: s1_def)
    then have "s1\<lparr>disk := []\<rparr> = s1" by (cases s1) simp
    then show ?thesis using save_reliably_file[of p s1] st(2) by (simp add: s2_def save_reliably_def)
  qed
  then obtain q where q: "load_file name (files s2) = Some (Inr q)" using load_file_stored[OF st(1), of "files s2"] st(2) by auto
  then have ld: "load name s2 = (Some q, s2)" by (simp add: load_def)
  define c4 where "c4 = goto b (Loaded name q) s2 c3"
  have off: "map_of (players (sv_world s2)) name = None" by (simp add: s2_def s1_def pl)
  define q' where "q' = init_player_quests_locked (sv_world s2) q"
  define s5 where "s5 = login_session b name (current_room q') (set_world (upd_player name q' (sv_world s2)) s2)"
  have en: "enter_world b name q s2 = Some s5" using off by (simp add: enter_world_def s5_def q'_def Let_def)
  define c5 where "c5 = goto b (Entered name) s5 c4"
  define c6 where "c6 = goto b Idle (registry_add name b s5) c5"
  define c7 where "c7 = goto a Idle (close_session a (registry_remove name (srv c6))) c6"
  have "istep c c1" unfolding c1_def s1_def using a n r by (intro leave_remove) auto
  moreover have "istep c1 c2" using leave_save[of c1 a name had] by (simp add: c2_def c1_def s2_def had)
  moreover have "istep c2 c3" using connect_check[of c2 b name] ab b name off
    by (simp add: c3_def c2_def c1_def s2_def s1_def pid_of_def)
  moreover have "istep c3 c4" using connect_load[of c3 b name q s2] ld by (simp add: c4_def c3_def)
  moreover have "istep c4 c5" using connect_enter[of c4 b name q s5] en by (simp add: c5_def c4_def)
  moreover have "istep c5 c6" using register[of c5 b name] by (simp add: c6_def c5_def)
  moreover have "istep c6 c7" using leave_unregister[of c6 a name] ab
    by (simp add: c7_def c6_def c5_def c4_def c3_def c2_def)
  ultimately have "ireach c c7" by (meson istart imore)
  moreover have "phase_of c7 b = Idle" using ab by (simp add: c7_def c6_def)
  moreover have "registry_get (srv c7) name = None" by (simp add: c7_def close_session_def registry_get_def)
  moreover have "sv_world (srv c7) = sv_world s5" by (simp add: c7_def c6_def close_session_def)
  then have "count_key (players (sv_world (srv c7))) name" by (simp add: s5_def login_session_def)
  moreover have "owns c7 b name" using n ab
    by (simp add: owns_def c7_def c6_def pid_of_def close_session_def s5_def login_session_def)
  ultimately show ?thesis by blast
qed

end
