(* ===== verification/Loader.thy ===== *)
theory Loader
  imports ServerState
begin

text \<open>
  \<open>server/src/world/loader.cpp\<close>: reads \<open>world.json\<close> and checks every reference.  A failed check is
  the value \<open>Inl\<close> with the fields the code logs (\<open>main\<close> then exits, so the half-filled world it
  leaves behind is not kept).  The reading of the file is the parameter \<open>raw\<close> of \<open>load_world\<close>
  (\<open>None\<close> when the file cannot be opened).
\<close>


definition parse_quest_type :: "string \<Rightarrow> quest_type option" where
  "parse_quest_type s = (if s = ''fetch'' then Some Fetch else if s = ''defeat'' then Some Defeat else None)"

definition parse_item_effect :: "string \<Rightarrow> item_effect option" where
  "parse_item_effect s = (if s = [] then Some EffNone else if s = ''heal'' then Some EffHeal
     else if s = ''damage'' then Some EffDamage else None)"

definition ticked :: "string \<Rightarrow> string" where
  "ticked s = [APOS] @ s @ [APOS]"

fun load_each :: "(string \<Rightarrow> json \<Rightarrow> log_fields + 'v) \<Rightarrow> (string \<times> json) list \<Rightarrow> (string \<times> 'v) list
    \<Rightarrow> log_fields + (string \<times> 'v) list" where
  "load_each f [] acc = Inr acc"
| "load_each f ((k, j) # r) acc = (case f k j of Inl e \<Rightarrow> Inl e | Inr v \<Rightarrow> load_each f r (put k v acc))"

definition load_item :: "string \<Rightarrow> json \<Rightarrow> log_fields + item" where
  "load_item item_id item_obj =
     (case parse_item_effect (as_string (json_at item_obj ''effect'')) of
        None \<Rightarrow> Inl [(''item'', item_id),
          (''error'', ''unknown item effect '' @ ticked (as_string (json_at item_obj ''effect'')))]
      | Some eff \<Rightarrow> Inr \<lparr>it_id = item_id, it_name = as_string (json_at item_obj ''name''),
          it_description = as_string (json_at item_obj ''description''), effect = eff,
          effect_amount = as_int (json_at item_obj ''amount'')\<rparr>)"

definition load_npc :: "string \<Rightarrow> json \<Rightarrow> log_fields + npc" where
  "load_npc npc_id npc_obj = Inr
     (let n = default_npc\<lparr>np_id := npc_id, np_name := as_string (json_at npc_obj ''name''),
          np_description := as_string (json_at npc_obj ''description''),
          dialogue := map as_string (array_value (json_at npc_obj ''dialogue'')),
          bonus_dialogue := map as_string (array_value (json_at npc_obj ''bonus_dialogue'')),
          unlock_quest_ids := map as_string (array_value (json_at npc_obj ''unlock_quest_ids'')),
          np_hp := as_int (json_at npc_obj ''hp''), np_max_hp := as_int (json_at npc_obj ''hp'')\<rparr>;
        n1 = (if json_at npc_obj ''counter_damage_min'' \<noteq> JNull
              then n\<lparr>counter_damage_min := as_int (json_at npc_obj ''counter_damage_min'')\<rparr> else n)
      in if json_at npc_obj ''counter_damage_max'' \<noteq> JNull
         then n1\<lparr>counter_damage_max := as_int (json_at npc_obj ''counter_damage_max'')\<rparr> else n1)"

definition load_room :: "string \<Rightarrow> json \<Rightarrow> log_fields + room" where
  "load_room room_id room_obj = Inr
     \<lparr>rm_id = room_id, rm_name = as_string (json_at room_obj ''name''),
      rm_description = as_string (json_at room_obj ''description''),
      exits = fold (\<lambda>(dir, target). put dir (as_string target)) (object_value (json_at room_obj ''exits'')) [],
      item_instance_ids = map as_string (array_value (json_at room_obj ''items'')),
      npc_ids = map as_string (array_value (json_at room_obj ''npcs''))\<rparr>"

definition load_quest :: "string \<Rightarrow> json \<Rightarrow> log_fields + quest" where
  "load_quest quest_id quest_obj =
     (let type_str = as_string (json_at quest_obj ''type'') in
      case parse_quest_type type_str of
        None \<Rightarrow> Inl [(''quest'', quest_id), (''error'', ''unknown quest type '' @ ticked type_str)]
      | Some t \<Rightarrow> Inr \<lparr>q_id = quest_id, q_name = as_string (json_at quest_obj ''name''),
          q_description = as_string (json_at quest_obj ''description''), q_type = t,
          target_id = (if t = Fetch then as_string (json_at quest_obj ''target_id'') else []),
          target_ids = (if t = Fetch then [] else map as_string (array_value (json_at quest_obj ''target_ids''))),
          reward_item_id = as_string (json_at quest_obj ''reward_item_id'')\<rparr>)"

subsection \<open>Referential validation\<close>

fun check_exits :: "world \<Rightarrow> string \<Rightarrow> (string \<times> string) list \<Rightarrow> log_fields option" where
  "check_exits w room_id [] = None"
| "check_exits w room_id ((dir, target) # r) =
     (if \<not> count_key (rooms w) target
      then Some [(''room'', room_id), (''exit'', dir), (''error'', ''exit target '' @ ticked target @ '' does not exist'')]
      else check_exits w room_id r)"

fun check_items :: "world \<Rightarrow> string \<Rightarrow> string list \<Rightarrow> string list \<Rightarrow> log_fields + string list" where
  "check_items w room_id [] placed = Inr placed"
| "check_items w room_id (i # r) placed =
     (if \<not> count_key (items w) i then Inl [(''room'', room_id), (''error'', ''unknown item '' @ ticked i)]
      else if i \<in> set placed
      then Inl [(''room'', room_id), (''error'', ''item '' @ ticked i @ '' placed in more than one room'')]
      else check_items w room_id r (i # placed))"

fun check_npcs :: "world \<Rightarrow> string \<Rightarrow> string list \<Rightarrow> log_fields option" where
  "check_npcs w room_id [] = None"
| "check_npcs w room_id (n # r) =
     (if \<not> count_key (npcs w) n then Some [(''room'', room_id), (''error'', ''unknown npc '' @ ticked n)]
      else check_npcs w room_id r)"

fun check_rooms :: "world \<Rightarrow> (string \<times> room) list \<Rightarrow> string list \<Rightarrow> log_fields option" where
  "check_rooms w [] placed = None"
| "check_rooms w ((room_id, r) # rs) placed =
     (case check_exits w room_id (exits r) of
        Some e \<Rightarrow> Some e
      | None \<Rightarrow> (case check_items w room_id (item_instance_ids r) placed of
          Inl e \<Rightarrow> Some e
        | Inr placed' \<Rightarrow> (case check_npcs w room_id (npc_ids r) of
            Some e \<Rightarrow> Some e
          | None \<Rightarrow> check_rooms w rs placed')))"

fun check_targets :: "world \<Rightarrow> string \<Rightarrow> string list \<Rightarrow> log_fields option" where
  "check_targets w quest_id [] = None"
| "check_targets w quest_id (n # r) =
     (if \<not> count_key (npcs w) n
      then Some [(''quest'', quest_id), (''error'', ''target npc '' @ ticked n @ '' does not exist'')]
      else check_targets w quest_id r)"

definition check_quest :: "world \<Rightarrow> string \<Rightarrow> quest \<Rightarrow> log_fields option" where
  "check_quest w quest_id q =
     (case (if q_type q = Fetch then
              (if \<not> count_key (items w) (target_id q)
               then Some [(''quest'', quest_id), (''error'', ''target item '' @ ticked (target_id q) @ '' does not exist'')]
               else None)
            else if target_ids q = [] then Some [(''quest'', quest_id), (''error'', ''defeat quest has no target_ids'')]
            else check_targets w quest_id (target_ids q)) of
        Some e \<Rightarrow> Some e
      | None \<Rightarrow>
          if reward_item_id q \<noteq> [] \<and> \<not> count_key (items w) (reward_item_id q)
          then Some [(''quest'', quest_id), (''error'', ''reward item '' @ ticked (reward_item_id q) @ '' does not exist'')]
          else None)"

fun check_quests :: "world \<Rightarrow> (string \<times> quest) list \<Rightarrow> log_fields option" where
  "check_quests w [] = None"
| "check_quests w ((quest_id, q) # r) =
     (case check_quest w quest_id q of Some e \<Rightarrow> Some e | None \<Rightarrow> check_quests w r)"

fun check_unlocks :: "world \<Rightarrow> string \<Rightarrow> string list \<Rightarrow> log_fields option" where
  "check_unlocks w npc_id [] = None"
| "check_unlocks w npc_id (q # r) =
     (if \<not> count_key (quests w) q
      then Some [(''npc'', npc_id), (''error'', ''unlock quest '' @ ticked q @ '' does not exist'')]
      else check_unlocks w npc_id r)"

fun check_npc_unlocks :: "world \<Rightarrow> (string \<times> npc) list \<Rightarrow> log_fields option" where
  "check_npc_unlocks w [] = None"
| "check_npc_unlocks w ((npc_id, n) # r) =
     (case check_unlocks w npc_id (unlock_quest_ids n) of Some e \<Rightarrow> Some e | None \<Rightarrow> check_npc_unlocks w r)"

definition validate_world :: "world \<Rightarrow> log_fields option" where
  "validate_world w =
     (case check_rooms w (rooms w) [] of Some e \<Rightarrow> Some e
      | None \<Rightarrow> (case check_quests w (quests w) of Some e \<Rightarrow> Some e
      | None \<Rightarrow> (case check_npc_unlocks w (npcs w) of Some e \<Rightarrow> Some e
      | None \<Rightarrow> if \<not> count_key (rooms w) ''loc.start''
                then Some [(''error'', ''missing required spawn room '' @ ticked ''loc.start'')] else None)))"

definition load_entities :: "json \<Rightarrow> world \<Rightarrow> log_fields + world" where
  "load_entities doc w0 =
     (case load_each load_item (object_value (json_at doc ''items'')) [] of Inl e \<Rightarrow> Inl e | Inr its \<Rightarrow>
     (case load_each load_npc (object_value (json_at doc ''npcs'')) [] of Inl e \<Rightarrow> Inl e | Inr ns \<Rightarrow>
     (case load_each load_room (object_value (json_at doc ''rooms'')) [] of Inl e \<Rightarrow> Inl e | Inr rs \<Rightarrow>
     (case load_each load_quest (object_value (json_at doc ''quests'')) [] of Inl e \<Rightarrow> Inl e | Inr qs \<Rightarrow>
      Inr (w0\<lparr>rooms := rs, items := its, npcs := ns, quests := qs\<rparr>)))))"

definition load_world :: "string \<Rightarrow> string option \<Rightarrow> world \<Rightarrow> (string \<times> log_fields) + world" where
  "load_world path raw w0 =
     (case raw of
        None \<Rightarrow> Inl (''world_load_failed'', [(''path'', path), (''error'', ''cannot open file'')])
      | Some text \<Rightarrow>
         (case parse_json text of
            Inl e \<Rightarrow> Inl (''world_parse_failed'', [(''path'', path), (''error'', e)])
          | Inr doc \<Rightarrow>
              if \<not> is_object doc
              then Inl (''world_validation_failed'', [(''error'', ''root must be a JSON object'')])
              else (case load_entities doc w0 of
                 Inl e \<Rightarrow> Inl (''world_validation_failed'', e)
               | Inr w \<Rightarrow> (case validate_world w of
                    Some e \<Rightarrow> Inl (''world_validation_failed'', e)
                  | None \<Rightarrow> Inr w))))"

subsection \<open>What a successful load guarantees\<close>

lemma load_each_distinct:
  "load_each f js acc = Inr m \<Longrightarrow> distinct (keys acc) \<Longrightarrow> distinct (keys m)"
  by (induction f js acc rule: load_each.induct) (auto split: sum.splits)

lemma load_each_prop:
  assumes "load_each f js acc = Inr m"
    and step: "\<And>k j v. f k j = Inr v \<Longrightarrow> P k v"
    and "\<forall>k v. map_of acc k = Some v \<longrightarrow> P k v"
  shows "\<forall>k v. map_of m k = Some v \<longrightarrow> P k v"
  using assms(1,3)
proof (induction js arbitrary: acc)
  case (Cons x r)
  obtain k j where x: "x = (k, j)" by (cases x)
  have "\<exists>v. f k j = Inr v \<and> load_each f r (put k v acc) = Inr m"
    using Cons.prems(1) by (cases "f k j") (simp_all add: x)
  then obtain v where v: "f k j = Inr v" and r: "load_each f r (put k v acc) = Inr m" by blast
  have "P k v" by (rule step[OF v])
  then have "\<forall>k' v'. map_of (put k v acc) k' = Some v' \<longrightarrow> P k' v'" using Cons.prems(2) by simp
  then show ?case by (rule Cons.IH[OF r])
qed simp

lemma check_exits_None: "check_exits w rid es = None \<longleftrightarrow> (\<forall>t \<in> snd ` set es. count_key (rooms w) t)"
  by (induction w rid es rule: check_exits.induct) auto

lemma check_npcs_None: "check_npcs w rid ns = None \<longleftrightarrow> (\<forall>n \<in> set ns. count_key (npcs w) n)"
  by (induction w rid ns rule: check_npcs.induct) auto

lemma check_targets_None: "check_targets w rid ns = None \<longleftrightarrow> (\<forall>n \<in> set ns. count_key (npcs w) n)"
  by (induction w rid ns rule: check_targets.induct) auto

lemma check_unlocks_None: "check_unlocks w rid qs = None \<longleftrightarrow> (\<forall>q \<in> set qs. count_key (quests w) q)"
  by (induction w rid qs rule: check_unlocks.induct) auto

lemma check_items_Inr:
  "check_items w rid is placed = Inr placed' \<longleftrightarrow>
   (\<forall>i \<in> set is. count_key (items w) i) \<and> distinct is \<and> set is \<inter> set placed = {} \<and> placed' = rev is @ placed"
  by (induction w rid "is" placed rule: check_items.induct) auto

lemma case_error_None [simp]:
  "(case x of None \<Rightarrow> y | Some e \<Rightarrow> Some e) = None \<longleftrightarrow> x = None \<and> y = None"
  by (cases x) auto

lemma check_rooms_None:
  "check_rooms w rs placed = None \<longleftrightarrow>
   (\<forall>(rid, r) \<in> set rs. (\<forall>t \<in> snd ` set (exits r). count_key (rooms w) t) \<and>
      (\<forall>i \<in> set (item_instance_ids r). count_key (items w) i) \<and> (\<forall>n \<in> set (npc_ids r). count_key (npcs w) n)) \<and>
   distinct (concat (map (item_instance_ids \<circ> snd) rs)) \<and>
   set (concat (map (item_instance_ids \<circ> snd) rs)) \<inter> set placed = {}"
proof (induction rs arbitrary: placed)
  case (Cons x rs)
  obtain rid r where x: "x = (rid, r)" by (cases x)
  show ?case
  proof (cases "check_items w rid (item_instance_ids r) placed")
    case (Inl e)
    then have "\<not> ((\<forall>i \<in> set (item_instance_ids r). count_key (items w) i) \<and> distinct (item_instance_ids r)
        \<and> set (item_instance_ids r) \<inter> set placed = {})"
      using check_items_Inr[of w rid "item_instance_ids r" placed "rev (item_instance_ids r) @ placed"] by simp
    then show ?thesis using Inl x by auto
  next
    case (Inr p)
    then have p: "p = rev (item_instance_ids r) @ placed"
      and i: "\<forall>i \<in> set (item_instance_ids r). count_key (items w) i" "distinct (item_instance_ids r)"
        "set (item_instance_ids r) \<inter> set placed = {}"
      unfolding check_items_Inr by blast+
    show ?thesis
      using i by (auto simp: x Inr Cons.IH check_exits_None check_npcs_None p)
  qed
qed simp

lemma check_quest_None: "check_quest w qid q = None \<longleftrightarrow> quest_ok w q"
  unfolding check_quest_def quest_ok_def case_error_None by (auto simp: check_targets_None)

lemma check_quests_None: "check_quests w qs = None \<longleftrightarrow> (\<forall>(qid, q) \<in> set qs. quest_ok w q)"
  by (induction w qs rule: check_quests.induct) (auto simp: check_quest_None)

lemma check_npc_unlocks_None:
  "check_npc_unlocks w ns = None \<longleftrightarrow> (\<forall>(nid, n) \<in> set ns. \<forall>q \<in> set (unlock_quest_ids n). count_key (quests w) q)"
  by (induction w ns rule: check_npc_unlocks.induct) (auto simp: check_unlocks_None)

lemma load_entities_Inr:
  assumes "load_entities doc w0 = Inr w"
  shows "distinct (keys (rooms w)) \<and> distinct (keys (items w)) \<and> distinct (keys (npcs w)) \<and> distinct (keys (quests w))"
    and "\<forall>rid r. map_of (rooms w) rid = Some r \<longrightarrow> rm_id r = rid"
    and "players w = players w0 \<and> player_group w = player_group w0 \<and> groups w = groups w0
      \<and> pending_invites w = pending_invites w0"
proof -
  obtain its ns rs qs where
    l: "load_each load_item (object_value (json_at doc ''items'')) [] = Inr its"
      "load_each load_npc (object_value (json_at doc ''npcs'')) [] = Inr ns"
      "load_each load_room (object_value (json_at doc ''rooms'')) [] = Inr rs"
      "load_each load_quest (object_value (json_at doc ''quests'')) [] = Inr qs"
    and w: "w = w0\<lparr>rooms := rs, items := its, npcs := ns, quests := qs\<rparr>"
    using assms unfolding load_entities_def by (auto split: sum.splits)
  show "distinct (keys (rooms w)) \<and> distinct (keys (items w)) \<and> distinct (keys (npcs w)) \<and> distinct (keys (quests w))"
    using l[THEN load_each_distinct] by (simp add: w)
  have "\<forall>rid r. map_of rs rid = Some r \<longrightarrow> rm_id r = rid"
    by (rule load_each_prop[OF l(3)]) (auto simp: load_room_def)
  then show "\<forall>rid r. map_of (rooms w) rid = Some r \<longrightarrow> rm_id r = rid" by (simp add: w)
  show "players w = players w0 \<and> player_group w = player_group w0 \<and> groups w = groups w0
      \<and> pending_invites w = pending_invites w0" by (simp add: w)
qed

lemma validate_world_ok:
  assumes "validate_world w = None"
    and "distinct (keys (rooms w))" "distinct (keys (items w))" "distinct (keys (npcs w))" "distinct (keys (quests w))"
    and "\<forall>rid r. map_of (rooms w) rid = Some r \<longrightarrow> rm_id r = rid"
  shows "world_data_ok w" and "distinct (concat (map (item_instance_ids \<circ> snd) (rooms w)))"
proof -
  note v = assms(1)[unfolded validate_world_def case_error_None]
  have r: "check_rooms w (rooms w) [] = None" and q: "check_quests w (quests w) = None"
    and n: "check_npc_unlocks w (npcs w) = None" and s: "count_key (rooms w) ''loc.start''"
    using v by (auto split: if_splits)
  show "distinct (concat (map (item_instance_ids \<circ> snd) (rooms w)))"
    using r unfolding check_rooms_None by blast
  have "rooms_ok w" using r s assms(2,6)
    unfolding check_rooms_None all_pairs_map_of[OF assms(2)] rooms_ok_def room_ok_def by blast
  moreover have "quests_ok w" using q assms(5)
    unfolding check_quests_None all_pairs_map_of[OF assms(5)] quests_ok_def by blast
  moreover have "npcs_ok w" using n assms(4)
    unfolding check_npc_unlocks_None all_pairs_map_of[OF assms(4)] npcs_ok_def by blast
  ultimately show "world_data_ok w" using assms(3) by (simp add: world_data_ok_def)
qed

lemma mset_rooms: "items_in_rooms w = mset (concat (map (item_instance_ids \<circ> snd) (rooms w)))"
proof -
  have "msum (\<lambda>r. mset (item_instance_ids r)) m = mset (concat (map (item_instance_ids \<circ> snd) m))" for m :: "(string \<times> room) list"
    by (induction m) auto
  then show ?thesis by (simp add: items_in_rooms_def)
qed

end
