(* ===== verification/Samples.thy ===== *)
theory Samples
  imports Interleaving Loader
begin

text \<open>
  A small world, two players and the server states the witnesses start from: \<open>sample_world\<close> has two
  rooms, one item of each effect, two NPCs, a fetch and a defeat quest; alice is online in
  \<open>sample_server\<close> on session 1, session 2 is connected and not logged in.
\<close>

definition sample_items :: "(string \<times> item) list" where
  "sample_items =
    [(''lamp'', \<lparr>it_id = ''lamp'', it_name = ''Brass Lamp'', it_description = [], effect = EffNone, effect_amount = 0\<rparr>),
     (''potion'', \<lparr>it_id = ''potion'', it_name = ''Potion'', it_description = [], effect = EffHeal, effect_amount = 20\<rparr>),
     (''bomb'', \<lparr>it_id = ''bomb'', it_name = ''Bomb'', it_description = [], effect = EffDamage, effect_amount = 30\<rparr>)]"

definition rat :: npc where
  "rat = default_npc\<lparr>np_id := ''rat'', np_name := ''Rat'', dialogue := [''squeak'', ''hiss''],
     bonus_dialogue := [''cheese''], unlock_quest_ids := [''q.fetch''], np_hp := 10, np_max_hp := 10\<rparr>"

definition ogre :: npc where
  "ogre = default_npc\<lparr>np_id := ''ogre'', np_name := ''Ogre'', np_hp := 200, np_max_hp := 200,
     counter_damage_min := 100, counter_damage_max := 100\<rparr>"

definition start_room :: room where
  "start_room = \<lparr>rm_id = ''loc.start'', rm_name = ''Start'', rm_description = ''A small room'',
     exits = [(''north'', ''loc.hall'')], item_instance_ids = [''lamp''], npc_ids = [''rat'', ''ogre'']\<rparr>"

definition hall_room :: room where
  "hall_room = \<lparr>rm_id = ''loc.hall'', rm_name = ''Hall'', rm_description = ''A hall'',
     exits = [(''south'', ''loc.start'')], item_instance_ids = [], npc_ids = []\<rparr>"

definition lamp_quest :: quest where
  "lamp_quest = \<lparr>q_id = ''q.fetch'', q_name = ''Light'', q_description = [], q_type = Fetch,
     target_id = ''lamp'', target_ids = [], reward_item_id = []\<rparr>"

definition pest_quest :: quest where
  "pest_quest = \<lparr>q_id = ''q.rat'', q_name = ''Pest'', q_description = [], q_type = Defeat,
     target_id = [], target_ids = [''rat''], reward_item_id = []\<rparr>"

definition sample_quests :: "(string \<times> quest) list" where
  "sample_quests = [(''q.fetch'', lamp_quest), (''q.rat'', pest_quest)]"

definition start_world :: world where
  "start_world = empty_world\<lparr>rooms := [(''loc.start'', start_room), (''loc.hall'', hall_room)],
     items := sample_items, npcs := [(''rat'', rat), (''ogre'', ogre)], quests := sample_quests\<rparr>"

definition alice :: player_state where
  "alice = default_player\<lparr>player_id := ''alice'', race := ''elf'', current_room := ''loc.start'',
     inventory := [''potion'', ''bomb''], hp := 60,
     quest_status := [(''q.fetch'', ''in_progress''), (''q.rat'', ''in_progress'')]\<rparr>"

definition sample_world :: world where
  "sample_world = start_world\<lparr>players := [(''alice'', alice)]\<rparr>"

definition sample_server :: server where
  "sample_server = (boot start_world [] [])\<lparr>sv_world := sample_world,
     sess := (\<lambda>_. (fresh_session [])\<lparr>connected := False\<rparr>)
       (1 := (fresh_session ''10.0.0.1'')\<lparr>s_player_id := ''alice'', s_current_room := ''loc.start''\<rparr>,
        2 := fresh_session ''10.0.0.2''),
     registry := [(''alice'', 1)]\<rparr>"

lemmas sample_defs = sample_items_def rat_def ogre_def start_room_def hall_room_def sample_quests_def lamp_quest_def pest_quest_def
  start_world_def alice_def default_npc_def default_player_def empty_world_def

lemma start_data_ok: "world_data_ok start_world" "balance_ok start_world" "ids_clean start_world"
  by (simp_all add: world_data_ok_def rooms_ok_def room_ok_def quests_ok_def quest_ok_def npcs_ok_def balance_ok_def
      item_balanced_def npc_balanced_def ids_clean_def clean_def sample_defs)

lemma alice_ok: "player_ok start_world ''alice'' alice"
  by (simp add: player_ok_def is_valid_name_def char_class_defs RESPAWN_HP_def sample_defs)

lemma start_world_ok: "world_ok start_world"
proof -
  have "players_ok start_world" "groups_ok start_world"
    by (simp_all add: players_ok_def groups_ok_def start_world_def empty_world_def)
  then show ?thesis using start_data_ok by (simp add: world_ok_def)
qed

lemma sample_world_ok: "world_ok sample_world"
  unfolding sample_world_def
  by (rule world_ok_players[OF start_world_ok])
    (use alice_ok in \<open>auto simp: start_world_def empty_world_def split: if_splits\<close>)

lemma sample_server_ok: "server_ok sample_server"
  using sample_world_ok
  by (auto simp: server_defs sample_server_def boot_def fresh_session_def room_of_def sample_world_def alice_def
      load_file_def default_player_def)

lemma sample_sessions [simp]:
  "pid_of sample_server sid = (if sid = 1 then ''alice'' else [])"
  "connected (sess sample_server sid) = (sid = 1 \<or> sid = 2)"
  "s_current_room (sess sample_server sid) = (if sid = 1 then ''loc.start'' else [])"
  "sv_world sample_server = sample_world" "registry sample_server = [(''alice'', 1)]"
  "files sample_server = []" "disk sample_server = []"
  by (simp_all add: sample_server_def pid_of_def boot_def fresh_session_def)

text \<open>The player's swing hits for 10 damage; the NPC swings back and hits.\<close>

definition lucky :: dice where
  "lucky = \<lparr>player_hits = True, player_roll = 0, npc_hits = True, npc_roll = 0\<rparr>"

lemma sample_rooms [simp]:
  "map_of (players sample_world) k = (if k = ''alice'' then Some alice else None)"
  "map_of (rooms sample_world) k = (if k = ''loc.start'' then Some start_room else if k = ''loc.hall'' then Some hall_room else None)"
  "map_of (npcs sample_world) k = (if k = ''rat'' then Some rat else if k = ''ogre'' then Some ogre else None)"
  "items sample_world = sample_items" "quests sample_world = sample_quests" "players sample_world = [(''alice'', alice)]"
  by (simp_all add: sample_world_def start_world_def empty_world_def)

lemma sample_groups_ok: "groups_ok sample_world"
  using sample_world_ok by (simp add: world_ok_def)

end
