(* ===== verification/Resources.thy ===== *)
theory Resources
  imports TapPrelude
begin

text \<open>
  Resources that are taken from a pool and given back: the contract the client's descriptors and its ncurses
  windows share.  \<open>owned\<close> is what a program has taken on top of what was there before.
\<close>

lemma filter_removeAll: "filter (\<lambda>x. x \<noteq> r) xs = removeAll r xs"
  by (induction xs) auto

locale resource_pool =
  fixes live :: "'s \<Rightarrow> 'r list" and acquire :: "'s \<Rightarrow> 'r \<times> 's" and release :: "'r \<Rightarrow> 's \<Rightarrow> 's" and usable :: "'r \<Rightarrow> bool"
  assumes fresh: "fst (acquire s) \<notin> set (live s)"
    and acquired: "live (snd (acquire s)) = fst (acquire s) # live s"
    and acquire_usable: "usable (fst (acquire s))"
    and released: "live (release r s) = removeAll r (live s)"
begin

definition owned :: "'r list \<Rightarrow> 's \<Rightarrow> 's \<Rightarrow> bool" where
  "owned rs s0 s \<longleftrightarrow> live s = rs @ live s0 \<and> distinct rs \<and> set rs \<inter> set (live s0) = {} \<and> (\<forall>r \<in> set rs. usable r)"

lemma owned_start [simp]: "owned [] s s"
  by (simp add: owned_def)

lemma owned_live: "owned rs s0 s \<Longrightarrow> live s = rs @ live s0"
  by (simp add: owned_def)

lemma owned_usable: "owned rs s0 s \<Longrightarrow> r \<in> set rs \<Longrightarrow> usable r"
  by (simp add: owned_def)

lemma owned_acquire: "owned rs s0 s \<Longrightarrow> acquire s = (r, s') \<Longrightarrow> owned (r # rs) s0 s'"
  using fresh[of s] acquired[of s] acquire_usable[of s] by (auto simp: owned_def)

lemma owned_release: "owned rs s0 s \<Longrightarrow> r \<in> set rs \<Longrightarrow> owned (removeAll r rs) s0 (release r s)"
  by (auto simp: owned_def released distinct_removeAll disjoint_iff)

text \<open>Giving back what is not live changes nothing.\<close>

lemma release_other: "r \<notin> set (live s) \<Longrightarrow> live (release r s) = live s"
  by (simp add: released)

lemma owned_cong: "live s' = live s \<Longrightarrow> owned rs s0 s \<Longrightarrow> owned rs s0 s'"
  by (simp add: owned_def)

lemma owned_distinct: "owned rs s0 s \<Longrightarrow> distinct rs"
  by (simp add: owned_def)

text \<open>The same without the order.\<close>

definition owns :: "'r set \<Rightarrow> 's \<Rightarrow> 's \<Rightarrow> bool" where
  "owns A s0 s \<longleftrightarrow> (\<exists>rs. owned rs s0 s \<and> set rs = A)"

lemma owns_start: "owns {} s s"
  by (auto simp: owns_def intro: exI[of _ "[]"])

lemma owns_acquire:
  assumes "owns A s0 s" and "acquire s = (r, s')"
  shows "owns (insert r A) s0 s' \<and> r \<notin> A"
proof -
  obtain rs where rs: "owned rs s0 s" "set rs = A" using assms(1) by (auto simp: owns_def)
  have "owned (r # rs) s0 s'" using owned_acquire[OF rs(1) assms(2)] .
  then show ?thesis using rs(2) by (auto simp: owns_def owned_def intro!: exI[of _ "r # rs"])
qed

lemma owns_release: "owns A s0 s \<Longrightarrow> r \<in> A \<Longrightarrow> owns (A - {r}) s0 (release r s)"
  unfolding owns_def by (metis owned_release set_removeAll)

lemma owns_release_any: "owns A s0 s \<Longrightarrow> r \<notin> set (live s0) \<Longrightarrow> owns (A - {r}) s0 (release r s)"
proof (cases "r \<in> A")
  case False
  assume o: "owns A s0 s" and r: "r \<notin> set (live s0)"
  then have "r \<notin> set (live s)" using False by (auto simp: owns_def owned_def)
  then show ?thesis using o False by (auto simp: owns_def intro: owned_cong[OF release_other])
qed (rule owns_release)

lemma owns_disjoint: "owns A s0 s \<Longrightarrow> A \<inter> set (live s0) = {}"
  by (auto simp: owns_def owned_def)

lemma owns_finite: "owns A s0 s \<Longrightarrow> finite A"
  by (auto simp: owns_def)

lemma owns_cong: "live s' = live s \<Longrightarrow> owns A s0 s \<Longrightarrow> owns A s0 s'"
  unfolding owns_def using owned_cong by blast

lemma owns_count: "owns A s0 s \<Longrightarrow> length (live s) = card A + length (live s0)"
  unfolding owns_def owned_def by (auto simp: distinct_card)

end

subsection \<open>The descriptor table of a process\<close>

text \<open>The table POSIX keeps for a process: a call that creates a descriptor takes the lowest free number.
  It also knows which descriptors are non-blocking and which signals are blocked.\<close>

record kernel =
  k_open :: "int list"
  k_nonblock :: "int list"
  k_blocked :: "int list"

definition free_fd :: "kernel \<Rightarrow> int" where
  "free_fd k = hd (filter (\<lambda>d. d \<notin> set (k_open k)) (map int [0 ..< Suc (length (k_open k))]))"

definition new_fd :: "kernel \<Rightarrow> int \<times> kernel" where
  "new_fd k = (free_fd k, k\<lparr>k_open := free_fd k # k_open k\<rparr>)"

text \<open>\<open>close\<close> of a number that is not open fails and changes nothing; \<open>shutdown\<close> keeps the descriptor.\<close>

definition close_fd :: "int \<Rightarrow> kernel \<Rightarrow> kernel" where
  "close_fd d k = k\<lparr>k_open := filter (\<lambda>e. e \<noteq> d) (k_open k), k_nonblock := filter (\<lambda>e. e \<noteq> d) (k_nonblock k)\<rparr>"

lemma free_fd_exists: "\<exists>d \<in> set (map int [0 ..< Suc (length xs)]). d \<notin> set xs"
proof (rule ccontr)
  assume "\<not> ?thesis"
  then have "set (map int [0 ..< Suc (length xs)]) \<subseteq> set xs" by blast
  then have "card (set (map int [0 ..< Suc (length xs)])) \<le> card (set xs)" by (rule card_mono[rotated]) simp
  moreover have "card (set (map int [0 ..< Suc (length xs)])) = Suc (length xs)"
    by (subst distinct_card) (auto simp: distinct_map)
  ultimately show False using card_length[of xs] by simp
qed

lemma free_fd_fresh: "free_fd k \<notin> set (k_open k) \<and> 0 \<le> free_fd k"
proof -
  let ?f = "filter (\<lambda>d. d \<notin> set (k_open k)) (map int [0 ..< Suc (length (k_open k))])"
  have "?f \<noteq> []" using free_fd_exists[of "k_open k"] by (metis filter_empty_conv)
  then have "free_fd k \<in> set ?f" unfolding free_fd_def by (rule hd_in_set)
  then show ?thesis by (auto simp del: upt_Suc)
qed

interpretation descriptors: resource_pool k_open new_fd close_fd "\<lambda>d. 0 \<le> d"
  by unfold_locales (simp_all add: new_fd_def close_fd_def free_fd_fresh filter_removeAll)

end
