(* ===== verification/ServerStart.thy ===== *)
theory ServerStart
  imports Samples Resources "HOL-Library.Signed_Division"
begin

text \<open>
  The server as a process (\<open>server/src/main.cpp\<close>, \<open>run_server\<close> of \<open>network/server.cpp\<close>, the POSIX half of
  \<open>network/platform_socket.cpp\<close>): the port argument, the order of the start-up and its exits, the accept
  loop, and the descriptors of the connections.  What system calls return is input of the model.
\<close>

subsection \<open>The port\<close>

text \<open>\<open>std::atoi\<close>: undefined when the number does not fit an \<open>int\<close>.\<close>

definition atoi :: "string \<Rightarrow> int option" where
  "atoi s = (let t = skip_ws s; neg = peek t CHR ''-'';
      n = int (read_nat (takeWhile isdigit (if neg \<or> peek t CHR ''+'' then tl t else t)));
      v = (if neg then - n else n)
    in if - (2 ^ 31) \<le> v \<and> v < 2 ^ 31 then Some v else None)"

text \<open>\<open>static_cast<uint16_t>\<close> keeps the lowest 16 bits.\<close>

definition main_port :: "string list \<Rightarrow> nat option" where
  "main_port args = (case args of [] \<Rightarrow> Some 4242 | a # _ \<Rightarrow> map_option (\<lambda>v. nat (v mod 2 ^ 16)) (atoi a))"

lemma port_wraps: "main_port [''70000''] = Some 4464" "main_port [''abc''] = Some 0" "main_port [] = Some 4242"
proof -
  have d: "skip_ws ''70000'' = ''70000''" "takeWhile isdigit ''70000'' = ''70000''" "skip_ws ''abc'' = ''abc''" "takeWhile isdigit ''abc'' = []"
    by code_simp+
  moreover have "read_nat ''70000'' = 70000" "read_nat [] = 0" by (simp_all add: read_nat_def digit_val_def code_of_def)
  ultimately have "atoi ''70000'' = Some 70000" "atoi ''abc'' = Some 0" by (simp_all add: atoi_def peek_def)
  then show "main_port [''70000''] = Some 4464" "main_port [''abc''] = Some 0" "main_port [] = Some 4242" by (simp_all add: main_port_def)
qed

subsection \<open>Listening\<close>

record server_calls =
  rs_socket :: bool
  rs_bind :: bool
  rs_listen :: bool

definition platform_init :: bool where "platform_init = True"

text \<open>The way of \<open>run_server\<close> to its accept loop: \<open>None\<close> when it gets there.\<close>

definition run_server :: "nat \<Rightarrow> server_calls \<Rightarrow> server \<Rightarrow> program_end option \<times> server" where
  "run_server port c sv = (
     if \<not> platform_init then (Some (Exit 1), log_error ''platform_init_failed'' [] sv)
     else if \<not> rs_socket c then (Some (Exit 1), log_error ''socket_create_failed'' [] sv)
     else if \<not> rs_bind c then (Some (Exit 1), log_error ''bind_failed'' [(''port'', show_nat port)] sv)
     else if \<not> rs_listen c then (Some (Exit 1), log_error ''listen_failed'' [] sv)
     else (None, log_info ''server_started'' [(''port'', show_nat port)] sv))"

text \<open>The accept loop on the results of \<open>accept\<close> (the clock and the peer's address): the histories of the
  addresses, the log, and the addresses for which a thread was started, in order.\<close>

fun accept_loop :: "(int \<times> string option) list \<Rightarrow> (string \<times> int list) list \<Rightarrow> string list \<Rightarrow> server
    \<Rightarrow> (string \<times> int list) list \<times> string list \<times> server" where
  "accept_loop [] history threads sv = (history, threads, sv)"
| "accept_loop ((now, client) # rest) history threads sv =
     (case accept_connection now client history sv of (history', sv') \<Rightarrow>
        accept_loop rest history' (case client of None \<Rightarrow> threads | Some ip \<Rightarrow> threads @ [ip]) sv')"

subsection \<open>Waiting for the rest of a line\<close>

record timeval =
  tv_sec :: int
  tv_usec :: int

text \<open>The time-out of \<open>recv\<close> on POSIX; C++ divides towards zero.\<close>

definition recv_timeval :: "int \<Rightarrow> timeval" where
  "recv_timeval timeout_ms = \<lparr>tv_sec = timeout_ms sdiv 1000, tv_usec = (timeout_ms smod 1000) * 1000\<rparr>"

lemma recv_timeval_exact:
  "0 \<le> ms \<Longrightarrow> 1000000 * tv_sec (recv_timeval ms) + tv_usec (recv_timeval ms) = 1000 * ms \<and> tv_usec (recv_timeval ms) \<in> {0 ..< 1000000}"
proof (cases "ms = 0")
  case False
  moreover assume "0 \<le> ms"
  ultimately have "sgn ms = 1" by simp
  moreover have "1000000 * (ms div 1000) + ms mod 1000 * 1000 = 1000 * ms" using mult_div_mod_eq[of 1000 ms] by linarith
  ultimately show ?thesis using \<open>0 \<le> ms\<close> by (simp add: recv_timeval_def signed_divide_int_def signed_modulo_int_def)
qed (simp add: recv_timeval_def)

text \<open>An idle client may wait forever (no time-out), one that has begun a line has five seconds.\<close>

lemma read_timeout_cases: "recv_timeval (int (recv_timeout b)) = (if b = [] then \<lparr>tv_sec = 0, tv_usec = 0\<rparr> else \<lparr>tv_sec = 5, tv_usec = 0\<rparr>)"
  by (simp add: recv_timeout_def recv_timeval_def PARTIAL_MESSAGE_TIMEOUT_MS_def signed_divide_int_def signed_modulo_int_def)

subsection \<open>main\<close>

definition WORLD_FILE :: string where "WORLD_FILE = ''data/world.json''"

definition world_loaded :: "world \<Rightarrow> log_fields" where
  "world_loaded w = [(''path'', WORLD_FILE), (''rooms'', show_nat (length (rooms w))), (''items'', show_nat (length (items w))),
     (''npcs'', show_nat (length (npcs w))), (''quests'', show_nat (length (quests w)))]"

text \<open>\<open>created\<close>: whether the directory of the characters exists or could be made; the exception of
  \<open>create_directories\<close> is not caught.\<close>

definition character_store_init :: "bool \<Rightarrow> server \<Rightarrow> program_end option \<times> server" where
  "character_store_init created sv = (if created then (None, sv) else (Some Abort, sv))"

text \<open>How \<open>main\<close> ends (\<open>Some None\<close>: it serves), its error output, and the server's state.\<close>

definition server_main :: "string list \<Rightarrow> string option \<Rightarrow> bool \<Rightarrow> server_calls \<Rightarrow> (string \<times> string) list \<Rightarrow> disk_outcome list
    \<Rightarrow> (program_end option \<times> string \<times> server) option" where
  "server_main args raw created c fs d = (case main_port args of
     None \<Rightarrow> None
   | Some port \<Rightarrow> Some (case load_world WORLD_FILE raw empty_world of
       Inl (event, flds) \<Rightarrow> (Some (Exit 1), ''Failed to load world data'' @ [NL], log_error event flds (boot empty_world fs d))
     | Inr w \<Rightarrow> (case character_store_init created (log_info ''world_loaded'' (world_loaded w) (boot w fs d)) of
         (Some e, sv) \<Rightarrow> (Some e, [], sv)
       | (None, sv) \<Rightarrow> (case run_server port c sv of (e, sv') \<Rightarrow> (e, [], sv')))))"

subsection \<open>How the start-up ends\<close>

lemma server_main_serves:
  assumes "server_main args raw created c fs d = Some (None, err, sv)"
  obtains w where "load_world WORLD_FILE raw empty_world = Inr w" "same_core sv (boot w fs d)" "sv_world sv = w" "wire sv = []"
proof -
  obtain port where p: "main_port args = Some port" using assms by (auto simp: server_main_def split: option.splits)
  obtain w where w: "load_world WORLD_FILE raw empty_world = Inr w"
    using assms p by (auto simp: server_main_def split: sum.splits)
  then show ?thesis using assms p
    by (intro that[of w]) (auto simp: server_main_def character_store_init_def run_server_def same_core_def boot_def split: if_splits)
qed

lemma accept_connection_core:
  "accept_connection now client history sv = (history', sv') \<Longrightarrow> same_core sv' sv \<and> wire sv' = wire sv"
  by (auto simp: accept_connection_def same_core_def log_warn_def write_log_def split: option.splits prod.splits if_splits)

text \<open>Every accepted connection gets its thread, in order, and the loop touches the log only.\<close>

lemma accept_loop_threads:
  "accept_loop inp history ts sv = (history', ts', sv') \<Longrightarrow>
   ts' = ts @ List.map_filter snd inp \<and> same_core sv' sv \<and> wire sv' = wire sv"
proof (induction inp history ts sv rule: accept_loop.induct)
  case (2 now client rest history ts sv)
  obtain h1 sv1 where a: "accept_connection now client history sv = (h1, sv1)" by (cases "accept_connection now client history sv")
  from "2.IH"[OF a[symmetric]] "2.prems" a accept_connection_core[OF a] show ?case
    by (auto simp: map_filter_simps split: option.splits dest: same_core_trans)
qed (simp add: map_filter_simps)

subsection \<open>The descriptors of the connections\<close>

text \<open>A session's descriptor and its \<open>connected\<close> flag; \<open>ns_over\<close> when the end of \<open>client_loop\<close> has run.
  \<open>nt_owner\<close> is the connection a descriptor number stands for now, \<open>nt_delivered\<close> what was written: the
  session it was meant for, the connection that got it, the line.\<close>

record net_session =
  ns_fd :: int
  ns_connected :: bool
  ns_over :: bool

record net =
  nt_kernel :: kernel
  nt_owner :: "int \<Rightarrow> nat option"
  nt_session :: "nat \<Rightarrow> net_session option"
  nt_delivered :: "(nat \<times> nat option \<times> string) list"

definition net_accept :: "nat \<Rightarrow> net \<Rightarrow> net" where
  "net_accept sid n = (case new_fd (nt_kernel n) of (fd, k) \<Rightarrow>
     n\<lparr>nt_kernel := k, nt_owner := (nt_owner n)(fd := Some sid),
       nt_session := (nt_session n)(sid := Some \<lparr>ns_fd = fd, ns_connected = True, ns_over = False\<rparr>)\<rparr>)"

text \<open>The critical section of \<open>send_line\<close>, with the check inside.\<close>

definition net_send :: "nat \<Rightarrow> net_session \<Rightarrow> string \<Rightarrow> net \<Rightarrow> net" where
  "net_send sid s message n = (if \<not> ns_connected s then n
     else n\<lparr>nt_delivered := nt_delivered n @ [(sid, nt_owner n (ns_fd s), message @ [NL])]\<rparr>)"

text \<open>The critical section at the end of \<open>client_loop\<close>: the flag and the descriptor in one step.\<close>

definition net_close :: "nat \<Rightarrow> net_session \<Rightarrow> net \<Rightarrow> net" where
  "net_close sid s n = n\<lparr>nt_kernel := close_fd (ns_fd s) (nt_kernel n), nt_owner := (nt_owner n)(ns_fd s := None),
     nt_session := (nt_session n)(sid := Some (s\<lparr>ns_connected := False, ns_over := True\<rparr>))\<rparr>"

inductive net_step :: "net \<Rightarrow> net \<Rightarrow> bool" where
  accepted: "nt_session n sid = None \<Longrightarrow> net_step n (net_accept sid n)"
| sent: "nt_session n sid = Some s \<Longrightarrow> net_step n (net_send sid s message n)"
| left: "nt_session n sid = Some s \<Longrightarrow> net_step n (n\<lparr>nt_session := (nt_session n)(sid := Some (s\<lparr>ns_connected := False\<rparr>))\<rparr>)"
| closed: "nt_session n sid = Some s \<Longrightarrow> \<not> ns_over s \<Longrightarrow> net_step n (net_close sid s n)"

inductive_cases net_stepE: "net_step n n'"

definition net_start :: "kernel \<Rightarrow> net" where
  "net_start k = \<lparr>nt_kernel = k, nt_owner = (\<lambda>_. None), nt_session = (\<lambda>_. None), nt_delivered = []\<rparr>"

definition net_ok :: "net \<Rightarrow> bool" where
  "net_ok n \<longleftrightarrow> (\<forall>sid s. nt_session n sid = Some s \<longrightarrow>
       (\<not> ns_over s \<longrightarrow> ns_fd s \<in> set (k_open (nt_kernel n)) \<and> nt_owner n (ns_fd s) = Some sid) \<and>
       (ns_connected s \<longrightarrow> \<not> ns_over s))
     \<and> (\<forall>(sid, got, m) \<in> set (nt_delivered n). got = Some sid)"

lemma net_ok_start: "net_ok (net_start k)"
  by (simp add: net_ok_def net_start_def)

lemma net_step_ok:
  assumes "net_step n n'" and ok: "net_ok n"
  shows "net_ok n'"
  using assms(1)
proof (cases rule: net_step.cases)
  case (accepted sid)
  obtain fd k where f: "new_fd (nt_kernel n) = (fd, k)" by (cases "new_fd (nt_kernel n)")
  have "fd \<notin> set (k_open (nt_kernel n))" "k_open k = fd # k_open (nt_kernel n)"
    using f descriptors.fresh[of "nt_kernel n"] descriptors.acquired[of "nt_kernel n"] by auto
  then show ?thesis using ok accepted(2) f unfolding accepted(1) net_ok_def by (auto simp: net_accept_def)
next
  case (sent sid s message)
  then show ?thesis using ok unfolding sent(1) net_ok_def by (auto simp: net_send_def)
next
  case (left sid s)
  then show ?thesis using ok unfolding left(1) net_ok_def by auto
next
  case (closed sid s)
  have "ns_fd s' \<noteq> ns_fd s" if "nt_session n sid' = Some s'" "\<not> ns_over s'" "sid' \<noteq> sid" for sid' s'
    using ok closed(2,3) that unfolding net_ok_def by (metis option.inject)
  then show ?thesis using ok closed(2,3) unfolding closed(1) net_ok_def
    by (auto simp: net_close_def close_fd_def)
qed

lemma net_reach_ok: "net_step\<^sup>*\<^sup>* n n' \<Longrightarrow> net_ok n \<Longrightarrow> net_ok n'"
  by (induction rule: rtranclp_induct) (auto intro: net_step_ok)

end
