(* ===== verification/ServerSpec.thy ===== *)
theory ServerSpec
  imports ServerStart
begin

text \<open>
  The properties of the server, each with the witness that shows its hypotheses can hold.  The lemmas
  they rest on are in the theories of the components.
\<close>

subsection \<open>Start-up and the invariant\<close>

lemma load_world_Inr:
  assumes "load_world path raw w0 = Inr w"
  obtains doc where "load_entities doc w0 = Inr w" "validate_world w = None"
  using assms by (auto simp: load_world_def split: option.splits sum.splits if_splits)

lemma load_world_ok:
  assumes "load_world path raw w0 = Inr w"
  shows "world_data_ok w" and "distinct (concat (map (item_instance_ids \<circ> snd) (rooms w)))"
    and "players w = players w0" "player_group w = player_group w0" "groups w = groups w0" "pending_invites w = pending_invites w0"
proof -
  obtain doc where l: "load_entities doc w0 = Inr w" and v: "validate_world w = None"
    using load_world_Inr[OF assms] .
  note e = load_entities_Inr[OF l]
  note ok = validate_world_ok[OF v]
  show "world_data_ok w" using ok(1) e by blast
  show "distinct (concat (map (item_instance_ids \<circ> snd) (rooms w)))" using ok(2) e by blast
  show "players w = players w0" "player_group w = player_group w0" "groups w = groups w0" "pending_invites w = pending_invites w0"
    using e(3) by simp_all
qed


definition tiny_file :: string where
  "tiny_file = [CHR ''{''] @ quoted ''rooms'' @ [CHR '':'', CHR ''{''] @ quoted ''loc.start'' @ '':{}}}''"

definition tiny_world :: world where
  "tiny_world = empty_world\<lparr>rooms := [(''loc.start'', \<lparr>rm_id = ''loc.start'', rm_name = [], rm_description = [],
     exits = [], item_instance_ids = [], npc_ids = []\<rparr>)]\<rparr>"

lemma load_tiny: "load_world WORLD_FILE (Some tiny_file) empty_world = Inr tiny_world"
  by code_simp








text \<open>C13: Whatever connections come and go, in any interleaving, a line written for a session goes to the
  connection of that session, although the kernel gives the number of a closed descriptor to the next
  connection.\<close>

theorem sends_reach_own_client:
  assumes "net_step\<^sup>*\<^sup>* (net_start k) n" and "(sid, got, m) \<in> set (nt_delivered n)"
  shows "got = Some sid"
  using net_reach_ok[OF assms(1) net_ok_start] assms(2) unfolding net_ok_def by blast

definition reused :: net where
  "reused = (let empty = \<lparr>k_open = [0, 1, 2, 3], k_nonblock = [], k_blocked = []\<rparr>;
      one = \<lparr>ns_fd = 4, ns_connected = True, ns_over = False\<rparr>; n1 = net_close 1 one (net_accept 1 (net_start empty))
    in net_send 2 one ''OK'' (net_accept 2 n1))"

theorem sends_reach_own_client_witness: "map (\<lambda>(sid, got, m). got) (nt_delivered reused) = [Some 2]"
proof -
  define empty where "empty = \<lparr>k_open = [0, 1, 2, 3 :: int], k_nonblock = [], k_blocked = []\<rparr>"
  define one where "one = \<lparr>ns_fd = 4, ns_connected = True, ns_over = False\<rparr>"
  have f: "new_fd empty = (4, empty\<lparr>k_open := [4, 0, 1, 2, 3]\<rparr>)" unfolding empty_def by code_simp
  have g: "close_fd 4 (empty\<lparr>k_open := [4, 0, 1, 2, 3]\<rparr>) = empty" by (simp add: close_fd_def empty_def)
  define n1 where "n1 = net_close 1 one (net_accept 1 (net_start empty))"
  have s1: "nt_session (net_accept 1 (net_start empty)) 1 = Some one"
    by (simp add: net_accept_def net_start_def f one_def)
  have k1: "nt_kernel n1 = empty" by (simp add: n1_def net_close_def net_accept_def net_start_def f one_def g)
  have s2: "nt_session (net_accept 2 n1) 2 = Some one" "nt_session n1 2 = None" "nt_owner (net_accept 2 n1) 4 = Some 2"
      "nt_delivered (net_accept 2 n1) = []"
    by (simp_all add: net_accept_def k1 f one_def) (simp_all add: n1_def net_close_def net_accept_def net_start_def f)
  have r: "reused = net_send 2 one ''OK'' (net_accept 2 n1)"
    by (simp only: reused_def Let_def n1_def one_def empty_def)
  have "net_step\<^sup>*\<^sup>* (net_start empty) reused"
  proof (rule rtranclp.rtrancl_into_rtrancl[OF rtranclp.rtrancl_into_rtrancl[OF rtranclp.rtrancl_into_rtrancl[OF
        rtranclp.rtrancl_into_rtrancl[OF rtranclp.rtrancl_refl]]]])
    show "net_step (net_start empty) (net_accept 1 (net_start empty))" by (rule net_step.accepted) (simp add: net_start_def)
    show "net_step (net_accept 1 (net_start empty)) n1"
      unfolding n1_def using s1 by (rule net_step.closed) (simp add: one_def)
    show "net_step n1 (net_accept 2 n1)" using s2(2) by (rule net_step.accepted)
    show "net_step (net_accept 2 n1) reused" unfolding r using s2(1) by (rule net_step.sent)
  qed
  note own = sends_reach_own_client[OF this]
  have d: "nt_delivered reused = [(2, Some 2, ''OK'' @ [NL])]"
    unfolding r by (simp add: net_send_def s2) (simp add: one_def s2)
  show ?thesis using own[of 2 "Some 2"] d by simp
qed

text \<open>C15: A world the loader accepts has no dangling reference: every exit, item, NPC, quest target,
  reward and unlock condition names an existing entity, ids are unique, \<open>loc.start\<close> exists, and no item
  instance lies in two places.\<close>

theorem loaded_world_valid:
  assumes "load_world path raw w0 = Inr w"
  shows "world_data_ok w \<and> (\<forall>i. count (items_in_rooms w) i \<le> 1) \<and> players w = players w0"
proof -
  have "\<forall>i. count (items_in_rooms w) i \<le> 1"
    using load_world_ok(2)[OF assms] unfolding mset_rooms distinct_count_atmost_1 by (metis le_refl zero_le)
  then show ?thesis using load_world_ok[OF assms] by blast
qed

theorem loaded_world_valid_witness: "world_data_ok tiny_world"
  using loaded_world_valid[OF load_tiny] by blast

subsection \<open>Commands\<close>

text \<open>C2: In a well-formed server every input line of a connected client is handled to the end (no
  exception, no missing key) and answered with exactly one line that is not an event, sent to that
  client alone; the server stays well formed.\<close>

theorem command_answered_once:
  assumes "server_ok sv" "connected (sess sv sid)"
  shows "\<exists>sv' m. handle_command now d sid line sv = Some sv' \<and> server_ok sv' \<and> \<not> is_event m \<and>
    replies sv' = replies sv @ [(sid, m @ [NL])]"
  using handle_command_handled[OF assms(1), of sid now d line] assms(2) by (simp add: handled_def)

theorem command_answered_once_witness:
  "\<exists>sv' m. handle_command 0 lucky 1 ''TAKE lamp'' sample_server = Some sv' \<and> server_ok sv' \<and> \<not> is_event m \<and>
     replies sv' = replies sample_server @ [(1, m @ [NL])]"
  by (rule command_answered_once) (simp_all add: sample_server_ok)





subsection \<open>Items\<close>


lemma sample_unique: "items_unique sample_world"
  by (auto simp: items_unique_def items_in_play_def items_in_rooms_def items_carried_def sample_world_def start_world_def
      empty_world_def start_room_def hall_room_def alice_def default_player_def)


text \<open>C17: USE consumes exactly the item it names when it succeeds and nothing when it fails.\<close>

theorem use_consumes_one:
  assumes "items_unique w" "use_locked pid item_ref target_ref w = Some (m, u, w')"
  shows "items_in_play w' + consumed u = items_in_play w \<and> (consumed u = {#} \<longleftrightarrow> u = None)"
  using use_locked_items[OF assms] by (auto simp: consumed_def split: option.splits use_effect.splits)

theorem use_consumes_one_witness:
  "\<exists>m u w'. use_locked ''alice'' ''potion'' [] sample_world = Some (m, Some u, w') \<and>
     items_in_play w' + {#''potion''#} = items_in_play sample_world"
proof -
  have r: "resolve_item_ref_locked sample_world [''potion'', ''bomb''] ''potion'' = ''potion''"
    by (simp add: resolve_item_ref_locked_def)
  obtain m h x w' where u: "use_locked ''alice'' ''potion'' [] sample_world = Some (m, Some (Healed ''potion'' h, x), w')"
    by (simp add: use_locked_def alice_def default_player_def sample_items_def r Let_def int_checked_def)
  from use_consumes_one[OF sample_unique u] have "items_in_play w' + {#''potion''#} = items_in_play sample_world"
    by (simp add: consumed_def)
  with u show ?thesis by blast
qed

subsection \<open>Combat and quests\<close>




text \<open>C19: A defeat quest is world state: once its last target is dead, the trigger leaves no online player
  with the quest in progress, whoever struck the blow; no player's quest goes back, and a status only
  ever changes from \<open>in_progress\<close> to \<open>completed\<close>.\<close>

theorem defeat_completes_for_all:
  assumes "server_ok sv" "map_of (quests (sv_world sv)) qid = Some q" "cleared_by (sv_world sv) npc q"
    and "map_of (players (sv_world sv)) x = Some p"
  shows "\<exists>p'. map_of (players (sv_world (on_npc_defeated pid npc sv))) x = Some p' \<and>
    map_of (quest_status p') qid \<noteq> Some ''in_progress'' \<and> quests_grow p p'"
proof -
  let ?w = "sv_world sv"
  obtain ps cs where f: "fold (defeat_step ?w npc) (quests ?w) (players ?w, []) = (ps, cs)"
    by (cases "fold (defeat_step ?w npc) (quests ?w) (players ?w, [])")
  have w: "world_ok ?w" using assms(1) by (simp add: server_ok_def)
  then have d: "distinct (keys (quests ?w))" and dp: "distinct (keys (players ?w))"
    and mp: "\<forall>pid p. map_of (players ?w) pid = Some p \<longrightarrow> player_ok ?w pid p"
    unfolding world_ok_def world_data_ok_def quests_ok_def players_ok_def by simp_all
  have pl: "\<forall>(pid, p) \<in> set (players ?w). player_ok ?w pid p" unfolding all_pairs_map_of[OF dp] by (rule mp)
  have sp: "same_places (players ?w) ps" using defeat_fold[OF world_ok_quests[OF w] pl _ f] by simp
  then obtain p' where p': "map_of ps x = Some p'" "quests_grow p p'"
    using assms(4) unfolding same_places_def by (metis keys_count not_None_eq)
  have "(qid, q) \<in> set (quests ?w)" using assms(2) by (rule map_of_SomeD)
  from defeat_fold_none_left[OF f d this assms(3) p'(1)] p' show ?thesis
    by (auto simp: on_npc_defeated_world f)
qed

definition sewer_server :: server where
  "sewer_server = set_world (upd_npc ''rat'' (rat\<lparr>np_hp := 0\<rparr>) sample_world) sample_server"

lemma sewer_server_ok: "server_ok sewer_server"
proof -
  let ?w = "upd_npc ''rat'' (rat\<lparr>np_hp := 0\<rparr>) sample_world"
  have "npc_balanced (rat\<lparr>np_hp := 0\<rparr>)" by (simp add: rat_def default_npc_def npc_balanced_def)
  then have "world_ok ?w" by (intro world_ok_upd_npc[OF sample_world_ok, of _ rat]) simp_all
  then show ?thesis unfolding sewer_server_def
    by (intro server_ok_set_world[OF sample_server_ok]) (simp_all add: static_upd_npc room_of_def fun_eq_iff)
qed

theorem defeat_completes_for_all_witness:
  "\<exists>p'. map_of (players (sv_world (on_npc_defeated ''alice'' ''rat'' sewer_server))) ''alice'' = Some p' \<and>
     map_of (quest_status p') ''q.rat'' \<noteq> Some ''in_progress'' \<and> quests_grow alice p'"
  by (rule defeat_completes_for_all[OF sewer_server_ok, of _ pest_quest])
    (simp_all add: sewer_server_def sample_quests_def pest_quest_def cleared_by_def all_defeat_targets_dead_locked_def)

subsection \<open>Groups\<close>



subsection \<open>Dialogue, rooms, broadcasts\<close>



lemma resolve_npc_upd_player [simp]: "resolve_npc_ref_locked (upd_player pid p w) cs ref = resolve_npc_ref_locked w cs ref"
proof -
  have "npc_named (upd_player pid p w) ref = npc_named w ref" by (simp add: npc_named_def fun_eq_iff)
  then show ?thesis by (simp add: resolve_npc_ref_locked_def cong: option.case_cong)
qed




text \<open>C21: A broadcast to a room is written once to every connected session whose player stands in the
  room, except the one named, and to no other socket.\<close>

theorem broadcast_reaches_room:
  assumes "server_ok sv"
  shows "\<exists>sids. wire (broadcast_to_room room_id ex m sv) = wire sv @ map (\<lambda>sid. (sid, m @ [NL])) sids \<and> distinct sids \<and>
    set sids = {sid. connected (sess sv sid) \<and> pid_of sv sid \<noteq> [] \<and> pid_of sv sid \<noteq> ex \<and> s_current_room (sess sv sid) = room_id}"
proof -
  let ?w = "sv_world sv"
  let ?ts = "room_targets room_id ex ?w"
  let ?f = "\<lambda>pid. case registry_get sv pid of None \<Rightarrow> [] | Some sid \<Rightarrow> if connected (sess sv sid) then [sid] else []"
  have so: "sessions_ok sv" using assms by (simp add: server_ok_def)
  have dp: "distinct (keys (players ?w))" using assms by (simp add: server_ok_def world_ok_def players_ok_def)
  have ts: "set ?ts = {pid. room_of ?w pid = Some room_id \<and> pid \<noteq> ex}"
    by (auto simp: room_targets_def room_of_def map_of_mem[OF dp] image_iff split_beta)
  have dt: "distinct ?ts" using dp by (simp add: room_targets_def distinct_map_filter)
  have wire: "wire (broadcast_to_room room_id ex m sv) = wire sv @ map (\<lambda>sid. (sid, m @ [NL])) (concat (map ?f ?ts))"
    unfolding broadcast_to_room_def wire_send_to_players map_concat
    by (simp add: comp_def) (rule arg_cong[where f = concat], simp split: option.splits)
  have inj: "registry_get sv a = Some s \<Longrightarrow> registry_get sv b = Some s \<Longrightarrow> a = b" for a b s
    using so unfolding sessions_ok_def by metis
  have "distinct (concat (map ?f ts))" if "distinct ts" for ts
    using that by (induction ts) (auto split: option.splits if_splits dest: inj)
  moreover have "set (concat (map ?f ?ts)) = {sid. connected (sess sv sid) \<and> pid_of sv sid \<noteq> [] \<and> pid_of sv sid \<noteq> ex \<and>
      s_current_room (sess sv sid) = room_id}" (is "?L = ?R")
  proof (intro set_eqI iffI)
    fix sid assume "sid \<in> ?L"
    then obtain pid where p: "room_of ?w pid = Some room_id" "pid \<noteq> ex" "registry_get sv pid = Some sid" "connected (sess sv sid)"
      using ts by (auto split: option.splits if_splits)
    then have i: "pid_of sv sid = pid" "pid \<noteq> []" using so unfolding sessions_ok_def by blast+
    then have "room_of ?w pid = Some (s_current_room (sess sv sid))" using so unfolding sessions_ok_def by metis
    then show "sid \<in> ?R" using i p by simp
  next
    fix sid assume "sid \<in> ?R"
    then have "pid_of sv sid \<in> set ?ts" "registry_get sv (pid_of sv sid) = Some sid" "connected (sess sv sid)"
      using so unfolding ts sessions_ok_def by auto
    then show "sid \<in> ?L" by force
  qed
  ultimately show ?thesis using wire dt by blast
qed

theorem broadcast_reaches_room_witness:
  "wire (broadcast_to_room ''loc.start'' [] ''EVT'' sample_server) = wire sample_server @ [(1, ''EVT'' @ [NL])]"
proof -
  obtain sids where s: "wire (broadcast_to_room ''loc.start'' [] ''EVT'' sample_server) =
      wire sample_server @ map (\<lambda>sid. (sid, ''EVT'' @ [NL])) sids" "distinct sids"
    "set sids = {sid. connected (sess sample_server sid) \<and> pid_of sample_server sid \<noteq> [] \<and> pid_of sample_server sid \<noteq> [] \<and>
       s_current_room (sess sample_server sid) = ''loc.start''}"
    using broadcast_reaches_room[OF sample_server_ok] by blast
  have "set sids = {1}" unfolding s(3) by (auto split: if_splits)
  with s(2) have "sids = [1]" by (cases sids; cases "tl sids") auto
  with s(1) show ?thesis by simp
qed

text \<open>The document LOOK answers with.\<close>

definition room_doc :: "world \<Rightarrow> room \<Rightarrow> jdoc" where
  "room_doc w r = DObj [(''room'', DObj [(''id'', DStr (rm_id r)), (''name'', DStr (rm_name r)),
       (''description'', DStr (rm_description r)), (''exits'', DObj (map (\<lambda>(dir, dest). (dir, DStr dest)) (exits r)))]),
     (''players'', DArr (map DStr (room_targets (rm_id r) [] w))),
     (''items'', DArr (map DStr (item_instance_ids r))), (''npcs'', DArr (map DStr (npc_ids r)))]"

lemma room_literals_clean [simp]: "clean ''room''" "clean ''id''" "clean ''description''" "clean ''exits''"
    "clean ''players''" "clean ''items''" "clean ''npcs''"
  by (auto simp: clean_def)

lemma serialize_room_render:
  assumes w: "world_ok w" and r: "map_of (rooms w) rid = Some r" and dirs: "\<forall>d \<in> set (keys (exits r)). clean d"
  shows "serialize_room_locked w r = render (room_doc w r)"
proof -
  have ids: "ids_clean w" and ok: "room_ok w rid r" and pl: "players_ok w"
    using w r by (auto simp: world_ok_def world_data_ok_def rooms_ok_def)
  have k: "count_key (rooms w) a \<or> count_key (items w) a \<or> count_key (npcs w) a \<Longrightarrow> clean a" for a
    using ids unfolding ids_clean_def by (auto simp: dom_map_of_conv_image_fst[symmetric] domIff)
  have "clean (rm_id r)" using ok r k[of rid] by (simp add: room_ok_def)
  moreover have "map (\<lambda>(dir, dest). quoted (json_escape dir) @ '':'' @ quoted (json_escape dest)) (exits r)
      = map (\<lambda>(dir, dest). member dir (quoted dest)) (exits r)"
    using ok dirs k by (force simp: room_ok_def member_def)
  moreover have "map (\<lambda>i. quoted (json_escape i)) (item_instance_ids r) = map quoted (item_instance_ids r)"
    "map (\<lambda>i. quoted (json_escape i)) (npc_ids r) = map quoted (npc_ids r)"
    using ok k by (auto simp: room_ok_def)
  moreover have "map (\<lambda>i. quoted (json_escape i)) (room_targets (rm_id r) [] w) =
      map (\<lambda>(pid, p). quoted pid) (filter (\<lambda>(pid, p). current_room p = rm_id r) (players w))"
  proof -
    have dp: "distinct (keys (players w))" and po: "map_of (players w) pid = Some p \<Longrightarrow> is_valid_name pid" for pid p
      using pl by (auto simp: players_ok_def player_ok_def)
    have n: "\<forall>x \<in> set (players w). json_escape (fst x) = fst x \<and> fst x \<noteq> []"
    proof
      fix x assume x: "x \<in> set (players w)"
      have "is_valid_name (fst x)" by (rule po[of _ "snd x"]) (simp add: map_of_mem[OF dp, symmetric] x)
      then show "json_escape (fst x) = fst x \<and> fst x \<noteq> []" using valid_name_clean by (auto simp: is_valid_name_def)
    qed
    then have "filter (\<lambda>(pid, p). current_room p = rm_id r \<and> pid \<noteq> []) (players w) = filter (\<lambda>(pid, p). current_room p = rm_id r) (players w)"
      by (intro filter_cong) auto
    then show ?thesis using n by (simp add: room_targets_def case_prod_unfold)
  qed
  ultimately show ?thesis
    by (simp add: serialize_room_locked_def room_doc_def obj_def arr_def comp_def case_prod_unfold member_def del: json_escape.simps
      cong: map_cong)
qed

lemma look_reply:
  assumes "server_ok sv" "connected (sess sv sid)" "pid_of sv sid \<noteq> []"
    and "\<forall>rid r. map_of (rooms (sv_world sv)) rid = Some r \<longrightarrow> (\<forall>d \<in> set (keys (exits r)). clean d)"
  obtains p r where "map_of (players (sv_world sv)) (pid_of sv sid) = Some p" "map_of (rooms (sv_world sv)) (current_room p) = Some r"
    "cmd_look sid sv = Some (send_line sid (''OK '' @ render (room_doc (sv_world sv) r)) sv)"
    "replies (send_line sid (''OK '' @ render (room_doc (sv_world sv) r)) sv)
       = replies sv @ [(sid, ''OK '' @ render (room_doc (sv_world sv) r) @ [NL])]"
proof -
  obtain p r where p: "map_of (players (sv_world sv)) (pid_of sv sid) = Some p"
    and r: "map_of (rooms (sv_world sv)) (current_room p) = Some r"
    using server_ok_player[OF assms(1,3)] by blast
  have "room_of (sv_world sv) (pid_of sv sid) = Some (s_current_room (sess sv sid))"
    using assms(1,3) unfolding server_ok_def sessions_ok_def by blast
  then have cur: "s_current_room (sess sv sid) = current_room p" by (simp add: room_of_def p)
  have ren: "serialize_room_locked (sv_world sv) r = render (room_doc (sv_world sv) r)"
    by (rule serialize_room_render[OF _ r]) (use assms(1,4) r in \<open>auto simp: server_ok_def\<close>)
  have "cmd_look sid sv = Some (send_line sid (''OK '' @ render (room_doc (sv_world sv) r)) sv)"
    using assms(3) by (simp add: cmd_look_def guard_connected_def cur r ren)
  moreover have "replies (send_line sid (''OK '' @ render (room_doc (sv_world sv) r)) sv)
      = replies sv @ [(sid, ''OK '' @ render (room_doc (sv_world sv) r) @ [NL])]"
    using assms(2) by (subst replies_send_line) (simp_all add: is_event_def)
  ultimately show ?thesis using that p r by blast
qed

text \<open>LOOK tells the truth: the answer to a connected player is \<open>OK\<close> and one JSON document that reads
  back as the room the player stands in, with its text, exits, items and NPCs, and exactly the
  players who stand there; the exit names must print unescaped.\<close>

theorem look_describes_room:
  assumes "server_ok sv" "connected (sess sv sid)" "pid_of sv sid \<noteq> []"
    and "\<forall>rid r. map_of (rooms (sv_world sv)) rid = Some r \<longrightarrow> (\<forall>d \<in> set (keys (exits r)). clean d)"
  shows "\<exists>sv' r text. cmd_look sid sv = Some sv' \<and> replies sv' = replies sv @ [(sid, ''OK '' @ text @ [NL])] \<and>
    (\<exists>p. map_of (players (sv_world sv)) (pid_of sv sid) = Some p \<and> map_of (rooms (sv_world sv)) (current_room p) = Some r) \<and>
    parse_json text = Inr (denote (room_doc (sv_world sv) r))"
proof -
  obtain p r where "map_of (players (sv_world sv)) (pid_of sv sid) = Some p" "map_of (rooms (sv_world sv)) (current_room p) = Some r"
    "cmd_look sid sv = Some (send_line sid (''OK '' @ render (room_doc (sv_world sv) r)) sv)"
    "replies (send_line sid (''OK '' @ render (room_doc (sv_world sv) r)) sv)
       = replies sv @ [(sid, ''OK '' @ render (room_doc (sv_world sv) r) @ [NL])]"
    by (rule look_reply[OF assms])
  then show ?thesis using parse_json_render[of "room_doc (sv_world sv) r"] by blast
qed

theorem look_describes_room_witness:
  "\<exists>sv' text. cmd_look 1 sample_server = Some sv' \<and> replies sv' = replies sample_server @ [(1, ''OK '' @ text @ [NL])] \<and>
     parse_json text = Inr (denote (room_doc sample_world start_room))"
proof -
  have "\<forall>rid r. map_of (rooms (sv_world sample_server)) rid = Some r \<longrightarrow> (\<forall>d \<in> set (keys (exits r)). clean d)"
    by (auto simp: start_room_def hall_room_def clean_def split: if_splits)
  from look_describes_room[OF sample_server_ok _ _ this, of 1]
  obtain sv' r payload p where "cmd_look 1 sample_server = Some sv'" "replies sv' = replies sample_server @ [(1, ''OK '' @ payload @ [NL])]"
    "map_of (players sample_world) ''alice'' = Some p" "map_of (rooms sample_world) (current_room p) = Some r"
    "parse_json payload = Inr (denote (room_doc sample_world r))" by auto
  moreover from this(3,4) have "r = start_room" by (auto simp: alice_def default_player_def)
  ultimately show ?thesis by blast
qed

text \<open>C20: When a connection ends, its player is neither online nor registered nor in a group, and the final
  state is what the next CONNECT under that name will load; nobody else leaves.\<close>

theorem disconnect_removes:
  assumes "server_ok sv" "disk sv = []" "map_of (players (sv_world sv)) (pid_of sv sid) = Some p" "storable p"
    and "sv' = handle_disconnect sid sv"
  shows "(\<forall>n. count_key (players (sv_world sv')) n = (n \<noteq> pid_of sv sid \<and> count_key (players (sv_world sv)) n)) \<and>
    registry_get sv' (pid_of sv sid) = None \<and> membership (sv_world sv') (pid_of sv sid) = None \<and>
    (\<exists>q. load_file (pid_of sv sid) (files sv') = Some (Inr q) \<and> same_player q p)"
proof -
  let ?pid = "pid_of sv sid" and ?w = "sv_world sv"
  have w: "world_ok ?w" using assms(1) by (simp add: server_ok_def)
  have ok: "player_ok ?w ?pid p" by (rule world_ok_player[OF w assms(3)])
  then have pid: "?pid \<noteq> []" "player_id p = ?pid" by (auto simp: player_ok_def is_valid_name_def)
  obtain had g w' where r: "remove_player ?pid ?w = (had, g, w')" by (cases "remove_player ?pid ?w")
  note rp = remove_player_ok[OF w r]
  have had: "had = Some p" using rp(4) assms(3) by simp
  have sv': "sv' = announce_leave ?pid had g (registry_remove ?pid (save p (set_world w' sv)))"
    using pid r had by (simp add: assms(5) handle_disconnect_def Let_def)
  have wd: "sv_world sv' = w'" by (simp add: sv')
  have "count_key (players w') n = (n \<noteq> ?pid \<and> count_key (players ?w) n)" for n
    unfolding count_room_of rp(3) by simp
  moreover have "registry_get sv' ?pid = None" by (simp add: sv' registry_get_def)
  moreover have "membership w' ?pid = None" by (simp add: rp(5))
  moreover have "map_of (files sv') (path_for (player_id p)) = Some (character_text p)"
    using assms(2) by (simp add: sv' save_def Let_def)
  then have "\<exists>q. load_file ?pid (files sv') = Some (Inr q) \<and> same_player q p"
    using load_file_stored[OF assms(4)] pid(2) by simp
  ultimately show ?thesis using wd by blast
qed

lemma alice_storable: "storable alice"
  by (simp add: storable_def ids_printable_def alice_def default_player_def clean_def)

theorem disconnect_removes_witness:
  "\<not> count_key (players (sv_world (handle_disconnect 1 sample_server))) ''alice''"
  using disconnect_removes[OF sample_server_ok _ _ alice_storable refl, of 1] by simp

end
