(* ===== verification/ProtocolSpec.thy ===== *)
theory ProtocolSpec
  imports ServerSpec
begin

text \<open>
  The properties of the server's plumbing: the JSON parser, the character files, the framing of lines,
  sending, logging, tokens and the flood counter, and the logins that race with each other.
\<close>

subsection \<open>JSON\<close>


text \<open>C25: The recursive descent ends on every text: the fuel \<open>parse_json\<close> passes is enough for well-formed
  and malformed input alike.\<close>

theorem json_parser_ends: "\<exists>r. parse_value (length s) (json_fuel s) (skip_ws s) = Some r"
  using parse_json_has_fuel[of s] by auto

subsection \<open>Character files\<close>

text \<open>C4: After any sequence of saves, loading a name gives the state that was saved last under it (the
  order of the two hash maps aside), whatever was saved under other names before or after.\<close>

theorem last_save_wins:
  assumes "storable p" "\<forall>q \<in> set later. player_id q \<noteq> player_id p" "disk sv = []"
  shows "\<exists>q. fst (load (player_id p) (fold save (earlier @ p # later) sv)) = Some q \<and> same_player q p"
  using store.fetch_last[OF assms(1,2), of earlier sv] 
  unfolding save_reliably_saves[OF assms(3)] by (simp only: fetch_file_def)

definition bob :: player_state where
  "bob = alice\<lparr>player_id := ''bob'', inventory := [''lamp'']\<rparr>"

theorem last_save_wins_witness:
  "\<exists>q. fst (load ''alice'' (fold save [alice, bob, alice\<lparr>hp := 7\<rparr>, bob] sample_server)) = Some q \<and> hp q = 7"
proof -
  have "storable (alice\<lparr>hp := 7\<rparr>)" using alice_storable by (simp add: storable_def ids_printable_def)
  from last_save_wins[OF this, of "[bob]" sample_server "[alice, bob]"] show ?thesis
    by (auto simp: same_player_def bob_def alice_def default_player_def)
qed



subsection \<open>Lines\<close>

text \<open>C26: The lines a client sends arrive as sent, however the network cuts the byte stream into chunks
  and whatever follows them; a carriage return at the end of a line is dropped.\<close>

theorem lines_survive_chunking:
  assumes "\<forall>r \<in> set inp. chunk_ok r" "unframe inp = framed ls" "\<forall>l \<in> set ls. NL \<notin> set l \<and> length l \<le> MAX_LINE_LENGTH"
  shows "take (length ls) (read_lines [] inp) = map strip_cr ls"
  by (rule read_lines_framed) (use assms in simp_all)

theorem lines_survive_chunking_witness:
  "take 2 (read_lines [] [Data ''LO'', Data (''OK'' @ [CR, NL] @ ''W''), Data (''HO'' @ [NL])]) = [''LOOK'', ''WHO'']"
  using lines_survive_chunking[of "[Data ''LO'', Data (''OK'' @ [CR, NL] @ ''W''), Data (''HO'' @ [NL])]" "[''LOOK'' @ [CR], ''WHO'']"]
  by (simp add: chunk_ok_def unframe_def framed_def strip_cr_def RECV_CHUNK_def MAX_LINE_LENGTH_def numeral_2_eq_2)

text \<open>C27: A peer cannot make the receive buffer grow: whatever it sends, the buffer stays within
  8192 + 4096 bytes.\<close>

theorem receive_buffer_bounded:
  assumes "\<forall>d. Data d \<in> set inp \<longrightarrow> length d \<le> RECV_CHUNK" "length buf \<le> 12288" "read_loop buf inp = (out, buf', rest)"
  shows "length buf' \<le> 12288"
  using read_loop_bounded[OF assms(1) _ assms(3)] assms(2) by (simp add: MAX_LINE_LENGTH_def RECV_CHUNK_def)

theorem receive_buffer_bounded_witness:
  "length (fst (snd (read_loop ''LO'' [Data (''OK'' @ [NL] @ ''WHO'')]))) \<le> 12288"
  using receive_buffer_bounded[of "[Data (''OK'' @ [NL] @ ''WHO'')]" "''LO''"]
  by (cases "read_loop ''LO'' [Data (''OK'' @ [NL] @ ''WHO'')]") (simp add: RECV_CHUNK_def)

text \<open>Whatever the kernel answers, the bytes handed over are a prefix of the line, all of it when a
  positive count is returned; and when no call fails and enough is accepted in the end, the whole line is sent.\<close>

theorem send_all_delivers:
  assumes "\<forall>r \<in> set rs. \<forall>e. r = Failed e \<longrightarrow> e < 0"
  shows "(\<forall>out code. send_all data 0 rs = Some (out, code) \<longrightarrow> out = take (length out) data \<and> (0 < code \<longrightarrow> out = data)) \<and>
    ((\<forall>r \<in> set rs. r = Interrupted \<or> (\<exists>n > 0. r = Sent n)) \<and> length data \<le> accepted rs \<longrightarrow>
      send_all data 0 rs = Some (data, int (length data)))"
proof -
  have "\<forall>e. Failed e \<in> set rs \<longrightarrow> e < 0" using assms by blast
  then show ?thesis using send_all_prefix[of data 0 rs] send_all_complete[of data 0 rs] by auto
qed

theorem send_all_delivers_witness: "send_all ''OK bye'' 0 [Sent 2, Interrupted, Sent 4] = Some (''OK bye'', 6)"
  using send_all_delivers[of "[Sent 2, Interrupted, Sent 4]" "''OK bye''"] by (simp add: accepted_def)

text \<open>Every log record is printed as one line that reads back as one JSON object with the record's
  fields, whatever text (quotes, backslashes, line ends) a client managed to get logged.\<close>

theorem log_line_is_json:
  assumes "clean ts" "clean level"
  shows "\<exists>body. log_line ts (level, event, flds) = body @ [NL] \<and> NL \<notin> set body \<and>
    parse_json body = Inr (denote (DObj ([(''ts'', DStr (c_str ts)), (''level'', DStr level), (''event'', DStr (c_str event))]
      @ map (\<lambda>(k, v). (c_str k, DStr (c_str v))) flds)))"
  using log_line_render[OF assms] render_one_line parse_json_render by blast

theorem log_line_is_json_witness:
  "\<exists>body. log_line ''2026'' (''INFO'', ''chat'', [(''player'', [DQ, NL, BS])]) = body @ [NL] \<and> NL \<notin> set body \<and>
     parse_json body = Inr (denote (DObj [(''ts'', DStr ''2026''), (''level'', DStr ''INFO''), (''event'', DStr ''chat''),
       (''player'', DStr [DQ, NL, BS])]))"
  using log_line_is_json[of "''2026''" "''INFO''" "''chat''" "[(''player'', [DQ, NL, BS])]"]
  by (simp add: clean_def c_str_def)

subsection \<open>Tokens and references\<close>

text \<open>Splitting a line at white space recovers the words it was joined from, and every token is a
  non-empty word without white space.\<close>

theorem split_join_words:
  "((\<forall>t \<in> set ts. word_ok t) \<longrightarrow> split_ws (join_from ts 0) = ts) \<and> (\<forall>t \<in> set (split_ws s). word_ok t)"
  using split_join[of ts] split_ws_words by (auto simp: join_from_def)

theorem split_join_words_witness: "split_ws (join_from [''USE'', ''bomb'', ''rat''] 0) = [''USE'', ''bomb'', ''rat'']"
  using split_join_words[of "[''USE'', ''bomb'', ''rat'']"] by (simp add: word_ok_def char_class_defs)

text \<open>A reference resolves to the candidate with that exact id; else to a candidate whose display name
  is the reference up to case; and to nothing exactly when there is neither.\<close>

theorem references_resolve:
  assumes "[] \<notin> set cs"
  shows "(ref \<in> set cs \<longrightarrow> resolve_item_ref_locked w cs ref = ref) \<and>
    (ref \<notin> set cs \<and> (\<exists>c \<in> set cs. item_named w ref c) \<longrightarrow>
       resolve_item_ref_locked w cs ref \<in> set cs \<and> item_named w ref (resolve_item_ref_locked w cs ref)) \<and>
    (resolve_item_ref_locked w cs ref = [] \<longleftrightarrow> ref \<notin> set cs \<and> (\<forall>c \<in> set cs. \<not> item_named w ref c))"
  using item_ref.exact[of ref cs w] item_ref.by_name[of ref cs _ w] item_ref.resolve_none[OF assms, of w ref] by blast

theorem references_resolve_witness: "resolve_item_ref_locked sample_world [''lamp'', ''bomb''] ''bomb'' = ''bomb''"
  using references_resolve[of "[''lamp'', ''bomb'']" "''bomb''" sample_world] by simp

subsection \<open>The flood counter\<close>

text \<open>The reports of one session that sends its commands at the given times.\<close>

fun flood_flags :: "int list \<Rightarrow> nat \<Rightarrow> server \<Rightarrow> bool list" where
  "flood_flags [] sid sv = []"
| "flood_flags (t # ts) sid sv = (case record_and_check_flood t sid sv of (flag, sv') \<Rightarrow> flag # flood_flags ts sid sv')"

lemma slide_window_filter:
  assumes "sorted ts" "\<forall>t \<in> set ts. t \<le> now" "0 \<le> win"
  shows "slide_window win now ts = filter (\<lambda>t. now - t \<le> win) (ts @ [now])"
proof -
  have "dropWhile (\<lambda>t. now - t > win) (ts @ [now]) = filter (\<lambda>t. now - t \<le> win) (ts @ [now])" if "sorted (ts @ [now])" for ts
    using that
  proof (induction ts)
    case (Cons t ts)
    show ?case
    proof (cases "now - t > win")
      case False
      then have "\<forall>u \<in> set ts. now - u \<le> win" using Cons.prems by auto
      then show ?thesis using False assms(3) by (simp add: filter_id_conv)
    qed (use Cons in simp)
  qed (use assms(3) in simp)
  then show ?thesis using assms(1,2) by (simp add: slide_window_def sorted_append)
qed

lemma flood_flags_from:
  assumes "sorted (old @ ts)" "timestamps (sess sv sid) = filter (\<lambda>t. last old - t \<le> COMMAND_FLOOD_WINDOW) old \<or> old = [] \<and> timestamps (sess sv sid) = []"
  shows "length (flood_flags ts sid sv) = length ts \<and> (\<forall>k < length ts. flood_flags ts sid sv ! k =
    (length (filter (\<lambda>t. ts ! k - t \<le> COMMAND_FLOOD_WINDOW) (old @ take (Suc k) ts)) > COMMAND_FLOOD_THRESHOLD))"
  using assms
proof (induction ts arbitrary: old sv)
  case (Cons t ts)
  let ?W = COMMAND_FLOOD_WINDOW
  let ?old = "filter (\<lambda>u. last old - u \<le> ?W) old"
  have ts: "timestamps (sess sv sid) = ?old" using Cons.prems(2) by auto
  have le: "\<forall>u \<in> set old. u \<le> t" "sorted old" using Cons.prems(1) by (auto simp: sorted_append)
  have "slide_window ?W t ?old = filter (\<lambda>u. t - u \<le> ?W) (?old @ [t])"
    by (rule slide_window_filter) (use le in \<open>auto simp: COMMAND_FLOOD_WINDOW_def sorted_filter[of id, simplified]\<close>)
  also have "\<dots> = filter (\<lambda>u. t - u \<le> ?W) (old @ [t])"
  proof -
    have "last old \<le> t" if "old \<noteq> []" using le that by simp
    then have "filter (\<lambda>u. t - u \<le> ?W) ?old = filter (\<lambda>u. t - u \<le> ?W) old"
      by (cases "old = []") (auto simp: filter_filter intro!: filter_cong)
    then show ?thesis by simp
  qed
  finally have sl: "slide_window ?W t ?old = filter (\<lambda>u. t - u \<le> ?W) (old @ [t])" .
  obtain flag sv' where r: "record_and_check_flood t sid sv = (flag, sv')" by (cases "record_and_check_flood t sid sv")
  have flag: "flag = (length (filter (\<lambda>u. t - u \<le> ?W) (old @ [t])) > COMMAND_FLOOD_THRESHOLD)"
    and st: "timestamps (sess sv' sid) = filter (\<lambda>u. t - u \<le> ?W) (old @ [t])"
    using r unfolding record_and_check_flood_def Let_def ts sl by auto
  have "sorted ((old @ [t]) @ ts)" using Cons.prems(1) by simp
  from Cons.IH[OF this, of sv'] st
  have ih: "length (flood_flags ts sid sv') = length ts" "\<forall>k < length ts. flood_flags ts sid sv' ! k =
    (length (filter (\<lambda>u. ts ! k - u \<le> ?W) ((old @ [t]) @ take (Suc k) ts)) > COMMAND_FLOOD_THRESHOLD)" by simp_all
  show ?case
  proof (intro conjI allI impI)
    show "length (flood_flags (t # ts) sid sv) = length (t # ts)" using ih(1) by (simp add: r)
    fix k assume k: "k < length (t # ts)"
    show "flood_flags (t # ts) sid sv ! k =
      (length (filter (\<lambda>u. (t # ts) ! k - u \<le> ?W) (old @ take (Suc k) (t # ts))) > COMMAND_FLOOD_THRESHOLD)"
      using ih(2) k by (cases k) (simp_all add: r flag)
  qed
qed simp

text \<open>C29: The sliding window is exact: with a clock that does not run backwards, the \<open>k\<close>-th command of a
  session is reported as flooding exactly when more than ten commands, itself included, came within
  the last second.\<close>

theorem flood_counter_exact:
  assumes "sorted ts" "timestamps (sess sv sid) = []" "k < length ts"
  shows "flood_flags ts sid sv ! k = (length (filter (\<lambda>t. ts ! k - t \<le> 1000000000) (take (Suc k) ts)) > 10)"
  using flood_flags_from[of "[]" ts sv sid] assms by (simp add: COMMAND_FLOOD_WINDOW_def COMMAND_FLOOD_THRESHOLD_def)

theorem flood_counter_exact_witness:
  "flood_flags (replicate 11 5) 2 sample_server ! 10 \<and> \<not> flood_flags (replicate 11 5) 2 sample_server ! 9"
  using flood_counter_exact[of "replicate 11 5" sample_server 2 10] flood_counter_exact[of "replicate 11 5" sample_server 2 9]
  by (simp add: sample_server_def fresh_session_def boot_def)

subsection \<open>Racing logins\<close>

text \<open>C3: However the critical sections of CONNECT, CREATE_CHARACTER and the disconnects of many
  connections interleave, no two sessions play the same character at once, and a character that is
  played is in the world.\<close>

theorem one_session_per_character:
  assumes "ireach c0 c" "conc_ok c0" "owns c a name" "owns c b name"
  shows "a = b \<and> count_key (players (sv_world (srv c))) name"
  using ireach_ok[OF assms(1,2)] assms(3,4) unfolding conc_ok_def by blast

definition sample_conc :: conc where
  "sample_conc = \<lparr>srv = sample_server, phase_of = (\<lambda>_. Idle)\<rparr>"

lemma sample_conc_ok: "conc_ok sample_conc"
  by (simp add: conc_ok_def phase_ok_def owns_def sample_conc_def)

lemma sample_create:
  obtains p sv where "reserve_new 2 ''carol'' [] [] sample_server = Some (p, sv)"
    "istep sample_conc (goto 2 (Reserved ''carol'' p) sv sample_conc)" "pid_of sv 2 = ''carol''"
proof -
  obtain p sv where r: "reserve_new 2 ''carol'' [] [] sample_server = Some (p, sv)"
    by (simp add: reserve_new_def exists_file_def Let_def)
  then have "pid_of sv 2 = ''carol''" by (auto simp: reserve_new_def login_session_def pid_of_def Let_def split: if_splits)
  moreover have "is_valid_name ''carol''" by (simp add: is_valid_name_def char_class_defs)
  then have "istep sample_conc (goto 2 (Reserved ''carol'' p) sv sample_conc)"
    using r by (intro create_reserve) (simp_all add: sample_conc_def)
  ultimately show ?thesis using r that by blast
qed

theorem one_session_per_character_witness:
  "\<exists>c. ireach sample_conc c \<and> owns c 2 ''carol'' \<and> count_key (players (sv_world (srv c))) ''carol''"
proof -
  obtain p sv where s: "istep sample_conc (goto 2 (Reserved ''carol'' p) sv sample_conc)" "pid_of sv 2 = ''carol''"
    using sample_create by blast
  let ?c = "goto 2 (Reserved ''carol'' p) sv sample_conc"
  have r: "ireach sample_conc ?c" using s(1) by (meson istart imore)
  have o: "owns ?c 2 ''carol''" using s(2) by (simp add: owns_def)
  from one_session_per_character[OF r sample_conc_ok o o] r o show ?thesis by blast
qed

text \<open>C30: A defect of the disconnect: a player who reconnects after the old connection left the world but
  before it left the registry ends up online in a session the registry does not know: the late removal
  erases the new entry, by which broadcasts find the session.\<close>

theorem reconnect_can_lose_registration:
  assumes "phase_of c a = Idle" "pid_of (srv c) a = name" "phase_of c b = Idle" "pid_of (srv c) b = []" "is_valid_name name"
    and "map_of (players (sv_world (srv c))) name = Some p" "storable p" "player_id p = name" "disk (srv c) = []"
  shows "\<exists>c'. ireach c c' \<and> phase_of c' b = Idle \<and> owns c' b name \<and> count_key (players (sv_world (srv c'))) name \<and>
    registry_get (srv c') name = None"
  by (rule reconnect_unregisters[OF assms])

theorem reconnect_can_lose_registration_witness:
  "\<exists>c'. ireach sample_conc c' \<and> owns c' 2 ''alice'' \<and> registry_get (srv c') ''alice'' = None"
proof -
  have "is_valid_name ''alice''" by (simp add: is_valid_name_def char_class_defs)
  with alice_storable show ?thesis
    using reconnect_can_lose_registration[of sample_conc 1 "''alice''" 2 alice]
    by (simp add: sample_conc_def) (auto simp: alice_def default_player_def)
qed

end
