(* ===== verification/MessageTypes.thy ===== *)
theory MessageTypes
  imports JsonRoundtrip "HOL-Library.Word"
begin

text \<open>
  The vocabulary of the wire protocol on the client side
  (\<open>client/shared/include/MessageTypes.hpp\<close>, \<open>source/MessageTypes.cpp\<close>) and the client's own errors
  (\<open>Exceptions.hpp\<close>, \<open>Exceptions.cpp\<close>).  Each of the three enumerations comes with a table of names in
  declaration order; \<open>static_cast<size_t>\<close> of an enumerator is its position.  The enumerators carry the
  prefixes \<open>C_\<close>, \<open>V_\<close> and \<open>E_\<close> (\<open>X_\<close> for \<open>ErrorCode\<close>), since several names occur in two of them.
\<close>

named_theorems client_simps \<open>unfolding rules of the client's small definitions\<close>

subsection \<open>A table of names\<close>

definition position :: "'a list \<Rightarrow> 'a \<Rightarrow> nat" where
  "position xs x = length (takeWhile (\<lambda>y. y \<noteq> x) xs)"

lemma position_less: "x \<in> set xs \<Longrightarrow> position xs x < length xs"
  unfolding position_def by (induction xs) auto

lemma nth_position [simp]: "x \<in> set xs \<Longrightarrow> xs ! position xs x = x"
  unfolding position_def by (induction xs) auto

lemma position_nth: "distinct xs \<Longrightarrow> i < length xs \<Longrightarrow> position xs (xs ! i) = i"
  by (metis nth_eq_iff_index_eq nth_mem nth_position position_less)

text \<open>The interface of the three tables: as many names as enumerators, both without repetition.\<close>

locale name_table =
  fixes vals :: "'e list" and names :: "string list"
  assumes every: "e \<in> set vals" and vals_distinct: "distinct vals"
    and names_distinct: "distinct names" and same_length: "length names = length vals"
begin

definition name_of :: "'e \<Rightarrow> string" where
  "name_of e = names ! position vals e"

definition of_name :: "string \<Rightarrow> 'e" where
  "of_name s = vals ! position names s"

lemma position_bound: "position vals e < length names"
  using position_less[OF every] same_length by simp

lemma name_of_mem: "name_of e \<in> set names"
  unfolding name_of_def using position_bound by simp

lemma of_name_of: "of_name (name_of e) = e"
  unfolding of_name_def name_of_def
  using names_distinct position_bound every by (simp add: position_nth)

lemma name_of_name: "s \<in> set names \<Longrightarrow> name_of (of_name s) = s"
  unfolding of_name_def name_of_def
  using vals_distinct position_less[of s names] same_length by (simp add: position_nth)

lemma name_inj: "name_of e = name_of e' \<Longrightarrow> e = e'"
  by (metis of_name_of)

end

subsection \<open>Commands\<close>

datatype CommandType = C_CONNECT | C_LOOK | C_MOVE | C_WHO | C_TAKE | C_DROP | C_INVENTORY | C_TALK
  | C_ATTACK | C_STATUS | C_QUEST | C_QUESTS | C_QUIT | C_GROUP_CREATE | C_GROUP_INVITE | C_GROUP_JOIN
  | C_GROUP_LEAVE | C_GROUP_CHAT | C_ROOM_CHAT | C_GLOBAL_CHAT | C_USE | C_WAIT_HANDSHAKE
  | C_CREATE_PLAYER | C_PROFILE

definition command_types :: "CommandType list" where
  "command_types = [C_CONNECT, C_LOOK, C_MOVE, C_WHO, C_TAKE, C_DROP, C_INVENTORY, C_TALK, C_ATTACK,
     C_STATUS, C_QUEST, C_QUESTS, C_QUIT, C_GROUP_CREATE, C_GROUP_INVITE, C_GROUP_JOIN, C_GROUP_LEAVE,
     C_GROUP_CHAT, C_ROOM_CHAT, C_GLOBAL_CHAT, C_USE, C_WAIT_HANDSHAKE, C_CREATE_PLAYER, C_PROFILE]"

definition commands :: "string list" where
  "commands = [''CONNECT'', ''LOOK'', ''MOVE'', ''WHO'', ''TAKE'', ''DROP'', ''INVENTORY'', ''TALK'',
     ''ATTACK'', ''STATUS'', ''QUEST'', ''QUESTS'', ''QUIT'', ''GROUP CREATE'', ''GROUP INVITE'',
     ''GROUP JOIN'', ''GROUP LEAVE'', ''CHAT GROUP'', ''CHAT ROOM'', ''CHAT GLOBAL'', ''USE'',
     ''WAIT HANDSHAKE'', ''CREATE PLAYER'', ''PROFILE'']"

definition command_name :: "CommandType \<Rightarrow> string" where
  "command_name cmd = commands ! position command_types cmd"

text \<open>\<open>getCommand\<close> asserts that the name exists: no result otherwise.\<close>

definition commandExists :: "string \<Rightarrow> bool" where
  "commandExists cmd = (cmd \<in> set commands)"

definition getCommand :: "string \<Rightarrow> CommandType option" where
  "getCommand cmd = (let i = position commands cmd in
     if i = length commands then None else Some (command_types ! i))"

definition commandsWithArgs :: "CommandType list" where
  "commandsWithArgs = [C_CONNECT, C_MOVE, C_TAKE, C_DROP, C_TALK, C_ATTACK, C_QUEST, C_GROUP_CREATE,
     C_GROUP_INVITE, C_GROUP_JOIN, C_GROUP_CHAT, C_ROOM_CHAT, C_GLOBAL_CHAT, C_USE]"

definition commandHasArgs :: "CommandType \<Rightarrow> bool" where
  "commandHasArgs t = (t \<in> set commandsWithArgs)"

interpretation cmds: name_table command_types commands
proof unfold_locales
  show "e \<in> set command_types" for e by (cases e) (simp_all add: command_types_def)
qed (simp_all add: command_types_def commands_def)

subsection \<open>Events\<close>

datatype EventType = V_PRESENCE_ENTER | V_PRESENCE_LEAVE | V_ROOM_CHAT | V_GROUP_CHAT | V_GLOBAL_CHAT
  | V_GROUP_JOIN | V_GROUP_LEAVE | V_GROUP_INVITE | V_STATS | V_ROOM_COMBAT | V_ROOM_COMBAT_DEATH_NPC
  | V_ROOM_COMBAT_DEATH_PLAYER | V_ROOM_ITEM_USE | V_ROOM_QUEST_COMPLETE

definition event_types :: "EventType list" where
  "event_types = [V_PRESENCE_ENTER, V_PRESENCE_LEAVE, V_ROOM_CHAT, V_GROUP_CHAT, V_GLOBAL_CHAT,
     V_GROUP_JOIN, V_GROUP_LEAVE, V_GROUP_INVITE, V_STATS, V_ROOM_COMBAT, V_ROOM_COMBAT_DEATH_NPC,
     V_ROOM_COMBAT_DEATH_PLAYER, V_ROOM_ITEM_USE, V_ROOM_QUEST_COMPLETE]"

definition events :: "string list" where
  "events = [''ROOM PRESENCE_ENTER'', ''ROOM PRESENCE_LEAVE'', ''ROOM CHAT'', ''GROUP CHAT'',
     ''GLOBAL CHAT'', ''GROUP JOIN'', ''GROUP LEAVE'', ''GROUP INVITE'', ''STATS'', ''ROOM COMBAT'',
     ''ROOM COMBAT_DEATH_NPC'', ''ROOM COMBAT_DEATH_PLAYER'', ''ROOM ITEM_USE'', ''ROOM QUEST_COMPLETE'']"

definition event_name :: "EventType \<Rightarrow> string" where
  "event_name e = events ! position event_types e"

definition eventExists :: "string \<Rightarrow> bool" where
  "eventExists event = (event \<in> set events)"

definition getEvent :: "string \<Rightarrow> EventType option" where
  "getEvent event = (let i = position events event in
     if i = length events then None else Some (event_types ! i))"

interpretation evts: name_table event_types events
proof unfold_locales
  show "e \<in> set event_types" for e by (cases e) (simp_all add: event_types_def)
qed (simp_all add: event_types_def events_def)

subsection \<open>Errors of the protocol\<close>

datatype ErrorType = E_NOT_CONNECTED | E_BAD_MESSAGE | E_NAME_IN_USE | E_NO_EXIT | E_NOT_IN_GROUP
  | E_ALREADY_IN_GROUP | E_ITEM_NOT_FOUND | E_ITEM_NOT_IN_INVENTORY | E_NPC_NOT_FOUND
  | E_QUEST_NOT_FOUND | E_CHARACTER_NOT_FOUND | E_NPC_NOT_HOSTILE | E_NO_QUEST_AVAILABLE | E_DEAD
  | E_INTERNAL | E_CONNECTION_FAILED | E_SEND_FAILED

definition error_types :: "ErrorType list" where
  "error_types = [E_NOT_CONNECTED, E_BAD_MESSAGE, E_NAME_IN_USE, E_NO_EXIT, E_NOT_IN_GROUP,
     E_ALREADY_IN_GROUP, E_ITEM_NOT_FOUND, E_ITEM_NOT_IN_INVENTORY, E_NPC_NOT_FOUND, E_QUEST_NOT_FOUND,
     E_CHARACTER_NOT_FOUND, E_NPC_NOT_HOSTILE, E_NO_QUEST_AVAILABLE, E_DEAD, E_INTERNAL,
     E_CONNECTION_FAILED, E_SEND_FAILED]"

definition errors :: "string list" where
  "errors = [''NOT_CONNECTED'', ''BAD_MESSAGE'', ''NAME_IN_USE'', ''NO_EXIT'', ''NOT_IN_GROUP'',
     ''ALREADY_IN_GROUP'', ''ITEM_NOT_FOUND'', ''ITEM_NOT_IN_INVENTORY'', ''NPC_NOT_FOUND'',
     ''QUEST_NOT_FOUND'', ''CHARACTER_NOT_FOUND'', ''NPC_NOT_HOSTILE'', ''NO_QUEST_AVAILABLE'', ''DEAD'',
     ''INTERNAL'', ''CONNECTION_FAILED'', ''SEND_FAILED'']"

definition error_name :: "ErrorType \<Rightarrow> string" where
  "error_name e = errors ! position error_types e"

definition errorExists :: "string \<Rightarrow> bool" where
  "errorExists e = (e \<in> set errors)"

definition getError :: "string \<Rightarrow> ErrorType option" where
  "getError e = (let i = position errors e in
     if i = length errors then None else Some (error_types ! i))"

fun getErrorCode :: "ErrorType \<Rightarrow> 32 word" where
  "getErrorCode E_NOT_CONNECTED = 102"
| "getErrorCode E_BAD_MESSAGE = 200"
| "getErrorCode E_NAME_IN_USE = 201"
| "getErrorCode E_NO_EXIT = 301"
| "getErrorCode E_NOT_IN_GROUP = 401"
| "getErrorCode E_ALREADY_IN_GROUP = 402"
| "getErrorCode E_ITEM_NOT_FOUND = 404"
| "getErrorCode E_ITEM_NOT_IN_INVENTORY = 404"
| "getErrorCode E_NPC_NOT_FOUND = 404"
| "getErrorCode E_QUEST_NOT_FOUND = 404"
| "getErrorCode E_CHARACTER_NOT_FOUND = 404"
| "getErrorCode E_NPC_NOT_HOSTILE = 405"
| "getErrorCode E_NO_QUEST_AVAILABLE = 406"
| "getErrorCode E_DEAD = 409"
| "getErrorCode E_INTERNAL = 500"
| "getErrorCode E_CONNECTION_FAILED = 900"
| "getErrorCode E_SEND_FAILED = 901"

interpretation errs: name_table error_types errors
proof unfold_locales
  show "e \<in> set error_types" for e by (cases e) (simp_all add: error_types_def)
qed (simp_all add: error_types_def errors_def)

subsection \<open>The model's functions are those of the tables\<close>

lemma position_eq_length: "position xs x = length xs \<longleftrightarrow> x \<notin> set xs"
  unfolding position_def by (induction xs) auto

lemma command_name_eq: "command_name = cmds.name_of"
  by (rule ext) (simp add: command_name_def cmds.name_of_def)

lemma event_name_eq: "event_name = evts.name_of"
  by (rule ext) (simp add: event_name_def evts.name_of_def)

lemma error_name_eq: "error_name = errs.name_of"
  by (rule ext) (simp add: error_name_def errs.name_of_def)

lemma getCommand_iff: "getCommand s = Some c \<longleftrightarrow> s \<in> set commands \<and> c = cmds.of_name s"
  by (auto simp: getCommand_def cmds.of_name_def Let_def position_eq_length)

lemma getEvent_iff: "getEvent s = Some c \<longleftrightarrow> s \<in> set events \<and> c = evts.of_name s"
  by (auto simp: getEvent_def evts.of_name_def Let_def position_eq_length)

lemma getError_iff: "getError s = Some c \<longleftrightarrow> s \<in> set errors \<and> c = errs.of_name s"
  by (auto simp: getError_def errs.of_name_def Let_def position_eq_length)

lemma getCommand_name [simp]: "getCommand (command_name c) = Some c"
  by (simp add: getCommand_iff command_name_eq cmds.name_of_mem cmds.of_name_of)

lemma getEvent_name [simp]: "getEvent (event_name c) = Some c"
  by (simp add: getEvent_iff event_name_eq evts.name_of_mem evts.of_name_of)

lemma getError_name [simp]: "getError (error_name c) = Some c"
  by (simp add: getError_iff error_name_eq errs.name_of_mem errs.of_name_of)

lemma exists_name [simp]: "commandExists (command_name c)" "eventExists (event_name v)"
  "errorExists (error_name e)"
  by (simp_all add: commandExists_def eventExists_def errorExists_def command_name_eq event_name_eq
      error_name_eq cmds.name_of_mem evts.name_of_mem errs.name_of_mem)

lemma command_of_name: "commandExists s \<Longrightarrow> \<exists>c. getCommand s = Some c \<and> command_name c = s"
  by (simp add: commandExists_def getCommand_iff command_name_eq cmds.name_of_name)

lemma event_of_name: "eventExists s \<Longrightarrow> \<exists>c. getEvent s = Some c \<and> event_name c = s"
  by (simp add: eventExists_def getEvent_iff event_name_eq evts.name_of_name)

lemma error_of_name: "errorExists s \<Longrightarrow> \<exists>c. getError s = Some c \<and> error_name c = s"
  by (simp add: errorExists_def getError_iff error_name_eq errs.name_of_name)

subsection \<open>Exceptions of the client\<close>

datatype ErrorCode = X_FILE_NOT_FOUND | X_BAD_FORMAT_ARGS | X_CLIENT_DISCONNECTED
  | X_SERVER_DISCONNECTED | X_SERVER_CONN_FAILED | X_SERVER_ERROR | X_BAD_MESSAGE | X_IO_READ_FAILED
  | X_IO_WRITE_FAILED | X_IO_READ_NONB_FAILED | X_IO_WRITE_NONB_FAILED | X_IO_POLL_FAILED
  | X_IO_PIPE_FAILED | X_IO_PIPE_CREATE_FAILED | X_IO_SOCK_CREATE_FAILED | X_IO_SIG_SOCK_CREATE_FAILED
  | X_UI_INVALID_SIZE | X_UI_HANDSHAKE_NOT_DONE | X_UI_USERNAME_NOT_EXISTS | X_UI_USERNAME_IN_USE
  | X_UI_FAILED_GET_TERM_SIZE | X_UI_DOUBLE_ERROR

record ErrorData =
  err_code :: ErrorCode
  err_info :: string

text \<open>
  How a function of the client can fail: an \<open>AppException\<close>, or \<open>Crash\<close> where a failed assertion or
  an access outside an array leaves the C++ program without a defined behaviour.
\<close>

datatype failure = Throw ErrorData | Crash

type_synonym 'a outcome = "failure + 'a"

abbreviation throw :: "ErrorCode \<Rightarrow> string \<Rightarrow> 'a outcome" where
  "throw c i \<equiv> Inl (Throw \<lparr>err_code = c, err_info = i\<rparr>)"

definition mapError :: "ErrorData \<Rightarrow> string" where
  "mapError error = (let info = err_info error in case err_code error of
     X_FILE_NOT_FOUND \<Rightarrow> ''Path '' @ [APOS] @ info @ [APOS] @ '' not found''
   | X_BAD_FORMAT_ARGS \<Rightarrow> ''Invalid arg format: '' @ info
   | X_CLIENT_DISCONNECTED \<Rightarrow> ''Client HTTP disconnected''
   | X_SERVER_DISCONNECTED \<Rightarrow> ''Server disconnected''
   | X_SERVER_CONN_FAILED \<Rightarrow> ''Connection to server failed: '' @ info
   | X_SERVER_ERROR \<Rightarrow> ''Server error: '' @ info
   | X_BAD_MESSAGE \<Rightarrow> ''Bad format message: '' @ info
   | X_IO_READ_FAILED \<Rightarrow> ''Read error: '' @ info
   | X_IO_WRITE_FAILED \<Rightarrow> ''Write error: '' @ info
   | X_IO_READ_NONB_FAILED \<Rightarrow> ''Recv error: '' @ info
   | X_IO_WRITE_NONB_FAILED \<Rightarrow> ''Send error: '' @ info
   | X_IO_POLL_FAILED \<Rightarrow> ''Poll error: '' @ info
   | X_IO_PIPE_FAILED \<Rightarrow> ''Piping data failed: '' @ info
   | X_IO_PIPE_CREATE_FAILED \<Rightarrow> ''Failed to create pipe: '' @ info
   | X_IO_SOCK_CREATE_FAILED \<Rightarrow> ''Failed to create socket: '' @ info
   | X_IO_SIG_SOCK_CREATE_FAILED \<Rightarrow> ''Failed to create signal redirected fd: '' @ info
   | X_UI_INVALID_SIZE \<Rightarrow> ''UI widget couldn'' @ [APOS] @ ''t be drawn (newinw() failed): '' @ info
   | X_UI_HANDSHAKE_NOT_DONE \<Rightarrow> ''No handshake received before performing action''
   | X_UI_USERNAME_NOT_EXISTS \<Rightarrow> ''Username doesn'' @ [APOS] @ ''t exist''
   | X_UI_USERNAME_IN_USE \<Rightarrow> ''Username already in use''
   | X_UI_FAILED_GET_TERM_SIZE \<Rightarrow> ''Couldn'' @ [APOS] @ ''t get terminal size''
   | X_UI_DOUBLE_ERROR \<Rightarrow> ''Got error: '' @ [APOS] @ info @ [APOS] @ '' while handling one already'')"

end
