(* ===== verification/IoUtils.thy ===== *)
theory IoUtils
  imports MessageTypes
begin

text \<open>
  The I/O helpers of the client (\<open>client/shared/source/Utils.cpp\<close>).  What a system call returns is input
  of the model: a list with the results of the calls of one loop.  A list that ends stands for a call
  that would block.  \<open>Recvd []\<close> is a return of 0, the end of the stream.
\<close>

datatype recv_out = Recvd string | RWouldBlock | RInterrupted | RFailed string

datatype send_out = Accepted nat | SWouldBlock | SInterrupted | SPipe | SFailed string

definition strerror_EAGAIN :: string where "strerror_EAGAIN = ''Resource temporarily unavailable''"
definition strerror_EINTR :: string where "strerror_EINTR = ''Interrupted system call''"
definition strerror_EPIPE :: string where "strerror_EPIPE = ''Broken pipe''"

text \<open>A send of a non-empty buffer takes at least one byte and at most all of them.\<close>

definition accept_bytes :: "nat \<Rightarrow> nat \<Rightarrow> nat" where
  "accept_bytes left n = min left (max 1 n)"

lemma accept_bytes_bounds: "0 < left \<Longrightarrow> 0 < accept_bytes left n \<and> accept_bytes left n \<le> left"
  by (simp add: accept_bytes_def)

subsection \<open>poll, read and write\<close>

datatype poll_out = Ready nat | PollInterrupted | PollFailed string

definition poll :: "poll_out \<Rightarrow> nat outcome" where
  "poll r = (case r of Ready n \<Rightarrow> Inr n | PollInterrupted \<Rightarrow> Inr 0 | PollFailed e \<Rightarrow> throw X_IO_POLL_FAILED e)"

text \<open>The loops of \<open>read\<close> and \<open>write\<close> leave after the first call, whatever it returned.\<close>

definition read_fd :: "nat \<Rightarrow> recv_out \<Rightarrow> string outcome" where
  "read_fd room out = (if room = 0 then Inr [] else case out of
     Recvd bs \<Rightarrow> Inr (take room bs)
   | RWouldBlock \<Rightarrow> throw X_IO_READ_FAILED strerror_EAGAIN
   | RInterrupted \<Rightarrow> throw X_IO_READ_FAILED strerror_EINTR
   | RFailed e \<Rightarrow> throw X_IO_READ_FAILED e)"

definition write_fd :: "string \<Rightarrow> send_out \<Rightarrow> nat outcome" where
  "write_fd buffer out = (if buffer = [] then Inr 0 else case out of
     Accepted n \<Rightarrow> Inr (accept_bytes (length buffer) n)
   | SWouldBlock \<Rightarrow> throw X_IO_WRITE_FAILED strerror_EAGAIN
   | SInterrupted \<Rightarrow> throw X_IO_WRITE_FAILED strerror_EINTR
   | SPipe \<Rightarrow> throw X_IO_WRITE_FAILED strerror_EPIPE
   | SFailed e \<Rightarrow> throw X_IO_WRITE_FAILED e)"

subsection \<open>The non-blocking loops\<close>

text \<open>The result \<open>None\<close> is the return value \<open>-1\<close>; \<open>Some bs\<close> the bytes put into the buffer.\<close>

fun read_more :: "nat \<Rightarrow> string \<Rightarrow> recv_out list \<Rightarrow> string option outcome" where
  "read_more room got [] = Inr (Some got)"
| "read_more room got (Recvd bs # r) =
     (if bs = [] then Inr None
      else let got' = got @ take (room - length got) bs in
        if length got' = room then Inr (Some got') else read_more room got' r)"
| "read_more room got (RWouldBlock # r) = Inr (Some got)"
| "read_more room got (RInterrupted # r) = read_more room got r"
| "read_more room got (RFailed e # r) = throw X_IO_READ_NONB_FAILED e"

definition readNonBlock :: "nat \<Rightarrow> recv_out list \<Rightarrow> string option outcome" where
  "readNonBlock room outs = (if room = 0 then Inr (Some []) else read_more room [] outs)"

fun write_more :: "nat \<Rightarrow> nat \<Rightarrow> send_out list \<Rightarrow> nat option outcome" where
  "write_more room offset [] = Inr (Some offset)"
| "write_more room offset (Accepted n # r) =
     (let offset' = offset + accept_bytes (room - offset) n in
      if offset' = room then Inr (Some offset') else write_more room offset' r)"
| "write_more room offset (SPipe # r) = Inr None"
| "write_more room offset (SWouldBlock # r) = Inr (Some offset)"
| "write_more room offset (SInterrupted # r) = write_more room offset r"
| "write_more room offset (SFailed e # r) = throw X_IO_WRITE_NONB_FAILED e"

definition writeNonBlock :: "string \<Rightarrow> send_out list \<Rightarrow> nat option outcome" where
  "writeNonBlock buffer outs = (if buffer = [] then Inr (Some 0) else write_more (length buffer) 0 outs)"

lemma read_more_bounds:
  "read_more room got outs = Inr (Some bs) \<Longrightarrow> length got \<le> room \<Longrightarrow> length bs \<le> room"
  by (induction room got outs rule: read_more.induct) (auto simp: Let_def split: if_splits)

lemma readNonBlock_bounds: "readNonBlock room outs = Inr (Some bs) \<Longrightarrow> length bs \<le> room"
  by (auto simp: readNonBlock_def split: if_splits dest: read_more_bounds)

lemma write_more_bounds:
  "write_more room k outs = Inr (Some n) \<Longrightarrow> k \<le> room \<Longrightarrow> k \<le> n \<and> n \<le> room"
  by (induction room k outs rule: write_more.induct) (fastforce simp: Let_def accept_bytes_def split: if_splits)+

lemma writeNonBlock_bounds: "writeNonBlock buffer outs = Inr (Some n) \<Longrightarrow> n \<le> length buffer"
  by (auto simp: writeNonBlock_def split: if_splits dest: write_more_bounds)

lemma read_more_Throw: "read_more room got outs = Inl f \<Longrightarrow> \<exists>e. f = Throw \<lparr>err_code = X_IO_READ_NONB_FAILED, err_info = e\<rparr>"
  by (induction room got outs rule: read_more.induct) (auto simp: Let_def split: if_splits)

lemma readNonBlock_Throw:
  "readNonBlock room outs = Inl f \<Longrightarrow> \<exists>e. f = Throw \<lparr>err_code = X_IO_READ_NONB_FAILED, err_info = e\<rparr>"
  by (auto simp: readNonBlock_def split: if_splits dest: read_more_Throw)

lemma write_more_Throw: "write_more room k outs = Inl f \<Longrightarrow> \<exists>e. f = Throw \<lparr>err_code = X_IO_WRITE_NONB_FAILED, err_info = e\<rparr>"
  by (induction room k outs rule: write_more.induct) (auto simp: Let_def split: if_splits)

lemma writeNonBlock_Throw:
  "writeNonBlock b outs = Inl f \<Longrightarrow> \<exists>e. f = Throw \<lparr>err_code = X_IO_WRITE_NONB_FAILED, err_info = e\<rparr>"
  by (auto simp: writeNonBlock_def split: if_splits dest: write_more_Throw)

text \<open>The bytes \<open>recv\<close> handed out before the loop ended, and their loss at the end of a stream.\<close>

definition chunk_bytes :: "recv_out list \<Rightarrow> string" where
  "chunk_bytes outs = concat (map (\<lambda>r. case r of Recvd bs \<Rightarrow> bs | _ \<Rightarrow> []) outs)"

lemma read_more_all:
  "length got + length (chunk_bytes (map Recvd cs)) < room \<Longrightarrow> [] \<notin> set cs \<Longrightarrow>
   read_more room got (map Recvd cs @ rest) = read_more room (got @ concat cs) rest"
proof (induction cs arbitrary: got)
  case (Cons c cs)
  have "length got + length c < room" using Cons.prems(1) by (simp add: chunk_bytes_def)
  then have "read_more room got (map Recvd (c # cs) @ rest) = read_more room (got @ c) (map Recvd cs @ rest)"
    using Cons.prems(2) by (auto simp: Let_def)
  then show ?case using Cons.IH[of "got @ c"] Cons.prems by (simp add: chunk_bytes_def)
qed simp

lemma read_end_loses:
  "cs \<noteq> [] \<Longrightarrow> [] \<notin> set cs \<Longrightarrow> length (concat cs) < room \<Longrightarrow>
   readNonBlock room (map Recvd cs @ [Recvd []]) = Inr None"
  using read_more_all[of "[]" cs room "[Recvd []]"]
  by (auto simp: readNonBlock_def chunk_bytes_def o_def split: if_splits)

subsection \<open>Small helpers\<close>

definition PIPE_BUFF_SIZE :: nat where "PIPE_BUFF_SIZE = 1024"

text \<open>One list of results per round for each end; the value is what reached the destination.\<close>

fun pipe :: "string \<Rightarrow> recv_out list list \<Rightarrow> send_out list list \<Rightarrow> string outcome" where
  "pipe written [] sends = Inr written"
| "pipe written (r # reads) sends = (case readNonBlock PIPE_BUFF_SIZE r of
     Inl f \<Rightarrow> Inl f
   | Inr None \<Rightarrow> throw X_IO_PIPE_FAILED ''source not available''
   | Inr (Some bs) \<Rightarrow>
       if bs = [] then Inr written
       else (case writeNonBlock bs (case sends of [] \<Rightarrow> [] | w # _ \<Rightarrow> w) of
          Inl f \<Rightarrow> Inl f
        | Inr None \<Rightarrow> throw X_IO_PIPE_FAILED ''destination not reachable''
        | Inr (Some n) \<Rightarrow> pipe (written @ take n bs) reads (tl sends)))"

fun escapeString :: "string \<Rightarrow> string" where
  "escapeString [] = []"
| "escapeString (c # s) =
     (if c = NL then [BS, CHR ''n''] else if c = TAB then [BS, CHR ''t''] else [c]) @ escapeString s"

lemma escapeString_one_line: "NL \<notin> set (escapeString s) \<and> TAB \<notin> set (escapeString s)"
  by (induction s) auto

lemma escapeString_id: "NL \<notin> set s \<Longrightarrow> TAB \<notin> set s \<Longrightarrow> escapeString s = s"
  by (induction s) auto

text \<open>\<open>timerElapsed\<close> keeps the time of the last firing, in nanoseconds.\<close>

definition timerElapsed :: "int \<Rightarrow> int \<Rightarrow> int \<Rightarrow> bool \<times> int" where
  "timerElapsed interval now lastRun =
     (if interval * 1000000000 \<le> now - lastRun then (True, now) else (False, lastRun))"

end
