(* ===== verification/InputTab.thy ===== *)
theory InputTab
  imports IoUtils
begin

text \<open>
  The line editor of the CLI (\<open>client/cli/source/InputTab.cpp\<close>): the typed command, its history, and the
  hints that complete it.  \<open>commandBuffer\<close> and \<open>tmpCommandBuffer\<close> are their used parts; an access beyond
  the 128 bytes of an array is \<open>Crash\<close>.  The column of the ncurses cursor is part of the state, since the
  code reads its position in the command from it: \<open>inputWin\<close> is one row of \<open>it_width\<close> columns without
  scrolling, so a write that reaches the last column leaves the cursor there, and a move to a column
  outside the window has no effect.  A character takes one column, which holds for printable ASCII.
\<close>

definition CMD_BUFFER_SIZE :: nat where "CMD_BUFFER_SIZE = 128"

record input_tab =
  it_hints :: "string list"
  it_startX :: nat
  it_width :: nat
  it_x :: nat
  it_history :: "string list"
  it_suggested :: "nat list"
  it_command :: int
  it_hint :: int
  it_buffer :: string
  it_tmp :: string
  it_auto :: bool
  it_pipe :: string

text \<open>\<open>it_pipe\<close> collects the bytes written to \<open>forwardInputFd\<close>.\<close>

definition new_input_tab :: "string list \<Rightarrow> string \<Rightarrow> input_tab" where
  "new_input_tab hints prompt = \<lparr>it_hints = hints, it_startX = length prompt, it_width = 0, it_x = 0,
     it_history = [], it_suggested = [], it_command = -1, it_hint = -1, it_buffer = [], it_tmp = [],
     it_auto = False, it_pipe = []\<rparr>"

subsection \<open>The cursor\<close>

definition wmove :: "int \<Rightarrow> input_tab \<Rightarrow> input_tab" where
  "wmove x t = (if 0 \<le> x \<and> x < int (it_width t) then t\<lparr>it_x := nat x\<rparr> else t)"

text \<open>Writing \<open>n\<close> characters from column \<open>x\<close> on.\<close>

definition advance :: "nat \<Rightarrow> nat \<Rightarrow> input_tab \<Rightarrow> input_tab" where
  "advance x n t = t\<lparr>it_x := min (x + n) (it_width t - 1)\<rparr>"

definition writePromptLine :: "input_tab \<Rightarrow> input_tab" where
  "writePromptLine t = advance 0 (it_startX t + length (it_buffer t)) t"

definition draw_input :: "nat \<Rightarrow> input_tab \<Rightarrow> input_tab" where
  "draw_input w t = writePromptLine (t\<lparr>it_width := w\<rparr>)"

definition moveCursorLeft :: "input_tab \<Rightarrow> input_tab" where
  "moveCursorLeft t = (if it_startX t < it_x t then wmove (int (it_x t) - 1) t else t)"

definition moveCursorRight :: "input_tab \<Rightarrow> input_tab" where
  "moveCursorRight t = (if it_x t < it_startX t + length (it_buffer t) then wmove (int (it_x t) + 1) t else t)"

definition moveStartLine :: "input_tab \<Rightarrow> input_tab" where
  "moveStartLine t = wmove (int (it_startX t)) t"

definition moveEndLine :: "input_tab \<Rightarrow> input_tab" where
  "moveEndLine t = wmove (int (it_startX t + length (it_buffer t))) t"

subsection \<open>Hints\<close>

definition hint_matches :: "string \<Rightarrow> string \<Rightarrow> bool" where
  "hint_matches buffer hint = (let n = min (length buffer) (length hint) in take n hint = map toupper (take n buffer))"

definition updateHints :: "input_tab \<Rightarrow> input_tab" where
  "updateHints t = (let s = filter (\<lambda>i. hint_matches (it_buffer t) (it_hints t ! i)) [0 ..< length (it_hints t)]
     in t\<lparr>it_suggested := s, it_auto := (s \<noteq> []), it_hint := -1\<rparr>)"

definition clearHints :: "input_tab \<Rightarrow> input_tab" where
  "clearHints t = t\<lparr>it_auto := False, it_suggested := [], it_command := -1\<rparr>"

text \<open>\<open>at\<close> throws outside the vector, inside a \<open>noexcept\<close> function; a \<open>memcpy\<close> has to fit.\<close>

definition vector_at :: "'a list \<Rightarrow> int \<Rightarrow> 'a option" where
  "vector_at xs i = (if 0 \<le> i \<and> nat i < length xs then Some (xs ! nat i) else None)"

definition hint_at :: "input_tab \<Rightarrow> int \<Rightarrow> string option" where
  "hint_at t i = (case vector_at (it_suggested t) i of None \<Rightarrow> None | Some k \<Rightarrow> vector_at (it_hints t) (int k))"

definition load_buffer :: "string option \<Rightarrow> input_tab \<Rightarrow> input_tab outcome" where
  "load_buffer s t = (case s of None \<Rightarrow> Inl Crash
     | Some b \<Rightarrow> if CMD_BUFFER_SIZE < length b then Inl Crash else Inr (t\<lparr>it_buffer := b\<rparr>))"

definition redraw :: "input_tab outcome \<Rightarrow> input_tab outcome" where
  "redraw r = (case r of Inl f \<Rightarrow> Inl f | Inr t \<Rightarrow> Inr (writePromptLine t))"

definition save_typed :: "input_tab \<Rightarrow> input_tab" where
  "save_typed t = t\<lparr>it_tmp := it_buffer t\<rparr>"

definition restore_typed :: "input_tab \<Rightarrow> input_tab" where
  "restore_typed t = t\<lparr>it_buffer := it_tmp t, it_tmp := []\<rparr>"

definition suggestHint :: "input_tab \<Rightarrow> input_tab outcome" where
  "suggestHint t0 = (if it_suggested t0 = [] then Inr t0
     else (let t = (if it_hint t0 = -1 then (save_typed t0)\<lparr>it_hint := 0\<rparr> else t0) in
       redraw (if it_hint t < int (length (it_suggested t))
         then load_buffer (map_option (\<lambda>h. h @ '' '') (hint_at t (it_hint t))) (t\<lparr>it_hint := it_hint t + 1\<rparr>)
         else Inr (restore_typed (t\<lparr>it_hint := -1\<rparr>)))))"

definition showPrevious :: "input_tab \<Rightarrow> input_tab outcome" where
  "showPrevious t0 = (if it_history t0 = [] \<or> it_command t0 = int (length (it_history t0)) - 1 then Inr t0
     else (let t = (if it_command t0 = -1 then save_typed t0 else t0); i = it_command t + 1
           in redraw (load_buffer (vector_at (it_history t) i) (t\<lparr>it_command := i\<rparr>))))"

definition showNext :: "input_tab \<Rightarrow> input_tab outcome" where
  "showNext t = redraw (if it_command t \<le> 0 then Inr (restore_typed (t\<lparr>it_command := -1\<rparr>))
     else (let i = it_command t - 1 in load_buffer (vector_at (it_history t) i) (t\<lparr>it_command := i\<rparr>)))"

definition suggestPrevious :: "input_tab \<Rightarrow> input_tab outcome" where
  "suggestPrevious t0 = (if \<not> it_auto t0 then showPrevious t0
     else if it_suggested t0 = [] then Inr t0
     else (let t = (if it_hint t0 = -1 then save_typed t0 else t0);
               i = (if it_hint t < int (length (it_suggested t)) - 1 then it_hint t + 1 else it_hint t)
           in redraw (load_buffer (hint_at t i) (t\<lparr>it_hint := i\<rparr>))))"

definition suggestNext :: "input_tab \<Rightarrow> input_tab outcome" where
  "suggestNext t = (if \<not> it_auto t then showNext t
     else if it_suggested t = [] \<or> it_hint t = -1 then Inr t
     else redraw (if 0 < it_hint t
       then (let i = it_hint t - 1 in load_buffer (hint_at t i) (t\<lparr>it_hint := i\<rparr>))
       else Inr (restore_typed (t\<lparr>it_hint := -1\<rparr>))))"

subsection \<open>Editing\<close>

definition after_delete :: "input_tab \<Rightarrow> input_tab" where
  "after_delete t = (if it_buffer t = [] then clearHints t else updateHints t)"

text \<open>The \<open>memmove\<close> of \<open>deleteCharForward\<close> reads one byte past the used part.\<close>

definition deleteCharForward :: "input_tab \<Rightarrow> input_tab outcome" where
  "deleteCharForward t =
     (if it_x t = it_startX t + length (it_buffer t) then Inr t
      else if it_x t < it_startX t \<or> it_startX t + length (it_buffer t) < it_x t \<or> CMD_BUFFER_SIZE \<le> length (it_buffer t)
      then Inl Crash
      else (let i = it_x t - it_startX t in
            Inr (after_delete (t\<lparr>it_buffer := take i (it_buffer t) @ drop (Suc i) (it_buffer t)\<rparr>))))"

definition deleteCharBack :: "input_tab \<Rightarrow> input_tab outcome" where
  "deleteCharBack t =
     (if it_x t = it_startX t then Inr t
      else if it_x t < it_startX t \<or> it_startX t + length (it_buffer t) < it_x t then Inl Crash
      else (let i = it_x t - it_startX t in
            Inr (after_delete ((wmove (int (it_x t) - 1) t)
                   \<lparr>it_buffer := take (i - 1) (it_buffer t) @ drop i (it_buffer t)\<rparr>))))"

text \<open>At 128 characters the size is raised and the next store lands outside the array.\<close>

definition appendInputChar :: "int \<Rightarrow> input_tab \<Rightarrow> input_tab outcome" where
  "appendInputChar input t =
     (if CMD_BUFFER_SIZE < length (it_buffer t) then Inr t
      else if CMD_BUFFER_SIZE = length (it_buffer t) \<or> it_x t < it_startX t
           \<or> it_startX t + length (it_buffer t) < it_x t then Inl Crash
      else (let i = it_x t - it_startX t; resetCursorPos = (i < length (it_buffer t));
                t1 = t\<lparr>it_buffer := take i (it_buffer t) @ [char_of (nat (input mod 256))] @ drop i (it_buffer t)\<rparr>;
                t2 = writePromptLine (updateHints t1)
            in Inr (if resetCursorPos then wmove (int (i + it_startX t + 1)) t2 else t2)))"

text \<open>The write of the command is one system call; when it throws, the command stays in the buffer.\<close>

definition terminateCommand :: "send_out \<Rightarrow> input_tab \<Rightarrow> failure option \<times> input_tab" where
  "terminateCommand w t = (if it_buffer t = [] then (None, t)
     else (case write_fd (it_buffer t) w of
        Inl f \<Rightarrow> (Some f, t)
      | Inr n \<Rightarrow> (None, writePromptLine (clearHints (t\<lparr>it_pipe := it_pipe t @ take n (it_buffer t),
                   it_history := it_buffer t # it_history t, it_buffer := []\<rparr>)))))"

subsection \<open>Keys\<close>

text \<open>The key codes of \<open>ncurses.h\<close>.\<close>

definition KEY_DOWN :: int where "KEY_DOWN = 258"
definition KEY_UP :: int where "KEY_UP = 259"
definition KEY_LEFT :: int where "KEY_LEFT = 260"
definition KEY_RIGHT :: int where "KEY_RIGHT = 261"
definition KEY_HOME :: int where "KEY_HOME = 262"
definition KEY_BACKSPACE :: int where "KEY_BACKSPACE = 263"
definition KEY_DC :: int where "KEY_DC = 330"
definition KEY_BTAB :: int where "KEY_BTAB = 353"
definition KEY_END :: int where "KEY_END = 360"
definition KEY_RESIZE :: int where "KEY_RESIZE = 410"

lemmas key_codes = KEY_DOWN_def KEY_UP_def KEY_LEFT_def KEY_RIGHT_def KEY_HOME_def KEY_BACKSPACE_def
  KEY_DC_def KEY_BTAB_def KEY_END_def KEY_RESIZE_def

datatype key_action = Terminate | CursorLeft | CursorRight | StartLine | EndLine | DeleteForward | DeleteBack
  | ShowPrevious | ShowNext | SuggestHint | SwitchTab

definition dispatcher :: "(int \<times> key_action) list" where
  "dispatcher = [(10, Terminate), (KEY_LEFT, CursorLeft), (KEY_RIGHT, CursorRight), (KEY_HOME, StartLine),
     (KEY_END, EndLine), (KEY_DC, DeleteForward), (127, DeleteBack), (KEY_BACKSPACE, DeleteBack),
     (KEY_UP, ShowPrevious), (KEY_DOWN, ShowNext), (KEY_BTAB, SuggestHint), (9, SwitchTab)]"

definition lift_edit :: "input_tab outcome \<Rightarrow> input_tab \<Rightarrow> failure option \<times> input_tab" where
  "lift_edit r t = (case r of Inl f \<Rightarrow> (Some f, t) | Inr t' \<Rightarrow> (None, t'))"

text \<open>\<open>SwitchTab\<close> is the parent window's: it does not change this tab.\<close>

definition run_action :: "send_out \<Rightarrow> key_action \<Rightarrow> input_tab \<Rightarrow> failure option \<times> input_tab" where
  "run_action w a t = (case a of
     Terminate \<Rightarrow> terminateCommand w t
   | CursorLeft \<Rightarrow> (None, moveCursorLeft t) | CursorRight \<Rightarrow> (None, moveCursorRight t)
   | StartLine \<Rightarrow> (None, moveStartLine t) | EndLine \<Rightarrow> (None, moveEndLine t)
   | DeleteForward \<Rightarrow> lift_edit (deleteCharForward t) t | DeleteBack \<Rightarrow> lift_edit (deleteCharBack t) t
   | ShowPrevious \<Rightarrow> lift_edit (showPrevious t) t | ShowNext \<Rightarrow> lift_edit (showNext t) t
   | SuggestHint \<Rightarrow> lift_edit (suggestHint t) t
   | SwitchTab \<Rightarrow> (None, t))"

definition handleUserInput :: "send_out \<Rightarrow> int \<Rightarrow> input_tab \<Rightarrow> failure option \<times> input_tab" where
  "handleUserInput w inputChar t = (if inputChar = KEY_RESIZE then (None, t)
     else (case map_of dispatcher inputChar of
         Some a \<Rightarrow> run_action w a t
       | None \<Rightarrow> lift_edit (appendInputChar inputChar t) t))"

subsection \<open>The state of the editor stays in range\<close>

definition core_ok :: "input_tab \<Rightarrow> bool" where
  "core_ok t \<longleftrightarrow> length (it_buffer t) \<le> CMD_BUFFER_SIZE \<and> length (it_tmp t) \<le> CMD_BUFFER_SIZE
     \<and> it_startX t < it_width t
     \<and> -1 \<le> it_command t \<and> it_command t < int (length (it_history t))
     \<and> (\<forall>h \<in> set (it_history t). length h \<le> CMD_BUFFER_SIZE)
     \<and> -1 \<le> it_hint t \<and> (it_suggested t \<noteq> [] \<longrightarrow> it_hint t \<le> int (length (it_suggested t)))
     \<and> (\<forall>i \<in> set (it_suggested t). i < length (it_hints t))
     \<and> (\<forall>h \<in> set (it_hints t). length h < CMD_BUFFER_SIZE)"

definition cursor_ok :: "input_tab \<Rightarrow> bool" where
  "cursor_ok t \<longleftrightarrow> it_startX t \<le> it_x t \<and> it_x t \<le> it_startX t + length (it_buffer t) \<and> it_x t < it_width t"

definition tab_ok :: "input_tab \<Rightarrow> bool" where
  "tab_ok t \<longleftrightarrow> core_ok t \<and> cursor_ok t"

lemmas ok_defs = tab_ok_def core_ok_def cursor_ok_def

lemma prompt_ok: "core_ok t \<Longrightarrow> tab_ok (writePromptLine t)"
  by (auto simp: ok_defs writePromptLine_def advance_def)

lemma wmove_fields [simp]: "it_buffer (wmove x t) = it_buffer t" "it_startX (wmove x t) = it_startX t"
  "it_width (wmove x t) = it_width t"
  by (simp_all add: wmove_def)

lemma wmove_core [simp]: "core_ok (wmove x t) = core_ok t"
  by (simp add: wmove_def core_ok_def)

lemma wmove_cursor:
  "cursor_ok t \<Longrightarrow> int (it_startX t) \<le> x \<Longrightarrow> x \<le> int (it_startX t + length (it_buffer t)) \<Longrightarrow> cursor_ok (wmove x t)"
  by (auto simp: wmove_def cursor_ok_def)

lemma moves_ok:
  assumes "tab_ok t"
  shows "tab_ok (moveCursorLeft t)" "tab_ok (moveCursorRight t)" "tab_ok (moveStartLine t)" "tab_ok (moveEndLine t)"
  using assms unfolding tab_ok_def moveCursorLeft_def moveCursorRight_def moveStartLine_def moveEndLine_def
  by (auto intro!: wmove_cursor simp: cursor_ok_def[of t])

lemma updateHints_core: "core_ok t \<Longrightarrow> core_ok (updateHints t)"
  by (auto simp: core_ok_def updateHints_def Let_def)

lemma clearHints_core: "core_ok t \<Longrightarrow> core_ok (clearHints t)"
  by (auto simp: core_ok_def clearHints_def)

lemma hint_fields [simp]: "it_x (updateHints t) = it_x t" "it_startX (updateHints t) = it_startX t"
  "it_buffer (updateHints t) = it_buffer t" "it_width (updateHints t) = it_width t"
  "it_x (clearHints t) = it_x t" "it_startX (clearHints t) = it_startX t" "it_buffer (clearHints t) = it_buffer t"
  "it_width (clearHints t) = it_width t"
  by (simp_all add: updateHints_def clearHints_def Let_def)

lemma after_delete_ok: "tab_ok t \<Longrightarrow> tab_ok (after_delete t)"
  by (auto simp: tab_ok_def after_delete_def cursor_ok_def updateHints_core clearHints_core)

definition tab_result :: "input_tab outcome \<Rightarrow> bool" where
  "tab_result r = (case r of Inl _ \<Rightarrow> False | Inr t \<Rightarrow> tab_ok t)"

lemma redraw_ok: "load_buffer s t = Inr t' \<Longrightarrow> core_ok t \<Longrightarrow> tab_result (redraw (load_buffer s t))"
  by (auto simp: tab_result_def redraw_def load_buffer_def core_ok_def intro!: prompt_ok split: option.splits if_splits)

lemma redraw_Inr_ok: "core_ok t \<Longrightarrow> tab_result (redraw (Inr t))"
  by (simp add: tab_result_def redraw_def prompt_ok)

lemma load_some: "s = Some b \<Longrightarrow> length b \<le> CMD_BUFFER_SIZE \<Longrightarrow> load_buffer s t = Inr (t\<lparr>it_buffer := b\<rparr>)"
  by (simp add: load_buffer_def)

lemma vector_at_Some: "0 \<le> i \<Longrightarrow> i < int (length xs) \<Longrightarrow> vector_at xs i = Some (xs ! nat i)"
  by (auto simp: vector_at_def nat_less_iff)

lemma restore_core: "core_ok t \<Longrightarrow> core_ok (restore_typed t)"
  by (auto simp: core_ok_def restore_typed_def)

lemma save_core: "core_ok t \<Longrightarrow> core_ok (save_typed t)"
  by (auto simp: core_ok_def save_typed_def)

lemma hint_at_ok:
  assumes "core_ok t" and "0 \<le> i" and "i < int (length (it_suggested t))"
  shows "\<exists>h. hint_at t i = Some h \<and> length h < CMD_BUFFER_SIZE"
proof -
  have n: "it_suggested t ! nat i < length (it_hints t)"
    using assms by (auto simp: core_ok_def nat_less_iff)
  then have "length (it_hints t ! (it_suggested t ! nat i)) < CMD_BUFFER_SIZE"
    using assms(1) by (simp add: core_ok_def)
  then show ?thesis using n vector_at_Some[OF assms(2,3)] by (simp add: hint_at_def vector_at_Some)
qed

lemma history_at_ok:
  assumes "core_ok t" and "0 \<le> i" and "i < int (length (it_history t))"
  shows "\<exists>h. vector_at (it_history t) i = Some h \<and> length h \<le> CMD_BUFFER_SIZE"
  using assms by (auto simp: vector_at_Some core_ok_def nat_less_iff)

lemma showPrevious_ok:
  assumes "tab_ok t"
  shows "tab_result (showPrevious t)"
proof (cases "it_history t = [] \<or> it_command t = int (length (it_history t)) - 1")
  case True
  then show ?thesis using assms by (auto simp: showPrevious_def tab_result_def)
next
  case F: False
  define u where "u = (if it_command t = -1 then save_typed t else t)"
  have core: "core_ok t" using assms by (simp add: tab_ok_def)
  have cu: "core_ok u" using save_core[OF core] core by (simp add: u_def)
  have same: "it_history u = it_history t" "it_command u = it_command t" by (simp_all add: u_def save_typed_def)
  have r: "0 \<le> it_command u + 1" "it_command u + 1 < int (length (it_history u))"
    using core F same by (auto simp: core_ok_def)
  obtain h where h: "vector_at (it_history u) (it_command u + 1) = Some h" "length h \<le> CMD_BUFFER_SIZE"
    using history_at_ok[OF cu r] by blast
  have "core_ok (u\<lparr>it_command := it_command u + 1\<rparr>)" using cu r by (simp add: core_ok_def)
  then have "tab_result (redraw (load_buffer (vector_at (it_history u) (it_command u + 1)) (u\<lparr>it_command := it_command u + 1\<rparr>)))"
    using redraw_ok[OF load_some[OF h]] by blast
  then show ?thesis using F by (simp add: showPrevious_def Let_def u_def)
qed

lemma showNext_ok:
  assumes "tab_ok t"
  shows "tab_result (showNext t)"
proof (cases "it_command t \<le> 0")
  case True
  have "core_ok (t\<lparr>it_command := -1\<rparr>)" using assms by (auto simp: ok_defs)
  then show ?thesis using True redraw_Inr_ok[OF restore_core] by (simp add: showNext_def)
next
  case F: False
  have core: "core_ok t" using assms by (simp add: tab_ok_def)
  have r: "0 \<le> it_command t - 1" "it_command t - 1 < int (length (it_history t))"
    using core F by (auto simp: core_ok_def)
  obtain h where h: "vector_at (it_history t) (it_command t - 1) = Some h" "length h \<le> CMD_BUFFER_SIZE"
    using history_at_ok[OF core r] by blast
  have "core_ok (t\<lparr>it_command := it_command t - 1\<rparr>)" using core r by (simp add: core_ok_def)
  then show ?thesis using F redraw_ok[OF load_some[OF h]] by (simp add: showNext_def Let_def)
qed

lemma suggestHint_ok:
  assumes "tab_ok t"
  shows "tab_result (suggestHint t)"
proof (cases "it_suggested t = []")
  case True
  then show ?thesis using assms by (simp add: suggestHint_def tab_result_def)
next
  case F: False
  define u where "u = (if it_hint t = -1 then (save_typed t)\<lparr>it_hint := 0\<rparr> else t)"
  have core: "core_ok t" using assms by (simp add: tab_ok_def)
  have cu: "core_ok u" using save_core[OF core] core by (auto simp: u_def core_ok_def save_typed_def)
  have sug: "it_suggested u \<noteq> []" using F by (simp add: u_def save_typed_def)
  have "0 \<le> it_hint u" using core by (auto simp: u_def core_ok_def)
  show ?thesis
  proof (cases "it_hint u < int (length (it_suggested u))")
    case True
    obtain h where h: "hint_at u (it_hint u) = Some h" "length h < CMD_BUFFER_SIZE"
      using hint_at_ok[OF cu \<open>0 \<le> it_hint u\<close> True] by blast
    have s: "map_option (\<lambda>h. h @ '' '') (hint_at u (it_hint u)) = Some (h @ '' '')" "length (h @ '' '') \<le> CMD_BUFFER_SIZE"
      using h by simp_all
    have "core_ok (u\<lparr>it_hint := it_hint u + 1\<rparr>)" using cu True \<open>0 \<le> it_hint u\<close> by (auto simp: core_ok_def)
    then have "tab_result (redraw (load_buffer (map_option (\<lambda>h. h @ '' '') (hint_at u (it_hint u))) (u\<lparr>it_hint := it_hint u + 1\<rparr>)))"
      using redraw_ok[OF load_some[OF s]] by blast
    then show ?thesis using F True by (simp add: suggestHint_def u_def Let_def)
  next
    case False
    have "core_ok (u\<lparr>it_hint := -1\<rparr>)" using cu by (simp add: core_ok_def)
    then have "tab_result (redraw (Inr (restore_typed (u\<lparr>it_hint := -1\<rparr>))))" by (intro redraw_Inr_ok restore_core)
    then show ?thesis using F False by (simp add: suggestHint_def u_def Let_def)
  qed
qed

text \<open>Editing: in range, and the only failures are those of the full buffer.\<close>

lemma deleteCharForward_ok:
  assumes "tab_ok t" and "length (it_buffer t) < CMD_BUFFER_SIZE"
  shows "tab_result (deleteCharForward t)"
proof (cases "it_x t = it_startX t + length (it_buffer t)")
  case True
  then show ?thesis using assms by (simp add: deleteCharForward_def tab_result_def)
next
  case F: False
  define i where "i = it_x t - it_startX t"
  have i: "i < length (it_buffer t)" "it_x t = it_startX t + i" using assms F by (auto simp: i_def ok_defs)
  have "tab_ok (t\<lparr>it_buffer := take i (it_buffer t) @ drop (Suc i) (it_buffer t)\<rparr>)"
    using assms i by (auto simp: ok_defs)
  from after_delete_ok[OF this] show ?thesis
    using assms F by (auto simp: deleteCharForward_def tab_result_def Let_def i_def ok_defs[of t])
qed

lemma deleteCharBack_ok:
  assumes "tab_ok t"
  shows "tab_result (deleteCharBack t)"
proof (cases "it_x t = it_startX t")
  case True
  then show ?thesis using assms by (simp add: deleteCharBack_def tab_result_def)
next
  case F: False
  define i where "i = it_x t - it_startX t"
  have i: "0 < i" "i \<le> length (it_buffer t)" "it_x t = it_startX t + i" using assms F by (auto simp: i_def ok_defs)
  have "wmove (int (it_x t) - 1) t = t\<lparr>it_x := it_startX t + (i - 1)\<rparr>"
    using i assms by (simp add: wmove_def nat_diff_distrib ok_defs)
  moreover have "tab_ok (t\<lparr>it_x := it_startX t + (i - 1), it_buffer := take (i - 1) (it_buffer t) @ drop i (it_buffer t)\<rparr>)"
    using assms i by (auto simp: ok_defs)
  ultimately have "tab_result (Inr (after_delete ((wmove (int (it_x t) - 1) t)
      \<lparr>it_buffer := take (i - 1) (it_buffer t) @ drop i (it_buffer t)\<rparr>)))"
    by (simp add: tab_result_def after_delete_ok)
  then show ?thesis using F i by (simp add: deleteCharBack_def Let_def)
qed

lemma appendInputChar_ok:
  assumes "tab_ok t" and "length (it_buffer t) < CMD_BUFFER_SIZE"
  shows "tab_result (appendInputChar k t)"
proof -
  define i where "i = it_x t - it_startX t"
  define c where "c = (char_of (nat (k mod 256)) :: char)"
  have i: "i \<le> length (it_buffer t)" "it_x t = it_startX t + i" using assms by (auto simp: i_def ok_defs)
  define t2 where "t2 = writePromptLine (updateHints (t\<lparr>it_buffer := take i (it_buffer t) @ [c] @ drop i (it_buffer t)\<rparr>))"
  have "core_ok (t\<lparr>it_buffer := take i (it_buffer t) @ [c] @ drop i (it_buffer t)\<rparr>)"
    using assms i by (auto simp: ok_defs)
  then have t2: "tab_ok t2" unfolding t2_def by (intro prompt_ok updateHints_core)
  have "it_buffer t2 = take i (it_buffer t) @ [c] @ drop i (it_buffer t)" "it_startX t2 = it_startX t"
    by (simp_all add: t2_def writePromptLine_def advance_def)
  then have "tab_ok (wmove (int (i + it_startX t + 1)) t2)"
    using t2 i unfolding tab_ok_def by (intro conjI wmove_cursor) auto
  moreover have "appendInputChar k t = Inr (if i < length (it_buffer t) then wmove (int (i + it_startX t + 1)) t2 else t2)"
    using assms i unfolding appendInputChar_def by (simp add: Let_def t2_def c_def flip: i_def)
  ultimately show ?thesis using t2 by (simp add: tab_result_def)
qed

lemma terminateCommand_ok:
  assumes "tab_ok t"
  shows "tab_ok (snd (terminateCommand w t))"
proof -
  have "core_ok (t\<lparr>it_pipe := p, it_history := it_buffer t # it_history t, it_buffer := []\<rparr>)" for p
    using assms by (auto simp: ok_defs)
  then have "tab_ok (writePromptLine (clearHints (t\<lparr>it_pipe := p, it_history := it_buffer t # it_history t, it_buffer := []\<rparr>)))" for p
    by (intro prompt_ok clearHints_core)
  then show ?thesis using assms by (simp add: terminateCommand_def split: sum.split)
qed

lemma run_action_ok:
  assumes "tab_ok t" and "length (it_buffer t) < CMD_BUFFER_SIZE"
  shows "tab_ok (snd (run_action w a t)) \<and> (a \<noteq> Terminate \<longrightarrow> fst (run_action w a t) = None)"
  using moves_ok[OF assms(1)] terminateCommand_ok[OF assms(1)] deleteCharForward_ok[OF assms]
    deleteCharBack_ok[OF assms(1)] showPrevious_ok[OF assms(1)] showNext_ok[OF assms(1)] suggestHint_ok[OF assms(1)] assms(1)
  by (cases a) (auto simp: run_action_def lift_edit_def tab_result_def split: sum.splits)

lemma handleUserInput_ok:
  assumes "tab_ok t" and "length (it_buffer t) < CMD_BUFFER_SIZE"
  shows "tab_ok (snd (handleUserInput w k t)) \<and> (k \<noteq> 10 \<longrightarrow> fst (handleUserInput w k t) = None)"
proof (cases "map_of dispatcher k")
  case None
  then show ?thesis using appendInputChar_ok[OF assms, of k] assms(1)
    by (auto simp: handleUserInput_def lift_edit_def tab_result_def split: sum.splits)
next
  case (Some a)
  have "a = Terminate \<longrightarrow> k = 10" using Some by (auto simp: dispatcher_def key_codes split: if_splits)
  then show ?thesis using run_action_ok[OF assms, of w a] assms(1) Some by (auto simp: handleUserInput_def)
qed

subsection \<open>The editor it implements\<close>

text \<open>A line with a cursor: the text on its left, the text on its right.\<close>

type_synonym line = "string \<times> string"

definition line_of :: "input_tab \<Rightarrow> line" where
  "line_of t = (let i = it_x t - it_startX t in (take i (it_buffer t), drop i (it_buffer t)))"

datatype edit = Insert char | Backspace | Delete | GoLeft | GoRight | GoHome | GoEnd

fun edit_line :: "edit \<Rightarrow> line \<Rightarrow> line" where
  "edit_line (Insert c) (l, r) = (l @ [c], r)"
| "edit_line Backspace (l, r) = (butlast l, r)"
| "edit_line Delete (l, r) = (l, tl r)"
| "edit_line GoLeft (l, r) = (if l = [] then (l, r) else (butlast l, last l # r))"
| "edit_line GoRight (l, r) = (case r of [] \<Rightarrow> (l, r) | c # r' \<Rightarrow> (l @ [c], r'))"
| "edit_line GoHome (l, r) = ([], l @ r)"
| "edit_line GoEnd (l, r) = (l @ r, [])"

definition edit_of_key :: "int \<Rightarrow> edit option" where
  "edit_of_key k = (if k = KEY_LEFT then Some GoLeft else if k = KEY_RIGHT then Some GoRight
     else if k = KEY_HOME then Some GoHome else if k = KEY_END then Some GoEnd
     else if k = KEY_DC then Some Delete else if k = KEY_BACKSPACE \<or> k = 127 then Some Backspace
     else if 32 \<le> k \<and> k < 127 then Some (Insert (char_of (nat k))) else None)"

text \<open>Room for the whole line and one more character in the window.\<close>

definition wide :: "input_tab \<Rightarrow> bool" where
  "wide t \<longleftrightarrow> it_startX t + length (it_buffer t) + 1 < it_width t"

lemma line_ofI: "it_x t = it_startX t + i \<Longrightarrow> line_of t = (take i (it_buffer t), drop i (it_buffer t))"
  by (simp add: line_of_def)

lemma line_of_after_delete [simp]: "line_of (after_delete t) = line_of t"
  by (simp add: line_of_def after_delete_def)

lemma edit_moves:
  assumes "tab_ok t" and "wide t"
  shows "line_of (moveCursorLeft t) = edit_line GoLeft (line_of t)"
    and "line_of (moveCursorRight t) = edit_line GoRight (line_of t)"
    and "line_of (moveStartLine t) = edit_line GoHome (line_of t)"
    and "line_of (moveEndLine t) = edit_line GoEnd (line_of t)"
proof -
  define i where "i = it_x t - it_startX t"
  have i: "it_x t = it_startX t + i" "i \<le> length (it_buffer t)" using assms(1) by (auto simp: i_def ok_defs)
  have l: "line_of t = (take i (it_buffer t), drop i (it_buffer t))" by (rule line_ofI[OF i(1)])
  have w: "it_startX t + length (it_buffer t) + 1 < it_width t" using assms(2) by (simp add: wide_def)
  show "line_of (moveStartLine t) = edit_line GoHome (line_of t)"
    using w l by (simp add: moveStartLine_def wmove_def line_of_def)
  show "line_of (moveEndLine t) = edit_line GoEnd (line_of t)"
    using w l by (simp add: moveEndLine_def wmove_def line_of_def)
  show "line_of (moveCursorRight t) = edit_line GoRight (line_of t)"
  proof (cases "i < length (it_buffer t)")
    case True
    then have "moveCursorRight t = t\<lparr>it_x := it_startX t + Suc i\<rparr>" using w i by (simp add: moveCursorRight_def wmove_def nat_add_distrib)
    then show ?thesis using True l by (simp add: line_of_def take_Suc_conv_app_nth Cons_nth_drop_Suc[symmetric])
  next
    case False
    then show ?thesis using i l by (simp add: moveCursorRight_def)
  qed
  show "line_of (moveCursorLeft t) = edit_line GoLeft (line_of t)"
  proof (cases i)
    case 0
    then show ?thesis using i l by (simp add: moveCursorLeft_def)
  next
    case (Suc j)
    then have "moveCursorLeft t = t\<lparr>it_x := it_startX t + j\<rparr>" using w i by (simp add: moveCursorLeft_def wmove_def nat_add_distrib)
    moreover have j: "j < length (it_buffer t)" using Suc i by simp
    ultimately show ?thesis using l Suc
      by (simp add: line_of_def take_Suc_conv_app_nth[OF j] Cons_nth_drop_Suc[symmetric] butlast_append) 
  qed
qed

lemma edit_delete:
  assumes "tab_ok t" and "length (it_buffer t) < CMD_BUFFER_SIZE"
  shows "\<exists>t'. deleteCharForward t = Inr t' \<and> line_of t' = edit_line Delete (line_of t)"
proof -
  define i where "i = it_x t - it_startX t"
  have i: "it_x t = it_startX t + i" "i \<le> length (it_buffer t)" using assms(1) by (auto simp: i_def ok_defs)
  have l: "line_of t = (take i (it_buffer t), drop i (it_buffer t))" by (rule line_ofI[OF i(1)])
  show ?thesis
  proof (cases "i = length (it_buffer t)")
    case True
    then show ?thesis using i l by (simp add: deleteCharForward_def)
  next
    case False
    then have "deleteCharForward t = Inr (after_delete (t\<lparr>it_buffer := take i (it_buffer t) @ drop (Suc i) (it_buffer t)\<rparr>))"
      using i assms(2) by (simp add: deleteCharForward_def)
    moreover have "line_of (t\<lparr>it_buffer := take i (it_buffer t) @ drop (Suc i) (it_buffer t)\<rparr>) = edit_line Delete (line_of t)"
      using i l by (simp add: line_of_def drop_Suc tl_drop)
    ultimately show ?thesis by simp
  qed
qed

lemma edit_backspace:
  assumes "tab_ok t"
  shows "\<exists>t'. deleteCharBack t = Inr t' \<and> line_of t' = edit_line Backspace (line_of t)"
proof -
  define i where "i = it_x t - it_startX t"
  have i: "it_x t = it_startX t + i" "i \<le> length (it_buffer t)" using assms by (auto simp: i_def ok_defs)
  have l: "line_of t = (take i (it_buffer t), drop i (it_buffer t))" by (rule line_ofI[OF i(1)])
  show ?thesis
  proof (cases i)
    case 0
    then show ?thesis using i l by (simp add: deleteCharBack_def)
  next
    case (Suc j)
    have x: "wmove (int (it_x t) - 1) t = t\<lparr>it_x := it_startX t + j\<rparr>"
      using i assms Suc by (auto simp: wmove_def nat_add_distrib ok_defs)
    have "deleteCharBack t = Inr (after_delete (t\<lparr>it_x := it_startX t + j,
        it_buffer := take j (it_buffer t) @ drop (Suc j) (it_buffer t)\<rparr>))"
      using i Suc unfolding deleteCharBack_def x by (simp add: Let_def)
    moreover have "line_of (t\<lparr>it_x := it_startX t + j, it_buffer := take j (it_buffer t) @ drop (Suc j) (it_buffer t)\<rparr>)
        = edit_line Backspace (line_of t)"
      using i l Suc by (simp add: line_of_def butlast_take)
    ultimately show ?thesis by simp
  qed
qed

lemma edit_insert:
  assumes "tab_ok t" and "wide t" and "length (it_buffer t) < CMD_BUFFER_SIZE" and k: "0 \<le> k" "k < 256"
  shows "\<exists>t'. appendInputChar k t = Inr t' \<and> line_of t' = edit_line (Insert (char_of (nat k))) (line_of t)"
proof -
  define i where "i = it_x t - it_startX t"
  define c where "c = (char_of (nat k) :: char)"
  have i: "it_x t = it_startX t + i" "i \<le> length (it_buffer t)" using assms(1) by (auto simp: i_def ok_defs)
  have l: "line_of t = (take i (it_buffer t), drop i (it_buffer t))" by (rule line_ofI[OF i(1)])
  have w: "it_startX t + length (it_buffer t) + 1 < it_width t" using assms(2) by (simp add: wide_def)
  let ?b = "take i (it_buffer t) @ [c] @ drop i (it_buffer t)"
  define t2 where "t2 = writePromptLine (updateHints (t\<lparr>it_buffer := ?b\<rparr>))"
  have t2: "it_buffer t2 = ?b" "it_startX t2 = it_startX t" "it_width t2 = it_width t"
      "it_x t2 = it_startX t + Suc (length (it_buffer t))"
    using w i by (auto simp: t2_def writePromptLine_def advance_def)
  have res: "appendInputChar k t = Inr (if i < length (it_buffer t) then wmove (int (i + it_startX t + 1)) t2 else t2)"
    using assms(3) i k unfolding appendInputChar_def by (simp add: Let_def t2_def c_def)
  have "it_x (if i < length (it_buffer t) then wmove (int (i + it_startX t + 1)) t2 else t2) = it_startX t + Suc i"
    using i w t2 by (auto simp: wmove_def)
  then have "line_of (if i < length (it_buffer t) then wmove (int (i + it_startX t + 1)) t2 else t2) = (take (Suc i) ?b, drop (Suc i) ?b)"
    using t2 by (simp add: line_of_def)
  also have "\<dots> = edit_line (Insert c) (line_of t)" using l i by simp
  finally show ?thesis using res by (simp add: c_def)
qed

lemma edit_of_key_cases:
  "edit_of_key k = Some e \<Longrightarrow>
     (k = KEY_LEFT \<and> e = GoLeft) \<or> (k = KEY_RIGHT \<and> e = GoRight) \<or> (k = KEY_HOME \<and> e = GoHome) \<or> (k = KEY_END \<and> e = GoEnd)
     \<or> (k = KEY_DC \<and> e = Delete) \<or> ((k = KEY_BACKSPACE \<or> k = 127) \<and> e = Backspace)
     \<or> (32 \<le> k \<and> k < 127 \<and> e = Insert (char_of (nat k)))"
  by (auto simp: edit_of_key_def split: if_splits)

lemma dispatcher_printable: "32 \<le> k \<Longrightarrow> k < 127 \<Longrightarrow> map_of dispatcher k = None \<and> k \<noteq> KEY_RESIZE"
  by (auto simp: dispatcher_def key_codes)

lemma dispatcher_keys [simp]: "map_of dispatcher KEY_LEFT = Some CursorLeft" "map_of dispatcher KEY_RIGHT = Some CursorRight"
  "map_of dispatcher KEY_HOME = Some StartLine" "map_of dispatcher KEY_END = Some EndLine"
  "map_of dispatcher KEY_DC = Some DeleteForward" "map_of dispatcher KEY_BACKSPACE = Some DeleteBack"
  "map_of dispatcher 127 = Some DeleteBack" "map_of dispatcher 10 = Some Terminate"
  "map_of dispatcher KEY_UP = Some ShowPrevious" "map_of dispatcher KEY_DOWN = Some ShowNext"
  "map_of dispatcher KEY_BTAB = Some SuggestHint"
  by (simp_all add: dispatcher_def key_codes)

lemma not_resize [simp]: "KEY_LEFT \<noteq> KEY_RESIZE" "KEY_RIGHT \<noteq> KEY_RESIZE" "KEY_HOME \<noteq> KEY_RESIZE" "KEY_END \<noteq> KEY_RESIZE"
  "KEY_DC \<noteq> KEY_RESIZE" "KEY_BACKSPACE \<noteq> KEY_RESIZE" "127 \<noteq> KEY_RESIZE" "10 \<noteq> KEY_RESIZE" "KEY_UP \<noteq> KEY_RESIZE"
  "KEY_DOWN \<noteq> KEY_RESIZE" "KEY_BTAB \<noteq> KEY_RESIZE"
  by (simp_all add: key_codes)

lemma editor_refines:
  assumes t: "tab_ok t" "wide t" "length (it_buffer t) < CMD_BUFFER_SIZE" and e: "edit_of_key k = Some e"
  shows "line_of (snd (handleUserInput w k t)) = edit_line e (line_of t)"
  using edit_of_key_cases[OF e]
proof (elim disjE conjE)
  assume k: "32 \<le> k" "k < 127" "e = Insert (char_of (nat k))"
  then show ?thesis using edit_insert[OF t, of k] dispatcher_printable[OF k(1,2)]
    by (auto simp: handleUserInput_def lift_edit_def)
qed (use edit_moves[OF t(1,2)] edit_delete[OF t(1,3)] edit_backspace[OF t(1)] in
  \<open>auto simp: handleUserInput_def run_action_def lift_edit_def\<close>)

end
