(* ===== verification/OutputTab.thy ===== *)
theory OutputTab
  imports MessageTypes
begin

text \<open>
  The scrolling text tab of the CLI (\<open>client/cli/include/OutputTab.hpp\<close>, \<open>source/OutputTab.cpp\<close>): its
  lines, the first line shown, and the number of rows of its ncurses window, \<open>None\<close> while the tab is not
  drawn.  What ncurses paints is not modelled beyond the lines that are printed.
\<close>

datatype TextAlign = AlignLeft | AlignMid | AlignRight

text \<open>A time point is the text \<open>[hh:mm:ss]\<close> it is printed as.\<close>

record tab_message =
  tm_content :: string
  tm_align :: TextAlign
  tm_attrs :: "32 word"
  tm_timestamp :: "string option"

record output_tab =
  ot_state :: "tab_message list"
  ot_hasTimeStamp :: bool
  ot_top :: nat
  ot_rows :: "nat option"

definition TabMessage :: "string \<Rightarrow> string \<Rightarrow> TextAlign \<Rightarrow> 32 word \<Rightarrow> bool \<Rightarrow> tab_message" where
  "TabMessage now content align attrs saveTimestamp =
     \<lparr>tm_content = content, tm_align = align, tm_attrs = attrs, tm_timestamp = (if saveTimestamp then Some now else None)\<rparr>"

definition new_output_tab :: output_tab where
  "new_output_tab = \<lparr>ot_state = [], ot_hasTimeStamp = False, ot_top = 0, ot_rows = None\<rparr>"

text \<open>\<open>draw\<close> up to the position of the text; \<open>rows\<close> is the height the window got.\<close>

definition draw_output :: "nat \<Rightarrow> output_tab \<Rightarrow> output_tab" where
  "draw_output rows t = t\<lparr>ot_rows := Some rows,
     ot_top := (if rows < length (ot_state t) then length (ot_state t) - rows else 0)\<rparr>"

definition clear_output :: "output_tab \<Rightarrow> output_tab" where
  "clear_output t = t\<lparr>ot_rows := None\<rparr>"

definition clearContent :: "output_tab \<Rightarrow> output_tab" where
  "clearContent t = t\<lparr>ot_state := [], ot_top := 0\<rparr>"

definition new_lines :: "string \<Rightarrow> string \<Rightarrow> TextAlign \<Rightarrow> 32 word \<Rightarrow> bool \<Rightarrow> tab_message list" where
  "new_lines now newContent align attrs saveTimestamp =
     (if NL \<in> set newContent
      then (case getlines newContent of [] \<Rightarrow> []
        | l # ls \<Rightarrow> TabMessage now l align attrs saveTimestamp # map (\<lambda>l. TabMessage now l align attrs False) ls)
      else [TabMessage now newContent align attrs saveTimestamp])"

definition appendContent :: "string \<Rightarrow> string \<Rightarrow> TextAlign \<Rightarrow> 32 word \<Rightarrow> bool \<Rightarrow> output_tab \<Rightarrow> output_tab" where
  "appendContent now newContent align attrs saveTimestamp t =
     (let maxVerticalSpace = (case ot_rows t of None \<Rightarrow> 0 | Some h \<Rightarrow> h);
          wasAtBottom = (length (ot_state t) \<le> ot_top t + maxVerticalSpace);
          lines = ot_state t @ new_lines now newContent align attrs saveTimestamp;
          t1 = t\<lparr>ot_hasTimeStamp := (ot_hasTimeStamp t \<or> saveTimestamp), ot_state := lines\<rparr>
      in if ot_rows t = None then t1
         else if wasAtBottom
         then t1\<lparr>ot_top := (if maxVerticalSpace < length lines then length lines - maxVerticalSpace else 0)\<rparr>
         else t1)"

text \<open>The lines \<open>updateContent\<close> prints.\<close>

definition shown_lines :: "output_tab \<Rightarrow> tab_message list" where
  "shown_lines t = (case ot_rows t of None \<Rightarrow> []
     | Some rows \<Rightarrow>
        (let remaining = (if ot_top t < length (ot_state t) then length (ot_state t) - ot_top t else 0)
         in map (\<lambda>i. ot_state t ! (ot_top t + i)) [0 ..< min rows remaining]))"

text \<open>\<open>printLine\<close> in a window \<open>w\<close> columns wide: the text before the content, and the column it starts in.\<close>

definition line_prefix :: "output_tab \<Rightarrow> tab_message \<Rightarrow> string" where
  "line_prefix t m = (case tm_timestamp m of
     Some ts \<Rightarrow> ts @ ''  ''
   | None \<Rightarrow> if ot_hasTimeStamp t then replicate 12 CHR '' '' else [])"

definition content_column :: "nat \<Rightarrow> output_tab \<Rightarrow> tab_message \<Rightarrow> nat outcome" where
  "content_column w t m = (let x = length (line_prefix t m) in
     if tm_align m = AlignLeft then Inr x
     else if w < x then throw X_UI_INVALID_SIZE []
     else (let start = int (w - x) - int (length (tm_content m)) in
       Inr (if start \<le> 0 then x
            else if tm_align m = AlignMid then x + nat start div 2 else x + nat start)))"

definition scrollContentUp :: "output_tab \<Rightarrow> output_tab" where
  "scrollContentUp t = (if ot_top t = 0 then t else t\<lparr>ot_top := ot_top t - 1\<rparr>)"

definition scrollContentDown :: "output_tab \<Rightarrow> output_tab" where
  "scrollContentDown t = (case ot_rows t of None \<Rightarrow> t
     | Some rows \<Rightarrow> if length (ot_state t) \<le> ot_top t + rows then t else t\<lparr>ot_top := Suc (ot_top t)\<rparr>)"

subsection \<open>The view stays on the text\<close>

definition view_ok :: "output_tab \<Rightarrow> bool" where
  "view_ok t = (case ot_rows t of
     None \<Rightarrow> ot_top t \<le> length (ot_state t)
   | Some rows \<Rightarrow> ot_top t = 0 \<or> ot_top t + rows \<le> length (ot_state t))"

lemmas output_defs = draw_output_def clear_output_def clearContent_def appendContent_def scrollContentUp_def
  scrollContentDown_def new_output_tab_def

lemma view_new [simp]: "view_ok new_output_tab"
  by (simp add: output_defs view_ok_def)

lemma view_draw [simp]: "view_ok (draw_output rows t)"
  by (simp add: output_defs view_ok_def)

lemma view_clear [simp]: "view_ok t \<Longrightarrow> view_ok (clear_output t)"
  by (auto simp: output_defs view_ok_def split: option.splits)

lemma view_clearContent [simp]: "view_ok (clearContent t)"
  by (simp add: output_defs view_ok_def split: option.splits)

lemma view_append [simp]: "view_ok t \<Longrightarrow> view_ok (appendContent now s al attrs b t)"
  by (auto simp: appendContent_def Let_def view_ok_def split: option.splits)

lemma view_up [simp]: "view_ok t \<Longrightarrow> view_ok (scrollContentUp t)"
  by (auto simp: output_defs view_ok_def split: option.splits)

lemma view_down [simp]: "view_ok t \<Longrightarrow> view_ok (scrollContentDown t)"
  by (auto simp: output_defs view_ok_def split: option.splits)

lemma shown_lines_eq: "shown_lines t = (case ot_rows t of None \<Rightarrow> [] | Some rows \<Rightarrow> take rows (drop (ot_top t) (ot_state t)))"
  unfolding shown_lines_def
  by (auto simp: Let_def list_eq_iff_nth_eq split: option.splits)

text \<open>A tab showing its end keeps showing it; one that was scrolled back does not move.\<close>

lemma append_state [simp]:
  "ot_state (appendContent now s al attrs b t) = ot_state t @ new_lines now s al attrs b"
  "ot_rows (appendContent now s al attrs b t) = ot_rows t"
  by (simp_all add: appendContent_def Let_def)

lemma append_at_bottom:
  assumes "ot_rows t = Some rows" and "length (ot_state t) \<le> ot_top t + rows"
  shows "shown_lines (appendContent now s al attrs b t)
    = drop (length (ot_state t @ new_lines now s al attrs b) - rows) (ot_state t @ new_lines now s al attrs b)"
  using assms by (auto simp: shown_lines_eq appendContent_def Let_def)

lemma append_scrolled:
  assumes "ot_rows t = Some rows" and "ot_top t + rows < length (ot_state t)"
  shows "shown_lines (appendContent now s al attrs b t) = shown_lines t"
  using assms by (auto simp: shown_lines_eq appendContent_def Let_def)

lemma scroll_down_up:
  assumes "ot_rows t = Some rows" and "ot_top t + rows < length (ot_state t)"
  shows "scrollContentUp (scrollContentDown t) = t"
  using assms by (simp add: output_defs)

end
