(* ===== verification/Message.thy ===== *)
theory Message
  imports MessageTypes
begin

text \<open>
  Messages of the client (\<open>client/shared/include/Message.hpp\<close>, \<open>source/Message.cpp\<close>): a line of the
  protocol, its kind, the union member that kind selects, and its payload as a \<open>JsonValue\<close>.  Parsing
  fails with a \<open>BAD_MESSAGE\<close> exception; \<open>raw.back()\<close> of the empty string and the failed assertions of
  the getters are \<open>Crash\<close>.  \<open>fmt\<close> is \<open>std::format\<close> of a double, as in \<open>JsonParser\<close>.
\<close>

datatype MessageType = COMMAND | RESPONSE | ERROR | EVENT

datatype MessageSubType = SubNone | SubCommand CommandType | SubEvent EventType | SubError ErrorType

record message =
  m_raw :: string
  m_type :: MessageType
  m_subType :: MessageSubType
  m_data :: json

definition S_OK :: string where "S_OK = ''OK''"
definition S_ERR :: string where "S_ERR = ''ERR''"
definition S_EVT :: string where "S_EVT = ''EVT''"

abbreviation COMMAND_TERM :: char where "COMMAND_TERM \<equiv> NL"

definition isCommand :: "message \<Rightarrow> bool" where "isCommand m = (m_type m = COMMAND)"
definition isResponse :: "message \<Rightarrow> bool" where "isResponse m = (m_type m = RESPONSE)"
definition isError :: "message \<Rightarrow> bool" where "isError m = (m_type m = ERROR)"
definition isEvent :: "message \<Rightarrow> bool" where "isEvent m = (m_type m = EVENT)"

definition getCommandType :: "message \<Rightarrow> CommandType option" where
  "getCommandType m = (case m_subType m of SubCommand c \<Rightarrow> if isCommand m then Some c else None | _ \<Rightarrow> None)"

definition getEventType :: "message \<Rightarrow> EventType option" where
  "getEventType m = (case m_subType m of SubEvent c \<Rightarrow> if isEvent m then Some c else None | _ \<Rightarrow> None)"

definition getErrorType :: "message \<Rightarrow> ErrorType option" where
  "getErrorType m = (case m_subType m of SubError c \<Rightarrow> if isError m then Some c else None | _ \<Rightarrow> None)"

subsection \<open>Parsing\<close>

text \<open>\<open>std::getline(iss >> std::ws, data)\<close>\<close>

definition rest_of_line :: "string \<Rightarrow> string" where
  "rest_of_line s = takeWhile (\<lambda>c. c \<noteq> NL) (skip_ws s)"

definition storeJson :: "string \<Rightarrow> message \<Rightarrow> message outcome" where
  "storeJson jsonStr m = (case parse_json jsonStr of
     Inl e \<Rightarrow> throw X_BAD_MESSAGE (''Error '' @ [APOS] @ e @ [APOS] @ '' while parsing: '' @ jsonStr)
   | Inr j \<Rightarrow> Inr (m\<lparr>m_data := j\<rparr>))"

definition opens_json :: "string \<Rightarrow> bool" where
  "opens_json d = (peek d CHR ''{'' \<or> peek d CHR ''['')"

definition blank :: "string \<Rightarrow> MessageType \<Rightarrow> message" where
  "blank raw t = \<lparr>m_raw = raw, m_type = t, m_subType = SubNone, m_data = JNull\<rparr>"

definition two_words :: "string \<Rightarrow> bool" where
  "two_words cmd = (cmd = ''GROUP'' \<or> cmd = ''CHAT'' \<or> cmd = ''WAIT'' \<or> cmd = ''CREATE'')"

definition parseCommand :: "string \<Rightarrow> message outcome" where
  "parseCommand command = (let (w, r) = next_token command; (w2, r2) = next_token r;
      cmd = (if two_words w then w @ '' '' @ w2 else w); rest = (if two_words w then r2 else r);
      data = rest_of_line rest
    in if w = [] then throw X_BAD_MESSAGE (''Empty message: '' @ command)
       else if two_words w \<and> w2 = [] then throw X_BAD_MESSAGE (''Incomplete command: '' @ command)
       else case getCommand cmd of
         None \<Rightarrow> throw X_BAD_MESSAGE (''Unrecognised command: '' @ command)
       | Some c \<Rightarrow>
           (let m = (blank command COMMAND)\<lparr>m_subType := SubCommand c\<rparr> in
            if \<not> commandHasArgs c then Inr m
            else if data = [] then throw X_BAD_MESSAGE (''Missing data for command: '' @ command)
            else storeJson (if opens_json data then data else quoted data) m))"

definition parseResponse :: "string \<Rightarrow> message outcome" where
  "parseResponse response = (let (ok, r) = next_token response; data = rest_of_line r; m = blank response RESPONSE
    in if ok = [] then throw X_BAD_MESSAGE (''Empty response: '' @ response)
       else if data = [] then Inr m
       else storeJson (if opens_json data then data else quoted data) m)"

definition players_prefix :: string where "players_prefix = ''players=''"

definition parseEvent :: "string \<Rightarrow> message outcome" where
  "parseEvent event = (let (evt, r) = next_token event; (visibility, r1) = next_token r; (ty, r2) = next_token r1
    in if evt = [] \<or> visibility = [] \<or> ty = [] then throw X_BAD_MESSAGE (''Incomplete event: '' @ event)
       else
         (let name = visibility @ '' '' @ ty;
              data = (if visibility = ''STATS''
                      then (if take 8 ty = players_prefix then drop 8 ty else ty)
                      else rest_of_line r2)
          in case (if visibility = ''STATS'' then Some V_STATS else getEvent name) of
               None \<Rightarrow> throw X_BAD_MESSAGE (''Unknown event: '' @ event)
             | Some v \<Rightarrow>
                 if data = [] then throw X_BAD_MESSAGE (''Missing data for event: '' @ event)
                 else storeJson (if opens_json data \<or> isdigit (hd data) then data else quoted data)
                   ((blank event EVENT)\<lparr>m_subType := SubEvent v\<rparr>)))"

text \<open>Stream extraction of a \<open>uint16_t\<close>: an optional sign, digits, and a range check on the magnitude.\<close>

definition read_uint16 :: "string \<Rightarrow> (16 word \<times> string) option" where
  "read_uint16 s = (let t = skip_ws s; neg = peek t CHR ''-''; t1 = (if neg \<or> peek t CHR ''+'' then tl t else t);
      ds = takeWhile isdigit t1; n = read_nat ds
    in if ds = [] \<or> 65535 < n then None
       else Some (if neg then - of_nat n else of_nat n, dropWhile isdigit t1))"

definition parseError :: "string \<Rightarrow> message outcome" where
  "parseError error = (let (err, r) = next_token error
    in case (if err = [] then None else read_uint16 r) of
         None \<Rightarrow> throw X_BAD_MESSAGE (''Incomplete error: '' @ error)
       | Some (errCode, r1) \<Rightarrow>
           (let (errName, r2) = next_token r1; errInfo = rest_of_line r2 in
            if errName = [] then throw X_BAD_MESSAGE (''Incomplete error: '' @ error)
            else case getError errName of
              None \<Rightarrow> throw X_BAD_MESSAGE (''Unknown error: '' @ error)
            | Some e \<Rightarrow> storeJson (quoted (if errInfo \<noteq> [] then errInfo else errName))
                          ((blank error ERROR)\<lparr>m_subType := SubError e\<rparr>)))"

definition parse_message :: "string \<Rightarrow> message outcome" where
  "parse_message m = (let msgType = fst (next_token m) in
     if msgType = [] then throw X_BAD_MESSAGE (''Empty message: '' @ m)
     else if msgType = S_OK then parseResponse m
     else if msgType = S_ERR then parseError m
     else if msgType = S_EVT then parseEvent m
     else parseCommand m)"

definition Message :: "string \<Rightarrow> message outcome" where
  "Message text = (if text = [] then Inl Crash
     else parse_message (if last text = COMMAND_TERM then butlast text else text))"

subsection \<open>Text for the player\<close>

definition toStringCommand :: "message \<Rightarrow> string" where
  "toStringCommand m = m_raw m"

definition toStringResponse :: "(double \<Rightarrow> string) \<Rightarrow> message \<Rightarrow> CommandType \<Rightarrow> string" where
  "toStringResponse fmt m command = (let data = m_data m; str = (\<lambda>k. as_string (json_at data k)) in case command of
     C_LOOK \<Rightarrow> json_to_string fmt data
   | C_MOVE \<Rightarrow> ''Moved to '' @ str ''room''
   | C_WHO \<Rightarrow> show_int (as_int (json_at data ''server'')) @ '' players:'' @ [NL] @ json_to_string fmt (json_at data ''room'')
   | C_TAKE \<Rightarrow> ''Taken item '' @ str ''taken''
   | C_DROP \<Rightarrow> ''Dropped item '' @ str ''dropped''
   | C_INVENTORY \<Rightarrow> json_to_string fmt data
   | C_TALK \<Rightarrow> str ''npc'' @ '' says: '' @ [APOS] @ str ''dialogue'' @ [APOS]
   | C_ATTACK \<Rightarrow> ''Attacked:'' @ [NL] @ json_to_string fmt data
   | C_STATUS \<Rightarrow> ''Current status:'' @ [NL] @ json_to_string fmt data
   | C_QUEST \<Rightarrow> json_to_string fmt data
   | C_QUESTS \<Rightarrow> json_to_string fmt data
   | C_GROUP_CREATE \<Rightarrow> ''Group '' @ str ''created'' @ '' created''
   | C_GROUP_INVITE \<Rightarrow> ''Invited '' @ str ''invited'' @ '' to join group''
   | C_GROUP_JOIN \<Rightarrow> ''Joined '' @ str ''joined''
   | C_GROUP_LEAVE \<Rightarrow> ''Left '' @ str ''left''
   | C_USE \<Rightarrow> ''Used '' @ str ''used'' @ '':'' @ [NL] @ json_to_string fmt (json_at data ''effect'')
   | _ \<Rightarrow> ''OK'')"

definition event_text :: "EventType \<Rightarrow> json \<Rightarrow> string" where
  "event_text v data = (let str = (\<lambda>k. as_string (json_at data k)) in case v of
     V_PRESENCE_ENTER \<Rightarrow> as_string data @ '' entered the room''
   | V_PRESENCE_LEAVE \<Rightarrow> as_string data @ '' left the room''
   | V_ROOM_CHAT \<Rightarrow> ''[room]   '' @ str ''player'' @ '' says: '' @ str ''text''
   | V_GROUP_CHAT \<Rightarrow> ''[group]  '' @ str ''player'' @ '' says: '' @ str ''text''
   | V_GLOBAL_CHAT \<Rightarrow> ''[global] '' @ str ''player'' @ '' says: '' @ str ''text''
   | V_GROUP_JOIN \<Rightarrow> str ''player'' @ '' has joined '' @ str ''group''
   | V_GROUP_LEAVE \<Rightarrow> str ''player'' @ '' has left '' @ str ''group''
   | V_GROUP_INVITE \<Rightarrow> str ''inviter'' @ '' has invited '' @ str ''invited'' @ '' to join '' @ str ''group''
   | V_STATS \<Rightarrow> ''Player count '' @ show_int (as_int data)
   | V_ROOM_COMBAT \<Rightarrow> str ''player'' @ '' attacked '' @ str ''npc''
   | V_ROOM_COMBAT_DEATH_NPC \<Rightarrow> str ''player'' @ '' slained '' @ str ''npc''
   | V_ROOM_COMBAT_DEATH_PLAYER \<Rightarrow> str ''npc'' @ '' slained '' @ str ''player''
   | V_ROOM_ITEM_USE \<Rightarrow> str ''player'' @ '' used '' @ str ''item''
   | V_ROOM_QUEST_COMPLETE \<Rightarrow> str ''player'' @ '' completed '' @ str ''quest'')"

definition toStringEvent :: "message \<Rightarrow> string outcome" where
  "toStringEvent m = (case getEventType m of None \<Rightarrow> Inl Crash | Some v \<Rightarrow> Inr (event_text v (m_data m)))"

definition error_text :: "ErrorType \<Rightarrow> json \<Rightarrow> string" where
  "error_text e data = (let s = as_string data in case e of
     E_NOT_CONNECTED \<Rightarrow> ''Couldn'' @ [APOS] @ ''t run command, player not connected''
   | E_BAD_MESSAGE \<Rightarrow> ''Bad Message: '' @ s
   | E_NAME_IN_USE \<Rightarrow> s
   | E_NO_EXIT \<Rightarrow> s
   | E_NOT_IN_GROUP \<Rightarrow> ''Not in a group''
   | E_ALREADY_IN_GROUP \<Rightarrow> ''Already in a group''
   | E_ITEM_NOT_FOUND \<Rightarrow> ''Item '' @ s @ '' not found''
   | E_ITEM_NOT_IN_INVENTORY \<Rightarrow> ''Item '' @ s @ '' not in inventory''
   | E_NPC_NOT_FOUND \<Rightarrow> ''NPC '' @ s @ '' not found''
   | E_QUEST_NOT_FOUND \<Rightarrow> ''Quest '' @ s @ '' not existing''
   | E_CHARACTER_NOT_FOUND \<Rightarrow> ''Player '' @ s @ '' not found''
   | E_NPC_NOT_HOSTILE \<Rightarrow> ''NPC '' @ s @ '' not hostile''
   | E_NO_QUEST_AVAILABLE \<Rightarrow> ''No quest found in room '' @ s
   | E_DEAD \<Rightarrow> s
   | E_INTERNAL \<Rightarrow> s
   | E_CONNECTION_FAILED \<Rightarrow> ''Server disconnected''
   | E_SEND_FAILED \<Rightarrow> ''Sending failed'')"

definition toStringError :: "message \<Rightarrow> string outcome" where
  "toStringError m = (case getErrorType m of None \<Rightarrow> Inl Crash | Some e \<Rightarrow> Inr (error_text e (m_data m)))"

subsection \<open>A parsed message is of one kind, with the union member of that kind\<close>

definition well_typed :: "message \<Rightarrow> bool" where
  "well_typed m = (case m_type m of
     COMMAND \<Rightarrow> getCommandType m \<noteq> None | RESPONSE \<Rightarrow> m_subType m = SubNone
   | EVENT \<Rightarrow> getEventType m \<noteq> None | ERROR \<Rightarrow> getErrorType m \<noteq> None)"

lemmas kind_defs = isCommand_def isResponse_def isError_def isEvent_def
lemmas getter_defs = getCommandType_def getEventType_def getErrorType_def
lemmas parse_defs = parseCommand_def parseResponse_def parseEvent_def parseError_def

lemma storeJson_Inr: "storeJson s m = Inr m' \<Longrightarrow> \<exists>j. parse_json s = Inr j \<and> m' = m\<lparr>m_data := j\<rparr>"
  by (auto simp: storeJson_def split: sum.splits)

lemma storeJson_fails: "storeJson s m = Inl f \<Longrightarrow> \<exists>i. f = Throw \<lparr>err_code = X_BAD_MESSAGE, err_info = i\<rparr>"
  by (auto simp: storeJson_def split: sum.splits)

lemma blank_simps [simp]: "m_raw (blank r t) = r" "m_type (blank r t) = t"
  "m_subType (blank r t) = SubNone" "m_data (blank r t) = JNull"
  by (simp_all add: blank_def)

lemma parseCommand_Inr:
  "parseCommand s = Inr m \<Longrightarrow> m_type m = COMMAND \<and> m_raw m = s \<and> getCommandType m \<noteq> None"
  by (auto simp: parseCommand_def Let_def getter_defs kind_defs split: prod.splits option.splits if_splits
      dest!: storeJson_Inr)

lemma parseResponse_Inr: "parseResponse s = Inr m \<Longrightarrow> m_type m = RESPONSE \<and> m_raw m = s \<and> m_subType m = SubNone"
  by (auto simp: parseResponse_def Let_def split: prod.splits if_splits dest!: storeJson_Inr)

lemma parseEvent_Inr: "parseEvent s = Inr m \<Longrightarrow> m_type m = EVENT \<and> m_raw m = s \<and> getEventType m \<noteq> None"
  by (auto simp: parseEvent_def Let_def getter_defs kind_defs split: prod.splits option.splits if_splits
      dest!: storeJson_Inr)

lemma parseError_Inr: "parseError s = Inr m \<Longrightarrow> m_type m = ERROR \<and> m_raw m = s \<and> getErrorType m \<noteq> None"
  by (auto simp: parseError_def Let_def getter_defs kind_defs split: prod.splits option.splits if_splits
      dest!: storeJson_Inr)

lemmas parsed_dests = parseCommand_Inr parseResponse_Inr parseEvent_Inr parseError_Inr

definition kind_of_line :: "string \<Rightarrow> MessageType" where
  "kind_of_line s = (let w = fst (next_token s) in
     if w = S_OK then RESPONSE else if w = S_ERR then ERROR else if w = S_EVT then EVENT else COMMAND)"

lemma parse_message_Inr:
  "parse_message s = Inr m \<Longrightarrow> m_raw m = s \<and> m_type m = kind_of_line s \<and> well_typed m"
  by (auto simp: parse_message_def kind_of_line_def Let_def well_typed_def split: if_splits dest!: parsed_dests)

lemma parse_message_fails:
  "parse_message s = Inl f \<Longrightarrow> \<exists>i. f = Throw \<lparr>err_code = X_BAD_MESSAGE, err_info = i\<rparr>"
  by (auto simp: parse_message_def parse_defs Let_def split: prod.splits option.splits if_splits dest!: storeJson_fails)

lemma Message_fails:
  "s \<noteq> [] \<Longrightarrow> Message s = Inl f \<Longrightarrow> \<exists>i. f = Throw \<lparr>err_code = X_BAD_MESSAGE, err_info = i\<rparr>"
  by (auto simp: Message_def split: if_splits dest: parse_message_fails)

lemma Message_Inr:
  "Message s = Inr m \<Longrightarrow> m_raw m = (if last s = NL then butlast s else s) \<and> m_type m = kind_of_line (m_raw m) \<and> well_typed m"
  by (auto simp: Message_def split: if_splits dest: parse_message_Inr)

subsection \<open>The lines of the server\<close>

lemma skip_ws_space [simp]: "skip_ws (CHR '' '' # s) = skip_ws s"
  by (simp add: skip_ws_def isspace_def code_of_def)

lemma isspace_blank [simp]: "isspace CHR '' ''"
  by (simp add: isspace_def code_of_def)

lemma next_token_blank [simp]: "next_token (CHR '' '' # s) = next_token s"
  by (simp add: next_token_def)

lemma word_names: "word_ok ''OK''" "word_ok ''ERR''" "word_ok ''EVT''"
  by (simp_all add: word_ok_def isspace_def code_of_def)

lemma error_names_words: "e \<in> set errors \<Longrightarrow> word_ok e"
proof -
  have "list_all word_ok errors" by code_simp
  then show "e \<in> set errors \<Longrightarrow> word_ok e" by (simp add: list_all_iff)
qed

text \<open>Payload text that needs no escaping and starts with a visible character.\<close>

definition plain_text :: "string \<Rightarrow> bool" where
  "plain_text s \<longleftrightarrow> clean s \<and> NL \<notin> set s \<and> s \<noteq> [] \<and> \<not> isspace (hd s)"

lemma rest_of_plain: "plain_text s \<Longrightarrow> rest_of_line (CHR '' '' # s) = s"
proof -
  assume s: "plain_text s"
  then obtain c t where c: "s = c # t" "\<not> isspace c" by (cases s) (auto simp: plain_text_def)
  have "skip_ws s = s" unfolding c(1) skip_ws_def using c(2) by simp
  moreover have "takeWhile (\<lambda>c. c \<noteq> NL) s = s" using s by (auto simp: plain_text_def takeWhile_eq_all_conv)
  ultimately show ?thesis by (simp add: rest_of_line_def)
qed

lemma parse_quoted_clean: "clean s \<Longrightarrow> parse_json (quoted s) = Inr (JString s)"
  using parse_json_render[of "DStr s"] by simp

lemma storeJson_clean: "clean s \<Longrightarrow> storeJson (quoted s) m = Inr (m\<lparr>m_data := JString s\<rparr>)"
  by (simp add: storeJson_def parse_quoted_clean)

lemma read_uint16_show:
  assumes "n \<le> 65535" and "r = [] \<or> \<not> isdigit (hd r)"
  shows "read_uint16 (CHR '' '' # show_nat n @ r) = Some (of_nat n, r)"
proof -
  have sk: "skip_ws (show_nat n @ r) = show_nat n @ r" by (rule skip_ws_word[OF show_nat_word])
  obtain c t where c: "show_nat n = c # t" by (cases "show_nat n") auto
  then have dc: "isdigit c" using show_nat_digits[of c n] by simp
  then have np: "c \<noteq> CHR ''-''" "c \<noteq> CHR ''+''" by (auto simp: isdigit_def code_of_def)
  have tw: "takeWhile isdigit (show_nat n @ r) = show_nat n" "dropWhile isdigit (show_nat n @ r) = r"
    using assms(2) by (cases r; auto simp: takeWhile_append dropWhile_append dest: show_nat_digits)+
  have pk: "\<not> peek (show_nat n @ r) CHR ''-''" "\<not> peek (show_nat n @ r) CHR ''+''" using np by (simp_all add: c)
  show ?thesis using assms(1) unfolding read_uint16_def Let_def skip_ws_space sk
    by (simp add: pk tw)
qed

lemma space_not_digit [simp]: "\<not> isdigit CHR '' ''"
  by (simp add: isdigit_def code_of_def)

lemma parse_error_line:
  assumes "n \<le> 65535" and "getError name = Some e" and "clean name" and "info = [] \<or> (\<exists>i. info = CHR '' '' # i \<and> plain_text i)"
  shows "parse_message (''ERR '' @ show_nat n @ '' '' @ name @ info)
    = Inr ((blank (''ERR '' @ show_nat n @ '' '' @ name @ info) ERROR)
        \<lparr>m_subType := SubError e, m_data := JString (if info = [] then name else tl info)\<rparr>)"
proof -
  let ?line = "''ERR '' @ show_nat n @ '' '' @ name @ info"
  have t: "next_token ?line = (''ERR'', CHR '' '' # show_nat n @ CHR '' '' # name @ info)"
    using next_token_word[OF word_names(2), of "CHR '' '' # show_nat n @ CHR '' '' # name @ info"] by simp
  have r: "read_uint16 (CHR '' '' # show_nat n @ CHR '' '' # name @ info) = Some (of_nat n, CHR '' '' # name @ info)"
    by (rule read_uint16_show[OF assms(1)]) simp
  have w: "word_ok name" using assms(2) by (auto simp: getError_iff intro: error_names_words)
  have i: "info = [] \<or> isspace (hd info)" using assms(4) by auto
  have nm: "next_token (CHR '' '' # name @ info) = (name, info)"
    using next_token_word[OF w i] by simp
  have name: "name \<noteq> []" using w by (simp add: word_ok_def)
  have rest: "rest_of_line info = (if info = [] then [] else tl info)"
    using assms(4) rest_of_plain by (auto simp: rest_of_line_def skip_ws_def)
  have "parseError ?line = storeJson (quoted (if info = [] then name else tl info)) ((blank ?line ERROR)\<lparr>m_subType := SubError e\<rparr>)"
  proof -
    have "parseError ?line = (let errInfo = (if info = [] then [] else tl info) in
        storeJson (quoted (if errInfo \<noteq> [] then errInfo else name)) ((blank ?line ERROR)\<lparr>m_subType := SubError e\<rparr>))"
      unfolding parseError_def t Let_def prod.case
      by (simp only: r nm rest prod.case option.case assms(2) name if_False list.distinct simp_thms)
    moreover have "info \<noteq> [] \<longrightarrow> tl info \<noteq> []" using assms(4) by (auto simp: plain_text_def)
    ultimately show ?thesis by (simp add: Let_def)
  qed
  then have p: "parseError ?line = Inr ((blank ?line ERROR)\<lparr>m_subType := SubError e, m_data := JString (if info = [] then name else tl info)\<rparr>)"
    using assms(3,4) by (auto simp: storeJson_clean plain_text_def)
  show ?thesis unfolding parse_message_def t fst_conv Let_def p by (simp add: S_OK_def S_ERR_def)
qed

lemma parse_ok_document:
  assumes "opens_json (render d)"
  shows "parse_message (''OK '' @ render d) = Inr ((blank (''OK '' @ render d) RESPONSE)\<lparr>m_data := denote d\<rparr>)"
proof -
  have t: "next_token (''OK '' @ render d) = (''OK'', CHR '' '' # render d)"
    using next_token_word[OF word_names(1), of "CHR '' '' # render d"] by simp
  have rest: "rest_of_line (CHR '' '' # render d) = render d"
    using render_one_line[of d] skip_ws_render[of d "[]"] by (auto simp: rest_of_line_def takeWhile_eq_all_conv)
  have ne: "render d \<noteq> []" using assms by (auto simp: opens_json_def)
  have "parseResponse (''OK '' @ render d) = Inr ((blank (''OK '' @ render d) RESPONSE)\<lparr>m_data := denote d\<rparr>)"
    unfolding parseResponse_def t Let_def prod.case rest using ne assms
    by (simp add: storeJson_def parse_json_render)
  then show ?thesis unfolding parse_message_def t fst_conv Let_def by (simp add: S_OK_def)
qed

lemma parse_event_document:
  assumes v: "getEvent (scope @ '' '' @ name) = Some v" "word_ok scope" "word_ok name" "scope \<noteq> ''STATS''"
    and "opens_json (render d)"
  shows "parse_message (''EVT '' @ scope @ '' '' @ name @ '' '' @ render d)
    = Inr ((blank (''EVT '' @ scope @ '' '' @ name @ '' '' @ render d) EVENT)\<lparr>m_subType := SubEvent v, m_data := denote d\<rparr>)"
proof -
  let ?line = "''EVT '' @ scope @ '' '' @ name @ '' '' @ render d"
  have t: "next_token ?line = (''EVT'', CHR '' '' # scope @ CHR '' '' # name @ CHR '' '' # render d)"
    using next_token_word[OF word_names(3), of "CHR '' '' # scope @ CHR '' '' # name @ CHR '' '' # render d"] by simp
  have t1: "next_token (CHR '' '' # scope @ CHR '' '' # name @ CHR '' '' # render d) = (scope, CHR '' '' # name @ CHR '' '' # render d)"
    using next_token_word[OF v(2), of "CHR '' '' # name @ CHR '' '' # render d"] by simp
  have t2: "next_token (CHR '' '' # name @ CHR '' '' # render d) = (name, CHR '' '' # render d)"
    using next_token_word[OF v(3), of "CHR '' '' # render d"] by simp
  have rest: "rest_of_line (CHR '' '' # render d) = render d"
    using render_one_line[of d] skip_ws_render[of d "[]"] by (auto simp: rest_of_line_def takeWhile_eq_all_conv)
  have ne: "render d \<noteq> []" "scope \<noteq> []" "name \<noteq> []" using assms(5) v(2,3) by (auto simp: opens_json_def word_ok_def)
  have "parseEvent ?line = Inr ((blank ?line EVENT)\<lparr>m_subType := SubEvent v, m_data := denote d\<rparr>)"
    unfolding parseEvent_def t t1 t2 Let_def prod.case rest using ne v(1,4) assms(5)
    by (simp add: storeJson_def parse_json_render)
  then show ?thesis unfolding parse_message_def t fst_conv Let_def by (simp add: S_OK_def S_ERR_def S_EVT_def)
qed

end
