(* ===== verification/ClientHTTP.thy ===== *)
theory ClientHTTP
  imports IoUtils
begin

text \<open>
  The network worker of the client (\<open>client/shared/include/ClientHTTP.hpp\<close>,
  \<open>source/ClientHTTP.cpp\<close>): two bounded buffers between the game's socket pair and the server's socket,
  driven by \<open>poll\<close>.  A buffer is its used part, so \<open>serverBufferSize\<close> is its length and \<open>memmove\<close> after
  a partial write is a \<open>drop\<close>.  The event masks of the three descriptors keep their 16 bits.  The fields
  \<open>h_from_game\<close>, \<open>h_to_server\<close>, \<open>h_from_server\<close>, \<open>h_to_game\<close> record the bytes that crossed each socket and
  \<open>h_notices\<close> counts the inserted disconnect messages; the code has no such fields.
\<close>

unbundle bit_operations_syntax

subsection \<open>A relay: bytes leave in the order they came\<close>

locale byte_relay =
  fixes content sent received :: "'s \<Rightarrow> string"
    and fill :: "string \<Rightarrow> 's \<Rightarrow> 's" and drain :: "nat \<Rightarrow> 's \<Rightarrow> 's"
  assumes content_fill: "content (fill bs s) = content s @ bs"
    and sent_fill: "sent (fill bs s) = sent s"
    and received_fill: "received (fill bs s) = received s @ bs"
    and content_drain: "content (drain n s) = drop n (content s)"
    and sent_drain: "sent (drain n s) = sent s @ take n (content s)"
    and received_drain: "received (drain n s) = received s"
begin

definition in_order :: "'s \<Rightarrow> bool" where
  "in_order s = (sent s @ content s = received s)"

lemma fill_in_order: "in_order s \<Longrightarrow> in_order (fill bs s)"
  unfolding in_order_def by (simp add: content_fill sent_fill received_fill flip: append_assoc)

lemma drain_in_order: "in_order s \<Longrightarrow> in_order (drain n s)"
  unfolding in_order_def by (simp add: content_drain sent_drain received_drain)

lemma in_order_prefix: "in_order s \<Longrightarrow> take (length (sent s)) (received s) = sent s"
  unfolding in_order_def by (metis append_eq_conv_conj)

lemma in_order_length: "in_order s \<Longrightarrow> length (content s) = length (received s) - length (sent s)"
  unfolding in_order_def by (metis add_diff_cancel_left' length_append)

end

subsection \<open>Steps that can be left by an exception\<close>

text \<open>An exception leaves the state as it was when it was thrown.\<close>

type_synonym 's step = "failure option \<times> 's"

definition andthen :: "'s step \<Rightarrow> ('s \<Rightarrow> 's step) \<Rightarrow> 's step" where
  "andthen r f = (case r of (None, s) \<Rightarrow> f s | (Some e, s) \<Rightarrow> (Some e, s))"

definition step_when :: "bool \<Rightarrow> ('s \<Rightarrow> 's step) \<Rightarrow> 's \<Rightarrow> 's step" where
  "step_when b f s = (if b then f s else (None, s))"

lemma andthen_keeps:
  "P (snd r) \<Longrightarrow> (\<And>s. P s \<Longrightarrow> P (snd (f s))) \<Longrightarrow> P (snd (andthen r f))"
  by (auto simp: andthen_def split: prod.splits option.splits)

lemma step_when_keeps: "P s \<Longrightarrow> (P s \<Longrightarrow> P (snd (f s))) \<Longrightarrow> P (snd (step_when b f s))"
  by (simp add: step_when_def)

subsection \<open>State\<close>

type_synonym events = "16 word"

definition POLLIN :: events where "POLLIN = 1"
definition POLLOUT :: events where "POLLOUT = 4"
definition POLLERR :: events where "POLLERR = 8"
definition POLLHUP :: events where "POLLHUP = 16"
definition POLLNVAL :: events where "POLLNVAL = 32"

lemmas poll_bits = POLLIN_def POLLOUT_def POLLERR_def POLLHUP_def POLLNVAL_def

lemma pollout_nonzero: "POLLOUT \<noteq> 0"
  by (simp add: poll_bits)

lemma pollout_bits: "(e OR POLLOUT) AND POLLOUT \<noteq> 0" "POLLIN AND POLLOUT = 0" for e :: events
proof -
  have "(e OR POLLOUT) AND POLLOUT = POLLOUT" by (rule bit_word_eqI) (auto simp: bit_simps)
  then show "(e OR POLLOUT) AND POLLOUT \<noteq> 0" "POLLIN AND POLLOUT = 0" by (simp_all add: poll_bits)
qed

definition BUFF_SIZE :: nat where "BUFF_SIZE = 1024"

definition ERR_SERVER_DISC :: string where "ERR_SERVER_DISC = ''ERR 900 CONNECTION_FAILED''"
definition PRE_DISCONNECT_MSG :: string where "PRE_DISCONNECT_MSG = ''QUIT''"

record http =
  h_preStop :: bool
  h_keepAlive :: bool
  h_pipe_revents :: events
  h_game_events :: events
  h_game_revents :: events
  h_server_events :: events
  h_server_revents :: events
  h_serverBuffer :: string
  h_gameBuffer :: string
  h_from_game :: string
  h_to_server :: string
  h_from_server :: string
  h_to_game :: string
  h_notices :: nat

definition fill_game :: "string \<Rightarrow> http \<Rightarrow> http" where
  "fill_game bs h = h\<lparr>h_gameBuffer := h_gameBuffer h @ bs, h_from_game := h_from_game h @ bs\<rparr>"

definition drain_game :: "nat \<Rightarrow> http \<Rightarrow> http" where
  "drain_game n h = h\<lparr>h_gameBuffer := drop n (h_gameBuffer h), h_to_server := h_to_server h @ take n (h_gameBuffer h)\<rparr>"

definition fill_server :: "string \<Rightarrow> http \<Rightarrow> http" where
  "fill_server bs h = h\<lparr>h_serverBuffer := h_serverBuffer h @ bs, h_from_server := h_from_server h @ bs\<rparr>"

definition drain_server :: "nat \<Rightarrow> http \<Rightarrow> http" where
  "drain_server n h = h\<lparr>h_serverBuffer := drop n (h_serverBuffer h), h_to_game := h_to_game h @ take n (h_serverBuffer h)\<rparr>"

interpretation upward: byte_relay h_gameBuffer h_to_server h_from_game fill_game drain_game
  by unfold_locales (simp_all add: fill_game_def drain_game_def)

interpretation downward: byte_relay h_serverBuffer h_to_game h_from_server fill_server drain_server
  by unfold_locales (simp_all add: fill_server_def drain_server_def)

subsection \<open>What the system calls of one pass return\<close>

datatype sock_error = NoSockError | SockError string | GetsockoptFailed string

record pass_input =
  i_poll :: poll_out
  i_pipe :: events
  i_game :: events
  i_server :: events
  i_flush :: recv_out
  i_connect :: "string option"
  i_game_reads :: "recv_out list"
  i_game_sends :: "send_out list"
  i_server_reads :: "recv_out list"
  i_server_sends :: "send_out list"
  i_game_error :: sock_error
  i_server_error :: sock_error
  i_last_reads :: "recv_out list"

subsection \<open>Operations\<close>

text \<open>\<open>i_connect\<close> is \<open>None\<close> when the connection succeeds.\<close>

definition connectToServer :: "pass_input \<Rightarrow> http \<Rightarrow> http step" where
  "connectToServer i h = (case i_connect i of
     Some e \<Rightarrow> (Some (Throw \<lparr>err_code = X_SERVER_CONN_FAILED, err_info = e\<rparr>), h)
   | None \<Rightarrow> (None, h\<lparr>h_server_events := (if h_serverBuffer h \<noteq> [] then POLLIN OR POLLOUT else POLLIN)\<rparr>))"

definition new_http :: http where
  "new_http = \<lparr>h_preStop = False, h_keepAlive = False, h_pipe_revents = 0, h_game_events = POLLIN,
     h_game_revents = 0, h_server_events = 0, h_server_revents = 0, h_serverBuffer = [], h_gameBuffer = [],
     h_from_game = [], h_to_server = [], h_from_server = [], h_to_game = [], h_notices = 0\<rparr>"

definition ClientHTTP :: "pass_input \<Rightarrow> http step" where
  "ClientHTTP i = connectToServer i new_http"

definition startWorker :: "http \<Rightarrow> http" where
  "startWorker h = h\<lparr>h_keepAlive := True, h_preStop := False\<rparr>"

definition exitLoop :: "http \<Rightarrow> http" where
  "exitLoop h = h\<lparr>h_keepAlive := False\<rparr>"

text \<open>The wake-up byte and the join end the thread; for the state this is \<open>exitLoop\<close>.\<close>

definition stopWorker :: "http \<Rightarrow> http" where
  "stopWorker h = exitLoop h"

definition flushPipe :: "pass_input \<Rightarrow> http \<Rightarrow> http step" where
  "flushPipe i h = (case read_fd 1 (i_flush i) of Inl f \<Rightarrow> (Some f, h) | Inr _ \<Rightarrow> (None, h))"

definition handleDataFromGame :: "pass_input \<Rightarrow> http \<Rightarrow> http step" where
  "handleDataFromGame i h = (case readNonBlock (BUFF_SIZE - length (h_gameBuffer h)) (i_game_reads i) of
     Inl f \<Rightarrow> (Some f, h)
   | Inr None \<Rightarrow> (None, h\<lparr>h_game_revents := POLLHUP\<rparr>)
   | Inr (Some bs) \<Rightarrow> (None, if bs = [] then h
       else (fill_game bs h)\<lparr>h_server_events := h_server_events h OR POLLOUT\<rparr>))"

definition handleDataToGame :: "pass_input \<Rightarrow> http \<Rightarrow> http step" where
  "handleDataToGame i h = (case writeNonBlock (h_serverBuffer h) (i_game_sends i) of
     Inl f \<Rightarrow> (Some f, h)
   | Inr None \<Rightarrow> (None, h\<lparr>h_game_revents := POLLHUP\<rparr>)
   | Inr (Some n) \<Rightarrow> (None, if n = 0 then h
       else (let h' = drain_server n h in
             if h_serverBuffer h' = [] then h'\<lparr>h_game_events := POLLIN\<rparr> else h')))"

definition handleDataFromServer :: "pass_input \<Rightarrow> http \<Rightarrow> http step" where
  "handleDataFromServer i h = (case readNonBlock (BUFF_SIZE - length (h_serverBuffer h)) (i_server_reads i) of
     Inl f \<Rightarrow> (Some f, h)
   | Inr None \<Rightarrow> (None, h\<lparr>h_server_revents := POLLHUP\<rparr>)
   | Inr (Some bs) \<Rightarrow> (None, if bs = [] then h
       else (fill_server bs h)\<lparr>h_game_events := h_game_events h OR POLLOUT\<rparr>))"

text \<open>\<open>std::string::find\<close>\<close>

fun contains :: "string \<Rightarrow> string \<Rightarrow> bool" where
  "contains w [] = (w = [])"
| "contains w (c # s) = (take (length w) (c # s) = w \<or> contains w s)"

definition handleDataToServer :: "pass_input \<Rightarrow> http \<Rightarrow> http step" where
  "handleDataToServer i h = (case writeNonBlock (h_gameBuffer h) (i_server_sends i) of
     Inl f \<Rightarrow> (Some f, h)
   | Inr None \<Rightarrow> (None, h\<lparr>h_server_revents := POLLHUP\<rparr>)
   | Inr (Some n) \<Rightarrow> (None, if n = 0 then h
       else (let gameData = take n (h_gameBuffer h); h1 = drain_game n h;
                 h2 = (if h_gameBuffer h1 = [] then h1\<lparr>h_server_events := POLLIN\<rparr> else h1)
             in if contains PRE_DISCONNECT_MSG gameData then h2\<lparr>h_preStop := True\<rparr> else h2)))"

definition handleGameError :: "pass_input \<Rightarrow> http \<Rightarrow> http step" where
  "handleGameError i h = (
     if h_game_revents h AND POLLHUP \<noteq> 0 then (Some (Throw \<lparr>err_code = X_CLIENT_DISCONNECTED, err_info = []\<rparr>), h)
     else if h_game_revents h AND POLLNVAL \<noteq> 0
     then (Some (Throw \<lparr>err_code = X_IO_POLL_FAILED, err_info = ''invalid socket (POLLNVAL)''\<rparr>), h)
     else if h_game_revents h AND POLLERR \<noteq> 0 then
       (case i_game_error i of
          GetsockoptFailed e \<Rightarrow> (Some (Throw \<lparr>err_code = X_IO_POLL_FAILED, err_info = ''getsockopt failed during POLLERR: '' @ e\<rparr>), h)
        | SockError e \<Rightarrow> (Some (Throw \<lparr>err_code = X_IO_POLL_FAILED, err_info = e\<rparr>), h)
        | NoSockError \<Rightarrow> (None, h))
     else (None, h))"

definition disconnect_notice :: "string \<Rightarrow> string" where
  "disconnect_notice buf = (
     (if BUFF_SIZE < length buf + length ERR_SERVER_DISC + 1
      then take (BUFF_SIZE - length ERR_SERVER_DISC - 2) buf @ [NL] else buf) @ ERR_SERVER_DISC @ [NL])"

definition handleServerError :: "pass_input \<Rightarrow> http \<Rightarrow> http step" where
  "handleServerError i h = (
     if h_server_revents h AND POLLHUP \<noteq> 0 \<and> \<not> h_preStop h then
       (None, h\<lparr>h_server_events := 0, h_serverBuffer := disconnect_notice (h_serverBuffer h),
                h_notices := Suc (h_notices h), h_game_events := h_game_events h OR POLLOUT\<rparr>)
     else if h_server_revents h AND POLLNVAL \<noteq> 0
     then (Some (Throw \<lparr>err_code = X_IO_POLL_FAILED, err_info = ''invalid socket (POLLNVAL)''\<rparr>), h)
     else if h_server_revents h AND POLLERR \<noteq> 0 then
       (case i_server_error i of
          GetsockoptFailed e \<Rightarrow> (Some (Throw \<lparr>err_code = X_IO_POLL_FAILED, err_info = ''getsockopt failed during POLLERR: '' @ e\<rparr>), h)
        | SockError e \<Rightarrow> (case readNonBlock BUFF_SIZE (i_last_reads i) of
             Inl f \<Rightarrow> (Some f, h)
           | Inr r \<Rightarrow> (let more = (case r of Some (c # bs) \<Rightarrow> e @ '', got last message: '' @ (c # bs) | _ \<Rightarrow> e)
                      in (Some (Throw \<lparr>err_code = X_IO_POLL_FAILED, err_info = more\<rparr>), h)))
        | NoSockError \<Rightarrow> (None, h))
     else (None, h))"

definition error_bits :: events where
  "error_bits = POLLHUP OR POLLERR OR POLLNVAL"

text \<open>The body of the loop inside \<open>try\<close>.\<close>

definition pass_body :: "pass_input \<Rightarrow> http \<Rightarrow> http step" where
  "pass_body i h0 = (case poll (i_poll i) of
     Inl f \<Rightarrow> (Some f, h0\<lparr>h_pipe_revents := 0, h_game_revents := 0, h_server_revents := 0\<rparr>)
   | Inr n \<Rightarrow> (let h = (if n = 0 then h0\<lparr>h_pipe_revents := 0, h_game_revents := 0, h_server_revents := 0\<rparr>
          else h0\<lparr>h_pipe_revents := i_pipe i, h_game_revents := i_game i, h_server_revents := i_server i\<rparr>) in
       andthen (andthen (andthen (andthen (andthen (andthen
         (step_when (h_pipe_revents h AND POLLIN \<noteq> 0)
            (\<lambda>h. andthen (flushPipe i h) (\<lambda>h. step_when (h_server_events h = 0) (connectToServer i) h)) h)
         (\<lambda>h. step_when (h_game_revents h AND POLLIN \<noteq> 0) (handleDataFromGame i) h))
         (\<lambda>h. step_when (h_game_revents h AND POLLOUT \<noteq> 0) (handleDataToGame i) h))
         (\<lambda>h. step_when (h_game_revents h AND error_bits \<noteq> 0) (handleGameError i) h))
         (\<lambda>h. step_when (h_server_revents h AND POLLIN \<noteq> 0) (handleDataFromServer i) h))
         (\<lambda>h. step_when (h_server_revents h AND POLLOUT \<noteq> 0) (handleDataToServer i) h))
         (\<lambda>h. step_when (h_server_revents h AND error_bits \<noteq> 0 \<and> h_server_events h \<noteq> 0) (handleServerError i) h)))"

definition pass :: "pass_input \<Rightarrow> http \<Rightarrow> http" where
  "pass i h = (case pass_body i h of
     (None, h') \<Rightarrow> h'
   | (Some (Throw e), h') \<Rightarrow> if err_code e \<noteq> X_SERVER_CONN_FAILED then exitLoop h' else h'
   | (Some Crash, h') \<Rightarrow> h')"

fun http_loop :: "pass_input list \<Rightarrow> http \<Rightarrow> http" where
  "http_loop [] h = h"
| "http_loop (i # is) h = (if h_keepAlive h then http_loop is (pass i h) else h)"

subsection \<open>An invariant is one that every handler keeps\<close>

lemmas http_handlers = connectToServer_def flushPipe_def handleDataFromGame_def handleDataToGame_def
  handleDataFromServer_def handleDataToServer_def

definition notify_game :: "http \<Rightarrow> http" where
  "notify_game h = h\<lparr>h_server_events := 0, h_serverBuffer := disconnect_notice (h_serverBuffer h),
     h_notices := Suc (h_notices h), h_game_events := h_game_events h OR POLLOUT\<rparr>"

lemma handleServerError_state:
  "snd (handleServerError i h) = (if h_server_revents h AND POLLHUP \<noteq> 0 \<and> \<not> h_preStop h then notify_game h else h)"
  unfolding handleServerError_def Let_def notify_game_def by (simp split: sum.split sock_error.split)

lemma handleGameError_state [simp]: "snd (handleGameError i h) = h"
  unfolding handleGameError_def by (simp split: sock_error.split)

text \<open>What the loop needs of \<open>P\<close>: the masks and the flags do not matter, and each handler keeps it.\<close>

locale http_invariant =
  fixes P :: "http \<Rightarrow> bool"
  assumes masks: "P h \<Longrightarrow> P (h\<lparr>h_pipe_revents := a, h_game_revents := b, h_server_revents := c\<rparr>)"
    and alive: "P h \<Longrightarrow> P (h\<lparr>h_keepAlive := k\<rparr>)"
    and flush: "P h \<Longrightarrow> P (snd (flushPipe i h))"
    and reconnect: "P h \<Longrightarrow> P (snd (connectToServer i h))"
    and from_game: "P h \<Longrightarrow> P (snd (handleDataFromGame i h))"
    and to_game: "P h \<Longrightarrow> P (snd (handleDataToGame i h))"
    and game_error: "P h \<Longrightarrow> P (snd (handleGameError i h))"
    and from_server: "P h \<Longrightarrow> P (snd (handleDataFromServer i h))"
    and to_server: "P h \<Longrightarrow> P (snd (handleDataToServer i h))"
    and server_error: "P h \<Longrightarrow> P (snd (handleServerError i h))"
begin

lemmas handlers_keep = flush reconnect from_game to_game game_error from_server to_server server_error

lemma pass_body_keeps:
  assumes "P h"
  shows "P (snd (pass_body i h))"
proof (cases "poll (i_poll i)")
  case (Inl f)
  then show ?thesis using masks[OF assms] by (simp add: pass_body_def)
next
  case (Inr n)
  show ?thesis unfolding pass_body_def Inr sum.case Let_def
    by (intro andthen_keeps[where P = P] step_when_keeps[where P = P] handlers_keep)
      (simp_all add: masks assms)
qed

lemma pass_keeps: "P h \<Longrightarrow> P (pass i h)"
  using pass_body_keeps[of h i]
  by (auto simp: pass_def exitLoop_def split: prod.split option.split failure.split intro: alive)

lemma loop_keeps: "P h \<Longrightarrow> P (http_loop is h)"
  by (induction "is" arbitrary: h) (simp_all add: pass_keeps)

end

definition buffers_bounded :: "http \<Rightarrow> bool" where
  "buffers_bounded h = (length (h_serverBuffer h) \<le> BUFF_SIZE \<and> length (h_gameBuffer h) \<le> BUFF_SIZE)"

lemma length_disconnect_notice: "length buf \<le> BUFF_SIZE \<Longrightarrow> length (disconnect_notice buf) \<le> BUFF_SIZE"
  by (auto simp: disconnect_notice_def BUFF_SIZE_def ERR_SERVER_DISC_def)

lemma fill_bounded:
  assumes "readNonBlock (BUFF_SIZE - length buf) outs = Inr (Some bs)" and "length buf \<le> BUFF_SIZE"
  shows "length (buf @ bs) \<le> BUFF_SIZE"
  using readNonBlock_bounds[OF assms(1)] assms(2) by simp

interpretation bounded: http_invariant buffers_bounded
proof unfold_locales
  fix i h assume b: "buffers_bounded h"
  show "buffers_bounded (snd (handleDataFromGame i h))"
    using b fill_bounded[of "h_gameBuffer h" "i_game_reads i"]
    by (auto simp: handleDataFromGame_def buffers_bounded_def fill_game_def split: sum.split option.split)
  show "buffers_bounded (snd (handleDataFromServer i h))"
    using b fill_bounded[of "h_serverBuffer h" "i_server_reads i"]
    by (auto simp: handleDataFromServer_def buffers_bounded_def fill_server_def split: sum.split option.split)
  show "buffers_bounded (snd (handleServerError i h))"
    using b by (simp add: handleServerError_state notify_game_def buffers_bounded_def length_disconnect_notice)
qed (auto simp: http_handlers buffers_bounded_def drain_server_def drain_game_def Let_def
      split: sum.split option.split)

definition streams_in_order :: "http \<Rightarrow> bool" where
  "streams_in_order h = (upward.in_order h \<and> (h_notices h = 0 \<longrightarrow> downward.in_order h))"

lemma in_order_masks [simp]:
  "upward.in_order (h\<lparr>h_game_events := e\<rparr>) = upward.in_order h" "downward.in_order (h\<lparr>h_game_events := e\<rparr>) = downward.in_order h"
  "upward.in_order (h\<lparr>h_server_events := e\<rparr>) = upward.in_order h" "downward.in_order (h\<lparr>h_server_events := e\<rparr>) = downward.in_order h"
  "upward.in_order (h\<lparr>h_game_revents := e\<rparr>) = upward.in_order h" "downward.in_order (h\<lparr>h_game_revents := e\<rparr>) = downward.in_order h"
  "upward.in_order (h\<lparr>h_server_revents := e\<rparr>) = upward.in_order h" "downward.in_order (h\<lparr>h_server_revents := e\<rparr>) = downward.in_order h"
  "upward.in_order (h\<lparr>h_pipe_revents := e\<rparr>) = upward.in_order h" "downward.in_order (h\<lparr>h_pipe_revents := e\<rparr>) = downward.in_order h"
  "upward.in_order (h\<lparr>h_keepAlive := k\<rparr>) = upward.in_order h" "downward.in_order (h\<lparr>h_keepAlive := k\<rparr>) = downward.in_order h"
  "upward.in_order (h\<lparr>h_preStop := k\<rparr>) = upward.in_order h" "downward.in_order (h\<lparr>h_preStop := k\<rparr>) = downward.in_order h"
  by (simp_all add: upward.in_order_def downward.in_order_def)

lemma in_order_other [simp]:
  "upward.in_order (fill_server bs h) = upward.in_order h" "upward.in_order (drain_server n h) = upward.in_order h"
  "downward.in_order (fill_game bs h) = downward.in_order h" "downward.in_order (drain_game n h) = downward.in_order h"
  by (simp_all add: upward.in_order_def downward.in_order_def fill_server_def drain_server_def fill_game_def drain_game_def)

lemma notices_relay [simp]: "h_notices (fill_server bs h) = h_notices h" "h_notices (fill_game bs h) = h_notices h"
  "h_notices (drain_server n h) = h_notices h" "h_notices (drain_game n h) = h_notices h"
  by (simp_all add: fill_server_def drain_server_def fill_game_def drain_game_def)

interpretation ordered: http_invariant streams_in_order
proof unfold_locales
  fix i h assume s: "streams_in_order h"
  show "streams_in_order (snd (handleServerError i h))"
    using s by (simp add: handleServerError_state notify_game_def streams_in_order_def upward.in_order_def)
qed (auto simp: http_handlers streams_in_order_def Let_def upward.fill_in_order upward.drain_in_order
      downward.fill_in_order downward.drain_in_order split: sum.split option.split)

lemma fresh_http: "buffers_bounded (snd (ClientHTTP i))" "streams_in_order (snd (ClientHTTP i))"
  by (auto simp: ClientHTTP_def connectToServer_def new_http_def buffers_bounded_def streams_in_order_def
      upward.in_order_def downward.in_order_def split: option.split)

end
