(* ===== verification/UI.thy ===== *)
theory UI
  imports Message ClientHTTP
begin

text \<open>
  The client's engine (\<open>client/shared/include/UI.hpp\<close>, \<open>source/UI.cpp\<close>), the base class of the terminal and the
  Qt interface.  Its virtual functions are the fields of a \<open>face\<close>, which every operation that calls one
  takes as an argument; the classes that derive from it extend the record \<open>engine\<close> with their own members.
  A name with the prefix \<open>UI_\<close> is the base class's version of a function that is overridden.  The buffers
  are their used parts.  Assertions are enabled in the build: a failed one is \<open>Crash\<close>, as is an exception
  that leaves a \<open>noexcept\<close> function.  \<open>u_sent\<close> and \<open>u_received\<close> record the bytes exchanged with the network
  worker, \<open>u_lines\<close> the lines that were dispatched; the code has no such fields.
\<close>

datatype GamePhase = P_ND | P_LOGIN | P_PLAYER_CREATE | P_GAME | P_ERROR

definition CMD_HINTS :: "string list" where
  "CMD_HINTS = [''LOOK'', ''MOVE'', ''WHO'', ''TAKE'', ''DROP'', ''INVENTORY'', ''TALK'', ''ATTACK'', ''STATUS'',
     ''QUEST'', ''QUESTS'', ''QUIT'', ''USE'']"

definition CHAT_CMD_HINTS :: "string list" where
  "CHAT_CMD_HINTS = [''GROUP CREATE'', ''GROUP INVITE'', ''GROUP JOIN'', ''GROUP LEAVE'', ''CHAT GROUP'',
     ''CHAT ROOM'', ''CHAT GLOBAL'', ''QUIT'']"

record player_info =
  pi_username :: string
  pi_hp :: "32 word"
  pi_group :: string
  pi_location :: string

text \<open>The hit points of a new client are not initialised in the code; they are set before they are shown.\<close>

definition no_info :: player_info where
  "no_info = \<lparr>pi_username = [], pi_hp = 0, pi_group = [], pi_location = []\<rparr>"

definition HAND_SHAKE :: string where "HAND_SHAKE = ''OK hello proto=1''"
definition OK_CONNECTED :: string where "OK_CONNECTED = ''OK connected''"

record engine =
  u_phase :: GamePhase
  u_lastPhase :: GamePhase
  u_queue :: "message list"
  u_connEstablished :: bool
  u_toServer :: string
  u_toGame :: string
  u_info :: player_info
  u_worker :: bool
  u_wakeups :: nat
  u_sent :: string
  u_received :: string
  u_lines :: "string list"

text \<open>The virtual functions, in three layers: a function of the engine takes the layer whose functions it calls,
  so that an override can be built on the base version.\<close>

record 'u speaker =
  startSpeaking_of :: "'u \<Rightarrow> 'u"
  stopSpeaking_of :: "'u \<Rightarrow> 'u"

record 'u switcher = "'u speaker" +
  switchWindow_of :: "GamePhase option \<Rightarrow> 'u \<Rightarrow> 'u step"

record 'u face = "'u switcher" +
  shakeHands_of :: "'u \<Rightarrow> 'u step"
  stop_of :: "'u \<Rightarrow> 'u"
  showResponse_of :: "message \<Rightarrow> 'u \<Rightarrow> 'u step"
  showEvent_of :: "message \<Rightarrow> 'u \<Rightarrow> 'u step"
  showError_of :: "message \<Rightarrow> 'u \<Rightarrow> 'u step"

fun phase_name :: "GamePhase \<Rightarrow> string" where
  "phase_name P_LOGIN = ''login''"
| "phase_name P_PLAYER_CREATE = ''character creation''"
| "phase_name P_GAME = ''game''"
| "phase_name P_ERROR = ''error''"
| "phase_name P_ND = ''unset''"

definition fail :: "ErrorCode \<Rightarrow> string \<Rightarrow> 's \<Rightarrow> 's step" where
  "fail c i s = (Some (Throw \<lparr>err_code = c, err_info = i\<rparr>), s)"

definition crash :: "'s \<Rightarrow> 's step" where
  "crash s = (Some Crash, s)"

subsection \<open>Switching windows\<close>

definition updatePhase :: "('a engine_scheme, 'b) speaker_scheme \<Rightarrow> GamePhase option \<Rightarrow> 'a engine_scheme \<Rightarrow> 'a engine_scheme step" where
  "updatePhase f newPhase u =
     (if newPhase = None \<and> u_lastPhase u = P_ND then crash u
      else (let p = (case newPhase of None \<Rightarrow> u_lastPhase u | Some p \<Rightarrow> p) in
        if \<not> u_connEstablished u \<and> p \<noteq> P_LOGIN \<and> p \<noteq> P_ERROR then fail X_UI_HANDSHAKE_NOT_DONE [] u
        else (let u1 = (if p = P_ERROR then u\<lparr>u_lastPhase := u_phase u\<rparr>
                        else if u_phase u \<noteq> P_ERROR then u\<lparr>u_lastPhase := P_ND\<rparr> else u);
                  u2 = (if p = P_ERROR then stopSpeaking_of f u1
                        else if u_toServer u1 \<noteq> [] then startSpeaking_of f u1 else u1)
              in (None, u2\<lparr>u_phase := p\<rparr>))))"

definition push_command :: "string \<Rightarrow> 'a engine_scheme \<Rightarrow> 'a engine_scheme step" where
  "push_command s u = (case Message s of Inl e \<Rightarrow> (Some e, u) | Inr m \<Rightarrow> (None, u\<lparr>u_queue := u_queue u @ [m]\<rparr>))"

definition UI_switchWindow :: "('a engine_scheme, 'b) speaker_scheme \<Rightarrow> GamePhase option \<Rightarrow> 'a engine_scheme \<Rightarrow> 'a engine_scheme step" where
  "UI_switchWindow f newPhase u = andthen (updatePhase f newPhase u)
     (\<lambda>u. step_when (u_phase u = P_GAME) (push_command ''PROFILE'') u)"

subsection \<open>Starting, stopping, handshake\<close>

definition UI_start :: "'a engine_scheme \<Rightarrow> 'a engine_scheme step" where
  "UI_start u = push_command (command_name C_WAIT_HANDSHAKE) (u\<lparr>u_worker := True\<rparr>)"

definition UI_stop :: "'a engine_scheme \<Rightarrow> 'a engine_scheme" where
  "UI_stop u = u\<lparr>u_worker := False\<rparr>"

definition reconnect :: "'a engine_scheme \<Rightarrow> 'a engine_scheme" where
  "reconnect u = u\<lparr>u_wakeups := Suc (u_wakeups u)\<rparr>"

definition noexcept :: "'s step \<Rightarrow> 's step" where
  "noexcept r = (case r of (Some _, s) \<Rightarrow> (Some Crash, s) | (None, s) \<Rightarrow> (None, s))"

definition UI_shakeHands :: "('a engine_scheme, 'b) switcher_scheme \<Rightarrow> 'a engine_scheme \<Rightarrow> 'a engine_scheme step" where
  "UI_shakeHands f u0 = noexcept (let u = u0\<lparr>u_connEstablished := True\<rparr> in
     if u_phase u = P_ND then switchWindow_of f (Some P_LOGIN) u
     else if u_phase u = P_ERROR then
       (if pi_username (u_info u) \<noteq> []
        then andthen (push_command (command_name C_CONNECT @ '' '' @ pi_username (u_info u)) u) (\<lambda>u. (None, startSpeaking_of f u))
        else switchWindow_of f None u)
     else (None, u))"

subsection \<open>Dispatching a line\<close>

definition front_command :: "'a engine_scheme \<Rightarrow> CommandType option" where
  "front_command u = (case u_queue u of [] \<Rightarrow> None | m # _ \<Rightarrow> getCommandType m)"

definition respond :: "('a engine_scheme, 'b) face_scheme \<Rightarrow> message \<Rightarrow> 'a engine_scheme \<Rightarrow> 'a engine_scheme step" where
  "respond f m u = (case u_phase u of
     P_ND \<Rightarrow> step_when (m_raw m = HAND_SHAKE) (shakeHands_of f) u
   | P_LOGIN \<Rightarrow> step_when (m_raw m = OK_CONNECTED) (switchWindow_of f (Some P_GAME)) u
   | P_PLAYER_CREATE \<Rightarrow> step_when (m_raw m = OK_CONNECTED) (switchWindow_of f (Some P_GAME)) u
   | P_GAME \<Rightarrow> showResponse_of f m u
   | P_ERROR \<Rightarrow> (case front_command u of
         None \<Rightarrow> crash u
       | Some c \<Rightarrow> if c = C_WAIT_HANDSHAKE then shakeHands_of f u
           else if c = C_CONNECT then switchWindow_of f None u
           else (None, u)))"

definition notify :: "('a engine_scheme, 'b) face_scheme \<Rightarrow> message \<Rightarrow> 'a engine_scheme \<Rightarrow> 'a engine_scheme step" where
  "notify f m u = (if u_phase u = P_GAME then showEvent_of f m u else (None, u))"

definition throw_text :: "ErrorCode \<Rightarrow> string outcome \<Rightarrow> 'a engine_scheme \<Rightarrow> 'a engine_scheme step" where
  "throw_text c t u = (case t of Inl e \<Rightarrow> (Some e, u) | Inr s \<Rightarrow> fail c s u)"

definition report :: "('a engine_scheme, 'b) face_scheme \<Rightarrow> message \<Rightarrow> 'a engine_scheme \<Rightarrow> 'a engine_scheme step" where
  "report f m u = (case u_phase u of
     P_ND \<Rightarrow> (None, u)
   | P_LOGIN \<Rightarrow> if getErrorType m = Some E_CHARACTER_NOT_FOUND then fail X_UI_USERNAME_NOT_EXISTS [] u
       else throw_text X_SERVER_ERROR (toStringError m) u
   | P_PLAYER_CREATE \<Rightarrow> if getErrorType m = Some E_NAME_IN_USE then fail X_UI_USERNAME_IN_USE [] u
       else throw_text X_SERVER_ERROR (toStringError m) u
   | P_GAME \<Rightarrow> showError_of f m u
   | P_ERROR \<Rightarrow> fail X_SERVER_ERROR (m_raw m) u)"

definition pop_front :: "'a engine_scheme \<Rightarrow> 'a engine_scheme" where
  "pop_front u = u\<lparr>u_queue := tl (u_queue u)\<rparr>"

definition dispatch_parsed :: "('a engine_scheme, 'b) face_scheme \<Rightarrow> message \<Rightarrow> 'a engine_scheme \<Rightarrow> 'a engine_scheme step" where
  "dispatch_parsed f m u =
     (if isResponse m then
        (if u_queue u \<noteq> [] then andthen (respond f m u)
            (\<lambda>u. case front_command u of None \<Rightarrow> crash u
               | Some c \<Rightarrow> (None, pop_front (if c = C_QUIT then stop_of f u else u)))
         else (None, u))
      else if isError m then
        (if getErrorType m = Some E_CONNECTION_FAILED then fail X_SERVER_DISCONNECTED [] u
         else if u_queue u \<noteq> [] then andthen (report f m u) (\<lambda>u. (None, pop_front u))
         else (None, u))
      else if isEvent m then notify f m u
      else (None, u))"

definition dispatchMessage :: "('a engine_scheme, 'b) face_scheme \<Rightarrow> string \<Rightarrow> 'a engine_scheme \<Rightarrow> 'a engine_scheme step" where
  "dispatchMessage f msg u0 = (let u = u0\<lparr>u_lines := u_lines u0 @ [msg]\<rparr> in case Message msg of
     Inl (Throw e) \<Rightarrow> if err_code e \<noteq> X_BAD_MESSAGE then (Some (Throw e), u) else (None, u)
   | Inl Crash \<Rightarrow> crash u
   | Inr m \<Rightarrow> dispatch_parsed f m u)"

text \<open>The loop takes the text out of the buffer line by line; \<open>dispatchMessage\<close> does not touch the buffer
  (\<open>dispatch_buffer\<close> below), so the rest of the text can be carried as an argument.\<close>

lemma after_line_shorter: "NL \<in> set buf \<Longrightarrow> length (tl (dropWhile (\<lambda>c. c \<noteq> NL) buf)) < length buf"
proof -
  assume "NL \<in> set buf"
  then have "0 < length buf" by (cases buf) auto
  then show ?thesis using length_dropWhile_le'[of "\<lambda>c. c \<noteq> NL" buf] unfolding length_tl by linarith
qed

function split_messages :: "('a engine_scheme, 'b) face_scheme \<Rightarrow> string \<Rightarrow> 'a engine_scheme \<Rightarrow> 'a engine_scheme step" where
  "split_messages f buf u = (if NL \<notin> set buf then (None, u\<lparr>u_toGame := buf\<rparr>)
     else (let msg = takeWhile (\<lambda>c. c \<noteq> NL) buf; rest = tl (dropWhile (\<lambda>c. c \<noteq> NL) buf); u1 = u\<lparr>u_toGame := rest\<rparr> in
       if msg = [] then split_messages f rest u1
       else (case dispatchMessage f msg u1 of
           (Some e, u2) \<Rightarrow> (Some e, u2)
         | (None, u2) \<Rightarrow> split_messages f rest u2)))"
  by pat_completeness auto
termination
  by (relation "measure (\<lambda>(_, buf, _). length buf)") (simp_all add: after_line_shorter del: length_tl)

declare split_messages.simps [simp del]

lemma split_messages_rest: "NL \<notin> set b \<Longrightarrow> split_messages f b u = (None, u\<lparr>u_toGame := b\<rparr>)"
  by (subst split_messages.simps) simp

lemma split_messages_line:
  assumes "NL \<notin> set l" and "l \<noteq> []"
  shows "split_messages f (l @ NL # b) u = (case dispatchMessage f l (u\<lparr>u_toGame := b\<rparr>) of
      (Some e, v) \<Rightarrow> (Some e, v) | (None, v) \<Rightarrow> split_messages f b v)"
proof -
  have t: "takeWhile (\<lambda>c. c \<noteq> NL) (l @ NL # b) = l" "dropWhile (\<lambda>c. c \<noteq> NL) (l @ NL # b) = NL # b"
    using assms(1) by (subst takeWhile_append2 dropWhile_append2; auto)+
  show ?thesis using assms(2) by (subst split_messages.simps) (simp only: t Let_def list.sel(3), simp)
qed

definition splitIntoMessages :: "('a engine_scheme, 'b) face_scheme \<Rightarrow> 'a engine_scheme \<Rightarrow> 'a engine_scheme step" where
  "splitIntoMessages f u = split_messages f (u_toGame u) u"

subsection \<open>Reading and writing\<close>

definition readFromServer :: "('a engine_scheme, 'b) face_scheme \<Rightarrow> recv_out list \<Rightarrow> 'a engine_scheme \<Rightarrow> 'a engine_scheme step" where
  "readFromServer f reads u = (case readNonBlock (BUFF_SIZE - length (u_toGame u)) reads of
     Inl e \<Rightarrow> (Some e, u)
   | Inr None \<Rightarrow> fail X_CLIENT_DISCONNECTED [] u
   | Inr (Some bs) \<Rightarrow> if bs = [] then (None, u)
       else andthen (splitIntoMessages f (u\<lparr>u_toGame := u_toGame u @ bs, u_received := u_received u @ bs\<rparr>))
          (\<lambda>u. (None, if u_queue u \<noteq> [] then startSpeaking_of f u else u)))"

definition fill_toServer :: "'a engine_scheme \<Rightarrow> 'a engine_scheme step" where
  "fill_toServer u = (if u_toServer u \<noteq> [] then (None, u)
     else (case u_queue u of
         [] \<Rightarrow> crash u
       | m # _ \<Rightarrow> if BUFF_SIZE < length (m_raw m) + 1 then crash u
           else (None, u\<lparr>u_toServer := m_raw m @ [COMMAND_TERM]\<rparr>)))"

definition writeToServer :: "('a engine_scheme, 'b) speaker_scheme \<Rightarrow> send_out list \<Rightarrow> 'a engine_scheme \<Rightarrow> 'a engine_scheme step" where
  "writeToServer f sends u0 =
     (if \<not> u_connEstablished u0 then fail X_UI_HANDSHAKE_NOT_DONE ''Tried to send data without handshake'' u0
      else andthen (fill_toServer u0) (\<lambda>u. case writeNonBlock (u_toServer u) sends of
          Inl e \<Rightarrow> (Some e, u)
        | Inr None \<Rightarrow> fail X_CLIENT_DISCONNECTED [] u
        | Inr (Some n) \<Rightarrow> (None, if n = 0 then u
            else (let u1 = u\<lparr>u_toServer := drop n (u_toServer u), u_sent := u_sent u @ take n (u_toServer u)\<rparr>
                  in if u_toServer u1 = [] then stopSpeaking_of f u1 else u1))))"

subsection \<open>Errors and commands\<close>

definition UI_handleException :: "('a engine_scheme, 'b) face_scheme \<Rightarrow> ErrorData \<Rightarrow> 'a engine_scheme \<Rightarrow> 'a engine_scheme step" where
  "UI_handleException f error u =
     (if err_code error = X_SERVER_DISCONNECTED
      then andthen (push_command (command_name C_WAIT_HANDSHAKE) (u\<lparr>u_queue := [], u_toGame := [], u_toServer := []\<rparr>))
             (\<lambda>u. switchWindow_of f (Some P_ERROR) (u\<lparr>u_connEstablished := False\<rparr>))
      else switchWindow_of f (Some P_ERROR) u)"

definition UI_handleCommand :: "('a engine_scheme, 'b) speaker_scheme \<Rightarrow> string \<Rightarrow> 'a engine_scheme \<Rightarrow> 'a engine_scheme step" where
  "UI_handleCommand f input u =
     (let form = (u_phase u = P_LOGIN \<or> u_phase u = P_PLAYER_CREATE);
          u1 = (if form then pop_front u else u);
          command = (if u_phase u = P_LOGIN then command_name C_CONNECT @ '' '' @ input
                     else if u_phase u = P_PLAYER_CREATE then command_name C_CREATE_PLAYER @ '' '' @ input else input)
      in andthen (push_command command u1) (\<lambda>u. (None, if length (u_queue u) = 1 then startSpeaking_of f u else u)))"

subsection \<open>What both interfaces do with an answer\<close>

text \<open>Both overrides of \<open>showResponse\<close> keep the player's data up to date in the same way; \<open>None\<close>: the answer to
  this command does not concern them.\<close>

definition to_hp :: "json \<Rightarrow> 32 word" where
  "to_hp j = word_of_int (as_int j)"

definition tracked_info :: "message \<Rightarrow> CommandType \<Rightarrow> player_info \<Rightarrow> player_info option" where
  "tracked_info response c i = (let j = m_data response; str = (\<lambda>k. as_string (json_at j k)) in
     if c = C_PROFILE then Some \<lparr>pi_username = str ''name'', pi_hp = to_hp (json_at j ''hp''),
         pi_group = str ''group'', pi_location = str ''room''\<rparr>
     else if c = C_MOVE then Some (i\<lparr>pi_location := str ''room''\<rparr>)
     else if c = C_ATTACK then Some (i\<lparr>pi_hp := to_hp (json_at j ''player_hp'')\<rparr>)
     else if c = C_GROUP_CREATE then Some (i\<lparr>pi_group := str ''created''\<rparr>)
     else if c = C_GROUP_JOIN then Some (i\<lparr>pi_group := str ''joined''\<rparr>)
     else if c = C_GROUP_LEAVE then Some (i\<lparr>pi_group := []\<rparr>)
     else None)"

text \<open>The pane that sent a command, where its answer is shown; a command in neither list fails the assertion.\<close>

datatype which_tab = CmdTab | ChatTab

definition tab_of_command :: "CommandType \<Rightarrow> which_tab option" where
  "tab_of_command c = (if command_name c \<in> set CMD_HINTS then Some CmdTab
     else if command_name c \<in> set CHAT_CMD_HINTS then Some ChatTab else None)"

definition panel_lines :: "player_info \<Rightarrow> string list" where
  "panel_lines data = [''Player: '' @ pi_username data, ''HP: '' @ show_nat (unat (pi_hp data)),
     ''Currently in: '' @ pi_location data,
     (if pi_group data = [] then ''Not in group'' else ''Member of: '' @ pi_group data)]"

text \<open>What a button of a window does.\<close>

datatype button_action = SwitchWindow "GamePhase option" | StopEngine | Reconnect

definition run_button :: "('a engine_scheme, 'b) face_scheme \<Rightarrow> button_action \<Rightarrow> 'a engine_scheme \<Rightarrow> 'a engine_scheme step" where
  "run_button f a u = (case a of
     SwitchWindow p \<Rightarrow> switchWindow_of f p u | StopEngine \<Rightarrow> (None, stop_of f u) | Reconnect \<Rightarrow> (None, reconnect u))"

end
