(* ===== verification/Windows.thy ===== *)
theory Windows
  imports InputTab OutputTab UI "HOL-Library.While_Combinator"
begin

text \<open>
  The windows of the CLI (\<open>client/cli/source\<close>: \<open>NcWindow\<close>, \<open>InOutTab\<close>, \<open>GameWindow\<close>, \<open>LoginWindow\<close>,
  \<open>PlayerCreateWindow\<close>, \<open>ErrorWindow\<close>): which tab has the keyboard, what a key does, what is appended
  where, and where the tabs are placed on the screen.  A button's action is a value that the interface
  runs.  Colours and attributes are the masks of \<open>ncurses.h\<close>; painting is not modelled.
\<close>

unbundle bit_operations_syntax

definition A_NORMAL :: "32 word" where "A_NORMAL = 0"
definition A_BOLD :: "32 word" where "A_BOLD = 0x200000"

definition NC_BLUE_COLOR :: nat where "NC_BLUE_COLOR = 1"
definition NC_RED_COLOR :: nat where "NC_RED_COLOR = 2"
definition NC_GREEN_COLOR :: nat where "NC_GREEN_COLOR = 3"
definition NC_YELLOW_COLOR :: nat where "NC_YELLOW_COLOR = 4"
definition NC_CYAN_COLOR :: nat where "NC_CYAN_COLOR = 5"

definition COLOR_PAIR :: "nat \<Rightarrow> 32 word" where
  "COLOR_PAIR n = push_bit 8 (of_nat n)"

definition PROMPT :: string where "PROMPT = ''-> ''"

subsection \<open>Which tab is active\<close>

text \<open>The loop that skips tabs: no result when every tab it meets is to be skipped.\<close>

definition skip_tabs :: "nat \<Rightarrow> nat list \<Rightarrow> nat \<Rightarrow> nat option" where
  "skip_tabs n skip i = while_option (\<lambda>i. i \<in> set skip) (\<lambda>i. (i + 1) mod n) i"

definition switchActiveTab :: "nat \<Rightarrow> nat list \<Rightarrow> int \<Rightarrow> nat \<Rightarrow> nat option" where
  "switchActiveTab n skip index active = (if n = 0 then Some active
     else skip_tabs n skip (if -1 < index then nat index else (active + 1) mod n))"

text \<open>The tab reached is the first one in cyclic order that is not skipped.\<close>

lemma skip_tabs_reaches:
  "(\<And>j. j < d \<Longrightarrow> (i + j) mod n \<in> set skip) \<Longrightarrow> (i + d) mod n \<notin> set skip \<Longrightarrow> i < n \<Longrightarrow>
   skip_tabs n skip i = Some ((i + d) mod n)"
proof (induction d arbitrary: i)
  case 0
  then show ?case by (simp add: skip_tabs_def while_option_unfold)
next
  case (Suc d)
  have "i \<in> set skip" using Suc.prems(1)[of 0] Suc.prems(3) by simp
  then have "skip_tabs n skip i = skip_tabs n skip ((i + 1) mod n)"
    unfolding skip_tabs_def by (subst while_option_unfold) simp
  also have "\<dots> = Some (((i + 1) mod n + d) mod n)"
  proof (rule Suc.IH)
    show "((i + 1) mod n + j) mod n \<in> set skip" if "j < d" for j
      using Suc.prems(1)[of "Suc j"] that by (simp add: mod_add_left_eq)
    show "((i + 1) mod n + d) mod n \<notin> set skip" using Suc.prems(2) by (simp add: mod_add_left_eq)
    show "(i + 1) mod n < n" using Suc.prems(3) by simp
  qed
  finally show ?case by (simp add: mod_add_left_eq)
qed

lemma skip_tabs_some:
  assumes "i < n" and "j < n" and "j \<notin> set skip"
  shows "\<exists>k. skip_tabs n skip i = Some k \<and> k < n \<and> k \<notin> set skip"
proof -
  have "(i + (j + n - i)) mod n = j" using assms by simp
  then have ex: "\<exists>d. (i + d) mod n \<notin> set skip" using assms(3) by metis
  define d where "d = (LEAST d. (i + d) mod n \<notin> set skip)"
  have "(i + d) mod n \<notin> set skip" unfolding d_def by (rule LeastI_ex[OF ex])
  moreover have "(i + e) mod n \<in> set skip" if "e < d" for e using not_less_Least[OF that[unfolded d_def]] by simp
  ultimately show ?thesis using skip_tabs_reaches[of d i n skip] assms(1) by simp
qed

lemma skip_tabs_never:
  assumes "\<forall>j < n. j \<in> set skip" and "i < n"
  shows "skip_tabs n skip i = None"
proof (cases "skip_tabs n skip i")
  case (Some k)
  have "k < n" using Some assms(2) unfolding skip_tabs_def
    by (rule while_option_rule[where P = "\<lambda>i. i < n", rotated]) simp
  moreover have "k \<notin> set skip" using Some unfolding skip_tabs_def by (rule while_option_stop)
  ultimately show ?thesis using assms(1) by blast
qed

subsection \<open>A tab with output and input\<close>

record inout_tab =
  io_in :: input_tab
  io_out :: output_tab

definition new_inout :: "string list \<Rightarrow> inout_tab" where
  "new_inout hints = \<lparr>io_in = new_input_tab hints PROMPT, io_out = new_output_tab\<rparr>"

text \<open>The test parse of \<open>InOutTab::terminateCommand\<close>; an exception that is not \<open>BAD_MESSAGE\<close> goes on.\<close>

definition goodCommand :: "string list \<Rightarrow> string \<Rightarrow> bool outcome" where
  "goodCommand hints command = (case Message command of
     Inl (Throw e) \<Rightarrow> if err_code e = X_BAD_MESSAGE then Inr False else Inl (Throw e)
   | Inl Crash \<Rightarrow> Inl Crash
   | Inr m \<Rightarrow> Inr (case getCommandType m of None \<Rightarrow> False | Some c \<Rightarrow> command_name c \<in> set hints))"

definition INVALID_COMMAND :: string where "INVALID_COMMAND = ''Invalid command''"

definition inout_terminate :: "string \<Rightarrow> send_out \<Rightarrow> inout_tab \<Rightarrow> failure option \<times> inout_tab" where
  "inout_terminate now w t = (let i = io_in t; command = it_buffer i in
     if command = [] then (None, t)
     else (case goodCommand (it_hints i) command of
       Inl f \<Rightarrow> (Some f, t)
     | Inr good \<Rightarrow>
        (let out1 = appendContent now command AlignLeft A_BOLD True (io_out t);
             i1 = i\<lparr>it_history := command # it_history i\<rparr>;
             done = (\<lambda>i out. \<lparr>io_in = writePromptLine (clearHints (i\<lparr>it_buffer := []\<rparr>)), io_out = out\<rparr>)
         in if good then
              (case write_fd command w of
                 Inl f \<Rightarrow> (Some f, \<lparr>io_in = i1, io_out = out1\<rparr>)
               | Inr n \<Rightarrow> (None, done (i1\<lparr>it_pipe := it_pipe i @ take n command\<rparr>) out1))
            else (None, done i1 (appendContent now INVALID_COMMAND AlignLeft (COLOR_PAIR NC_RED_COLOR OR A_BOLD) True out1)))))"

text \<open>The dispatcher of \<open>OutputTab\<close> is set last: the arrow keys scroll.\<close>

definition inout_key :: "string \<Rightarrow> send_out \<Rightarrow> int \<Rightarrow> inout_tab \<Rightarrow> failure option \<times> inout_tab" where
  "inout_key now w k t =
     (if k = KEY_UP then (None, t\<lparr>io_out := scrollContentUp (io_out t)\<rparr>)
      else if k = KEY_DOWN then (None, t\<lparr>io_out := scrollContentDown (io_out t)\<rparr>)
      else if k = 10 then inout_terminate now w t
      else (case handleUserInput w k (io_in t) of (f, i) \<Rightarrow> (f, t\<lparr>io_in := i\<rparr>)))"

definition output_key :: "int \<Rightarrow> output_tab \<Rightarrow> output_tab" where
  "output_key k t = (if k = KEY_UP then scrollContentUp t else if k = KEY_DOWN then scrollContentDown t else t)"

subsection \<open>The game window\<close>

record game_window =
  gw_info :: output_tab
  gw_world :: output_tab
  gw_cmd :: inout_tab
  gw_chat :: inout_tab
  gw_active :: nat

definition game_skip :: "nat list" where "game_skip = [0, 1]"

definition new_game_window :: game_window where
  "new_game_window = \<lparr>gw_info = new_output_tab, gw_world = new_output_tab, gw_cmd = new_inout CMD_HINTS,
     gw_chat = new_inout CHAT_CMD_HINTS, gw_active = 3\<rparr>"

definition append_to :: "which_tab \<Rightarrow> (output_tab \<Rightarrow> output_tab) \<Rightarrow> game_window \<Rightarrow> game_window" where
  "append_to tab f g = (case tab of
     CmdTab \<Rightarrow> g\<lparr>gw_cmd := (gw_cmd g)\<lparr>io_out := f (io_out (gw_cmd g))\<rparr>\<rparr>
   | ChatTab \<Rightarrow> g\<lparr>gw_chat := (gw_chat g)\<lparr>io_out := f (io_out (gw_chat g))\<rparr>\<rparr>)"

definition appendResponse ::
  "(double \<Rightarrow> string) \<Rightarrow> string \<Rightarrow> message \<Rightarrow> CommandType \<Rightarrow> game_window \<Rightarrow> game_window outcome" where
  "appendResponse fmt now response cmdType g =
     (if cmdType = C_GROUP_CHAT \<or> cmdType = C_ROOM_CHAT \<or> cmdType = C_GLOBAL_CHAT then Inr g
      else (case tab_of_command cmdType of
          None \<Rightarrow> Inl Crash
        | Some tab \<Rightarrow> Inr (append_to tab (appendContent now (toStringResponse fmt response cmdType) AlignLeft
              (COLOR_PAIR (if tab = CmdTab then NC_CYAN_COLOR else NC_GREEN_COLOR) OR A_BOLD) False) g)))"

definition appendEvent :: "string \<Rightarrow> message \<Rightarrow> game_window \<Rightarrow> game_window outcome" where
  "appendEvent now event g = (case toStringEvent event of Inl f \<Rightarrow> Inl f
     | Inr content \<Rightarrow> Inr (g\<lparr>gw_world := appendContent now content AlignLeft (COLOR_PAIR NC_YELLOW_COLOR OR A_BOLD) True (gw_world g)\<rparr>))"

definition appendError :: "string \<Rightarrow> message \<Rightarrow> CommandType \<Rightarrow> game_window \<Rightarrow> game_window outcome" where
  "appendError now error cmdType g = (case tab_of_command cmdType of
     None \<Rightarrow> Inl Crash
   | Some tab \<Rightarrow> (case toStringError error of Inl f \<Rightarrow> Inl f
       | Inr content \<Rightarrow> Inr (append_to tab (appendContent now content AlignLeft (COLOR_PAIR NC_RED_COLOR OR A_BOLD) False) g)))"

definition updatePlayerPanel :: "player_info \<Rightarrow> game_window \<Rightarrow> game_window" where
  "updatePlayerPanel data g =
     g\<lparr>gw_info := foldl (\<lambda>t s. appendContent [] s AlignLeft A_NORMAL False t) (clearContent (gw_info g)) (panel_lines data)\<rparr>"

text \<open>Leaving or entering tab \<open>i\<close> (\<open>InOutTab::activate\<close>, \<open>deactivate\<close>): its prompt is written again.\<close>

definition focus_game :: "nat \<Rightarrow> game_window \<Rightarrow> game_window" where
  "focus_game i g =
     (if i = 3 then g\<lparr>gw_cmd := (gw_cmd g)\<lparr>io_in := writePromptLine (io_in (gw_cmd g))\<rparr>\<rparr>
      else if i = 4 then g\<lparr>gw_chat := (gw_chat g)\<lparr>io_in := writePromptLine (io_in (gw_chat g))\<rparr>\<rparr>
      else g)"

text \<open>A key in the game window; \<open>None\<close>: the loop over the tabs does not end.\<close>

definition game_key :: "string \<Rightarrow> send_out \<Rightarrow> int \<Rightarrow> game_window \<Rightarrow> (failure option \<times> game_window) option" where
  "game_key now w k g =
     (if k = KEY_RESIZE then Some (None, g)
      else if k = 9 then map_option (\<lambda>a. (None, (focus_game a (focus_game (gw_active g) g))\<lparr>gw_active := a\<rparr>))
             (switchActiveTab 5 game_skip (-1) (gw_active g))
      else Some (if gw_active g = 3 then (case inout_key now w k (gw_cmd g) of (f, t) \<Rightarrow> (f, g\<lparr>gw_cmd := t\<rparr>))
           else if gw_active g = 4 then (case inout_key now w k (gw_chat g) of (f, t) \<Rightarrow> (f, g\<lparr>gw_chat := t\<rparr>))
           else if gw_active g = 2 then (None, g\<lparr>gw_world := output_key k (gw_world g)\<rparr>)
           else (None, g)))"

subsection \<open>Login, character creation and error windows\<close>

text \<open>The two form windows have the same tabs: frame, info, user name, a button and CLOSE.\<close>

record form_window =
  fw_input :: input_tab
  fw_info :: output_tab
  fw_active :: nat

definition form_skip :: "nat list" where "form_skip = [0, 1]"

definition new_form :: form_window where
  "new_form = \<lparr>fw_input = new_input_tab [] PROMPT, fw_info = new_output_tab, fw_active = 2\<rparr>"

definition login_button :: button_action where "login_button = SwitchWindow (Some P_PLAYER_CREATE)"
definition create_button :: button_action where "create_button = SwitchWindow (Some P_LOGIN)"

definition focus_form :: "nat \<Rightarrow> form_window \<Rightarrow> form_window" where
  "focus_form i f = (if i = 2 then f\<lparr>fw_input := writePromptLine (fw_input f)\<rparr> else f)"

definition focus_tab :: "int \<Rightarrow> form_window \<Rightarrow> form_window option" where
  "focus_tab index f = map_option (\<lambda>a. (focus_form a (focus_form (fw_active f) f))\<lparr>fw_active := a\<rparr>)
     (switchActiveTab 5 form_skip index (fw_active f))"

text \<open>A key in a form window whose third button does \<open>act\<close>: failure, state, action to run.\<close>

definition form_key :: "button_action \<Rightarrow> send_out \<Rightarrow> int \<Rightarrow> form_window \<Rightarrow>
    (failure option \<times> form_window \<times> button_action option) option" where
  "form_key act w k f =
     (if k = KEY_RESIZE then Some (None, f, None)
      else if k = 9 then map_option (\<lambda>g. (None, g, None)) (focus_tab (-1) f)
      else if fw_active f = 2 then Some (case handleUserInput w k (fw_input f) of (e, i) \<Rightarrow> (e, f\<lparr>fw_input := i\<rparr>, None))
      else if k \<noteq> 10 then Some (None, f, None)
      else if fw_active f = 3 then map_option (\<lambda>g. (None, g, Some act)) (focus_tab 2 f)
      else if fw_active f = 4 then Some (None, f, Some StopEngine)
      else Some (None, f, None))"

record error_window =
  ew_info :: output_tab
  ew_action1 :: "(string \<times> button_action) option"
  ew_action2 :: "(string \<times> button_action) option"
  ew_active :: nat

definition error_skip :: "nat list" where "error_skip = [0, 1]"

definition new_error_window :: error_window where
  "new_error_window = \<lparr>ew_info = new_output_tab, ew_action1 = None, ew_action2 = None, ew_active = 0\<rparr>"

definition error_tabs :: "error_window \<Rightarrow> nat" where
  "error_tabs e = 2 + (if ew_action1 e = None then 0 else 1) + (if ew_action2 e = None then 0 else 1)"

definition clear_error :: "error_window \<Rightarrow> error_window" where
  "clear_error e = e\<lparr>ew_action1 := None, ew_action2 := None, ew_info := clearContent (clear_output (ew_info e)), ew_active := 0\<rparr>"

definition setAction1 :: "string \<Rightarrow> button_action \<Rightarrow> error_window \<Rightarrow> error_window" where
  "setAction1 name act e = (let e1 = e\<lparr>ew_action1 := Some (name, act)\<rparr> in
     case switchActiveTab (error_tabs e1) error_skip 2 (ew_active e1) of None \<Rightarrow> e1 | Some a \<Rightarrow> e1\<lparr>ew_active := a\<rparr>)"

definition setAction2 :: "string \<Rightarrow> button_action \<Rightarrow> error_window \<Rightarrow> error_window" where
  "setAction2 name act e = e\<lparr>ew_action2 := Some (name, act)\<rparr>"

definition adaptWinToError :: "ErrorData \<Rightarrow> error_window \<Rightarrow> error_window" where
  "adaptWinToError error e0 = (let c = clear_error e0;
      e = c\<lparr>ew_info := appendContent [] (mapError error) AlignMid A_NORMAL False
              (appendContent [] '' '' AlignLeft A_NORMAL False (clearContent (ew_info c)))\<rparr>
    in case err_code error of
       X_UI_USERNAME_NOT_EXISTS \<Rightarrow> setAction2 ''CREATE NEW'' (SwitchWindow (Some P_PLAYER_CREATE))
           (setAction1 ''RETRY'' (SwitchWindow (Some P_LOGIN)) e)
     | X_UI_USERNAME_IN_USE \<Rightarrow> setAction1 ''RETRY'' (SwitchWindow (Some P_PLAYER_CREATE)) e
     | X_SERVER_ERROR \<Rightarrow> setAction2 ''BACK'' (SwitchWindow None) (setAction1 ''CLOSE'' StopEngine e)
     | X_SERVER_DISCONNECTED \<Rightarrow> setAction2 ''CLOSE'' StopEngine (setAction1 ''CONNECT'' Reconnect e)
     | _ \<Rightarrow> setAction1 ''CLOSE'' StopEngine e)"

definition error_key :: "int \<Rightarrow> error_window \<Rightarrow> (error_window \<times> button_action option) option" where
  "error_key k e =
     (if k = KEY_RESIZE then Some (e, None)
      else if k = 9 then map_option (\<lambda>a. (e\<lparr>ew_active := a\<rparr>, None)) (switchActiveTab (error_tabs e) error_skip (-1) (ew_active e))
      else if k = 10 then Some (e, if ew_active e = 2 then map_option snd (ew_action1 e)
                                   else if ew_active e = 3 then map_option snd (ew_action2 e) else None)
      else Some (e, None))"

end
