(* ===== verification/Layout.thy ===== *)
theory Layout
  imports Windows
begin

text \<open>
  Where the windows of the CLI put their tabs (the \<open>draw\<close> functions of \<open>GameWindow\<close>, \<open>LoginWindow\<close>,
  \<open>PlayerCreateWindow\<close> and \<open>ErrorWindow\<close> and of the tabs themselves): rectangles of height, width, top row
  and left column.  Sizes are non-negative, where C++ division and \<open>div\<close> agree.
\<close>

record rect =
  r_h :: int
  r_w :: int
  r_y :: int
  r_x :: int

definition box :: "int \<Rightarrow> int \<Rightarrow> int \<Rightarrow> int \<Rightarrow> rect" where
  "box h w y x = \<lparr>r_h = h, r_w = w, r_y = y, r_x = x\<rparr>"

definition MIN_WIDTH_CLI :: int where "MIN_WIDTH_CLI = 151"
definition MIN_HEIGHT_CLI :: int where "MIN_HEIGHT_CLI = 32"

text \<open>\<open>ButtonTab::getWidth\<close>, and the frame it draws whatever size it is given.\<close>

definition getWidth :: "string \<Rightarrow> int" where
  "getWidth content = int (length content) + 2"

definition button_box :: "string \<Rightarrow> int \<Rightarrow> int \<Rightarrow> rect" where
  "button_box content y x = box 3 (getWidth content) y x"

text \<open>The row and column counts inside a tab: a border takes two, a title four more rows and two columns.\<close>

definition output_rows :: "bool \<Rightarrow> int \<Rightarrow> nat" where
  "output_rows titled h = nat (if titled then h - 2 - 4 else h - 2)"

definition inout_rows :: "int \<Rightarrow> nat" where
  "inout_rows h = nat (h - 2 - 4 - 3)"

definition inout_input_width :: "int \<Rightarrow> nat" where
  "inout_input_width w = nat (w - 2 - 2 - 2)"

definition input_width :: "int \<Rightarrow> nat" where
  "input_width w = nat (w - 2)"

definition draw_inout :: "rect \<Rightarrow> inout_tab \<Rightarrow> inout_tab" where
  "draw_inout r t = \<lparr>io_in = draw_input (inout_input_width (r_w r)) (io_in t),
     io_out = (io_out t)\<lparr>ot_rows := Some (inout_rows (r_h r))\<rparr>\<rparr>"

definition clear_inout :: "inout_tab \<Rightarrow> inout_tab" where
  "clear_inout t = t\<lparr>io_out := clear_output (io_out t)\<rparr>"

definition even_down :: "int \<Rightarrow> int" where
  "even_down n = (if n mod 2 = 0 then n else n - 1)"

lemma even_down_div: "even_down n = 2 * (n div 2)"
  unfolding even_down_def by presburger

subsection \<open>Game window\<close>

record game_boxes =
  gb_frame :: rect
  gb_info :: rect
  gb_world :: rect
  gb_cmd :: rect
  gb_chat :: rect

definition game_layout :: "int \<Rightarrow> int \<Rightarrow> game_boxes" where
  "game_layout height width = (let h = even_down height; w = even_down width;
      widthTab = (w - 2) div 2 - 1; heightTab = (h - 2) div 2
    in \<lparr>gb_frame = box h w 0 0, gb_info = box 6 widthTab 1 2, gb_world = box (h - 6 - 2) widthTab 7 2,
        gb_cmd = box heightTab widthTab 1 (widthTab + 3), gb_chat = box heightTab widthTab (heightTab + 1) (widthTab + 3)\<rparr>)"

definition draw_game :: "int \<Rightarrow> int \<Rightarrow> game_window \<Rightarrow> game_window" where
  "draw_game height width g = (let b = game_layout height width in
     g\<lparr>gw_info := draw_output (output_rows False (r_h (gb_info b))) (gw_info g),
       gw_world := draw_output (output_rows True (r_h (gb_world b))) (gw_world g),
       gw_cmd := draw_inout (gb_cmd b) (gw_cmd g), gw_chat := draw_inout (gb_chat b) (gw_chat g)\<rparr>)"

definition clear_game :: "game_window \<Rightarrow> game_window" where
  "clear_game g = g\<lparr>gw_info := clear_output (gw_info g), gw_world := clear_output (gw_world g),
     gw_cmd := clear_inout (gw_cmd g), gw_chat := clear_inout (gw_chat g)\<rparr>"

subsection \<open>Login and character creation\<close>

record form_boxes =
  fb_frame :: rect
  fb_info :: rect
  fb_username :: rect
  fb_button :: rect
  fb_close :: rect

definition form_layout :: "int \<Rightarrow> int \<Rightarrow> int \<Rightarrow> string \<Rightarrow> form_boxes" where
  "form_layout h w heightInfoTab name = (let widthTabs = w div 4;
      top = (h - heightInfoTab) div 2; left = (w - widthTabs) div 2;
      starty = top + heightInfoTab - 3 - 1; startxAction1 = left + 2;
      startxAction2 = startxAction1 + widthTabs - getWidth ''CLOSE'' - 4
    in \<lparr>fb_frame = box h w 0 0, fb_info = box heightInfoTab widthTabs top left,
        fb_username = box 3 (widthTabs - 4) (top + heightInfoTab - 4 - 3) (left + 2),
        fb_button = button_box name starty startxAction1, fb_close = button_box ''CLOSE'' starty startxAction2\<rparr>)"

definition login_layout :: "int \<Rightarrow> int \<Rightarrow> form_boxes" where
  "login_layout height width =
     (let h = (if height mod 3 \<noteq> 0 then (height div 3) * 3 else height);
          w = (if width mod 4 \<noteq> 0 then (width div 4) * 4 else width)
      in form_layout h w (h div 3) ''CREATE NEW'')"

definition create_layout :: "int \<Rightarrow> int \<Rightarrow> form_boxes" where
  "create_layout height width =
     (let h = (if height mod 2 \<noteq> 0 then (height div 2) * 2 else height);
          w = (if width mod 4 \<noteq> 0 then (width div 4) * 4 else width)
      in form_layout h w (h div 2) ''LOGIN'')"

definition ask_username :: "output_tab \<Rightarrow> output_tab" where
  "ask_username t = appendContent [] '' Enter username:'' AlignMid A_BOLD False
     (appendContent [] '' '' AlignLeft A_NORMAL False (clearContent t))"

definition draw_login :: "int \<Rightarrow> int \<Rightarrow> form_window \<Rightarrow> form_window" where
  "draw_login height width f = (let b = login_layout height width in
     f\<lparr>fw_info := ask_username (draw_output (output_rows False (r_h (fb_info b))) (fw_info f)),
       fw_input := draw_input (input_width (r_w (fb_username b))) (fw_input f)\<rparr>)"

definition draw_create :: "int \<Rightarrow> int \<Rightarrow> form_window \<Rightarrow> form_window" where
  "draw_create height width f = (let b = create_layout height width in
     f\<lparr>fw_info := draw_output (output_rows False (r_h (fb_info b))) (ask_username (fw_info f)),
       fw_input := draw_input (input_width (r_w (fb_username b))) (fw_input f)\<rparr>)"

definition clear_form :: "form_window \<Rightarrow> form_window" where
  "clear_form f = f\<lparr>fw_info := clear_output (fw_info f)\<rparr>"

subsection \<open>Error window\<close>

record error_boxes =
  eb_frame :: rect
  eb_info :: rect
  eb_action1 :: rect
  eb_action2 :: "rect option"

text \<open>The missing first action fails the assertion.\<close>

definition error_layout :: "int \<Rightarrow> int \<Rightarrow> string option \<Rightarrow> string option \<Rightarrow> error_boxes option" where
  "error_layout height width action1 action2 = (let h = even_down height; w = width;
      heightTabs = h div 2; widthTabs = w div 2; top = (h - heightTabs) div 2; left = (w - widthTabs) div 2;
      starty = top + heightTabs - 3 - 1
    in case action1 of None \<Rightarrow> None
     | Some n1 \<Rightarrow>
        (let startxAction1 = (if action2 \<noteq> None then left + 2 else (w - getWidth n1) div 2)
         in Some \<lparr>eb_frame = box h w 0 0, eb_info = box heightTabs widthTabs top left,
              eb_action1 = button_box n1 starty startxAction1,
              eb_action2 = map_option (\<lambda>n2. button_box n2 starty (startxAction1 + widthTabs - getWidth n2 - 4)) action2\<rparr>))"

definition draw_error :: "int \<Rightarrow> int \<Rightarrow> error_window \<Rightarrow> error_window outcome" where
  "draw_error height width e = (case error_layout height width (map_option fst (ew_action1 e)) (map_option fst (ew_action2 e)) of
     None \<Rightarrow> Inl Crash
   | Some b \<Rightarrow> Inr (e\<lparr>ew_info := draw_output (output_rows True (r_h (eb_info b))) (ew_info e)\<rparr>))"

subsection \<open>The tabs fit\<close>

definition inside :: "rect \<Rightarrow> rect \<Rightarrow> bool" where
  "inside r f \<longleftrightarrow> 0 < r_h r \<and> 0 < r_w r \<and> r_y f \<le> r_y r \<and> r_x f \<le> r_x r
     \<and> r_y r + r_h r \<le> r_y f + r_h f \<and> r_x r + r_w r \<le> r_x f + r_w f"

definition disjoint_boxes :: "rect \<Rightarrow> rect \<Rightarrow> bool" where
  "disjoint_boxes a b \<longleftrightarrow> r_y a + r_h a \<le> r_y b \<or> r_y b + r_h b \<le> r_y a \<or> r_x a + r_w a \<le> r_x b \<or> r_x b + r_w b \<le> r_x a"

fun all_disjoint :: "rect list \<Rightarrow> bool" where
  "all_disjoint [] = True"
| "all_disjoint (r # rs) = (list_all (disjoint_boxes r) rs \<and> all_disjoint rs)"

lemmas rect_defs = box_def button_box_def getWidth_def inside_def disjoint_boxes_def

lemma game_layout_fits:
  assumes "MIN_HEIGHT_CLI \<le> height" and "MIN_WIDTH_CLI \<le> width"
  defines "b \<equiv> game_layout height width"
  shows "inside (gb_frame b) (box height width 0 0)
    \<and> list_all (\<lambda>r. inside r (gb_frame b)) [gb_info b, gb_world b, gb_cmd b, gb_chat b]
    \<and> all_disjoint [gb_info b, gb_world b, gb_cmd b, gb_chat b]"
proof -
  define h where "h = even_down height"
  define w where "w = even_down width"
  define k where "k = height div 2"
  define m where "m = width div 2"
  have k: "h = 2 * k" "16 \<le> k" "h \<le> height" and m: "w = 2 * m" "75 \<le> m" "w \<le> width"
    using assms(1,2) by (simp_all add: h_def w_def k_def m_def even_down_div MIN_HEIGHT_CLI_def MIN_WIDTH_CLI_def)
  have d: "(w - 2) div 2 = m - 1" "(h - 2) div 2 = k - 1" using k m by simp_all
  have b: "b = \<lparr>gb_frame = box h w 0 0, gb_info = box 6 (m - 2) 1 2, gb_world = box (h - 6 - 2) (m - 2) 7 2,
      gb_cmd = box (k - 1) (m - 2) 1 (m + 1), gb_chat = box (k - 1) (m - 2) k (m + 1)\<rparr>"
    unfolding b_def game_layout_def Let_def h_def[symmetric] w_def[symmetric] d by (simp add: add.commute)
  show ?thesis using k m by (simp add: b rect_defs)
qed

lemma form_layout_fits:
  assumes "w = 4 * q" and "37 \<le> q" and "10 \<le> i" and "i \<le> h" and "length name \<le> 10"
  defines "b \<equiv> form_layout h w i name"
  shows "inside (fb_info b) (fb_frame b) \<and> list_all (\<lambda>r. inside r (fb_info b)) [fb_username b, fb_button b, fb_close b]
    \<and> all_disjoint [fb_username b, fb_button b, fb_close b]"
proof -
  have w: "w div 4 = q" using assms(1) by simp
  define top where "top = (h - i) div 2"
  define left where "left = (w - q) div 2"
  have t: "0 \<le> top" "top + i \<le> h" using assms by (auto simp: top_def)
  have l: "0 \<le> left" "left + q \<le> w" using assms by (auto simp: left_def)
  have b: "b = \<lparr>fb_frame = box h w 0 0, fb_info = box i q top left,
        fb_username = box 3 (q - 4) (top + i - 4 - 3) (left + 2),
        fb_button = button_box name (top + i - 3 - 1) (left + 2), fb_close = button_box ''CLOSE'' (top + i - 3 - 1) (left + 2 + q - 7 - 4)\<rparr>"
    unfolding b_def form_layout_def Let_def w top_def[symmetric] left_def[symmetric] by (simp add: getWidth_def)
  show ?thesis using t l assms(2-5) by (simp add: b rect_defs)
qed

end
