(* ===== verification/UICorrect.thy ===== *)
theory UICorrect
  imports UI
begin

text \<open>
  What holds of the engine whatever interface drives it.  The locale \<open>interface\<close> states what the engine
  relies on in the overrides of its virtual functions: on the engine's own members (\<open>core\<close>) they do what the
  base class's version does, and showing a message changes at most the player's data.  From this follow
  the frames of all operations and the invariant \<open>client_ok\<close>: bounded buffers, the server speaks first, and
  the phases after the handshake.  Then the framing of the received stream and the fixed messages.
\<close>

subsection \<open>The engine's members\<close>

definition core :: "'a engine_scheme \<Rightarrow> engine" where
  "core u = engine.truncate u"

lemma core_fields: "core u = \<lparr>u_phase = u_phase u, u_lastPhase = u_lastPhase u, u_queue = u_queue u,
    u_connEstablished = u_connEstablished u, u_toServer = u_toServer u, u_toGame = u_toGame u, u_info = u_info u,
    u_worker = u_worker u, u_wakeups = u_wakeups u, u_sent = u_sent u, u_received = u_received u, u_lines = u_lines u\<rparr>"
  by (simp add: core_def engine.defs)

lemma core_eq_iff: "core v = core u \<longleftrightarrow> u_phase v = u_phase u \<and> u_lastPhase v = u_lastPhase u \<and> u_queue v = u_queue u
    \<and> u_connEstablished v = u_connEstablished u \<and> u_toServer v = u_toServer u \<and> u_toGame v = u_toGame u
    \<and> u_info v = u_info u \<and> u_worker v = u_worker u \<and> u_wakeups v = u_wakeups u \<and> u_sent v = u_sent u
    \<and> u_received v = u_received u \<and> u_lines v = u_lines u"
  by (simp add: core_fields)

lemma core_update [simp]: "core (u\<lparr>u_phase := p\<rparr>) = (core u)\<lparr>u_phase := p\<rparr>" "core (u\<lparr>u_lastPhase := p\<rparr>) = (core u)\<lparr>u_lastPhase := p\<rparr>"
  "core (u\<lparr>u_queue := q\<rparr>) = (core u)\<lparr>u_queue := q\<rparr>" "core (u\<lparr>u_connEstablished := b\<rparr>) = (core u)\<lparr>u_connEstablished := b\<rparr>"
  "core (u\<lparr>u_toServer := r\<rparr>) = (core u)\<lparr>u_toServer := r\<rparr>" "core (u\<lparr>u_toGame := r\<rparr>) = (core u)\<lparr>u_toGame := r\<rparr>"
  "core (u\<lparr>u_info := i\<rparr>) = (core u)\<lparr>u_info := i\<rparr>" "core (u\<lparr>u_worker := b\<rparr>) = (core u)\<lparr>u_worker := b\<rparr>"
  "core (u\<lparr>u_wakeups := n\<rparr>) = (core u)\<lparr>u_wakeups := n\<rparr>" "core (u\<lparr>u_sent := r\<rparr>) = (core u)\<lparr>u_sent := r\<rparr>"
  "core (u\<lparr>u_received := r\<rparr>) = (core u)\<lparr>u_received := r\<rparr>" "core (u\<lparr>u_lines := l\<rparr>) = (core u)\<lparr>u_lines := l\<rparr>"
  by (simp_all add: core_fields)

lemma core_read [simp]: "u_phase (core u) = u_phase u" "u_lastPhase (core u) = u_lastPhase u" "u_queue (core u) = u_queue u"
  "u_connEstablished (core u) = u_connEstablished u" "u_toServer (core u) = u_toServer u" "u_toGame (core u) = u_toGame u"
  "u_info (core u) = u_info u" "u_worker (core u) = u_worker u" "u_wakeups (core u) = u_wakeups u" "u_sent (core u) = u_sent u"
  "u_received (core u) = u_received u" "u_lines (core u) = u_lines u"
  by (simp_all add: core_fields)

lemma same_andthen: "(\<And>s. F (snd (f s)) = F s) \<Longrightarrow> F (snd (andthen r f)) = F (snd r)"
  by (auto simp: andthen_def split: prod.split option.split)

lemma same_step_when: "(\<And>s. F (snd (f s)) = F s) \<Longrightarrow> F (snd (step_when b f s)) = F s"
  by (simp add: step_when_def)

lemma snd_noexcept [simp]: "snd (noexcept r) = snd r"
  by (simp add: noexcept_def split: prod.split option.split)

lemma snd_fail [simp]: "snd (fail c i s) = s" "fst (fail c i s) = Some (Throw \<lparr>err_code = c, err_info = i\<rparr>)"
  by (simp_all add: fail_def)

lemma snd_crash [simp]: "snd (crash s) = s" "fst (crash s) = Some Crash"
  by (simp_all add: crash_def)

text \<open>The base class's functions depend on the overrides they call and on no others.\<close>

lemma base_agree:
  assumes "startSpeaking_of f = startSpeaking_of g" and "stopSpeaking_of f = stopSpeaking_of g"
  shows "updatePhase f = updatePhase g" "UI_switchWindow f = UI_switchWindow g"
proof -
  show u: "updatePhase f = updatePhase g" unfolding updatePhase_def fun_eq_iff assms by simp
  show "UI_switchWindow f = UI_switchWindow g" unfolding UI_switchWindow_def fun_eq_iff u by simp
qed

lemma shakeHands_agree:
  assumes "startSpeaking_of f = startSpeaking_of g" and "switchWindow_of f = switchWindow_of g"
  shows "UI_shakeHands f = UI_shakeHands g"
  unfolding UI_shakeHands_def fun_eq_iff assms by simp

subsection \<open>Frames\<close>

text \<open>What the operations on windows and messages leave alone: the buffers and the bytes exchanged, and for
  those that only move between windows also the connection and the lines read.\<close>

definition io :: "'a engine_scheme \<Rightarrow> string \<times> string \<times> string \<times> string" where
  "io u = (u_toGame u, u_toServer u, u_sent u, u_received u)"

definition outside :: "'a engine_scheme \<Rightarrow> (string \<times> string \<times> string \<times> string) \<times> bool \<times> string list" where
  "outside u = (io u, u_connEstablished u, u_lines u)"

text \<open>Only a handshake opens the connection, and it touches neither the buffers nor the lines.\<close>

definition kept :: "'a engine_scheme \<Rightarrow> (string \<times> string \<times> string \<times> string) \<times> string list" where
  "kept u = (io u, u_lines u)"

text \<open>The phase, the one to go back to, and the connection.\<close>

definition pc :: "'a engine_scheme \<Rightarrow> GamePhase \<times> GamePhase \<times> bool" where
  "pc u = (u_phase u, u_lastPhase u, u_connEstablished u)"

lemma frames_core: assumes "core v = core u"
  shows "outside v = outside u" "kept v = kept u" "io v = io u" "pc v = pc u"
  using assms by (simp_all add: core_eq_iff outside_def kept_def io_def pc_def)

lemma outside_kept: "outside v = outside u \<Longrightarrow> kept v = kept u"
  by (simp add: outside_def kept_def)

lemma kept_io: "kept v = kept u \<Longrightarrow> io v = io u"
  by (simp add: kept_def)

lemma outside_fields [simp]: "outside (u\<lparr>u_phase := p\<rparr>) = outside u" "outside (u\<lparr>u_lastPhase := p\<rparr>) = outside u"
  "outside (u\<lparr>u_queue := q\<rparr>) = outside u" "outside (u\<lparr>u_info := i\<rparr>) = outside u" "outside (u\<lparr>u_wakeups := n\<rparr>) = outside u"
  "outside (u\<lparr>u_worker := b\<rparr>) = outside u"
  by (simp_all add: outside_def io_def)

lemma outside_push [simp]: "outside (snd (push_command s u)) = outside u"
  by (simp add: push_command_def split: sum.split)

lemma outside_pop [simp]: "outside (pop_front u) = outside u"
  by (simp add: pop_front_def)

lemma pc_fields [simp]: "pc (u\<lparr>u_queue := q\<rparr>) = pc u" "pc (u\<lparr>u_info := i\<rparr>) = pc u" "pc (u\<lparr>u_wakeups := n\<rparr>) = pc u"
  "pc (u\<lparr>u_toGame := r\<rparr>) = pc u" "pc (u\<lparr>u_toServer := r\<rparr>) = pc u" "pc (u\<lparr>u_received := r\<rparr>) = pc u" "pc (u\<lparr>u_sent := r\<rparr>) = pc u"
  "pc (u\<lparr>u_lines := l\<rparr>) = pc u" "pc (u\<lparr>u_worker := b\<rparr>) = pc u"
  by (simp_all add: pc_def)

lemma pc_ops [simp]: "pc (pop_front u) = pc u" "pc (reconnect u) = pc u" "pc (snd (push_command s u)) = pc u"
  by (simp_all add: pop_front_def reconnect_def push_command_def split: sum.split)

subsection \<open>Bounded buffers, the server speaks first, phases after the handshake\<close>

definition io_bounded :: "'a engine_scheme \<Rightarrow> bool" where
  "io_bounded u \<longleftrightarrow> length (u_toGame u) \<le> BUFF_SIZE \<and> length (u_toServer u) \<le> BUFF_SIZE"

definition greeted :: "'a engine_scheme \<Rightarrow> bool" where
  "greeted u \<longleftrightarrow> (u_connEstablished u \<or> u_sent u \<noteq> [] \<longrightarrow> (\<exists>l \<in> set (u_lines u). kind_of_line l = RESPONSE))"

definition phased :: "'a engine_scheme \<Rightarrow> bool" where
  "phased u \<longleftrightarrow> (u_phase u = P_GAME \<or> u_phase u = P_PLAYER_CREATE \<longrightarrow> u_connEstablished u)"

definition client_ok :: "'a engine_scheme \<Rightarrow> bool" where
  "client_ok u \<longleftrightarrow> io_bounded u \<and> greeted u \<and> phased u"

lemma ok_frames: "io v = io u \<Longrightarrow> io_bounded v = io_bounded u" "outside v = outside u \<Longrightarrow> greeted v = greeted u"
  "pc v = pc u \<Longrightarrow> phased v = phased u"
  by (simp_all add: io_def io_bounded_def outside_def greeted_def pc_def phased_def)

lemma client_ok_core: "core v = core u \<Longrightarrow> client_ok v = client_ok u"
  using frames_core[of v u] ok_frames[of v u] by (simp add: client_ok_def)

lemma client_ok_fields [simp]: "client_ok (u\<lparr>u_queue := q\<rparr>) = client_ok u" "client_ok (u\<lparr>u_info := i\<rparr>) = client_ok u"
  "client_ok (u\<lparr>u_worker := b\<rparr>) = client_ok u" "client_ok (u\<lparr>u_wakeups := n\<rparr>) = client_ok u" "client_ok (u\<lparr>u_received := r\<rparr>) = client_ok u"
  by (simp_all add: client_ok_def io_bounded_def greeted_def phased_def)

lemma client_ok_ops [simp]: "client_ok (pop_front u) = client_ok u" "client_ok (reconnect u) = client_ok u"
  "client_ok (snd (push_command s u)) = client_ok u" "client_ok (UI_stop u) = client_ok u"
  by (simp_all add: pop_front_def reconnect_def push_command_def UI_stop_def split: sum.split)

lemma kind_of_message: "NL \<notin> set s \<Longrightarrow> s \<noteq> [] \<Longrightarrow> Message s = Inr m \<Longrightarrow> m_raw m = s \<and> m_type m = kind_of_line s"
proof -
  assume "NL \<notin> set s" "s \<noteq> []" and m: "Message s = Inr m"
  then have "last s \<noteq> NL" using last_in_set[of s] by metis
  then show ?thesis using Message_Inr[OF m] by simp
qed

lemma takeWhile_no_NL: "NL \<notin> set (takeWhile (\<lambda>c. c \<noteq> NL) s)"
  using set_takeWhileD by fastforce

subsection \<open>Any interface\<close>

text \<open>The player's data after the answer \<open>m\<close> has been shown.\<close>

definition shown_info :: "message \<Rightarrow> 'a engine_scheme \<Rightarrow> player_info" where
  "shown_info m u = (case front_command u of None \<Rightarrow> u_info u
   | Some c \<Rightarrow> (case tracked_info m c (u_info u) of None \<Rightarrow> u_info u | Some i \<Rightarrow> i))"

lemma core_info [simp]: "(core u)\<lparr>u_info := u_info u\<rparr> = core u"
  by (simp add: core_fields)

locale interface =
  fixes f :: "'a engine_scheme face"
  assumes speak_core: "core (startSpeaking_of f u) = core u" "core (stopSpeaking_of f u) = core u"
    and switch_core: "core (snd (switchWindow_of f p u)) = core (snd (UI_switchWindow f p u))"
    and shake_core: "core (snd (shakeHands_of f u)) = core (snd (UI_shakeHands f u))"
    and stop_core: "core (stop_of f u) = core (UI_stop u)"
    and response_core: "core (snd (showResponse_of f m u)) = core (u\<lparr>u_info := shown_info m u\<rparr>)"
    and event_core: "core (snd (showEvent_of f m u)) = core u"
    and error_core: "core (snd (showError_of f m u)) = core u"
begin

lemma speak_frames [simp]: "outside (startSpeaking_of f u) = outside u" "outside (stopSpeaking_of f u) = outside u"
  "kept (startSpeaking_of f u) = kept u" "pc (startSpeaking_of f u) = pc u" "pc (stopSpeaking_of f u) = pc u"
  "client_ok (startSpeaking_of f u) = client_ok u" "client_ok (stopSpeaking_of f u) = client_ok u"
  using frames_core[OF speak_core(1)] frames_core[OF speak_core(2)] client_ok_core[OF speak_core(1)] client_ok_core[OF speak_core(2)]
  by simp_all

lemma speak_fields [simp]:
  "u_phase (startSpeaking_of f u) = u_phase u" "u_phase (stopSpeaking_of f u) = u_phase u"
  "u_lastPhase (startSpeaking_of f u) = u_lastPhase u" "u_lastPhase (stopSpeaking_of f u) = u_lastPhase u"
  "u_queue (startSpeaking_of f u) = u_queue u" "u_queue (stopSpeaking_of f u) = u_queue u"
  "u_connEstablished (startSpeaking_of f u) = u_connEstablished u" "u_connEstablished (stopSpeaking_of f u) = u_connEstablished u"
  "u_toServer (startSpeaking_of f u) = u_toServer u" "u_toServer (stopSpeaking_of f u) = u_toServer u"
  "u_toGame (startSpeaking_of f u) = u_toGame u" "u_toGame (stopSpeaking_of f u) = u_toGame u"
  "u_info (startSpeaking_of f u) = u_info u" "u_info (stopSpeaking_of f u) = u_info u"
  "u_worker (startSpeaking_of f u) = u_worker u" "u_worker (stopSpeaking_of f u) = u_worker u"
  "u_wakeups (startSpeaking_of f u) = u_wakeups u" "u_wakeups (stopSpeaking_of f u) = u_wakeups u"
  "u_sent (startSpeaking_of f u) = u_sent u" "u_sent (stopSpeaking_of f u) = u_sent u"
  "u_received (startSpeaking_of f u) = u_received u" "u_received (stopSpeaking_of f u) = u_received u"
  "u_lines (startSpeaking_of f u) = u_lines u" "u_lines (stopSpeaking_of f u) = u_lines u"
  using speak_core(1)[of u] speak_core(2)[of u] by (simp_all add: core_eq_iff)

lemma outside_updatePhase [simp]: "outside (snd (updatePhase f p u)) = outside u"
  by (simp add: updatePhase_def Let_def)

lemma outside_switch [simp]: "outside (snd (switchWindow_of f p u)) = outside u"
proof -
  have "outside (snd (UI_switchWindow f p u)) = outside u"
    by (simp add: UI_switchWindow_def same_andthen same_step_when)
  then show ?thesis using frames_core(1)[OF switch_core] by simp
qed

lemma pc_switch: "pc (snd (switchWindow_of f p u)) = pc (snd (updatePhase f p u))"
proof -
  have "pc (snd (UI_switchWindow f p u)) = pc (snd (updatePhase f p u))"
    unfolding UI_switchWindow_def by (subst same_andthen) (simp_all add: same_step_when)
  then show ?thesis using frames_core(4)[OF switch_core] by simp
qed

lemma show_frames [simp]: "outside (snd (showResponse_of f m u)) = outside u" "outside (snd (showEvent_of f m u)) = outside u"
  "outside (snd (showError_of f m u)) = outside u" "pc (snd (showResponse_of f m u)) = pc u" "pc (snd (showEvent_of f m u)) = pc u"
  "pc (snd (showError_of f m u)) = pc u"
  using frames_core[OF response_core] frames_core[OF event_core] frames_core[OF error_core] by simp_all

lemma notify_frames [simp]: "outside (snd (notify f m u)) = outside u" "pc (snd (notify f m u)) = pc u"
  by (simp_all add: notify_def)

lemma report_frames [simp]: "outside (snd (report f m u)) = outside u" "pc (snd (report f m u)) = pc u"
  by (simp_all add: report_def throw_text_def split: GamePhase.split sum.split)

lemma kept_of_outside [simp]: "kept (snd (switchWindow_of f p u)) = kept u" "kept (snd (push_command s u)) = kept u"
  "kept (pop_front u) = kept u" "kept (snd (showResponse_of f m u)) = kept u" "kept (snd (report f m u)) = kept u"
  "kept (snd (notify f m u)) = kept u" "kept (reconnect u) = kept u"
  by (rule outside_kept, simp add: reconnect_def)+

lemma kept_connection [simp]: "kept (u\<lparr>u_connEstablished := b\<rparr>) = kept u" "kept (stop_of f u) = kept u"
  using frames_core(2)[OF stop_core] by (simp_all add: kept_def io_def UI_stop_def)

lemma kept_shakeHands [simp]: "kept (snd (shakeHands_of f u)) = kept u"
proof -
  have "kept (snd (UI_shakeHands f u)) = kept u" by (simp add: UI_shakeHands_def same_andthen Let_def)
  then show ?thesis using frames_core(2)[OF shake_core] by simp
qed

lemma kept_respond [simp]: "kept (snd (respond f m u)) = kept u"
  by (simp add: respond_def same_step_when split: GamePhase.split option.split)

lemma kept_dispatch_parsed [simp]: "kept (snd (dispatch_parsed f m u)) = kept u"
  by (simp add: dispatch_parsed_def same_andthen split: option.split)

lemma kept_dispatch: "kept (snd (dispatchMessage f msg u)) = kept (u\<lparr>u_lines := u_lines u @ [msg]\<rparr>)"
  by (simp add: dispatchMessage_def Let_def split: sum.split failure.split)

lemma io_dispatch [simp]: "io (snd (dispatchMessage f msg u)) = io u"
  using kept_dispatch[of msg u] by (simp add: kept_def io_def)

lemma lines_dispatch [simp]: "u_lines (snd (dispatchMessage f msg u)) = u_lines u @ [msg]"
  using kept_dispatch[of msg u] by (simp add: kept_def)

lemma dispatch_buffer: "u_toGame (snd (dispatchMessage f msg u)) = u_toGame u"
  using io_dispatch[of msg u] by (simp add: io_def)

subsection \<open>The invariant\<close>

text \<open>Reading comes down to dispatching single lines.\<close>

lemma split_keeps:
  assumes "P u" and "length buf \<le> BUFF_SIZE"
    and set: "\<And>u r. P u \<Longrightarrow> length r \<le> BUFF_SIZE \<Longrightarrow> P (u\<lparr>u_toGame := r\<rparr>)"
    and dispatch: "\<And>m u. P u \<Longrightarrow> NL \<notin> set m \<Longrightarrow> m \<noteq> [] \<Longrightarrow> P (snd (dispatchMessage f m u))"
  shows "P (snd (split_messages f buf u))"
  using assms(1,2)
proof (induction "length buf" arbitrary: buf u rule: less_induct)
  case less
  show ?case
  proof (cases "NL \<in> set buf")
    case False
    then show ?thesis using set[OF less.prems] by (simp add: split_messages.simps[of f buf])
  next
    case True
    define msg where "msg = takeWhile (\<lambda>c. c \<noteq> NL) buf"
    define rest where "rest = tl (dropWhile (\<lambda>c. c \<noteq> NL) buf)"
    have r: "length rest < length buf" unfolding rest_def by (rule after_line_shorter[OF True])
    then have lr: "length rest \<le> BUFF_SIZE" using less.prems(2) by simp
    have u1: "P (u\<lparr>u_toGame := rest\<rparr>)" by (rule set[OF less.prems(1) lr])
    show ?thesis
    proof (cases "msg = []")
      case m: True
      show ?thesis using True m less.hyps[OF r u1 lr]
        by (simp add: split_messages.simps[of f buf] Let_def flip: msg_def rest_def)
    next
      case m: False
      have d: "P (snd (dispatchMessage f msg (u\<lparr>u_toGame := rest\<rparr>)))"
        by (rule dispatch[OF u1 _ m]) (simp add: msg_def takeWhile_no_NL)
      then show ?thesis using True m less.hyps[OF r _ lr]
        by (cases "dispatchMessage f msg (u\<lparr>u_toGame := rest\<rparr>)")
          (auto simp: split_messages.simps[of f buf] Let_def simp flip: msg_def rest_def split: option.splits)
    qed
  qed
qed

lemma read_keeps:
  assumes "P u" and "length (u_toGame u) \<le> BUFF_SIZE"
    and set: "\<And>u r. P u \<Longrightarrow> length r \<le> BUFF_SIZE \<Longrightarrow> P (u\<lparr>u_toGame := r\<rparr>)"
    and rec: "\<And>u r. P u \<Longrightarrow> P (u\<lparr>u_received := r\<rparr>)" and speak: "\<And>u. P u \<Longrightarrow> P (startSpeaking_of f u)"
    and dispatch: "\<And>m u. P u \<Longrightarrow> NL \<notin> set m \<Longrightarrow> m \<noteq> [] \<Longrightarrow> P (snd (dispatchMessage f m u))"
  shows "P (snd (readFromServer f rs u))"
proof (cases "readNonBlock (BUFF_SIZE - length (u_toGame u)) rs")
  case (Inr b)
  show ?thesis
  proof (cases b)
    case (Some bs)
    define v where "v = u\<lparr>u_toGame := u_toGame u @ bs, u_received := u_received u @ bs\<rparr>"
    have len: "length (u_toGame u @ bs) \<le> BUFF_SIZE"
      using readNonBlock_bounds[OF Inr[unfolded Some]] assms(2) unfolding length_append by linarith
    have "P v" unfolding v_def using rec[OF set[OF assms(1) len]] by simp
    then have "P (snd (splitIntoMessages f v))" unfolding splitIntoMessages_def
      by (rule split_keeps[where P = P]) (use len in \<open>simp_all add: v_def set dispatch\<close>)
    then have "P (snd (andthen (splitIntoMessages f v) (\<lambda>u. (None, if u_queue u \<noteq> [] then startSpeaking_of f u else u))))"
      by (rule andthen_keeps[where P = P]) (simp add: speak)
    then show ?thesis using assms(1) by (simp add: readFromServer_def Inr Some v_def)
  qed (simp add: readFromServer_def Inr assms(1))
qed (simp add: readFromServer_def assms(1))

lemma write_keeps:
  assumes "P u" and fill: "\<And>u r. P u \<Longrightarrow> length r \<le> BUFF_SIZE \<Longrightarrow> P (u\<lparr>u_toServer := r\<rparr>)"
    and send: "\<And>u r x. P u \<Longrightarrow> u_connEstablished u \<Longrightarrow> length r \<le> length (u_toServer u) \<Longrightarrow> P (u\<lparr>u_toServer := r, u_sent := x\<rparr>)"
    and stop: "\<And>u. P u \<Longrightarrow> P (stopSpeaking_of f u)"
  shows "P (snd (writeToServer f ws u))"
proof (cases "u_connEstablished u")
  case True
  define Q where "Q v \<longleftrightarrow> P v \<and> u_connEstablished v" for v :: "'a engine_scheme"
  have c: "u_connEstablished (stopSpeaking_of f v) = u_connEstablished v" for v
    using speak_frames(5)[of v] by (simp add: pc_def)
  have q: "Q (snd (fill_toServer u))"
    using assms(1) True fill by (auto simp: fill_toServer_def Q_def split: list.split)
  have "Q v \<Longrightarrow> Q (snd (case writeNonBlock (u_toServer v) ws of Inl e \<Rightarrow> (Some e, v)
        | Inr None \<Rightarrow> fail X_CLIENT_DISCONNECTED [] v
        | Inr (Some n) \<Rightarrow> (None, if n = 0 then v
            else (let u1 = v\<lparr>u_toServer := drop n (u_toServer v), u_sent := u_sent v @ take n (u_toServer v)\<rparr>
                  in if u_toServer u1 = [] then stopSpeaking_of f u1 else u1))))" for v
    using send[of v "[]"] send[of v] stop by (auto simp: Let_def Q_def c split: sum.split option.split)
  then have "Q (snd (writeToServer f ws u))" unfolding writeToServer_def using q True
    by (auto intro!: andthen_keeps[where P = Q])
  then show ?thesis by (simp add: Q_def)
qed (simp add: writeToServer_def assms(1))

lemma ok_dispatch_parts: "io_bounded (snd (dispatchMessage f m u)) = io_bounded u"
  by (rule ok_frames(1)[OF io_dispatch])

lemma greeted_dispatch:
  assumes "greeted u" and "NL \<notin> set msg" and "msg \<noteq> []"
  shows "greeted (snd (dispatchMessage f msg u))"
proof (cases "kind_of_line msg = RESPONSE")
  case True
  then show ?thesis by (simp add: greeted_def)
next
  case False
  define v where "v = u\<lparr>u_lines := u_lines u @ [msg]\<rparr>"
  have v: "greeted v" using assms(1) by (auto simp: v_def greeted_def)
  show ?thesis
  proof (cases "Message msg")
    case (Inl e)
    then show ?thesis using v by (cases e) (simp_all add: dispatchMessage_def Let_def v_def)
  next
    case (Inr m)
    have "\<not> isResponse m" using kind_of_message[OF assms(2,3) Inr] False by (simp add: isResponse_def)
    then have "outside (snd (dispatch_parsed f m v)) = outside v"
      by (simp add: dispatch_parsed_def same_andthen)
    then have "greeted (snd (dispatch_parsed f m v))" using v ok_frames(2) by blast
    then show ?thesis by (simp add: dispatchMessage_def Let_def v_def Inr)
  qed
qed

lemma phased_updatePhase: "phased u \<Longrightarrow> phased (snd (updatePhase f p u))"
proof -
  assume u: "phased u"
  have *: "pc (v\<lparr>u_phase := p\<rparr>) = pc (w\<lparr>u_phase := p\<rparr>)" if "pc v = pc w" for v w :: "'a engine_scheme" and p
    using that by (simp add: pc_def)
  have s: "pc ((startSpeaking_of f v)\<lparr>u_phase := p\<rparr>) = pc (v\<lparr>u_phase := p\<rparr>)"
    "pc ((stopSpeaking_of f v)\<lparr>u_phase := p\<rparr>) = pc (v\<lparr>u_phase := p\<rparr>)" for v p
    by (rule *; simp)+
  have n: "phased ((startSpeaking_of f v)\<lparr>u_phase := p\<rparr>) = phased (v\<lparr>u_phase := p\<rparr>)"
    "phased ((stopSpeaking_of f v)\<lparr>u_phase := p\<rparr>) = phased (v\<lparr>u_phase := p\<rparr>)" for v p
    by (rule ok_frames(3)[OF s(1)], rule ok_frames(3)[OF s(2)])
  show ?thesis using u by (simp add: updatePhase_def Let_def n) (auto simp: phased_def)
qed

lemma phased_switch: "phased u \<Longrightarrow> phased (snd (switchWindow_of f p u))"
  using phased_updatePhase[of u p] ok_frames(3)[OF pc_switch] by blast

lemma phased_error_window: "phased (snd (switchWindow_of f (Some P_ERROR) u))"
  unfolding ok_frames(3)[OF pc_switch] by (simp add: updatePhase_def phased_def)

lemma phased_shakeHands: "phased u \<Longrightarrow> phased (snd (shakeHands_of f u))"
proof -
  assume "phased u"
  then have "phased (u\<lparr>u_connEstablished := True\<rparr>)" by (simp add: phased_def)
  then have "phased (snd (UI_shakeHands f u))"
    using ok_frames(3)[OF speak_frames(4)] ok_frames(3)[OF pc_ops(3)]
    by (auto simp: UI_shakeHands_def Let_def intro!: andthen_keeps[where P = phased] phased_switch)
  then show ?thesis using ok_frames(3)[OF frames_core(4)[OF shake_core]] by blast
qed

lemma pc_stop [simp]: "pc (stop_of f u) = pc u"
  using frames_core(4)[OF stop_core] by (simp add: pc_def UI_stop_def)

lemma phased_dispatch: "phased u \<Longrightarrow> phased (snd (dispatchMessage f msg u))"
proof -
  assume "phased u"
  then have v: "phased (u\<lparr>u_lines := u_lines u @ [msg]\<rparr>)" by (simp add: phased_def)
  have same: "phased (snd (showResponse_of f m w)) = phased w" "phased (snd (report f m w)) = phased w"
      "phased (snd (notify f m w)) = phased w" "phased (pop_front w) = phased w" "phased (stop_of f w) = phased w" for m w
    by (rule ok_frames(3), simp)+
  show ?thesis using v
    by (auto simp: dispatchMessage_def dispatch_parsed_def respond_def Let_def same
      intro!: andthen_keeps[where P = phased] step_when_keeps[where P = phased] phased_shakeHands phased_switch
      split: sum.split failure.split GamePhase.split option.split)
qed

lemma client_ok_stop [simp]: "client_ok (stop_of f u) = client_ok u"
  using client_ok_core[OF stop_core] by simp

lemma ok_read:
  assumes "client_ok u"
  shows "client_ok (snd (readFromServer f rs u))"
proof (rule read_keeps[where P = client_ok])
  fix m :: string and v :: "'a engine_scheme" assume "client_ok v" "NL \<notin> set m" "m \<noteq> []"
  then show "client_ok (snd (dispatchMessage f m v))"
    by (simp add: client_ok_def ok_dispatch_parts greeted_dispatch phased_dispatch)
next
  fix r :: string and v :: "'a engine_scheme" assume "client_ok v" "length r \<le> BUFF_SIZE"
  then show "client_ok (v\<lparr>u_toGame := r\<rparr>)" by (simp add: client_ok_def io_bounded_def greeted_def phased_def)
next
  show "length (u_toGame u) \<le> BUFF_SIZE" using assms by (simp add: client_ok_def io_bounded_def)
qed (simp_all add: assms)

lemma ok_write:
  assumes "client_ok u"
  shows "client_ok (snd (writeToServer f ws u))"
proof (rule write_keeps[where P = client_ok])
  fix r :: string and v :: "'a engine_scheme" assume "client_ok v" "length r \<le> BUFF_SIZE"
  then show "client_ok (v\<lparr>u_toServer := r\<rparr>)" by (simp add: client_ok_def io_bounded_def greeted_def phased_def)
next
  fix r x :: string and v :: "'a engine_scheme" assume "client_ok v" "u_connEstablished v" "length r \<le> length (u_toServer v)"
  then show "client_ok (v\<lparr>u_toServer := r, u_sent := x\<rparr>)" by (simp add: client_ok_def io_bounded_def greeted_def phased_def)
qed (simp_all add: assms)

lemma ok_switch: "client_ok u \<Longrightarrow> client_ok (snd (switchWindow_of f p u))"
  using ok_frames(1)[OF kept_io[OF kept_of_outside(1)]] ok_frames(2)[OF outside_switch] phased_switch
  by (simp add: client_ok_def)

lemma ok_error_window: "io_bounded u \<Longrightarrow> greeted u \<Longrightarrow> client_ok (snd (switchWindow_of f (Some P_ERROR) u))"
  using ok_frames(1)[OF kept_io[OF kept_of_outside(1)]] ok_frames(2)[OF outside_switch] phased_error_window
  by (simp add: client_ok_def)

lemma ok_exception:
  assumes "client_ok u"
  shows "client_ok (snd (UI_handleException f e u))"
proof (cases "err_code e = X_SERVER_DISCONNECTED")
  case True
  let ?u = "u\<lparr>u_queue := [], u_toGame := [], u_toServer := []\<rparr>"
  obtain r v where v: "push_command (command_name C_WAIT_HANDSHAKE) ?u = (r, v)" by fastforce
  have "client_ok ?u" using assms by (simp add: client_ok_def io_bounded_def greeted_def phased_def)
  then have ok: "client_ok v" using client_ok_ops(3)[of "command_name C_WAIT_HANDSHAKE" ?u] by (simp add: v)
  then have "client_ok (snd (switchWindow_of f (Some P_ERROR) (v\<lparr>u_connEstablished := False\<rparr>)))"
    by (intro ok_error_window) (simp_all add: client_ok_def io_bounded_def greeted_def)
  then show ?thesis using True ok by (simp add: UI_handleException_def v andthen_def split: option.split)
qed (simp add: UI_handleException_def ok_switch assms)

lemma ok_command: "client_ok u \<Longrightarrow> client_ok (snd (UI_handleCommand f s u))"
  by (auto simp: UI_handleCommand_def Let_def intro!: andthen_keeps[where P = client_ok])

lemma ok_button: "client_ok u \<Longrightarrow> client_ok (snd (run_button f a u))"
  by (simp add: run_button_def ok_switch split: button_action.split)

end

subsection \<open>Framing of the received stream\<close>

text \<open>The complete lines of a text and what follows the last newline.\<close>

function frames :: "string \<Rightarrow> string list \<times> string" where
  "frames s = (if NL \<notin> set s then ([], s)
     else (case frames (tl (dropWhile (\<lambda>c. c \<noteq> NL) s)) of (ls, r) \<Rightarrow> (takeWhile (\<lambda>c. c \<noteq> NL) s # ls, r)))"
  by auto
termination by (relation "measure length") (simp_all add: after_line_shorter del: length_tl)

declare frames.simps [simp del]

lemma frames_partial [simp]: "NL \<notin> set s \<Longrightarrow> frames s = ([], s)"
  by (simp add: frames.simps)

lemma frames_line [simp]: "NL \<notin> set l \<Longrightarrow> frames (l @ NL # s) = (l # fst (frames s), snd (frames s))"
  by (subst frames.simps) (auto simp: takeWhile_append dropWhile_append split: prod.split)

lemma frames_step:
  "NL \<in> set s \<Longrightarrow> frames s = (takeWhile (\<lambda>c. c \<noteq> NL) s # fst (frames (tl (dropWhile (\<lambda>c. c \<noteq> NL) s))),
     snd (frames (tl (dropWhile (\<lambda>c. c \<noteq> NL) s))))"
  by (subst frames.simps) (simp split: prod.split)

lemma frames_rest: "NL \<notin> set (snd (frames s))"
proof (induction s rule: frames.induct)
  case (1 s)
  then show ?case by (cases "NL \<in> set s") (simp_all add: frames_step)
qed

lemma frames_append: "frames (a @ b) = (fst (frames a) @ fst (frames (snd (frames a) @ b)), snd (frames (snd (frames a) @ b)))"
proof (induction a rule: frames.induct)
  case (1 a)
  show ?case
  proof (cases "NL \<in> set a")
    case True
    have ab: "NL \<in> set (a @ b)" using True by simp
    have d: "tl (dropWhile (\<lambda>c. c \<noteq> NL) (a @ b)) = tl (dropWhile (\<lambda>c. c \<noteq> NL) a) @ b"
      using True by (auto simp: dropWhile_append dropWhile_eq_Nil_conv)
    have t: "takeWhile (\<lambda>c. c \<noteq> NL) (a @ b) = takeWhile (\<lambda>c. c \<noteq> NL) a"
      using True by (auto simp: takeWhile_append)
    show ?thesis using "1.IH" True by (simp add: frames_step[OF True] frames_step[OF ab] d t)
  qed simp
qed

text \<open>Reads one after another, while none of them throws.\<close>

fun read_all :: "('a engine_scheme, 'b) face_scheme \<Rightarrow> recv_out list list \<Rightarrow> 'a engine_scheme \<Rightarrow> 'a engine_scheme step" where
  "read_all f [] u = (None, u)"
| "read_all f (rs # rss) u = andthen (readFromServer f rs u) (read_all f rss)"

context interface begin

lemma split_messages_lines:
  "fst (split_messages f buf u) = None \<Longrightarrow>
   u_lines (snd (split_messages f buf u)) = u_lines u @ filter (\<lambda>l. l \<noteq> []) (fst (frames buf))
   \<and> u_toGame (snd (split_messages f buf u)) = snd (frames buf)
   \<and> u_received (snd (split_messages f buf u)) = u_received u"
proof (induction "length buf" arbitrary: buf u rule: less_induct)
  case less
  show ?case
  proof (cases "NL \<in> set buf")
    case False
    then show ?thesis by (simp add: split_messages.simps[of f buf])
  next
    case True
    define msg where "msg = takeWhile (\<lambda>c. c \<noteq> NL) buf"
    define rest where "rest = tl (dropWhile (\<lambda>c. c \<noteq> NL) buf)"
    have r: "length rest < length buf" unfolding rest_def by (rule after_line_shorter[OF True])
    have fr: "frames buf = (msg # fst (frames rest), snd (frames rest))"
      using frames_step[OF True] by (simp add: msg_def rest_def)
    define u1 where "u1 = u\<lparr>u_toGame := rest\<rparr>"
    show ?thesis
    proof (cases "msg = []")
      case m: True
      have s: "split_messages f buf u = split_messages f rest u1"
        using True m by (simp add: split_messages.simps[of f buf] Let_def u1_def flip: msg_def rest_def)
      show ?thesis using less.hyps[OF r, of u1] less.prems m unfolding s fr by (simp add: u1_def)
    next
      case m: False
      obtain r2 u2 where d: "dispatchMessage f msg u1 = (r2, u2)" by (cases "dispatchMessage f msg u1")
      have s: "split_messages f buf u = (case r2 of Some e \<Rightarrow> (Some e, u2) | None \<Rightarrow> split_messages f rest u2)"
        using True m d by (simp add: split_messages.simps[of f buf] Let_def u1_def flip: msg_def rest_def)
      with less.prems have f: "r2 = None" by (cases r2) auto
      have u2: "u_lines u2 = u_lines u @ [msg]" "u_received u2 = u_received u"
        using lines_dispatch[of msg u1] io_dispatch[of msg u1] unfolding d by (simp_all add: u1_def io_def)
      show ?thesis using less.hyps[OF r, of u2] less.prems m unfolding s fr f by (simp add: u2)
    qed
  qed
qed

lemma read_lines:
  assumes "fst (readFromServer f rs u) = None" and "NL \<notin> set (u_toGame u)"
  shows "\<exists>bs. u_received (snd (readFromServer f rs u)) = u_received u @ bs
    \<and> u_lines (snd (readFromServer f rs u)) = u_lines u @ filter (\<lambda>l. l \<noteq> []) (fst (frames (u_toGame u @ bs)))
    \<and> u_toGame (snd (readFromServer f rs u)) = snd (frames (u_toGame u @ bs))"
proof (cases "readNonBlock (BUFF_SIZE - length (u_toGame u)) rs")
  case (Inl e)
  then show ?thesis using assms by (simp add: readFromServer_def)
next
  case (Inr b)
  show ?thesis
  proof (cases b)
    case None
    then show ?thesis using assms Inr by (simp add: readFromServer_def)
  next
    case (Some bs)
    show ?thesis
    proof (cases "bs = []")
      case True
      then show ?thesis using assms Inr Some by (intro exI[of _ "[]"]) (simp add: readFromServer_def)
    next
      case False
      define v where "v = u\<lparr>u_toGame := u_toGame u @ bs, u_received := u_received u @ bs\<rparr>"
      obtain e w where w: "split_messages f (u_toGame u @ bs) v = (e, w)"
        by (cases "split_messages f (u_toGame u @ bs) v")
      have r: "readFromServer f rs u = andthen (e, w) (\<lambda>u. (None, if u_queue u \<noteq> [] then startSpeaking_of f u else u))"
        using False Inr Some w by (simp add: readFromServer_def splitIntoMessages_def v_def)
      have e: "e = None" using assms(1) unfolding r by (cases e) (simp_all add: andthen_def)
      have "u_lines w = u_lines v @ filter (\<lambda>l. l \<noteq> []) (fst (frames (u_toGame u @ bs))) \<and> u_toGame w = snd (frames (u_toGame u @ bs))
          \<and> u_received w = u_received v"
        using split_messages_lines[of "u_toGame u @ bs" v] unfolding w e by simp
      then show ?thesis unfolding r e
        by (intro exI[of _ bs]) (simp add: andthen_def v_def)
    qed
  qed
qed

lemma read_all_lines:
  "fst (read_all f rss u) = None \<Longrightarrow> NL \<notin> set (u_toGame u) \<Longrightarrow>
   \<exists>bs. u_received (snd (read_all f rss u)) = u_received u @ bs
    \<and> u_lines (snd (read_all f rss u)) = u_lines u @ filter (\<lambda>l. l \<noteq> []) (fst (frames (u_toGame u @ bs)))
    \<and> u_toGame (snd (read_all f rss u)) = snd (frames (u_toGame u @ bs))"
proof (induction rss arbitrary: u)
  case Nil
  then show ?case by simp
next
  case (Cons rs rss)
  obtain e v where v: "readFromServer f rs u = (e, v)" by (cases "readFromServer f rs u")
  have e: "e = None" using Cons.prems(1) v by (cases e) (simp_all add: andthen_def)
  obtain b1 where b1: "u_received v = u_received u @ b1"
      "u_lines v = u_lines u @ filter (\<lambda>l. l \<noteq> []) (fst (frames (u_toGame u @ b1)))"
      "u_toGame v = snd (frames (u_toGame u @ b1))"
    using read_lines[of rs u] Cons.prems(2) unfolding v e by auto
  have ra: "read_all f (rs # rss) u = read_all f rss v" by (simp add: v e andthen_def)
  have nl: "NL \<notin> set (u_toGame v)" unfolding b1(3) by (rule frames_rest)
  obtain b2 where b2: "u_received (snd (read_all f rss v)) = u_received v @ b2"
      "u_lines (snd (read_all f rss v)) = u_lines v @ filter (\<lambda>l. l \<noteq> []) (fst (frames (u_toGame v @ b2)))"
      "u_toGame (snd (read_all f rss v)) = snd (frames (u_toGame v @ b2))"
    using Cons.IH[OF _ nl] Cons.prems(1) unfolding ra by auto
  have "frames (u_toGame u @ b1 @ b2) = (fst (frames (u_toGame u @ b1)) @ fst (frames (u_toGame v @ b2)), snd (frames (u_toGame v @ b2)))"
    using frames_append[of "u_toGame u @ b1" b2] by (simp add: b1(3))
  then show ?case unfolding ra by (intro exI[of _ "b1 @ b2"]) (simp add: b1 b2)
qed

lemma read_one_line:
  assumes "l \<noteq> []" and "NL \<notin> set l" and "length l < 1023" and "u_toGame u = []"
    and "dispatchMessage f l (u\<lparr>u_received := u_received u @ l @ [NL]\<rparr>) = (None, w)"
  shows "readFromServer f [Recvd (l @ [NL]), RWouldBlock] u = (None, if u_queue w \<noteq> [] then startSpeaking_of f w else w)"
proof -
  have r: "readNonBlock (BUFF_SIZE - length (u_toGame u)) [Recvd (l @ [NL]), RWouldBlock] = Inr (Some (l @ [NL]))"
    using assms(3,4) by (simp add: readNonBlock_def BUFF_SIZE_def)
  have e: "u\<lparr>u_received := rr, u_toGame := []\<rparr> = u\<lparr>u_received := rr\<rparr>" for rr using assms(4) by (cases u) simp
  have w: "u_toGame w = []" using dispatch_buffer[of l "u\<lparr>u_received := u_received u @ l @ [NL]\<rparr>"] assms(4,5) by simp
  have "split_messages f (l @ NL # []) (u\<lparr>u_toGame := l @ [NL], u_received := u_received u @ l @ [NL]\<rparr>) = (None, w\<lparr>u_toGame := []\<rparr>)"
    unfolding split_messages_line[OF assms(2,1)] using assms(5) by (simp add: e split_messages_rest)
  also have "w\<lparr>u_toGame := []\<rparr> = w" using w by (cases w) simp
  finally show ?thesis unfolding readFromServer_def r using assms(4)
    by (simp add: splitIntoMessages_def andthen_def)
qed

end

text \<open>Once 1024 bytes without a newline have been read, no read changes anything any more.\<close>

lemma long_line_stalls:
  "length (u_toGame u) = 1024 \<Longrightarrow> readFromServer f rs u = (None, u)"
  by (simp add: readFromServer_def readNonBlock_def BUFF_SIZE_def)

subsection \<open>The messages the engine itself writes and waits for\<close>

lemma command_name_simps [simp]: "command_name C_CONNECT = ''CONNECT''" "command_name C_WAIT_HANDSHAKE = ''WAIT HANDSHAKE''"
  "command_name C_CREATE_PLAYER = ''CREATE PLAYER''"
  by code_simp+

definition wait_message :: message where
  "wait_message = (blank ''WAIT HANDSHAKE'' COMMAND)\<lparr>m_subType := SubCommand C_WAIT_HANDSHAKE\<rparr>"

definition profile_message :: message where
  "profile_message = (blank ''PROFILE'' COMMAND)\<lparr>m_subType := SubCommand C_PROFILE\<rparr>"

lemma fixed_messages:
  "Message ''WAIT HANDSHAKE'' = Inr wait_message" "Message ''PROFILE'' = Inr profile_message"
  "Message HAND_SHAKE = Inr ((blank HAND_SHAKE RESPONSE)\<lparr>m_data := JString ''hello proto=1''\<rparr>)"
  "Message OK_CONNECTED = Inr ((blank OK_CONNECTED RESPONSE)\<lparr>m_data := JString ''connected''\<rparr>)"
  by code_simp+

lemma disconnect_message:
  "Message ERR_SERVER_DISC = Inr ((blank ERR_SERVER_DISC ERROR)
     \<lparr>m_subType := SubError E_CONNECTION_FAILED, m_data := JString ''CONNECTION_FAILED''\<rparr>)"
proof -
  have e: "getError ''CONNECTION_FAILED'' = Some E_CONNECTION_FAILED" and c: "clean ''CONNECTION_FAILED''" and n: "show_nat 900 = ''900''"
    by code_simp+
  show ?thesis using parse_error_line[OF _ e c, of 900 "[]"] by (simp add: Message_def ERR_SERVER_DISC_def n)
qed

lemma push_fixed: "push_command ''WAIT HANDSHAKE'' u = (None, u\<lparr>u_queue := u_queue u @ [wait_message]\<rparr>)"
  "push_command ''PROFILE'' u = (None, u\<lparr>u_queue := u_queue u @ [profile_message]\<rparr>)"
  by (simp_all add: push_command_def fixed_messages)

definition connect_message :: "string \<Rightarrow> message" where
  "connect_message n = (blank (''CONNECT '' @ n) COMMAND)\<lparr>m_subType := SubCommand C_CONNECT, m_data := JString n\<rparr>"

lemma connect_parses:
  assumes "plain_text n" and "\<not> opens_json n"
  shows "Message (''CONNECT '' @ n) = Inr (connect_message n)"
proof -
  have w: "word_ok ''CONNECT''" by (simp add: word_ok_def isspace_def code_of_def)
  have t: "next_token (''CONNECT '' @ n) = (''CONNECT'', CHR '' '' # n)"
    using next_token_word[OF w, of "CHR '' '' # n"] by simp
  have n: "n \<noteq> []" "clean n" using assms(1) by (auto simp: plain_text_def)
  have "last n \<in> set n" using n(1) by (rule last_in_set)
  then have "last n \<noteq> NL" using n(2) by (metis clean_def)
  then have l: "last (''CONNECT '' @ n) \<noteq> NL" using n(1) by (simp only: last_append if_False not_False_eq_True)
  have g: "getCommand ''CONNECT'' = Some C_CONNECT" "commandHasArgs C_CONNECT" by code_simp+
  have p: "parseCommand (''CONNECT '' @ n) = Inr (connect_message n)"
    using n assms(2) unfolding parseCommand_def t Let_def prod.case
    by (simp add: two_words_def g rest_of_plain[OF assms(1)] storeJson_clean connect_message_def split: prod.split)
  obtain s where s: "s = ''CONNECT '' @ n" by simp
  have "Message s = Inr (connect_message n)"
    using l t p unfolding s [symmetric] by (simp add: Message_def parse_message_def S_OK_def S_ERR_def S_EVT_def s)
  then show ?thesis by (simp only: s)
qed

lemma connect_message_type [simp]: "getCommandType (connect_message n) = Some C_CONNECT"
  "getCommandType wait_message = Some C_WAIT_HANDSHAKE" "getCommandType profile_message = Some C_PROFILE"
  by (simp_all add: connect_message_def wait_message_def profile_message_def getCommandType_def isCommand_def)

lemma Message_document:
  assumes "opens_json (render d)"
  shows "Message (''OK '' @ render d) = Inr ((blank (''OK '' @ render d) RESPONSE)\<lparr>m_data := denote d\<rparr>)"
proof -
  have ne: "render d \<noteq> []" using assms by (auto simp: opens_json_def)
  then have "last (render d) \<noteq> NL" using render_one_line[of d] last_in_set by metis
  then have l: "last (''OK '' @ render d) \<noteq> NL" using ne by (simp only: last_append if_False not_False_eq_True)
  obtain s where s: "s = ''OK '' @ render d" by simp
  have "s \<noteq> []" by (simp add: s)
  then have "Message s = parse_message s" using l unfolding s [symmetric] by (simp add: Message_def)
  then show ?thesis unfolding s parse_ok_document[OF assms] .
qed

definition lost_connection :: ErrorData where
  "lost_connection = \<lparr>err_code = X_SERVER_DISCONNECTED, err_info = []\<rparr>"

end
