(* ===== verification/CLI.thy ===== *)
theory CLI
  imports Layout UICorrect
begin

text \<open>
  The interface in the terminal (\<open>client/cli/source/CLI.cpp\<close>): the engine with the overrides of the CLI and its
  poll loop.  The environment says the time, how a double prints, and in which phases the window can be
  drawn; a window that cannot be drawn is left cleared.  At the end the laws of \<open>interface\<close> are proved for
  these overrides.
\<close>

record env =
  e_now :: string
  e_fmt :: "double \<Rightarrow> string"
  e_fits :: "GamePhase \<Rightarrow> bool"

record cli = engine +
  u_client_events :: events
  u_stdin :: bool
  u_keepAlive :: bool
  u_height :: int
  u_width :: int
  u_pipe :: string
  u_login :: form_window
  u_newPlayer :: form_window
  u_game :: game_window
  u_error :: error_window
  u_current :: "GamePhase option"

text \<open>The constructor after the terminal has been measured; both sizes are at least the minimum.\<close>

definition new_cli :: "int \<Rightarrow> int \<Rightarrow> cli" where
  "new_cli rows cols = \<lparr>u_phase = P_ND, u_lastPhase = P_ND, u_queue = [], u_connEstablished = False, u_toServer = [],
      u_toGame = [], u_info = no_info, u_worker = False, u_wakeups = 0, u_sent = [], u_received = [], u_lines = [],
      u_client_events = POLLIN, u_stdin = False, u_keepAlive = False,
      u_height = (if rows < MIN_HEIGHT_CLI then MIN_HEIGHT_CLI else rows),
      u_width = (if cols < MIN_WIDTH_CLI then MIN_WIDTH_CLI else cols), u_pipe = [], u_login = new_form,
      u_newPlayer = new_form, u_game = new_game_window, u_error = new_error_window, u_current = None\<rparr>"

subsection \<open>Switching windows\<close>

definition startSpeaking :: "cli \<Rightarrow> cli" where
  "startSpeaking u = u\<lparr>u_client_events := u_client_events u OR POLLOUT\<rparr>"

definition stopSpeaking :: "cli \<Rightarrow> cli" where
  "stopSpeaking u = u\<lparr>u_client_events := POLLIN\<rparr>"

definition cli_speaker :: "cli speaker" where
  "cli_speaker = \<lparr>startSpeaking_of = startSpeaking, stopSpeaking_of = stopSpeaking\<rparr>"

definition clear_window :: "GamePhase \<Rightarrow> cli \<Rightarrow> cli" where
  "clear_window p u = (case p of
     P_LOGIN \<Rightarrow> u\<lparr>u_login := clear_form (u_login u)\<rparr>
   | P_PLAYER_CREATE \<Rightarrow> u\<lparr>u_newPlayer := clear_form (u_newPlayer u)\<rparr>
   | P_GAME \<Rightarrow> u\<lparr>u_game := clear_game (u_game u)\<rparr>
   | P_ERROR \<Rightarrow> u\<lparr>u_error := clear_error (u_error u)\<rparr>
   | P_ND \<Rightarrow> u)"

definition draw_window :: "env \<Rightarrow> GamePhase \<Rightarrow> cli \<Rightarrow> cli step" where
  "draw_window env p u = (let h = u_height u; w = u_width u in
     if p = P_ERROR then
       (case draw_error h w (u_error u) of Inl f \<Rightarrow> (Some f, u)
        | Inr e \<Rightarrow> if e_fits env p then (None, u\<lparr>u_error := e\<rparr>) else fail X_UI_INVALID_SIZE [] u)
     else if \<not> e_fits env p then fail X_UI_INVALID_SIZE [] u
     else (None, case p of
         P_LOGIN \<Rightarrow> u\<lparr>u_login := draw_login h w (u_login u)\<rparr>
       | P_PLAYER_CREATE \<Rightarrow> u\<lparr>u_newPlayer := draw_create h w (u_newPlayer u)\<rparr>
       | P_GAME \<Rightarrow> u\<lparr>u_game := draw_game h w (u_game u)\<rparr>
       | _ \<Rightarrow> u))"

definition switchWindow :: "env \<Rightarrow> GamePhase option \<Rightarrow> cli \<Rightarrow> cli step" where
  "switchWindow env newPhase u = andthen (UI_switchWindow cli_speaker newPhase u)
     (\<lambda>u. let u1 = (case u_current u of Some p \<Rightarrow> if u_phase u \<noteq> P_ERROR then clear_window p u else u | None \<Rightarrow> u) in
          if u_phase u = P_ND then crash u1
          else draw_window env (u_phase u) (u1\<lparr>u_current := Some (u_phase u)\<rparr>))"

definition cli_switcher :: "env \<Rightarrow> cli switcher" where
  "cli_switcher env = \<lparr>startSpeaking_of = startSpeaking, stopSpeaking_of = stopSpeaking, switchWindow_of = switchWindow env\<rparr>"

subsection \<open>The other overrides\<close>

definition stop :: "cli \<Rightarrow> cli" where
  "stop u = (UI_stop u)\<lparr>u_keepAlive := False\<rparr>"

definition shakeHands :: "env \<Rightarrow> cli \<Rightarrow> cli step" where
  "shakeHands env u = andthen (UI_shakeHands (cli_switcher env) u) (\<lambda>u. (None, u\<lparr>u_stdin := True\<rparr>))"

definition track_info :: "message \<Rightarrow> CommandType \<Rightarrow> cli \<Rightarrow> cli" where
  "track_info response c u = (case tracked_info response c (u_info u) of
     None \<Rightarrow> u
   | Some i \<Rightarrow> u\<lparr>u_info := i, u_game := updatePlayerPanel i (u_game u)\<rparr>)"

definition put_game :: "game_window outcome \<Rightarrow> cli \<Rightarrow> cli step" where
  "put_game r u = (case r of Inl f \<Rightarrow> (Some f, u) | Inr g \<Rightarrow> (None, u\<lparr>u_game := g\<rparr>))"

definition showResponse :: "env \<Rightarrow> message \<Rightarrow> cli \<Rightarrow> cli step" where
  "showResponse env response u = noexcept (case front_command u of
     None \<Rightarrow> crash u
   | Some c \<Rightarrow> (let u1 = track_info response c u in
       if c = C_PROFILE then (None, u1)
       else put_game (appendResponse (e_fmt env) (e_now env) response c (u_game u1)) u1))"

definition showEvent :: "env \<Rightarrow> message \<Rightarrow> cli \<Rightarrow> cli step" where
  "showEvent env event u = noexcept (put_game (appendEvent (e_now env) event (u_game u)) u)"

definition showError :: "env \<Rightarrow> message \<Rightarrow> cli \<Rightarrow> cli step" where
  "showError env error u = noexcept (case front_command u of
     None \<Rightarrow> crash u
   | Some c \<Rightarrow> put_game (appendError (e_now env) error c (u_game u)) u)"

definition cli_face :: "env \<Rightarrow> cli face" where
  "cli_face env = \<lparr>startSpeaking_of = startSpeaking, stopSpeaking_of = stopSpeaking, switchWindow_of = switchWindow env,
     shakeHands_of = shakeHands env, stop_of = stop, showResponse_of = showResponse env, showEvent_of = showEvent env,
     showError_of = showError env\<rparr>"

subsection \<open>Errors, commands, poll events\<close>

definition handleException :: "env \<Rightarrow> ErrorData \<Rightarrow> cli \<Rightarrow> cli step" where
  "handleException env error u =
     (if err_code error = X_UI_INVALID_SIZE then
        (case u_current u of None \<Rightarrow> crash u | Some p \<Rightarrow> (None, clear_window p u))
      else (let shown = (if u_phase u = P_ERROR then \<lparr>err_code = X_UI_DOUBLE_ERROR, err_info = mapError error\<rparr> else error)
            in UI_handleException (cli_face env) error (u\<lparr>u_error := adaptWinToError shown (u_error u)\<rparr>)))"

text \<open>The pipe holds the bytes the tabs have written; one read takes at most 128 of them.\<close>

definition handleCommand :: "env \<Rightarrow> cli \<Rightarrow> cli step" where
  "handleCommand env u = (if u_pipe u = []
     then fail X_IO_READ_FAILED (strerror_EAGAIN @ '', couldn'' @ [APOS] @ ''t read command'') u
     else UI_handleCommand (cli_face env) (take CMD_BUFFER_SIZE (u_pipe u)) (u\<lparr>u_pipe := drop CMD_BUFFER_SIZE (u_pipe u)\<rparr>))"

definition handlePollError :: "sock_error \<Rightarrow> events \<Rightarrow> cli \<Rightarrow> cli step" where
  "handlePollError err revents u =
     (if revents AND POLLHUP \<noteq> 0 then fail X_CLIENT_DISCONNECTED [] u
      else if revents AND POLLNVAL \<noteq> 0 then fail X_IO_POLL_FAILED ''invalid socket (POLLNVAL)'' u
      else if revents AND POLLERR \<noteq> 0 then
        (case err of GetsockoptFailed e \<Rightarrow> fail X_IO_POLL_FAILED (''getsockopt failed during POLLERR: '' @ e) u
         | SockError e \<Rightarrow> fail X_IO_POLL_FAILED e u
         | NoSockError \<Rightarrow> (None, u))
      else (None, u))"

text \<open>\<open>NcWindow::resize\<close>: clear, then draw.\<close>

definition resize :: "env \<Rightarrow> GamePhase \<Rightarrow> cli \<Rightarrow> cli step" where
  "resize env p u = draw_window env p (clear_window p u)"

definition handleResize :: "env \<Rightarrow> (int \<times> int) option \<Rightarrow> cli \<Rightarrow> cli step" where
  "handleResize env termSize u = (case termSize of
     None \<Rightarrow> (None, u)
   | Some (rows, cols) \<Rightarrow> (let u1 = u\<lparr>u_height := rows, u_width := cols\<rparr> in
       case u_current u of None \<Rightarrow> (None, u1) | Some p \<Rightarrow> resize env p u1))"

subsection \<open>Keys\<close>

definition take_input :: "input_tab \<Rightarrow> string \<times> input_tab" where
  "take_input t = (it_pipe t, t\<lparr>it_pipe := []\<rparr>)"

definition after_form :: "env \<Rightarrow> (form_window \<Rightarrow> cli \<Rightarrow> cli) \<Rightarrow>
    failure option \<times> form_window \<times> button_action option \<Rightarrow> cli \<Rightarrow> cli step" where
  "after_form env upd r u = (case r of (f, w, a) \<Rightarrow>
     (case take_input (fw_input w) of (bytes, i) \<Rightarrow>
       (let u1 = upd (w\<lparr>fw_input := i\<rparr>) (u\<lparr>u_pipe := u_pipe u @ bytes\<rparr>) in
        case f of Some e \<Rightarrow> (Some e, u1)
        | None \<Rightarrow> (case a of None \<Rightarrow> (None, u1) | Some b \<Rightarrow> run_button (cli_face env) b u1))))"

definition after_game :: "failure option \<times> game_window \<Rightarrow> cli \<Rightarrow> cli step" where
  "after_game r u = (case r of (f, g) \<Rightarrow>
     (case take_input (io_in (gw_cmd g)) of (b1, i1) \<Rightarrow> (case take_input (io_in (gw_chat g)) of (b2, i2) \<Rightarrow>
       (f, u\<lparr>u_pipe := u_pipe u @ b1 @ b2,
             u_game := g\<lparr>gw_cmd := (gw_cmd g)\<lparr>io_in := i1\<rparr>, gw_chat := (gw_chat g)\<lparr>io_in := i2\<rparr>\<rparr>\<rparr>))))"

text \<open>\<open>NcWindow::handleUserInput\<close> of the current window; \<open>None\<close>: it does not return.\<close>

definition window_key :: "env \<Rightarrow> send_out \<Rightarrow> int \<Rightarrow> cli \<Rightarrow> cli step option" where
  "window_key env w k u = (case u_current u of
     Some P_LOGIN \<Rightarrow> map_option (\<lambda>r. after_form env (\<lambda>f u. u\<lparr>u_login := f\<rparr>) r u) (form_key login_button w k (u_login u))
   | Some P_PLAYER_CREATE \<Rightarrow> map_option (\<lambda>r. after_form env (\<lambda>f u. u\<lparr>u_newPlayer := f\<rparr>) r u) (form_key create_button w k (u_newPlayer u))
   | Some P_GAME \<Rightarrow> map_option (\<lambda>r. after_game r u) (game_key (e_now env) w k (u_game u))
   | Some P_ERROR \<Rightarrow> map_option (\<lambda>(e, a). let u1 = u\<lparr>u_error := e\<rparr> in
        case a of None \<Rightarrow> (None, u1) | Some b \<Rightarrow> run_button (cli_face env) b u1) (error_key k (u_error u))
   | _ \<Rightarrow> Some (crash u))"

subsection \<open>The loop\<close>

record cli_input =
  c_env :: env
  c_poll :: poll_out
  c_client :: events
  c_cmd :: bool
  c_resize :: bool
  c_stdin :: bool
  c_reads :: "recv_out list"
  c_sends :: "send_out list"
  c_error :: sock_error
  c_size :: "(int \<times> int) option"
  c_write :: send_out
  c_key :: int

text \<open>The body of the loop inside \<open>try\<close>: the events are handled in this order, the keyboard last.\<close>

definition turn_io :: "cli_input \<Rightarrow> cli \<Rightarrow> cli step" where
  "turn_io i u = andthen (andthen (andthen (andthen
     (step_when (c_client i AND POLLIN \<noteq> 0) (readFromServer (cli_face (c_env i)) (c_reads i)) u)
     (step_when (c_client i AND POLLOUT \<noteq> 0) (writeToServer (cli_face (c_env i)) (c_sends i))))
     (step_when (c_client i AND error_bits \<noteq> 0) (handlePollError (c_error i) (c_client i))))
     (step_when (c_cmd i) (handleCommand (c_env i))))
     (step_when (c_resize i) (handleResize (c_env i) (c_size i)))"

definition turn_body :: "cli_input \<Rightarrow> cli \<Rightarrow> cli step option" where
  "turn_body i u = (case poll (c_poll i) of
     Inl f \<Rightarrow> Some (Some f, u)
   | Inr n \<Rightarrow> if n = 0 then Some (None, u) else
      (case turn_io i u of
       (Some f, u1) \<Rightarrow> Some (Some f, u1)
     | (None, u1) \<Rightarrow> if c_stdin i then window_key (c_env i) (c_write i) (c_key i) u1 else Some (None, u1)))"

text \<open>One turn: an \<open>AppException\<close> goes to \<open>handleException\<close>, what that throws leaves \<open>start\<close>.\<close>

definition turn :: "cli_input \<Rightarrow> cli \<Rightarrow> cli step option" where
  "turn i u = (case turn_body i u of
     None \<Rightarrow> None
   | Some (Some (Throw e), u1) \<Rightarrow> Some (handleException (c_env i) e u1)
   | Some r \<Rightarrow> Some r)"

fun cli_loop :: "cli_input list \<Rightarrow> cli \<Rightarrow> cli step option" where
  "cli_loop [] u = Some (None, u)"
| "cli_loop (i # is) u = (if \<not> u_keepAlive u then Some (None, u)
     else (case turn i u of None \<Rightarrow> None | Some (Some f, u1) \<Rightarrow> Some (Some f, u1) | Some (None, u1) \<Rightarrow> cli_loop is u1))"

definition start :: "cli_input list \<Rightarrow> cli \<Rightarrow> cli step option" where
  "start is u = (case UI_start u of (Some f, u1) \<Rightarrow> Some (Some f, u1)
     | (None, u1) \<Rightarrow> cli_loop is (u1\<lparr>u_keepAlive := True\<rparr>))"

subsection \<open>The laws of the interface\<close>

lemma cli_face_sel [simp]: "startSpeaking_of (cli_face env) = startSpeaking" "stopSpeaking_of (cli_face env) = stopSpeaking"
  "switchWindow_of (cli_face env) = switchWindow env" "shakeHands_of (cli_face env) = shakeHands env" "stop_of (cli_face env) = stop"
  "showResponse_of (cli_face env) = showResponse env" "showEvent_of (cli_face env) = showEvent env" "showError_of (cli_face env) = showError env"
  by (simp_all add: cli_face_def)

lemma cli_base: "UI_switchWindow cli_speaker = UI_switchWindow (cli_face env)" "UI_shakeHands (cli_switcher env) = UI_shakeHands (cli_face env)"
  by (rule base_agree shakeHands_agree; simp add: cli_speaker_def cli_switcher_def)+

lemma core_cli_fields [simp]: "core (u\<lparr>u_client_events := ev\<rparr>) = core u" "core (u\<lparr>u_stdin := b\<rparr>) = core u"
  "core (u\<lparr>u_keepAlive := b\<rparr>) = core u" "core (u\<lparr>u_height := h, u_width := w\<rparr>) = core u" "core (u\<lparr>u_pipe := p\<rparr>) = core u"
  "core (u\<lparr>u_login := f\<rparr>) = core u" "core (u\<lparr>u_newPlayer := f\<rparr>) = core u" "core (u\<lparr>u_game := g\<rparr>) = core u"
  "core (u\<lparr>u_error := e\<rparr>) = core u" "core (u\<lparr>u_current := c\<rparr>) = core u"
  by (simp_all add: core_eq_iff)

lemma core_clear [simp]: "core (clear_window p u) = core u"
  by (cases p) (simp_all add: clear_window_def)

lemma core_draw [simp]: "core (snd (draw_window env p u)) = core u"
  by (cases p) (simp_all add: draw_window_def Let_def split: sum.split)

lemma core_put [simp]: "core (snd (put_game r u)) = core u"
  by (simp add: put_game_def split: sum.split)

interpretation terminal: interface "cli_face env" for env
proof unfold_locales
  fix u p show "core (snd (switchWindow_of (cli_face env) p u)) = core (snd (UI_switchWindow (cli_face env) p u))"
    unfolding cli_face_sel switchWindow_def cli_base(1)[of env]
    by (subst same_andthen[where F = core]) (simp_all add: Let_def split: option.split)
next
  fix u show "core (snd (shakeHands_of (cli_face env) u)) = core (snd (UI_shakeHands (cli_face env) u))"
    by (simp add: shakeHands_def cli_base(2) same_andthen)
next
  fix m u show "core (snd (showResponse_of (cli_face env) m u)) = core (u\<lparr>u_info := shown_info m u\<rparr>)"
    by (simp add: showResponse_def shown_info_def track_info_def Let_def split: option.split)
qed (simp_all add: startSpeaking_def stopSpeaking_def stop_def UI_stop_def showEvent_def showError_def split: option.split)

end
