(* ===== verification/ClientCorrect.thy ===== *)
theory ClientCorrect
  imports CLI
begin

text \<open>
  What holds of every run of the CLI's loop, and what a line of the server does to it: invariants of
  \<open>cli_loop\<close> through one locale, the first start, how the interface recovers from a lost connection, and
  the answer to a command.
\<close>

subsection \<open>Invariants of the loop\<close>

locale cli_invariant =
  fixes P :: "cli \<Rightarrow> bool"
  assumes reading: "P u \<Longrightarrow> P (snd (readFromServer (cli_face env) rs u))"
    and writing: "P u \<Longrightarrow> P (snd (writeToServer (cli_face env) ws u))"
    and poll_error: "P u \<Longrightarrow> P (snd (handlePollError e ev u))"
    and commanding: "P u \<Longrightarrow> P (snd (handleCommand env u))"
    and resizing: "P u \<Longrightarrow> P (snd (handleResize env sz u))"
    and keys: "P u \<Longrightarrow> window_key env w k u = Some r \<Longrightarrow> P (snd r)"
    and excepting: "P u \<Longrightarrow> P (snd (handleException env err u))"
begin

lemma turn_io_keeps: "P u \<Longrightarrow> P (snd (turn_io i u))"
  unfolding turn_io_def
  by (intro andthen_keeps[where P = P] step_when_keeps[where P = P] reading writing poll_error commanding resizing)

lemma turn_body_keeps:
  assumes "P u" and "turn_body i u = Some r"
  shows "P (snd r)"
proof (cases "turn_io i u")
  case (Pair f v)
  have v: "P v" using turn_io_keeps[OF assms(1), of i] by (simp add: Pair)
  then show ?thesis using assms keys[OF v]
    by (auto simp: turn_body_def Pair split: sum.splits if_splits option.splits)
qed

lemma turn_keeps:
  assumes "P u" and "turn i u = Some r"
  shows "P (snd r)"
  using assms turn_body_keeps[OF assms(1), of i] excepting
  by (auto simp: turn_def split: option.splits prod.splits failure.splits)

lemma loop_keeps: "P u \<Longrightarrow> cli_loop is u = Some r \<Longrightarrow> P (snd r)"
proof (induction "is" arbitrary: u)
  case (Cons i "is")
  show ?case
  proof (cases "turn i u")
    case None
    then show ?thesis using Cons.prems by (auto split: if_splits)
  next
    case (Some t)
    have t: "P (snd t)" using turn_keeps[OF Cons.prems(1) Some] .
    show ?thesis using Cons.prems Cons.IH[of "snd t"] Some t
      by (cases t) (auto split: if_splits option.splits)
  qed
qed auto

end

text \<open>A key changes the windows and the pipe, and does what a button says.\<close>

lemma after_form_keeps:
  assumes "P u" and pipe: "\<And>x u. P u \<Longrightarrow> P (u\<lparr>u_pipe := x\<rparr>)"
    and upd: "\<And>f u. P u \<Longrightarrow> P (upd f u)" and button: "\<And>a u. P u \<Longrightarrow> P (snd (run_button (cli_face env) a u))"
  shows "P (snd (after_form env upd r u))"
proof -
  obtain f w a where r: "r = (f, w, a)" by (cases r)
  define v where "v = upd (w\<lparr>fw_input := (fw_input w)\<lparr>it_pipe := []\<rparr>\<rparr>) (u\<lparr>u_pipe := u_pipe u @ it_pipe (fw_input w)\<rparr>)"
  have v: "P v" unfolding v_def by (rule upd[OF pipe[OF assms(1)]])
  have "after_form env upd r u = (case f of Some e \<Rightarrow> (Some e, v)
        | None \<Rightarrow> (case a of None \<Rightarrow> (None, v) | Some b \<Rightarrow> run_button (cli_face env) b v))"
    unfolding after_form_def r take_input_def v_def Let_def prod.case ..
  then show ?thesis using v button by (simp split: option.split)
qed

lemma after_game_keeps:
  assumes "P u" and pipe: "\<And>x u. P u \<Longrightarrow> P (u\<lparr>u_pipe := x\<rparr>)" and game: "\<And>g u. P u \<Longrightarrow> P (u\<lparr>u_game := g\<rparr>)"
  shows "P (snd (after_game r u))"
proof -
  obtain f g where r: "r = (f, g)" by (cases r)
  have "snd (after_game r u) = (u\<lparr>u_pipe := u_pipe u @ it_pipe (io_in (gw_cmd g)) @ it_pipe (io_in (gw_chat g))\<rparr>)
      \<lparr>u_game := g\<lparr>gw_cmd := (gw_cmd g)\<lparr>io_in := (io_in (gw_cmd g))\<lparr>it_pipe := []\<rparr>\<rparr>,
                  gw_chat := (gw_chat g)\<lparr>io_in := (io_in (gw_chat g))\<lparr>it_pipe := []\<rparr>\<rparr>\<rparr>\<rparr>"
    by (simp add: after_game_def take_input_def r)
  then show ?thesis using game[OF pipe[OF assms(1)]] by simp
qed

lemma key_keeps:
  assumes "P u" and "window_key env w k u = Some r"
    and "\<And>x u. P u \<Longrightarrow> P (u\<lparr>u_pipe := x\<rparr>)" and "\<And>g u. P u \<Longrightarrow> P (u\<lparr>u_game := g\<rparr>)"
    and "\<And>f u. P u \<Longrightarrow> P (u\<lparr>u_login := f\<rparr>)" and "\<And>f u. P u \<Longrightarrow> P (u\<lparr>u_newPlayer := f\<rparr>)"
    and "\<And>e u. P u \<Longrightarrow> P (u\<lparr>u_error := e\<rparr>)" and "\<And>a u. P u \<Longrightarrow> P (snd (run_button (cli_face env) a u))"
  shows "P (snd r)"
  using assms(1,2)
  by (auto simp: window_key_def Let_def assms(3-) intro!: after_form_keeps[where P = P] after_game_keeps[where P = P]
      split: option.splits GamePhase.splits)

subsection \<open>The invariant of the engine\<close>

lemma client_ok_cli [simp]: "client_ok (u\<lparr>u_stdin := b\<rparr>) = client_ok u" "client_ok (u\<lparr>u_keepAlive := b\<rparr>) = client_ok u"
  "client_ok (u\<lparr>u_height := h, u_width := w\<rparr>) = client_ok u" "client_ok (u\<lparr>u_pipe := x\<rparr>) = client_ok u"
  "client_ok (u\<lparr>u_login := f\<rparr>) = client_ok u" "client_ok (u\<lparr>u_newPlayer := f\<rparr>) = client_ok u" "client_ok (u\<lparr>u_game := g\<rparr>) = client_ok u"
  "client_ok (u\<lparr>u_error := e\<rparr>) = client_ok u" "client_ok (clear_window p u) = client_ok u" "client_ok (snd (draw_window env p u)) = client_ok u"
  by (rule client_ok_core, simp)+

interpretation running: cli_invariant client_ok
proof unfold_locales
  fix u env w k r assume "client_ok u" and "window_key env w k u = Some r"
  then show "client_ok (snd r)" by (rule key_keeps[where P = client_ok]) (simp_all add: terminal.ok_button)
qed (auto simp: terminal.ok_read terminal.ok_write terminal.ok_exception terminal.ok_command handleException_def handleCommand_def
    handlePollError_def handleResize_def resize_def Let_def split: sock_error.split option.split)

subsection \<open>The start\<close>

lemma new_cli_ok: "client_ok (new_cli rows cols)"
  by (simp add: client_ok_def io_bounded_def greeted_def phased_def new_cli_def)

lemma start_keeps: "client_ok u \<Longrightarrow> start is u = Some r \<Longrightarrow> client_ok (snd r)"
proof -
  assume u: "client_ok u" and r: "start is u = Some r"
  define v where "v = u\<lparr>u_worker := True, u_queue := u_queue u @ [wait_message], u_keepAlive := True\<rparr>"
  have "cli_loop is v = Some r" using r by (simp add: start_def UI_start_def push_fixed v_def)
  moreover have "client_ok v" using u by (simp add: v_def)
  ultimately show ?thesis by (rule running.loop_keeps[rotated])
qed

subsection \<open>Losing the connection and getting it back\<close>

lemma adapt_disconnected:
  "adaptWinToError lost_connection e = (let d = adaptWinToError lost_connection e in
     d\<lparr>ew_action1 := Some (''CONNECT'', Reconnect), ew_action2 := Some (''CLOSE'', StopEngine), ew_active := 2\<rparr>)"
proof -
  have s: "skip_tabs (Suc (Suc (Suc 0))) [0, Suc 0] 2 = Some 2" by (simp add: skip_tabs_def while_option_unfold)
  show ?thesis
    by (simp add: adaptWinToError_def lost_connection_def setAction1_def setAction2_def switchActiveTab_def error_skip_def
        error_tabs_def clear_error_def Let_def s)
qed

lemma adapt_fields:
  "ew_action1 (adaptWinToError lost_connection e) = Some (''CONNECT'', Reconnect)"
  "ew_action2 (adaptWinToError lost_connection e) = Some (''CLOSE'', StopEngine)"
  "ew_active (adaptWinToError lost_connection e) = 2"
  by (subst adapt_disconnected, simp add: Let_def)+

lemma connection_lost:
  assumes "u_phase u \<noteq> P_ERROR" and "e_fits env P_ERROR"
  shows "\<exists>v. handleException env lost_connection u = (None, v) \<and> u_phase v = P_ERROR \<and> u_lastPhase v = u_phase u
    \<and> \<not> u_connEstablished v \<and> u_queue v = [wait_message] \<and> u_toServer v = [] \<and> u_toGame v = [] \<and> u_info v = u_info u
    \<and> u_current v = Some P_ERROR \<and> u_wakeups v = u_wakeups u
    \<and> ew_action1 (u_error v) = Some (''CONNECT'', Reconnect) \<and> ew_active (u_error v) = 2"
  using assms
  by (simp add: handleException_def UI_handleException_def switchWindow_def cli_base(1)[of env] UI_switchWindow_def updatePhase_def push_fixed
      andthen_def step_when_def draw_window_def draw_error_def error_layout_def adapt_fields stopSpeaking_def Let_def
      split: option.split) (simp_all add: lost_connection_def)

lemma reconnect_button:
  assumes "u_current u = Some P_ERROR" and "ew_action1 (u_error u) = Some (name, Reconnect)" and "ew_active (u_error u) = 2"
  shows "window_key env w 10 u = Some (None, u\<lparr>u_wakeups := Suc (u_wakeups u)\<rparr>)"
  using assms by (simp add: window_key_def error_key_def key_codes run_button_def reconnect_def)

subsection \<open>An answer of the server\<close>

lemma look_response:
  assumes "u_phase u = P_GAME" "u_queue u = m # ms" "getCommandType m = Some C_LOOK" and "opens_json (render d)"
  shows "\<exists>v. dispatchMessage (cli_face env) (''OK '' @ render d) u = (None, v) \<and> u_queue v = ms
    \<and> io_out (gw_cmd (u_game v)) = appendContent (e_now env) (json_to_string (e_fmt env) (denote d))
        AlignLeft (COLOR_PAIR NC_CYAN_COLOR OR A_BOLD) False (io_out (gw_cmd (u_game u)))"
proof -
  have t: "tab_of_command C_LOOK = Some CmdTab" by code_simp
  show ?thesis unfolding dispatchMessage_def Message_document[OF assms(4)] using assms(1-3) t
    by (simp add: dispatch_parsed_def respond_def showResponse_def front_command_def kind_defs track_info_def tracked_info_def appendResponse_def
        append_to_def toStringResponse_def put_game_def noexcept_def andthen_def pop_front_def Let_def blank_def)
qed

end
