(* ===== verification/Descriptors.thy ===== *)
theory Descriptors
  imports IoUtils Resources
begin

text \<open>
  The descriptors of the client: the set-up and tear-down half of \<open>client/shared/source/Utils.cpp\<close> over the
  descriptor table of the process (theory \<open>Resources\<close>).  Whether a call succeeds is input of the model.
\<close>

unbundle bit_operations_syntax

subsection \<open>Computations with system calls\<close>

text \<open>A computation with system calls: its value or exception, and the table it leaves.\<close>

type_synonym 'a sys = "kernel \<Rightarrow> 'a outcome \<times> kernel"

definition bind_sys :: "'a sys \<Rightarrow> ('a \<Rightarrow> 'b sys) \<Rightarrow> 'b sys" where
  "bind_sys m f k = (case m k of (Inl e, k') \<Rightarrow> (Inl e, k') | (Inr x, k') \<Rightarrow> f x k')"

definition return_sys :: "'a \<Rightarrow> 'a sys" where
  "return_sys x k = (Inr x, k)"

subsection \<open>Non-blocking mode\<close>

text \<open>What the two calls of \<open>fcntl\<close> return.\<close>

datatype fcntl_out = FlagsSet | GetFlagsFailed | SetFlagsFailed

definition COULD_NOT_FETCH :: string where
  "COULD_NOT_FETCH = ''Couldn'' @ [APOS] @ ''t fetch socket data''"

definition COULD_NOT_SET :: string where
  "COULD_NOT_SET = ''Couldn'' @ [APOS] @ ''t set socket as non-blocking''"

definition set_nonblocking :: "ErrorCode \<Rightarrow> fcntl_out \<Rightarrow> int \<Rightarrow> unit sys" where
  "set_nonblocking code r fd k = (case r of
     GetFlagsFailed \<Rightarrow> (throw code COULD_NOT_FETCH, k)
   | SetFlagsFailed \<Rightarrow> (throw code COULD_NOT_SET, k)
   | FlagsSet \<Rightarrow> (Inr (), k\<lparr>k_nonblock := fd # k_nonblock k\<rparr>))"

subsection \<open>Connecting\<close>

text \<open>One entry of the list of \<open>getaddrinfo\<close>: where \<open>socket\<close> or \<open>connect\<close> fails, or that both succeed.\<close>

datatype candidate = SocketFailed | ConnectFailed | Connected

fun try_addresses :: "candidate list \<Rightarrow> kernel \<Rightarrow> int option \<times> kernel" where
  "try_addresses [] k = (None, k)"
| "try_addresses (SocketFailed # tmp) k = try_addresses tmp k"
| "try_addresses (ConnectFailed # tmp) k = (case new_fd k of (socket, k1) \<Rightarrow> try_addresses tmp (close_fd socket k1))"
| "try_addresses (Connected # tmp) k = (case new_fd k of (socket, k1) \<Rightarrow> (Some socket, k1))"

text \<open>\<open>addresses\<close> is \<open>None\<close> when \<open>getaddrinfo\<close> fails.\<close>

record connect_calls =
  cc_addresses :: "candidate list option"
  cc_fcntl :: fcntl_out

definition connect_socket :: "string \<Rightarrow> nat \<Rightarrow> connect_calls \<Rightarrow> int sys" where
  "connect_socket host portNo c k = (case cc_addresses c of
     None \<Rightarrow> (throw X_SERVER_CONN_FAILED (''Failed to find addresses for '' @ host @ '':'' @ show_nat portNo), k)
   | Some list \<Rightarrow> (case try_addresses list k of
       (None, k1) \<Rightarrow> (throw X_SERVER_CONN_FAILED (''No available IP host found for port: '' @ show_nat portNo), k1)
     | (Some socket, k1) \<Rightarrow>
         bind_sys (set_nonblocking X_SERVER_CONN_FAILED (cc_fcntl c) socket) (\<lambda>_. return_sys socket) k1))"

subsection \<open>Socket pairs, pipes, signals\<close>

record SocketPair =
  sp_first :: int
  sp_second :: int

text \<open>What the creating call returns (\<open>Some\<close> the text of its error) and the two \<open>fcntl\<close> rounds.\<close>

record pair_calls =
  pc_create :: "string option"
  pc_first :: fcntl_out
  pc_second :: fcntl_out

definition createSocketPair :: "pair_calls \<Rightarrow> SocketPair sys" where
  "createSocketPair c k = (case pc_create c of
     Some e \<Rightarrow> (throw X_IO_SOCK_CREATE_FAILED e, k)
   | None \<Rightarrow> (case new_fd k of (a, k1) \<Rightarrow> (case new_fd k1 of (b, k2) \<Rightarrow>
       bind_sys (set_nonblocking X_IO_SOCK_CREATE_FAILED (pc_first c) a) (\<lambda>_.
       bind_sys (set_nonblocking X_IO_SOCK_CREATE_FAILED (pc_second c) b) (\<lambda>_.
       return_sys \<lparr>sp_first = a, sp_second = b\<rparr>)) k2)))"

definition closeSocket :: "int \<Rightarrow> kernel \<Rightarrow> int \<times> kernel" where
  "closeSocket socket k = (if socket = -1 then (socket, k) else (-1, close_fd socket k))"

definition closePair :: "SocketPair \<Rightarrow> kernel \<Rightarrow> SocketPair \<times> kernel" where
  "closePair pair k = (case closeSocket (sp_first pair) k of (a, k1) \<Rightarrow>
     (case closeSocket (sp_second pair) k1 of (b, k2) \<Rightarrow> (\<lparr>sp_first = a, sp_second = b\<rparr>, k2)))"

record Pipe =
  p_in :: int
  p_out :: int

definition createPipe :: "pair_calls \<Rightarrow> Pipe sys" where
  "createPipe c k = (case pc_create c of
     Some e \<Rightarrow> (throw X_IO_PIPE_CREATE_FAILED e, k)
   | None \<Rightarrow> (case new_fd k of (a, k1) \<Rightarrow> (case new_fd k1 of (b, k2) \<Rightarrow>
       bind_sys (set_nonblocking X_IO_PIPE_CREATE_FAILED (pc_first c) a) (\<lambda>_.
       bind_sys (set_nonblocking X_IO_PIPE_CREATE_FAILED (pc_second c) b) (\<lambda>_.
       return_sys \<lparr>p_in = b, p_out = a\<rparr>)) k2)))"

definition closePipe :: "Pipe \<Rightarrow> kernel \<Rightarrow> Pipe \<times> kernel" where
  "closePipe p k = (
     let (i, k1) = (if p_in p \<noteq> -1 then (-1, close_fd (p_in p) k) else (p_in p, k));
         (out, k2) = (if p_out p \<noteq> -1 then (-1, close_fd (p_out p) k1) else (p_out p, k1))
     in (\<lparr>p_in = i, p_out = out\<rparr>, k2))"

record signal_calls =
  sc_signalfd :: bool
  sc_fcntl :: fcntl_out

definition createSignalRedirectFd :: "int \<Rightarrow> bool \<Rightarrow> signal_calls \<Rightarrow> int sys" where
  "createSignalRedirectFd signal nonBlocking c k0 = (let k = k0\<lparr>k_blocked := signal # k_blocked k0\<rparr> in
     if \<not> sc_signalfd c then (throw X_IO_SIG_SOCK_CREATE_FAILED [], k)
     else (case new_fd k of (fd, k1) \<Rightarrow>
       if nonBlocking then bind_sys (set_nonblocking X_IO_SIG_SOCK_CREATE_FAILED (sc_fcntl c) fd) (\<lambda>_. return_sys fd) k1
       else (Inr fd, k1)))"

subsection \<open>The name of the log file\<close>

text \<open>\<open>operator/\<close> of \<open>std::filesystem::path\<close>: an absolute right side replaces the left one.\<close>

definition path_append :: "string \<Rightarrow> string \<Rightarrow> string" where
  "path_append a b = (if take 1 b = ''/'' then b else if a = [] \<or> last a = CHR ''/'' then a @ b else a @ ''/'' @ b)"

text \<open>\<open>today\<close> is the date as \<open>dd-mm-yy\<close>.\<close>

definition createLogPath :: "string \<Rightarrow> string \<Rightarrow> (string \<Rightarrow> bool) \<Rightarrow> string \<Rightarrow> string outcome" where
  "createLogPath today current_path is_directory logFolder = (let logPath = path_append current_path logFolder in
     if \<not> is_directory logPath then throw X_FILE_NOT_FOUND logPath
     else Inr (logPath @ ''/'' @ today @ ''_logfile.log''))"

subsection \<open>Addresses and the console\<close>

definition AF_INET :: nat where "AF_INET = 2"
definition AF_INET6 :: nat where "AF_INET6 = 10"

text \<open>The fields of a socket address; the port is stored in network order.\<close>

record sockaddr_storage =
  ss_family :: nat
  ss_port :: "16 word"
  ss_addr :: "8 word list"

record Address =
  ad_host :: string
  ad_port :: "32 word"
  ad_raw :: sockaddr_storage

definition ntohs :: "16 word \<Rightarrow> 16 word" where
  "ntohs w = push_bit 8 w OR drop_bit 8 w"

text \<open>\<open>inet_ntop\<close> is an argument.\<close>

definition getAddress :: "(nat \<Rightarrow> 8 word list \<Rightarrow> string) \<Rightarrow> sockaddr_storage \<Rightarrow> Address" where
  "getAddress inet_ntop addr = (
     if ss_family addr = AF_INET \<or> ss_family addr = AF_INET6
     then \<lparr>ad_host = inet_ntop (ss_family addr) (ss_addr addr), ad_port = ucast (ntohs (ss_port addr)), ad_raw = addr\<rparr>
     else \<lparr>ad_host = [], ad_port = 0, ad_raw = addr\<rparr>)"

definition printMutated :: "string \<Rightarrow> string \<Rightarrow> string" where
  "printMutated content console = console @ content @ [NL]"

lemma bit_ntohs: "n < 16 \<Longrightarrow> bit (ntohs w) n = bit w (if n < 8 then n + 8 else n - 8)"
  using bit_imp_le_length[of w "8 + n"] by (auto simp: ntohs_def bit_simps add.commute)

text \<open>The two bytes are exchanged, so converting twice gives the port back.\<close>

lemma ntohs_ntohs: "ntohs (ntohs w) = w"
proof (rule bit_word_eqI)
  fix n assume "n < LENGTH(16)"
  then have n: "n < 16" by simp
  then have "(if n < 8 then n + 8 else n - 8) < 16" by auto
  with n show "bit (ntohs (ntohs w)) n = bit w n" by (simp only: bit_ntohs) (auto simp: not_less)
qed

subsection \<open>Which descriptors are open afterwards\<close>

lemma nonblock_keeps [simp]: "k_open (snd (set_nonblocking code r fd k)) = k_open k"
  by (simp add: set_nonblocking_def split: fcntl_out.split)

lemma set_nonblocking_Inr: "set_nonblocking code r fd k = (Inr u, k') \<longleftrightarrow> r = FlagsSet \<and> k' = k\<lparr>k_nonblock := fd # k_nonblock k\<rparr>"
  by (auto simp: set_nonblocking_def split: fcntl_out.splits)

lemma bind_sys_Inr: "bind_sys m f k = (Inr y, k') \<longleftrightarrow> (\<exists>x k1. m k = (Inr x, k1) \<and> f x k1 = (Inr y, k'))"
  by (auto simp: bind_sys_def split: prod.splits sum.splits)

text \<open>Addresses that do not answer leave nothing behind.\<close>

lemma close_new: "k_open (close_fd (free_fd k) (snd (new_fd k))) = k_open k"
  using free_fd_fresh[of k] by (simp add: close_fd_def new_fd_def filter_removeAll)

lemma try_addresses_open:
  "try_addresses cs k = (r, k') \<Longrightarrow> (if Connected \<in> set cs then \<exists>fd. r = Some fd \<and> fd \<notin> set (k_open k) \<and> 0 \<le> fd \<and> k_open k' = fd # k_open k
     else r = None \<and> k_open k' = k_open k)"
proof (induction cs k arbitrary: r k' rule: try_addresses.induct)
  case (3 tmp k)
  have "try_addresses tmp (close_fd (free_fd k) (snd (new_fd k))) = (r, k')" using "3.prems" by (simp add: new_fd_def)
  from "3.IH"[of "free_fd k" "snd (new_fd k)", OF _ this] show ?case unfolding close_new by (simp add: new_fd_def)
next
  case (4 tmp k)
  then show ?case using free_fd_fresh[of k] by (auto simp: new_fd_def)
qed auto

text \<open>A connection attempt that reaches a server takes one descriptor, also when it then fails.\<close>

definition reaches :: "connect_calls \<Rightarrow> bool" where
  "reaches c = (case cc_addresses c of None \<Rightarrow> False | Some l \<Rightarrow> Connected \<in> set l)"

lemma owned_same: "k_open k' = k_open k \<Longrightarrow> descriptors.owned rs k0 k \<Longrightarrow> descriptors.owned rs k0 k'"
  by (rule descriptors.owned_cong)

lemma connect_socket_cases:
  assumes "connect_socket host port c k = (r, k')"
  obtains (failed) e where "r = Inl (Throw e)" "err_code e = X_SERVER_CONN_FAILED" "\<not> reaches c" "k_open k' = k_open k"
  | (leaked) e fd where "r = Inl (Throw e)" "err_code e = X_SERVER_CONN_FAILED" "reaches c" "cc_fcntl c \<noteq> FlagsSet"
      "fd \<notin> set (k_open k)" "0 \<le> fd" "k_open k' = fd # k_open k"
  | (connected) fd where "r = Inr fd" "reaches c" "cc_fcntl c = FlagsSet" "fd \<notin> set (k_open k)" "0 \<le> fd" "k_open k' = fd # k_open k"
      "fd \<in> set (k_nonblock k')"
proof (cases "cc_addresses c")
  case None
  then show ?thesis using assms by (intro failed) (auto simp: connect_socket_def reaches_def)
next
  case (Some l)
  obtain a k1 where t: "try_addresses l k = (a, k1)" by (cases "try_addresses l k")
  show ?thesis
  proof (cases "Connected \<in> set l")
    case False
    then have "a = None" "k_open k1 = k_open k" using try_addresses_open[OF t] by auto
    then show ?thesis using assms t Some False by (intro failed) (auto simp: connect_socket_def reaches_def)
  next
    case True
    then obtain fd where a: "a = Some fd" "fd \<notin> set (k_open k)" "0 \<le> fd" "k_open k1 = fd # k_open k"
      using try_addresses_open[OF t] by auto
    show ?thesis
    proof (cases "cc_fcntl c = FlagsSet")
      case F: True
      show ?thesis using assms t Some True a F
        by (intro connected[of fd]) (auto simp: connect_socket_def reaches_def bind_sys_def set_nonblocking_def return_sys_def)
    next
      case F: False
      obtain e where e: "set_nonblocking X_SERVER_CONN_FAILED (cc_fcntl c) fd k1 = (Inl (Throw e), k1)" "err_code e = X_SERVER_CONN_FAILED"
        using F by (cases "cc_fcntl c") (auto simp: set_nonblocking_def)
      then show ?thesis using assms t Some True a F
        by (intro leaked[of e fd]) (auto simp: connect_socket_def reaches_def bind_sys_def)
    qed
  qed
qed

lemma owned_fresh:
  "descriptors.owned rs k0 k \<Longrightarrow> fd \<notin> set (k_open k) \<Longrightarrow> 0 \<le> fd \<Longrightarrow> k_open k' = fd # k_open k \<Longrightarrow> descriptors.owned (fd # rs) k0 k'"
  by (auto simp: descriptors.owned_def)

lemma owned_pair:
  assumes "descriptors.owned rs k0 k" and "new_fd k = (a, k1)" and "new_fd k1 = (b, k2)"
  shows "descriptors.owned (b # a # rs) k0 k2"
  using descriptors.owned_acquire[OF descriptors.owned_acquire[OF assms(1,2)] assms(3)] .

lemma createPipe_owned:
  assumes "createPipe c k = (Inr p, k')" and "descriptors.owned rs k0 k"
  shows "descriptors.owned (p_in p # p_out p # rs) k0 k'"
proof -
  obtain a k1 b k2 where n: "new_fd k = (a, k1)" "new_fd k1 = (b, k2)" by (meson surj_pair)
  have "k_open k' = k_open k2" "p = \<lparr>p_in = b, p_out = a\<rparr>" using assms(1) n
    by (auto simp: createPipe_def bind_sys_Inr set_nonblocking_Inr return_sys_def split: option.splits)
  then show ?thesis using owned_same[OF _ owned_pair[OF assms(2) n]] by simp
qed

lemma createSocketPair_owned:
  assumes "createSocketPair c k = (Inr p, k')" and "descriptors.owned rs k0 k"
  shows "descriptors.owned (sp_second p # sp_first p # rs) k0 k'"
proof -
  obtain a k1 b k2 where n: "new_fd k = (a, k1)" "new_fd k1 = (b, k2)" by (meson surj_pair)
  have "k_open k' = k_open k2" "p = \<lparr>sp_first = a, sp_second = b\<rparr>" using assms(1) n
    by (auto simp: createSocketPair_def bind_sys_Inr set_nonblocking_Inr return_sys_def split: option.splits)
  then show ?thesis using owned_same[OF _ owned_pair[OF assms(2) n]] by simp
qed

lemma createSignalRedirectFd_owned:
  assumes "createSignalRedirectFd sig True c k = (Inr fd, k')" and "descriptors.owned rs k0 k"
  shows "descriptors.owned (fd # rs) k0 k'"
proof -
  define kb where "kb = k\<lparr>k_blocked := sig # k_blocked k\<rparr>"
  obtain a k1 where n: "new_fd kb = (a, k1)" by (meson surj_pair)
  have "k_open k' = k_open k1" "fd = a" using assms(1) n
    by (auto simp: createSignalRedirectFd_def kb_def Let_def bind_sys_Inr set_nonblocking_Inr return_sys_def split: if_splits)
  moreover have "descriptors.owned rs k0 kb" using assms(2) by (rule owned_same[rotated]) (simp add: kb_def)
  ultimately show ?thesis using owned_same[OF _ descriptors.owned_acquire[OF _ n]] by blast
qed

text \<open>Closing gives the descriptors back, and does it once.\<close>

lemma closeSocket_owned:
  assumes "descriptors.owned rs k0 k" and "fd \<in> set rs"
  shows "fst (closeSocket fd k) = -1 \<and> descriptors.owned (removeAll fd rs) k0 (snd (closeSocket fd k))"
  using descriptors.owned_release[OF assms] descriptors.owned_usable[OF assms] by (auto simp: closeSocket_def)

lemma closePipe_owned:
  assumes "descriptors.owned rs k0 k" and "p_in p \<in> set rs" and "p_out p \<in> set rs" and "p_in p \<noteq> p_out p"
  shows "fst (closePipe p k) = \<lparr>p_in = -1, p_out = -1\<rparr> \<and>
    descriptors.owned (removeAll (p_out p) (removeAll (p_in p) rs)) k0 (snd (closePipe p k))"
proof -
  have "0 \<le> p_in p" "0 \<le> p_out p" using descriptors.owned_usable[OF assms(1)] assms(2,3) by blast+
  then show ?thesis using descriptors.owned_release[OF descriptors.owned_release[OF assms(1,2)], of "p_out p"] assms(3,4)
    by (auto simp: closePipe_def)
qed

lemma closePair_owned:
  assumes "descriptors.owned rs k0 k" and "sp_first p \<in> set rs" and "sp_second p \<in> set rs" and "sp_first p \<noteq> sp_second p"
  shows "fst (closePair p k) = \<lparr>sp_first = -1, sp_second = -1\<rparr> \<and>
    descriptors.owned (removeAll (sp_second p) (removeAll (sp_first p) rs)) k0 (snd (closePair p k))"
  using closeSocket_owned[OF assms(1,2)] closeSocket_owned[of "removeAll (sp_first p) rs" k0 "snd (closeSocket (sp_first p) k)" "sp_second p"] assms(3,4)
  by (auto simp: closePair_def split: prod.splits)

lemma close_again: "closePipe \<lparr>p_in = -1, p_out = -1\<rparr> k = (\<lparr>p_in = -1, p_out = -1\<rparr>, k)"
  "closePair \<lparr>sp_first = -1, sp_second = -1\<rparr> k = (\<lparr>sp_first = -1, sp_second = -1\<rparr>, k)"
  by (simp_all add: closePipe_def closePair_def closeSocket_def)

end
