(* ===== verification/ClientSetup.thy ===== *)
theory ClientSetup
  imports Descriptors
begin

text \<open>
  How the client starts (\<open>client/shared/source/ArgParser.cpp\<close>, \<open>main.cpp\<close>) and its log
  (\<open>Logger.hpp\<close>, \<open>Logger.cpp\<close>).  \<open>FlagType\<close> and \<open>LogContext\<close> are bit masks, kept at their 32 bits.
  \<open>parseArguments\<close> declares \<open>checkFlags\<close> without a value: what it starts with is an argument of the
  model.  The time stamp of a log line is an argument too.
\<close>

unbundle bit_operations_syntax

subsection \<open>Command line\<close>

record Flags =
  fl_host :: string
  fl_port :: "32 word"
  fl_helpmode :: bool

definition default_flags :: Flags where
  "default_flags = \<lparr>fl_host = [], fl_port = 0, fl_helpmode = False\<rparr>"

type_synonym FlagType = "32 word"

definition NoFlag :: FlagType where "NoFlag = 0"
definition Host :: FlagType where "Host = 1"
definition Port :: FlagType where "Port = 4"
definition HelpMode :: FlagType where "HelpMode = 8"

definition flagsMap :: "(string \<times> FlagType) list" where
  "flagsMap = [(''-i'', Host), (''--host'', Host), (''-p'', Port), (''--port'', Port), (''-h'', HelpMode), (''--help'', HelpMode)]"

definition MANDATORY_FLAGS :: FlagType where "MANDATORY_FLAGS = Host OR Port"
definition NO_ARG_FLAGS :: FlagType where "NO_ARG_FLAGS = HelpMode"

lemmas flag_defs = NoFlag_def Host_def Port_def HelpMode_def MANDATORY_FLAGS_def NO_ARG_FLAGS_def

text \<open>\<open>std::stoul\<close> in base 10: white space, a sign, digits; a minus sign negates modulo \<open>2^64\<close>.\<close>

datatype stoul_result = InvalidArgument | OutOfRange | Parsed "64 word"

definition stoul :: "string \<Rightarrow> stoul_result" where
  "stoul s = (let t = skip_ws s; neg = peek t CHR ''-''; ds = takeWhile isdigit (if neg \<or> peek t CHR ''+'' then tl t else t);
      n = read_nat ds
    in if ds = [] then InvalidArgument else if 2 ^ 64 \<le> n then OutOfRange
       else Parsed (if neg then - of_nat n else of_nat n))"

definition setHost :: "Flags \<Rightarrow> string \<Rightarrow> Flags outcome" where
  "setHost input hostName = Inr (input\<lparr>fl_host := hostName\<rparr>)"

definition setPort :: "Flags \<Rightarrow> string \<Rightarrow> Flags outcome" where
  "setPort input port = (case stoul port of
     InvalidArgument \<Rightarrow> throw X_BAD_FORMAT_ARGS (''Wrong number input: '' @ port)
   | OutOfRange \<Rightarrow> throw X_BAD_FORMAT_ARGS (''Out of range: '' @ port)
   | Parsed w \<Rightarrow> (let p = (ucast w :: 32 word) in
       if 65535 < p then throw X_BAD_FORMAT_ARGS (''Port number too big: '' @ port)
       else Inr (input\<lparr>fl_port := p\<rparr>)))"

definition setHelpMode :: "Flags \<Rightarrow> string \<Rightarrow> Flags outcome" where
  "setHelpMode input optValue = Inr (input\<lparr>fl_helpmode := True\<rparr>)"

definition flagActions :: "(FlagType \<times> (Flags \<Rightarrow> string \<Rightarrow> Flags outcome)) list" where
  "flagActions = [(Host, setHost), (Port, setPort), (HelpMode, setHelpMode)]"

text \<open>Key and value of an argument \<open>--key=value\<close>; the value is absent without \<open>=\<close>.\<close>

definition split_eq :: "string \<Rightarrow> string \<times> string option" where
  "split_eq a = (let k = takeWhile (\<lambda>c. c \<noteq> CHR ''='') a in
     if CHR ''='' \<in> set a then (k, Some (drop (length k + 1) a)) else (a, None))"

text \<open>The body of the loop for one argument, given the arguments after it: flags and rest.\<close>

definition parse_argument :: "string \<Rightarrow> string list \<Rightarrow> Flags \<Rightarrow> (FlagType \<times> Flags \<times> string list) outcome" where
  "parse_argument arg rest arguments =
     (if \<not> peek arg CHR ''-'' then throw X_BAD_FORMAT_ARGS (''Flag not well formatted: '' @ arg)
      else (case split_eq arg of (flagKey, v) \<Rightarrow>
        if v = Some [] then throw X_BAD_FORMAT_ARGS (''Invalid argument with value: '' @ arg)
        else (case map_of flagsMap flagKey of
            None \<Rightarrow> throw X_BAD_FORMAT_ARGS (''Unknown argument: '' @ flagKey)
          | Some flag \<Rightarrow>
              (let takes_next = (v = None \<and> flag AND NO_ARG_FLAGS = NoFlag) in
               if takes_next \<and> rest = [] then throw X_BAD_FORMAT_ARGS (''No argument provided for flag: '' @ flagKey)
               else (case map_of flagActions flag of
                   None \<Rightarrow> throw X_BAD_FORMAT_ARGS (''No action linked to: '' @ flagKey)
                 | Some action \<Rightarrow>
                     (case action arguments (if takes_next then hd rest else case v of None \<Rightarrow> [] | Some x \<Rightarrow> x) of
                        Inl f \<Rightarrow> Inl f
                      | Inr fl \<Rightarrow> Inr (flag, fl, if takes_next then tl rest else rest)))))))"

fun parse_loop :: "nat \<Rightarrow> string list \<Rightarrow> FlagType \<Rightarrow> Flags \<Rightarrow> (FlagType \<times> Flags) outcome" where
  "parse_loop k [] checkFlags arguments = Inr (checkFlags, arguments)"
| "parse_loop 0 (arg # rest) checkFlags arguments = Inl Crash"
| "parse_loop (Suc k) (arg # rest) checkFlags arguments = (case parse_argument arg rest arguments of
     Inl f \<Rightarrow> Inl f
   | Inr (flag, fl, rest') \<Rightarrow> parse_loop k rest' (checkFlags OR flag) fl)"

definition parseArguments :: "FlagType \<Rightarrow> string list \<Rightarrow> Flags outcome" where
  "parseArguments checkFlags0 args =
     (if args = [] then throw X_BAD_FORMAT_ARGS ''Not enough argument provided''
      else (case parse_loop (length args) args checkFlags0 default_flags of
          Inl f \<Rightarrow> Inl f
        | Inr (checkFlags, arguments) \<Rightarrow>
            if checkFlags AND MANDATORY_FLAGS \<noteq> MANDATORY_FLAGS
            then throw X_BAD_FORMAT_ARGS ''Missing mandatory flags'' else Inr arguments))"

subsection \<open>The program\<close>

definition HOW_TO :: string where
  "HOW_TO = ''Usage: ./client [flags]'' @ [NL, NL, TAB] @ ''-i,  --host     IP address of the server to connect'' @ [NL, TAB] @
     ''-p,  --port     port to connect'' @ [NL, TAB] @ ''-h,  --help     print info'' @ [NL, NL, TAB] @
     ''[flags can be set in two ways: --flag value  | --flag=value ]'' @ [NL]"

text \<open>How the process ends, with what it wrote to its standard output and its error output.\<close>

definition caught_in_main :: "ErrorData \<Rightarrow> program_end \<times> string \<times> string" where
  "caught_in_main err = (if err_code err = X_BAD_FORMAT_ARGS then (Exit 0, HOW_TO @ [NL], [])
     else (Exit 1, [], ''Got error: '' @ mapError err @ [NL]))"

text \<open>The \<open>try\<close> block of \<open>main\<close>; \<open>run\<close> is what the client does with the options until it returns.\<close>

definition main_body :: "FlagType \<Rightarrow> string list \<Rightarrow> (Flags \<Rightarrow> unit outcome) \<Rightarrow> program_end \<times> string \<times> string" where
  "main_body checkFlags0 args run = (case parseArguments checkFlags0 args of
     Inl (Throw err) \<Rightarrow> caught_in_main err
   | Inl Crash \<Rightarrow> (Abort, [], [])
   | Inr options \<Rightarrow> if fl_helpmode options then (Exit 0, HOW_TO @ [NL], []) else
       (case run options of
          Inr _ \<Rightarrow> (Exit 0, [], [])
        | Inl (Throw err) \<Rightarrow> caught_in_main err
        | Inl Crash \<Rightarrow> (Abort, [], [])))"

subsection \<open>Lemmas about the command line\<close>

lemma setPort_bound: "setPort fl s = Inr fl' \<Longrightarrow> fl_port fl' \<le> 65535"
  by (auto simp: setPort_def Let_def not_less split: stoul_result.splits if_splits)

lemma parse_argument_bound:
  assumes "parse_argument arg rest fl = Inr (flag, fl', rest')" and "fl_port fl \<le> 65535"
  shows "fl_port fl' \<le> 65535 \<and> length rest' \<le> length rest"
  using assms by (auto simp: parse_argument_def Let_def flagActions_def setHost_def setHelpMode_def
      split: if_splits prod.splits option.splits sum.splits dest!: setPort_bound)

lemma parse_loop_defined:
  "length args \<le> k \<Longrightarrow> fl_port fl \<le> 65535 \<Longrightarrow> parse_loop k args chk fl = Inr (chk', fl') \<Longrightarrow> fl_port fl' \<le> 65535"
proof (induction k args chk fl rule: parse_loop.induct)
  case (3 k arg rest chk fl)
  then obtain flag f r where *: "parse_argument arg rest fl = Inr (flag, f, r)"
    and loop: "parse_loop k r (chk OR flag) f = Inr (chk', fl')" by (auto split: sum.splits)
  from parse_argument_bound[OF * "3.prems"(2)] "3.prems"(1) show ?case by (intro "3.IH"[OF * refl refl _ _ loop]) auto
qed auto

definition only_throws :: "'a outcome \<Rightarrow> bool" where
  "only_throws r = (case r of Inl f \<Rightarrow> \<exists>i. f = Throw \<lparr>err_code = X_BAD_FORMAT_ARGS, err_info = i\<rparr> | Inr _ \<Rightarrow> True)"

lemma parse_argument_throws: "only_throws (parse_argument arg rest fl)"
  by (auto simp: only_throws_def parse_argument_def Let_def flagActions_def setHost_def setHelpMode_def setPort_def
      split: if_splits prod.splits option.splits sum.splits stoul_result.splits)

lemma parse_loop_throws:
  "length args \<le> k \<Longrightarrow> fl_port fl \<le> 65535 \<Longrightarrow> only_throws (parse_loop k args chk fl)"
proof (induction k args chk fl rule: parse_loop.induct)
  case (3 k arg rest chk fl)
  show ?case
  proof (cases "parse_argument arg rest fl")
    case (Inl f)
    then show ?thesis using parse_argument_throws[of arg rest fl] by (simp add: only_throws_def)
  next
    case (Inr x)
    obtain flag f r where x: "x = (flag, f, r)" by (cases x)
    from parse_argument_bound[OF Inr[unfolded x] "3.prems"(2)] "3.prems"(1)
    have "only_throws (parse_loop k r (chk OR flag) f)" by (intro "3.IH"[OF Inr[unfolded x] refl refl]) auto
    then show ?thesis by (simp add: Inr x)
  qed
qed (auto simp: only_throws_def)

subsection \<open>Log\<close>

datatype LogLevel = DEBUG | INFO | WARN | ERROR_LEVEL

fun level_number :: "LogLevel \<Rightarrow> nat" where
  "level_number DEBUG = 0"
| "level_number INFO = 1"
| "level_number WARN = 2"
| "level_number ERROR_LEVEL = 3"

lemma level_number_inj: "level_number a = level_number b \<Longrightarrow> a = b"
  by (cases a; cases b) auto

text \<open>Enumerators compare by their numbers.\<close>

instantiation LogLevel :: linorder
begin

definition less_eq_LogLevel :: "LogLevel \<Rightarrow> LogLevel \<Rightarrow> bool" where
  "a \<le> b \<longleftrightarrow> level_number a \<le> level_number b"

definition less_LogLevel :: "LogLevel \<Rightarrow> LogLevel \<Rightarrow> bool" where
  "a < b \<longleftrightarrow> level_number a < level_number b"

instance
  by intro_classes (auto simp: less_eq_LogLevel_def less_LogLevel_def dest: level_number_inj)

end

fun level_name :: "LogLevel \<Rightarrow> string" where
  "level_name DEBUG = ''DEBUG''"
| "level_name INFO = ''INFO''"
| "level_name WARN = ''WARN''"
| "level_name ERROR_LEVEL = ''ERROR''"

type_synonym LogContext = "32 word"

definition HTTP_CLIENT :: LogContext where "HTTP_CLIENT = 1"
definition GAME_CLIENT :: LogContext where "GAME_CLIENT = 2"
definition INTERFACE :: LogContext where "INTERFACE = 4"
definition INPUT_OUTPUT :: LogContext where "INPUT_OUTPUT = 8"
definition CLI_CONTEXT :: LogContext where "CLI_CONTEXT = 16"
definition GUI_CONTEXT :: LogContext where "GUI_CONTEXT = 32"

definition context_name :: "LogContext \<Rightarrow> string" where
  "context_name ctx = (if ctx = 0 then ''NONE'' else if ctx = HTTP_CLIENT then ''HTTP_CLIENT''
     else if ctx = GAME_CLIENT then ''GAME_CLIENT'' else if ctx = INTERFACE then ''INTERFACE''
     else if ctx = INPUT_OUTPUT then ''INPUT_OUTPUT'' else if ctx = CLI_CONTEXT then ''CLI''
     else if ctx = GUI_CONTEXT then ''GUI'' else [])"

definition ALL_ENTRIES :: LogContext where
  "ALL_ENTRIES = HTTP_CLIENT OR GAME_CLIENT OR INTERFACE OR INPUT_OUTPUT OR CLI_CONTEXT OR GUI_CONTEXT"

lemmas context_defs = HTTP_CLIENT_def GAME_CLIENT_def INTERFACE_def INPUT_OUTPUT_def CLI_CONTEXT_def GUI_CONTEXT_def

text \<open>The lines written so far stand for the streams; \<open>None\<close> is a file stream that is not open.\<close>

record logger =
  lg_minLevel :: LogLevel
  lg_filter :: LogContext
  lg_consoleOutput :: bool
  lg_fileEnabled :: bool
  lg_fileStream :: "string list option"
  lg_cout :: "string list"
  lg_cerr :: "string list"

definition initial_logger :: logger where
  "initial_logger = \<lparr>lg_minLevel = DEBUG, lg_filter = ALL_ENTRIES, lg_consoleOutput = True, lg_fileEnabled = True,
     lg_fileStream = None, lg_cout = [], lg_cerr = []\<rparr>"

definition setLogFile :: "string \<Rightarrow> bool \<Rightarrow> logger \<Rightarrow> unit outcome \<times> logger" where
  "setLogFile path opened lg = (if opened then (Inr (), lg\<lparr>lg_fileStream := Some [], lg_fileEnabled := True\<rparr>)
     else (throw X_FILE_NOT_FOUND path, lg\<lparr>lg_fileEnabled := False\<rparr>))"

definition setMinLevel :: "LogLevel \<Rightarrow> logger \<Rightarrow> logger" where
  "setMinLevel level lg = lg\<lparr>lg_minLevel := level\<rparr>"

definition setConsoleOutput :: "bool \<Rightarrow> logger \<Rightarrow> logger" where
  "setConsoleOutput enabled lg = lg\<lparr>lg_consoleOutput := enabled\<rparr>"

definition setFilter :: "LogContext \<Rightarrow> logger \<Rightarrow> logger" where
  "setFilter filters lg = lg\<lparr>lg_filter := filters\<rparr>"

definition addFilter :: "LogContext \<Rightarrow> logger \<Rightarrow> logger" where
  "addFilter filters lg = lg\<lparr>lg_filter := lg_filter lg OR filters\<rparr>"

definition removeFilter :: "LogContext \<Rightarrow> logger \<Rightarrow> logger" where
  "removeFilter filters lg = lg\<lparr>lg_filter := lg_filter lg AND NOT filters\<rparr>"

definition padField :: "string \<Rightarrow> nat \<Rightarrow> string" where
  "padField content width = content @ replicate (width - length content) CHR '' ''"

definition client_log_line :: "string \<Rightarrow> LogContext \<Rightarrow> LogLevel \<Rightarrow> string \<Rightarrow> string" where
  "client_log_line timestamp ctx level msg =
     padField (''['' @ timestamp @ '']'') 26 @ '' '' @ padField (''['' @ level_name level @ '']'') 8 @ '' '' @
     padField (''['' @ context_name ctx @ '']'') 14 @ '' - '' @ escapeString msg"

definition log_message :: "string \<Rightarrow> LogContext \<Rightarrow> LogLevel \<Rightarrow> string \<Rightarrow> logger \<Rightarrow> logger" where
  "log_message timestamp ctx level msg lg =
     (if level < lg_minLevel lg then lg
      else if lg_filter lg AND ctx = 0 then lg
      else (let line = client_log_line timestamp ctx level msg;
                lg1 = (if \<not> lg_consoleOutput lg then lg
                       else if level = ERROR_LEVEL then lg\<lparr>lg_cerr := lg_cerr lg @ [line]\<rparr>
                       else lg\<lparr>lg_cout := lg_cout lg @ [line]\<rparr>)
            in if lg_fileEnabled lg1
               then lg1\<lparr>lg_fileStream := map_option (\<lambda>ls. ls @ [line]) (lg_fileStream lg1)\<rparr> else lg1))"

definition LOG_DIR :: string where "LOG_DIR = ''logs''"

definition startLogging :: "string \<Rightarrow> string \<Rightarrow> (string \<Rightarrow> bool) \<Rightarrow> bool \<Rightarrow> logger \<Rightarrow> unit outcome \<times> logger" where
  "startLogging today current_path is_directory opened lg = (case createLogPath today current_path is_directory LOG_DIR of
     Inl f \<Rightarrow> (Inl f, lg)
   | Inr logName \<Rightarrow> (case setLogFile logName opened lg of
       (Inl f, lg1) \<Rightarrow> (Inl f, lg1)
     | (Inr _, lg1) \<Rightarrow> (Inr (), removeFilter INPUT_OUTPUT (setConsoleOutput False (setMinLevel DEBUG lg1)))))"

text \<open>\<open>main\<close> calls \<open>startLogging\<close> before the \<open>try\<close> block.\<close>

definition client_main :: "string \<Rightarrow> string \<Rightarrow> (string \<Rightarrow> bool) \<Rightarrow> bool \<Rightarrow> FlagType \<Rightarrow> string list \<Rightarrow> (Flags \<Rightarrow> unit outcome)
    \<Rightarrow> program_end \<times> string \<times> string" where
  "client_main today current_path is_directory opened checkFlags0 args run =
     (case startLogging today current_path is_directory opened initial_logger of
        (Inl _, _) \<Rightarrow> (Abort, [], [])
      | (Inr _, _) \<Rightarrow> main_body checkFlags0 args run)"

lemma no_log_directory_aborts:
  "\<not> is_directory (path_append current_path LOG_DIR) \<Longrightarrow> client_main today current_path is_directory opened checkFlags0 args run = (Abort, [], [])"
  by (simp add: client_main_def startLogging_def createLogPath_def Let_def)

lemma level_name_plain: "NL \<notin> set (level_name l)"
  by (cases l) auto

lemma context_name_plain: "NL \<notin> set (context_name c)"
  by (simp add: context_name_def)

lemma client_log_line_one_line: "NL \<notin> set ts \<Longrightarrow> NL \<notin> set (client_log_line ts ctx level msg)"
  using escapeString_one_line[of msg] level_name_plain[of level] context_name_plain[of ctx]
  by (simp add: client_log_line_def padField_def)

text \<open>What a log call writes to the file, on every branch.\<close>

lemma log_to_file:
  assumes "lg_fileStream lg = Some ls" and "lg_fileEnabled lg"
  shows "lg_fileStream (log_message ts ctx level msg lg) =
     Some (ls @ (if lg_minLevel lg \<le> level \<and> lg_filter lg AND ctx \<noteq> 0 then [client_log_line ts ctx level msg] else []))"
  using assms by (auto simp: log_message_def Let_def not_less)

end
