(* ===== verification/ClientSpec.thy ===== *)
theory ClientSpec
  imports ClientCorrect ClientSetup
begin

text \<open>
  The properties of the client: its vocabulary, its command line, the network worker, the line editor and
  the windows of the CLI, and the engine between them.
\<close>

text \<open>Command, event and error names and their enumerators determine each other: looking up the name of
  an enumerator gives that enumerator back.\<close>

theorem names_round_trip:
  "commandExists (command_name c) \<and> getCommand (command_name c) = Some c \<and>
   eventExists (event_name v) \<and> getEvent (event_name v) = Some v \<and>
   errorExists (error_name e) \<and> getError (error_name e) = Some e \<and>
   (commandExists s = (\<exists>c. command_name c = s)) \<and> (eventExists s = (\<exists>v. event_name v = s)) \<and>
   (errorExists s = (\<exists>e. error_name e = s))"
  using command_of_name[of s] event_of_name[of s] error_of_name[of s] by auto

text \<open>C40: Parsing a non-empty text either gives a message whose kind is decided by the first word and whose
  union holds the member of that kind, or fails with BAD_MESSAGE; nothing else can happen.\<close>

theorem message_typed:
  assumes "msg \<noteq> []"
  shows "case Message msg of
      Inl f \<Rightarrow> \<exists>i. f = Throw \<lparr>err_code = X_BAD_MESSAGE, err_info = i\<rparr>
    | Inr m \<Rightarrow> m_raw m = (if last msg = NL then butlast msg else msg) \<and> m_type m = kind_of_line (m_raw m) \<and> well_typed m"
  using Message_fails[OF assms] Message_Inr[of msg] by (auto split: sum.split)

theorem message_typed_witness: "\<exists>m. Message ''PROFILE'' = Inr m \<and> m_type m = COMMAND \<and> well_typed m"
  using message_typed[of "''PROFILE''"] fixed_messages(2)
  by (auto simp: profile_message_def split: sum.splits)






definition sample_env :: env where
  "sample_env = \<lparr>e_now = ''[12:00:00]'', e_fmt = (\<lambda>_. ''0''), e_fits = (\<lambda>_. True)\<rparr>"


lemma parse_loop_bits:
  assumes "parse_loop k args chk fl = Inr (chk', fl')" and "bit chk' n"
  shows "bit chk n \<or> (\<exists>a \<in> set args. \<exists>flag. map_of flagsMap (fst (split_eq a)) = Some flag \<and> bit flag n)"
  using assms
proof (induction k args chk fl rule: parse_loop.induct)
  case (3 k arg rest chk fl)
  then obtain flag f r where *: "parse_argument arg rest fl = Inr (flag, f, r)"
    and loop: "parse_loop k r (chk OR flag) f = Inr (chk', fl')" by (auto split: sum.splits)
  have flag: "map_of flagsMap (fst (split_eq arg)) = Some flag" and r: "set r \<subseteq> set rest"
    using * by (auto simp: parse_argument_def Let_def split: if_splits prod.splits option.splits sum.splits dest: list.set_sel(2))
  from "3.IH"[OF * refl refl loop "3.prems"(2)] show ?case using flag r by (auto simp: bit_or_iff)
qed auto

lemma flag_bits: "map_of flagsMap key = Some flag \<Longrightarrow> (bit flag 0 \<longrightarrow> flag = Host) \<and> (bit flag 2 \<longrightarrow> flag = Port)"
  by (auto simp: flagsMap_def flag_defs split: if_splits)

text \<open>Command-line parsing either rejects the arguments with BAD_FORMAT_ARGS, or delivers a port of at
  most 65535; starting from a cleared \<open>checkFlags\<close> it accepts only when both a host and a port flag are
  present.\<close>

theorem arguments_checked:
  "case parseArguments checkFlags0 args of
     Inl f \<Rightarrow> \<exists>info. f = Throw \<lparr>err_code = X_BAD_FORMAT_ARGS, err_info = info\<rparr>
   | Inr fl \<Rightarrow> fl_port fl \<le> 65535 \<and> (checkFlags0 = NoFlag \<longrightarrow>
       (\<exists>a \<in> set args. map_of flagsMap (fst (split_eq a)) = Some Host) \<and>
       (\<exists>a \<in> set args. map_of flagsMap (fst (split_eq a)) = Some Port))"
proof (cases "parse_loop (length args) args checkFlags0 default_flags")
  case (Inl f)
  then show ?thesis using parse_loop_throws[of args "length args" default_flags checkFlags0]
    by (auto simp: parseArguments_def only_throws_def default_flags_def)
next
  case (Inr x)
  obtain chk fl where x: "x = (chk, fl)" by (cases x)
  have p: "fl_port fl \<le> 65535"
    using parse_loop_defined[of args "length args" default_flags checkFlags0 chk fl] Inr x by (simp add: default_flags_def)
  have both: "(\<exists>a \<in> set args. map_of flagsMap (fst (split_eq a)) = Some Host) \<and>
       (\<exists>a \<in> set args. map_of flagsMap (fst (split_eq a)) = Some Port)"
    if c: "chk AND MANDATORY_FLAGS = MANDATORY_FLAGS" and z: "checkFlags0 = NoFlag"
  proof -
    have b: "bit chk n" if "bit MANDATORY_FLAGS n" for n using that c by (metis bit_and_iff)
    have "bit MANDATORY_FLAGS 0" "bit MANDATORY_FLAGS 2" by (simp_all add: flag_defs bit_or_iff)
    then have "bit chk 0" "bit chk 2" using b by blast+
    then show ?thesis using parse_loop_bits[OF Inr[unfolded x]] flag_bits z by (fastforce simp: NoFlag_def)
  qed
  show ?thesis using p both by (simp add: parseArguments_def Inr x)
qed

definition run_arguments :: "string list" where
  "run_arguments = [''-i'', ''127.0.0.1'', ''--port=4242'']"

lemma run_arguments_parse:
  "\<exists>fl. parseArguments NoFlag run_arguments = Inr fl"
  by (simp add: parseArguments_def run_arguments_def parse_argument_def flagsMap_def split_eq_def Let_def peek_def
      setPort_def setHost_def flagActions_def flag_defs stoul_def isdigit_def code_of_def read_nat_def digit_val_def
      skip_ws_def isspace_def default_flags_def)

theorem arguments_checked_witness: "\<exists>fl. parseArguments NoFlag run_arguments = Inr fl \<and> fl_port fl \<le> 65535"
  using arguments_checked[of NoFlag run_arguments] run_arguments_parse by (auto split: sum.splits)

text \<open>C33: In a window with room for the line, the keys of the editor do what they do to a line with a
  cursor: insert at the cursor, delete before and at it, and move it.\<close>

theorem editor_refines_line:
  assumes "tab_ok t" and "wide t" and "length (it_buffer t) < CMD_BUFFER_SIZE" and "edit_of_key k = Some e"
  shows "line_of (snd (handleUserInput w k t)) = edit_line e (line_of t)"
  using editor_refines[OF assms] .

definition sample_tab :: input_tab where
  "sample_tab = (new_input_tab [''LOOK''] ''-> '')\<lparr>it_width := 60, it_x := 4, it_buffer := ''MOE''\<rparr>"

lemma sample_tab_ok: "tab_ok sample_tab" "wide sample_tab"
  by (simp_all add: sample_tab_def new_input_tab_def ok_defs wide_def CMD_BUFFER_SIZE_def)

theorem editor_refines_line_witness:
  "line_of (snd (handleUserInput SWouldBlock KEY_RIGHT sample_tab)) = (''MO'', ''E'')"
proof -
  have "line_of sample_tab = (''M'', ''OE'')" by (simp add: sample_tab_def line_of_def new_input_tab_def)
  moreover have "length (it_buffer sample_tab) < CMD_BUFFER_SIZE" by (simp add: sample_tab_def CMD_BUFFER_SIZE_def)
  moreover have "edit_of_key KEY_RIGHT = Some GoRight" by (simp add: edit_of_key_def key_codes)
  ultimately show ?thesis using editor_refines_line[OF sample_tab_ok, of KEY_RIGHT GoRight SWouldBlock] by simp
qed



text \<open>On every terminal of at least the minimal size, the tabs of the game, login and character
  windows lie inside their frame and do not overlap.\<close>

theorem tabs_fit:
  assumes "MIN_HEIGHT_CLI \<le> height" and "MIN_WIDTH_CLI \<le> width"
  shows "(let b = game_layout height width; tabs = [gb_info b, gb_world b, gb_cmd b, gb_chat b]
      in inside (gb_frame b) (box height width 0 0) \<and> list_all (\<lambda>r. inside r (gb_frame b)) tabs \<and> all_disjoint tabs) \<and>
    list_all (\<lambda>b. inside (fb_info b) (fb_frame b) \<and> list_all (\<lambda>r. inside r (fb_info b)) [fb_username b, fb_button b, fb_close b]
      \<and> all_disjoint [fb_username b, fb_button b, fb_close b]) [login_layout height width, create_layout height width]"
proof -
  have q: "(if width mod 4 \<noteq> 0 then (width div 4) * 4 else width) = 4 * (width div 4)" "37 \<le> width div 4"
    using assms(2) by (auto simp: MIN_WIDTH_CLI_def)
  have h3: "(if height mod 3 \<noteq> 0 then (height div 3) * 3 else height) = 3 * (height div 3)" "10 \<le> height div 3"
    using assms(1) by (auto simp: MIN_HEIGHT_CLI_def)
  have h2: "(if height mod 2 \<noteq> 0 then (height div 2) * 2 else height) = 2 * (height div 2)" "10 \<le> height div 2"
    using assms(1) by (auto simp: MIN_HEIGHT_CLI_def)
  have login: "login_layout height width = form_layout (3 * (height div 3)) (4 * (width div 4)) (height div 3) ''CREATE NEW''"
    unfolding login_layout_def Let_def q(1) h3(1) by simp
  have create: "create_layout height width = form_layout (2 * (height div 2)) (4 * (width div 4)) (height div 2) ''LOGIN''"
    unfolding create_layout_def Let_def q(1) h2(1) by simp
  show ?thesis
    using game_layout_fits[OF assms] form_layout_fits[OF refl q(2) h3(2), of "3 * (height div 3)" "''CREATE NEW''"]
      form_layout_fits[OF refl q(2) h2(2), of "2 * (height div 2)" "''LOGIN''"] h3(2) h2(2)
    by (simp add: Let_def login create)
qed

theorem tabs_fit_witness: "all_disjoint [gb_info (game_layout 32 151), gb_world (game_layout 32 151), gb_cmd (game_layout 32 151)]"
  using tabs_fit[of 32 151] by (simp add: MIN_HEIGHT_CLI_def MIN_WIDTH_CLI_def Let_def)



text \<open>C31: However the stream of the server is cut into reads, the lines dispatched are its non-empty lines
  in order, and what is left in the buffer is the text after its last newline.\<close>

theorem stream_is_framed:
  assumes "fst (read_all (cli_face env) rss u) = None" and "u_toGame u = []"
  shows "\<exists>bs. u_received (snd (read_all (cli_face env) rss u)) = u_received u @ bs
    \<and> u_lines (snd (read_all (cli_face env) rss u)) = u_lines u @ filter (\<lambda>l. l \<noteq> []) (fst (frames bs))
    \<and> u_toGame (snd (read_all (cli_face env) rss u)) = snd (frames bs)"
  using terminal.read_all_lines[OF assms(1)] assms(2) by simp

theorem stream_is_framed_witness:
  "u_lines (snd (read_all (cli_face sample_env) [[Recvd ''EV''], [Recvd (''T'' @ [NL] @ ''O'')]] (new_cli 40 160))) = [''EVT'']"
proof -
  let ?r = "read_all (cli_face sample_env) [[Recvd ''EV''], [Recvd (''T'' @ [NL] @ ''O'')]] (new_cli 40 160)"
  have f: "fst ?r = None" and g: "u_toGame (new_cli 40 160) = []" and received: "u_received (snd ?r) = ''EVT'' @ [NL] @ ''O''"
    by code_simp+
  have fr: "frames (''EVT'' @ NL # ''O'') = ([''EVT''], ''O'')" by (subst frames_line) simp_all
  show ?thesis using stream_is_framed[OF f g] received fr by (auto simp: new_cli_def)
qed

lemma handshake_again:
  assumes "u_phase u = P_ERROR" and "u_queue u = [wait_message]" and "plain_text (pi_username (u_info u))"
    and "\<not> opens_json (pi_username (u_info u))"
  shows "\<exists>x. dispatchMessage (cli_face env) HAND_SHAKE u = (None, x) \<and> u_phase x = P_ERROR \<and> u_lastPhase x = u_lastPhase u
    \<and> u_queue x = [connect_message (pi_username (u_info u))] \<and> u_client_events x AND POLLOUT \<noteq> 0
    \<and> u_connEstablished x \<and> u_current x = u_current u"
proof -
  have n: "pi_username (u_info u) \<noteq> []" using assms(3) by (simp add: plain_text_def)
  have c: "''CONNECT'' @ '' '' @ n = ''CONNECT '' @ n" for n by simp
  have p: "push_command (''CONNECT'' @ '' '' @ pi_username (u_info u)) w
      = (None, w\<lparr>u_queue := u_queue w @ [connect_message (pi_username (u_info u))]\<rparr>)" for w
    by (simp only: push_command_def c connect_parses[OF assms(3,4)] sum.case)
  show ?thesis
    using assms(1,2) n unfolding dispatchMessage_def fixed_messages(3)
    by (simp add: dispatch_parsed_def respond_def kind_defs front_command_def shakeHands_def cli_base(2)[of env] UI_shakeHands_def p pollout_nonzero
        andthen_def noexcept_def startSpeaking_def pop_front_def stop_def UI_stop_def Let_def del: append.simps)
      (simp add: pop_front_def pollout_nonzero)
qed

lemma connected_again:
  assumes "u_phase u = P_ERROR" and "u_lastPhase u = P_GAME" and "u_connEstablished u"
    and "u_queue u = [connect_message n]" and "u_current u = Some P_ERROR" and "e_fits env P_GAME"
  shows "\<exists>y. dispatchMessage (cli_face env) OK_CONNECTED u = (None, y) \<and> u_phase y = P_GAME \<and> u_queue y = [profile_message]
    \<and> u_current y = Some P_GAME"
  using assms unfolding dispatchMessage_def fixed_messages(4)
  by (simp add: dispatch_parsed_def respond_def kind_defs front_command_def switchWindow_def cli_base(1)[of env] UI_switchWindow_def updatePhase_def
      andthen_def step_when_def push_fixed clear_window_def draw_window_def pop_front_def stop_def UI_stop_def startSpeaking_def Let_def)

text \<open>C7: A lost connection is recovered: from the game, the disconnection shows the error window, whose
  first button wakes the network worker up; the handshake of the new connection makes the client send
  CONNECT with the same user name, and its answer brings the game back and asks for the profile.\<close>

theorem session_recovers:
  assumes "u_phase u = P_GAME" and "plain_text (pi_username (u_info u))" and "\<not> opens_json (pi_username (u_info u))"
    and "e_fits env P_GAME" and "e_fits env P_ERROR"
  shows "\<exists>lost asked greeted back.
      handleException env lost_connection u = (None, lost) \<and> u_phase lost = P_ERROR \<and> u_toServer lost = [] \<and> u_toGame lost = []
    \<and> window_key env w 10 lost = Some (None, asked) \<and> u_wakeups asked = Suc (u_wakeups u)
    \<and> dispatchMessage (cli_face env) HAND_SHAKE asked = (None, greeted)
    \<and> u_queue greeted = [connect_message (pi_username (u_info u))] \<and> u_client_events greeted AND POLLOUT \<noteq> 0
    \<and> dispatchMessage (cli_face env) OK_CONNECTED greeted = (None, back) \<and> u_phase back = P_GAME \<and> u_queue back = [profile_message]"
proof -
  obtain v where v: "handleException env lost_connection u = (None, v)" "u_phase v = P_ERROR" "u_lastPhase v = P_GAME"
    "u_queue v = [wait_message]" "u_toServer v = []" "u_toGame v = []" "u_info v = u_info u" "u_current v = Some P_ERROR"
    "u_wakeups v = u_wakeups u" "ew_action1 (u_error v) = Some (''CONNECT'', Reconnect)" "ew_active (u_error v) = 2"
    using connection_lost[of u env] assms(1,5) by auto
  define a where "a = v\<lparr>u_wakeups := Suc (u_wakeups v)\<rparr>"
  have key: "window_key env w 10 v = Some (None, a)" unfolding a_def by (rule reconnect_button[OF v(8,10,11)])
  obtain x where x: "dispatchMessage (cli_face env) HAND_SHAKE a = (None, x)" "u_phase x = P_ERROR" "u_lastPhase x = P_GAME"
    "u_queue x = [connect_message (pi_username (u_info u))]" "u_client_events x AND POLLOUT \<noteq> 0" "u_connEstablished x"
    "u_current x = Some P_ERROR"
    using handshake_again[of a env] v assms(2,3) by (auto simp: a_def)
  obtain y where y: "dispatchMessage (cli_face env) OK_CONNECTED x = (None, y)" "u_phase y = P_GAME" "u_queue y = [profile_message]"
    using connected_again[OF x(2,3,6,4,7) assms(4)] by auto
  have "u_wakeups a = Suc (u_wakeups u)" by (simp add: a_def v(9))
  then show ?thesis using v(1,2,5,6) key x(1,4,5) y by blast
qed

definition playing_cli :: cli where
  "playing_cli = (new_cli 40 160)\<lparr>u_phase := P_GAME, u_info := \<lparr>pi_username = ''Ana'', pi_hp = 100, pi_group = [], pi_location = []\<rparr>\<rparr>"

theorem session_recovers_witness: "\<exists>lost. handleException sample_env lost_connection playing_cli = (None, lost) \<and> u_phase lost = P_ERROR"
proof -
  have "plain_text ''Ana''" "\<not> opens_json ''Ana''" by code_simp+
  then show ?thesis using session_recovers[of playing_cli sample_env] by (auto simp: playing_cli_def sample_env_def)
qed







end
