(* ===== verification/ClientFindings.thy ===== *)
theory ClientFindings
  imports ClientCorrect ClientSetup
begin

text \<open>
  Situations in which the client does not do what it is meant to do, each as a fact about the model; the
  places in the code are named in front of each.
\<close>

subsection \<open>Answers the client cannot read\<close>

lemma unknown_error_line:
  assumes "n \<le> 65535" and "getError name = None" and "word_ok name" and "info = [] \<or> isspace (hd info)"
  shows "parse_message (''ERR '' @ show_nat n @ '' '' @ name @ info)
    = throw X_BAD_MESSAGE (''Unknown error: '' @ ''ERR '' @ show_nat n @ '' '' @ name @ info)"
proof -
  let ?line = "''ERR '' @ show_nat n @ '' '' @ name @ info"
  have t: "next_token ?line = (''ERR'', CHR '' '' # show_nat n @ CHR '' '' # name @ info)"
    using next_token_word[OF word_names(2), of "CHR '' '' # show_nat n @ CHR '' '' # name @ info"] by simp
  have r: "read_uint16 (CHR '' '' # show_nat n @ CHR '' '' # name @ info) = Some (of_nat n, CHR '' '' # name @ info)"
    by (rule read_uint16_show[OF assms(1)]) simp
  have nm: "next_token (CHR '' '' # name @ info) = (name, info)"
    using next_token_word[OF assms(3,4)] by simp
  have name: "name \<noteq> []" using assms(3) by (simp add: word_ok_def)
  have p: "parseError ?line = throw X_BAD_MESSAGE (''Unknown error: '' @ ?line)"
    unfolding parseError_def t Let_def prod.case
    by (simp only: r nm prod.case option.case assms(2) name if_False list.distinct simp_thms Let_def)
  show ?thesis unfolding parse_message_def t fst_conv Let_def p by (simp add: S_OK_def S_ERR_def)
qed

text \<open>GROUP INVITE of an unknown player is answered with \<open>PLAYER_NOT_FOUND\<close> (\<open>group_commands.cpp\<close>), a name
  that \<open>MessageTypes.hpp\<close> does not have: the answer is dropped and the command stays at the head of the queue,
  where it takes the answers of the commands after it.\<close>

lemma player_not_found_unread:
  assumes "plain_text n"
  shows "dispatchMessage (cli_face env) (''ERR '' @ show_nat 404 @ '' '' @ ''PLAYER_NOT_FOUND'' @ CHR '' '' # n) u
    = (None, u\<lparr>u_lines := u_lines u @ [''ERR '' @ show_nat 404 @ '' '' @ ''PLAYER_NOT_FOUND'' @ CHR '' '' # n]\<rparr>)"
proof -
  let ?line = "''ERR '' @ show_nat 404 @ '' '' @ ''PLAYER_NOT_FOUND'' @ CHR '' '' # n"
  have w: "getError ''PLAYER_NOT_FOUND'' = None" "word_ok ''PLAYER_NOT_FOUND''" by code_simp+
  have n: "n \<noteq> []" "clean n" using assms by (auto simp: plain_text_def)
  have "last n \<in> set n" using n(1) by (rule last_in_set)
  then have "last n \<noteq> NL" using n(2) by (metis clean_def)
  then have l: "last ?line \<noteq> NL" using n(1)
    by (simp only: last_append last.simps append_is_Nil_conv list.distinct simp_thms if_False if_True)
  obtain s where s: "s = ?line" by simp
  have "s \<noteq> []" by (simp add: s)
  then have "Message s = parse_message s" using l unfolding s [symmetric] by (simp add: Message_def)
  moreover have "parse_message s = throw X_BAD_MESSAGE (''Unknown error: '' @ s)"
    unfolding s by (rule unknown_error_line[OF _ w]) simp_all
  ultimately have "dispatchMessage (cli_face env) s u = (None, u\<lparr>u_lines := u_lines u @ [s]\<rparr>)" by (simp add: dispatchMessage_def)
  then show ?thesis unfolding s .
qed

text \<open>Payloads are quoted without escaping (\<open>Message.cpp\<close>): a chat text with a quotation mark is no command, and
  a player whose name starts with a digit enters and leaves rooms unseen.\<close>

lemma quoted_chat_refused:
  "goodCommand CHAT_CMD_HINTS (''CHAT ROOM say '' @ [DQ] @ ''hi'' @ [DQ]) = Inr False"
  by code_simp

lemma digit_name_unread:
  "case Message ''EVT ROOM PRESENCE_ENTER 7up'' of Inl (Throw e) \<Rightarrow> err_code e = X_BAD_MESSAGE | _ \<Rightarrow> False"
  by code_simp

text \<open>The worker looks for QUIT anywhere in what it sends (\<open>ClientHTTP.cpp\<close>): after a chat text with this word
  the end of the connection is not reported.\<close>

lemma quit_in_chat:
  assumes "h_gameBuffer h = ''CHAT ROOM never QUIT'' @ [NL]" and "i_server_sends i = [Accepted 21]"
  shows "\<exists>h'. handleDataToServer i h = (None, h') \<and> h_preStop h'"
  using assms by (simp add: handleDataToServer_def writeNonBlock_def accept_bytes_def drain_game_def PRE_DISCONNECT_MSG_def Let_def)

subsection \<open>Errors while an error is shown\<close>

text \<open>A second error overwrites the phase to go back to with the error phase itself (\<open>UI::updatePhase\<close>, whose
  comment says it does not), and leaves a window whose only button closes the client.\<close>

lemma double_error_window:
  "ew_action1 (adaptWinToError \<lparr>err_code = X_UI_DOUBLE_ERROR, err_info = i\<rparr> w) = Some (''CLOSE'', StopEngine)"
  "ew_action2 (adaptWinToError \<lparr>err_code = X_UI_DOUBLE_ERROR, err_info = i\<rparr> w) = None"
  by (simp_all add: adaptWinToError_def setAction1_def clear_error_def Let_def split: option.split)

lemma double_error_forgets_phase:
  assumes "u_phase u = P_ERROR" and "err_code e \<noteq> X_UI_INVALID_SIZE" and "e_fits env P_ERROR"
  shows "\<exists>v. handleException env e u = (None, v) \<and> u_lastPhase v = P_ERROR \<and> u_phase v = P_ERROR
    \<and> ew_action1 (u_error v) = Some (''CLOSE'', StopEngine) \<and> ew_action2 (u_error v) = None"
  using assms
  by (cases "u_current u"; cases "err_code e = X_SERVER_DISCONNECTED")
    (simp_all add: handleException_def UI_handleException_def switchWindow_def cli_base(1)[of env] UI_switchWindow_def updatePhase_def push_fixed
      andthen_def step_when_def draw_window_def draw_error_def error_layout_def stopSpeaking_def double_error_window Let_def)

text \<open>\<open>NcWindow::resize\<close> clears before it draws; clearing the error window removes its buttons, and drawing it
  without a button fails the assertion.\<close>

lemma resize_error_crashes:
  "u_current u = Some P_ERROR \<Longrightarrow> fst (handleResize env (Some (rows, cols)) u) = Some Crash"
  by (simp add: handleResize_def resize_def clear_window_def draw_window_def draw_error_def error_layout_def clear_error_def Let_def)

text \<open>The answer to PROFILE, which the client sends by itself, can be an error; PROFILE is in no list of hints.\<close>

lemma profile_error_crashes: "appendError now e C_PROFILE g = Inl Crash"
proof -
  have "tab_of_command C_PROFILE = None" by code_simp
  then show ?thesis by (simp add: appendError_def)
qed

subsection \<open>The line editor\<close>

text \<open>The arrow down key on a line that was not taken from the history empties it (\<open>InputTab::showNext\<close>).\<close>

lemma show_next_wipes:
  "it_command t = -1 \<Longrightarrow> it_tmp t = [] \<Longrightarrow> \<exists>t'. showNext t = Inr t' \<and> it_buffer t' = []"
  by (simp add: showNext_def redraw_def restore_typed_def writePromptLine_def advance_def)

text \<open>The 129th character is stored behind the buffer (\<open>InputTab::appendInputChar\<close>, "NB is it safe?").\<close>

lemma full_line_overflows: "length (it_buffer t) = 128 \<Longrightarrow> appendInputChar c t = Inl Crash"
  by (simp add: appendInputChar_def CMD_BUFFER_SIZE_def)

text \<open>Where the text is longer than the window, the cursor stops at the last column and further characters are
  inserted before the end of the line, though the cursor was never moved.\<close>

lemma narrow_window_scrambles:
  assumes "it_x t = it_width t - 1" and "it_startX t \<le> it_x t" and "it_x t < it_startX t + length (it_buffer t)"
    and "length (it_buffer t) < CMD_BUFFER_SIZE"
  shows "\<exists>t'. appendInputChar c t = Inr t' \<and> it_buffer t'
    = take (it_x t - it_startX t) (it_buffer t) @ [char_of (nat (c mod 256))] @ drop (it_x t - it_startX t) (it_buffer t)"
  using assms by (simp add: appendInputChar_def Let_def)
    (simp add: writePromptLine_def advance_def updateHints_def wmove_def Let_def)

subsection \<open>The command line\<close>

text \<open>The port is cut to 32 bits before it is checked (\<open>setPort\<close>), and \<open>checkFlags\<close> starts uninitialised
  (\<open>parseArguments\<close>): with the two mandatory bits set by chance, no host and no port are needed.\<close>

lemma huge_port_accepted: "setPort fl ''4294967297'' = Inr (fl\<lparr>fl_port := 1\<rparr>)"
  by (simp add: setPort_def stoul_def Let_def peek_def isdigit_def code_of_def read_nat_def digit_val_def skip_ws_def isspace_def)

lemma chance_flags_accepted: "parseArguments MANDATORY_FLAGS [''-h''] = Inr (default_flags\<lparr>fl_helpmode := True\<rparr>)"
  by (simp add: parseArguments_def parse_argument_def flagsMap_def split_eq_def Let_def peek_def setHelpMode_def flagActions_def
      flag_defs default_flags_def)

end
