(* ===== verification/GuiWindows.thy ===== *)
theory GuiWindows
  imports UI
begin

text \<open>
  The windows of the Qt interface (\<open>client/gui\<close>: \<open>Panel\<close>, \<open>GameWindow\<close>, \<open>ErrorWindow\<close>, the two forms): the
  HTML lines a panel keeps and those its text widget was given, what is appended where, what pressing
  return does, and the buttons.  A name with the suffix \<open>_qt\<close> has a namesake in the CLI.  Sizes, styles,
  titles, completion and what the widgets paint are the library's.  The text of a line edit is an argument
  of the operation that reads it; the code empties the line edit each time.
\<close>

definition QT_BLUE_COLOR :: string where "QT_BLUE_COLOR = ''#1f5fa8''"
definition QT_RED_COLOR :: string where "QT_RED_COLOR = ''#ff0000''"
definition QT_GREEN_COLOR :: string where "QT_GREEN_COLOR = ''#1fa870''"
definition QT_YELLOW_COLOR :: string where "QT_YELLOW_COLOR = ''#b87333''"
definition QT_CYAN_COLOR :: string where "QT_CYAN_COLOR = ''#1fa3b8''"
definition QT_WHITE_COLOR :: string where "QT_WHITE_COLOR = ''#ffffff''"

subsection \<open>Panel\<close>

record panel =
  pn_color :: string
  pn_showTimestamps :: bool
  pn_checkInput :: bool
  pn_hints :: "string list"
  pn_state :: "string list"
  pn_log :: "string list"

text \<open>The hints are only taken over when the panel has an input line.\<close>

definition new_panel :: "string \<Rightarrow> bool \<Rightarrow> bool \<Rightarrow> bool \<Rightarrow> string list option \<Rightarrow> panel" where
  "new_panel color withInput showTimestamps checkInput hints =
     \<lparr>pn_color = color, pn_showTimestamps = showTimestamps, pn_checkInput = checkInput,
      pn_hints = (if withInput then (case hints of None \<Rightarrow> [] | Some hs \<Rightarrow> map c_str hs) else []),
      pn_state = [], pn_log = []\<rparr>"

definition html_span :: "string \<Rightarrow> string \<Rightarrow> string \<Rightarrow> string" where
  "html_span color indent line = ''<span style='' @ [APOS] @ ''white-space: pre; color: '' @ color @ [APOS] @ ''>''
     @ indent @ line @ ''</span>''"

definition indented :: "panel \<Rightarrow> string" where
  "indented p = (if pn_showTimestamps p then replicate 12 (CHR '' '') else replicate 2 (CHR '' ''))"

text \<open>One line is pushed to \<open>state\<close> and given to the text widget.\<close>

definition push_line :: "string \<Rightarrow> panel \<Rightarrow> panel" where
  "push_line html p = p\<lparr>pn_state := pn_state p @ [html], pn_log := pn_log p @ [html]\<rparr>"

text \<open>\<open>now\<close> is the text \<open>[hh:mm:ss]\<close>.  The first \<open>getline\<close> gives a line even when there is no text.\<close>

definition appendInput :: "string \<Rightarrow> string \<Rightarrow> string option \<Rightarrow> bool \<Rightarrow> panel \<Rightarrow> panel" where
  "appendInput now s color addTimestamps p =
     (let textColor = (case color of None \<Rightarrow> pn_color p | Some c \<Rightarrow> c);
          first = (case getlines s of [] \<Rightarrow> [] | l # _ \<Rightarrow> l);
          p1 = push_line (if addTimestamps then now @ html_span textColor (replicate 2 (CHR '' '')) first
                          else html_span textColor (indented p) first) p
      in fold (\<lambda>l. push_line (html_span textColor (indented p) l)) (tl (getlines s)) p1)"

definition clear_panel :: "panel \<Rightarrow> panel" where
  "clear_panel p = p\<lparr>pn_log := []\<rparr>"

definition refresh :: "panel \<Rightarrow> panel" where
  "refresh p = (clear_panel p)\<lparr>pn_log := map c_str (pn_state p)\<rparr>"

definition INVALID_COMMAND_qt :: string where "INVALID_COMMAND_qt = ''Invalid command''"

text \<open>Whether the text is a command of this panel; \<open>Inr False\<close> also stands for an \<open>AppException\<close> of the parser,
  which the \<open>catch\<close> treats like one that was thrown for a foreign command.\<close>

definition testParse :: "string list \<Rightarrow> string \<Rightarrow> bool outcome" where
  "testParse hints input = (case Message input of
     Inl (Throw e) \<Rightarrow> Inr False
   | Inl Crash \<Rightarrow> Inl Crash
   | Inr m \<Rightarrow> Inr (case getCommandType m of None \<Rightarrow> False | Some c \<Rightarrow> c_str (command_name c) \<in> set hints))"

text \<open>What \<open>submitCommand\<close> does to the panel, and the text it emits.  What the receiver of the signal throws
  comes back to the \<open>catch\<close>; \<open>submit_rejected\<close> is the handler.\<close>

definition submitCommand :: "string \<Rightarrow> string \<Rightarrow> panel \<Rightarrow> (panel \<times> string option) outcome" where
  "submitCommand now input p = (if input = [] then Inr (p, None)
     else let p1 = appendInput now input (Some QT_WHITE_COLOR) True p in
       if \<not> pn_checkInput p1 then Inr (p1, None)
       else (case testParse (pn_hints p1) input of
           Inl f \<Rightarrow> Inl f
         | Inr good \<Rightarrow> if good then Inr (p1, Some (c_str input))
             else Inr (appendInput now INVALID_COMMAND_qt (Some QT_RED_COLOR) False p1, None)))"

definition submit_rejected :: "string \<Rightarrow> panel \<Rightarrow> panel" where
  "submit_rejected now p = appendInput now INVALID_COMMAND_qt (Some QT_RED_COLOR) False p"

subsection \<open>Game window\<close>

record game_window_qt =
  gq_player :: panel
  gq_world :: panel
  gq_cmd :: panel
  gq_chat :: panel

definition new_game_qt :: game_window_qt where
  "new_game_qt = \<lparr>gq_player = new_panel QT_BLUE_COLOR False False False None,
     gq_world = new_panel QT_YELLOW_COLOR False True False None,
     gq_cmd = new_panel QT_CYAN_COLOR True True True (Some CMD_HINTS),
     gq_chat = new_panel QT_GREEN_COLOR True True True (Some CHAT_CMD_HINTS)\<rparr>"

definition on_panel :: "which_tab \<Rightarrow> (panel \<Rightarrow> panel) \<Rightarrow> game_window_qt \<Rightarrow> game_window_qt" where
  "on_panel tab f g = (case tab of CmdTab \<Rightarrow> g\<lparr>gq_cmd := f (gq_cmd g)\<rparr> | ChatTab \<Rightarrow> g\<lparr>gq_chat := f (gq_chat g)\<rparr>)"

definition panel_of :: "which_tab \<Rightarrow> game_window_qt \<Rightarrow> panel" where
  "panel_of tab g = (case tab of CmdTab \<Rightarrow> gq_cmd g | ChatTab \<Rightarrow> gq_chat g)"

definition appendResponse_qt ::
  "(double \<Rightarrow> string) \<Rightarrow> string \<Rightarrow> message \<Rightarrow> CommandType \<Rightarrow> game_window_qt \<Rightarrow> game_window_qt outcome" where
  "appendResponse_qt fmt now response cmdType g =
     (if cmdType = C_GROUP_CHAT \<or> cmdType = C_ROOM_CHAT \<or> cmdType = C_GLOBAL_CHAT then Inr g
      else let responseStr = toStringResponse fmt response cmdType in
        (case tab_of_command cmdType of
           None \<Rightarrow> Inl Crash
         | Some tab \<Rightarrow> Inr (on_panel tab (appendInput now responseStr None False) g)))"

definition appendEvent_qt :: "string \<Rightarrow> message \<Rightarrow> game_window_qt \<Rightarrow> game_window_qt outcome" where
  "appendEvent_qt now event g = (case toStringEvent event of Inl f \<Rightarrow> Inl f
     | Inr eventStr \<Rightarrow> Inr (g\<lparr>gq_world := appendInput now eventStr None True (gq_world g)\<rparr>))"

definition appendError_qt :: "string \<Rightarrow> message \<Rightarrow> CommandType \<Rightarrow> game_window_qt \<Rightarrow> game_window_qt outcome" where
  "appendError_qt now error cmdType g = (case toStringError error of Inl f \<Rightarrow> Inl f
     | Inr errorStr \<Rightarrow> (case tab_of_command cmdType of
          None \<Rightarrow> Inl Crash
        | Some tab \<Rightarrow> Inr (on_panel tab (appendInput now errorStr (Some QT_RED_COLOR) False) g)))"

definition updatePlayerPanel_qt :: "player_info \<Rightarrow> game_window_qt \<Rightarrow> game_window_qt" where
  "updatePlayerPanel_qt data g =
     g\<lparr>gq_player := fold (\<lambda>s. appendInput [] s None False) (panel_lines data) (clear_panel (gq_player g))\<rparr>"

text \<open>The window is shown by the program itself.\<close>

definition showEvent_win :: "game_window_qt \<Rightarrow> game_window_qt" where
  "showEvent_win g = \<lparr>gq_player = refresh (gq_player g), gq_world = refresh (gq_world g), gq_cmd = refresh (gq_cmd g),
     gq_chat = refresh (gq_chat g)\<rparr>"

subsection \<open>Forms and error window\<close>

definition login_buttons :: "(string \<times> button_action) list" where
  "login_buttons = [(''CREATE NEW'', SwitchWindow (Some P_PLAYER_CREATE)), (''CLOSE'', StopEngine)]"

definition create_buttons :: "(string \<times> button_action) list" where
  "create_buttons = [(''LOGIN'', SwitchWindow (Some P_LOGIN)), (''CLOSE'', StopEngine)]"

record error_window_qt =
  eq_info :: string
  eq_buttons :: "(string \<times> button_action) list"

definition new_error_qt :: error_window_qt where
  "new_error_qt = \<lparr>eq_info = [], eq_buttons = []\<rparr>"

definition setAction1_qt :: "string \<Rightarrow> button_action \<Rightarrow> error_window_qt \<Rightarrow> error_window_qt" where
  "setAction1_qt actionName action e = e\<lparr>eq_buttons := eq_buttons e @ [(c_str actionName, action)]\<rparr>"

definition setAction2_qt :: "string \<Rightarrow> button_action \<Rightarrow> error_window_qt \<Rightarrow> error_window_qt" where
  "setAction2_qt actionName action e = e\<lparr>eq_buttons := eq_buttons e @ [(c_str actionName, action)]\<rparr>"

definition adaptWinToError_qt :: "ErrorData \<Rightarrow> error_window_qt \<Rightarrow> error_window_qt" where
  "adaptWinToError_qt error e0 = (let e = e0\<lparr>eq_info := c_str (mapError error), eq_buttons := []\<rparr> in
     case err_code error of
       X_UI_USERNAME_NOT_EXISTS \<Rightarrow> setAction2_qt ''CREATE NEW'' (SwitchWindow (Some P_PLAYER_CREATE))
           (setAction1_qt ''RETRY'' (SwitchWindow (Some P_LOGIN)) e)
     | X_UI_USERNAME_IN_USE \<Rightarrow> setAction1_qt ''RETRY'' (SwitchWindow (Some P_PLAYER_CREATE)) e
     | X_SERVER_DISCONNECTED \<Rightarrow> setAction1_qt ''CLOSE'' StopEngine (setAction1_qt ''CONNECT'' Reconnect e)
     | _ \<Rightarrow> setAction1_qt ''CLOSE'' StopEngine e)"

subsection \<open>What a panel shows\<close>

text \<open>Without zero bytes in the text, showing the window again shows the same lines, unless the text widget was
  cleared in between.\<close>

lemma fold_push_line: "fold (\<lambda>l. push_line (h l)) ls p = p\<lparr>pn_state := pn_state p @ map h ls, pn_log := pn_log p @ map h ls\<rparr>"
  by (induction ls arbitrary: p) (simp_all add: push_line_def)

definition input_lines :: "string \<Rightarrow> string \<Rightarrow> string option \<Rightarrow> bool \<Rightarrow> panel \<Rightarrow> string list" where
  "input_lines now s color addTimestamps p =
     (let textColor = (case color of None \<Rightarrow> pn_color p | Some c \<Rightarrow> c);
          first = (case getlines s of [] \<Rightarrow> [] | l # _ \<Rightarrow> l)
      in (if addTimestamps then now @ html_span textColor (replicate 2 (CHR '' '')) first
          else html_span textColor (indented p) first) # map (html_span textColor (indented p)) (tl (getlines s)))"

lemma appendInput_lines: "appendInput now s color ts p = p\<lparr>pn_state := pn_state p @ input_lines now s color ts p,
    pn_log := pn_log p @ input_lines now s color ts p\<rparr>"
  by (simp only: appendInput_def Let_def fold_push_line) (simp add: push_line_def input_lines_def Let_def)

text \<open>Which commands a pane takes never changes.\<close>

definition takes :: "panel \<Rightarrow> bool \<times> string list" where
  "takes p = (pn_checkInput p, pn_hints p)"

lemma takes_same [simp]: "takes (appendInput now s color ts p) = takes p" "takes (refresh p) = takes p" "takes (clear_panel p) = takes p"
  "takes (submit_rejected now p) = takes p"
  by (simp_all add: takes_def appendInput_lines refresh_def clear_panel_def submit_rejected_def)

definition panes_ready :: "game_window_qt \<Rightarrow> bool" where
  "panes_ready g \<longleftrightarrow> takes (gq_cmd g) = (True, CMD_HINTS) \<and> takes (gq_chat g) = (True, CHAT_CMD_HINTS)"

lemma hints_c_str: "map c_str CMD_HINTS = CMD_HINTS" "map c_str CHAT_CMD_HINTS = CHAT_CMD_HINTS"
  by code_simp+

lemma names_c_str [simp]: "c_str (command_name c) = command_name c"
  by (induction c) code_simp+

lemma new_panes_ready: "panes_ready new_game_qt"
  by (simp add: panes_ready_def new_game_qt_def new_panel_def takes_def hints_c_str)

lemma panes_ready_same [simp]: "panes_ready (showEvent_win g) = panes_ready g" "panes_ready (updatePlayerPanel_qt i g) = panes_ready g"
  "(\<And>p. takes (h p) = takes p) \<Longrightarrow> panes_ready (on_panel tab h g) = panes_ready g"
  "panes_ready (g\<lparr>gq_world := p\<rparr>) = panes_ready g"
  by (simp_all add: panes_ready_def showEvent_win_def updatePlayerPanel_qt_def on_panel_def split: which_tab.split)

lemma append_panes_ready: "appendResponse_qt fmt now m c g = Inr g' \<Longrightarrow> panes_ready g' = panes_ready g"
  "appendEvent_qt now m g = Inr g' \<Longrightarrow> panes_ready g' = panes_ready g" "appendError_qt now m c g = Inr g' \<Longrightarrow> panes_ready g' = panes_ready g"
  by (auto simp: appendResponse_qt_def appendEvent_qt_def appendError_qt_def Let_def split: if_splits option.splits sum.splits)

end
