(* ===== verification/GUI.thy ===== *)
theory GUI
  imports GuiWindows UICorrect
begin

text \<open>
  The Qt interface (\<open>client/gui/source/GUI.cpp\<close>): the engine with its overrides, and its slots as the steps
  of the library's event loop.  An event can only arrive where the widget that sends it is enabled and
  belongs to the window that is shown.  A signal is a call of its slot; what leaves a slot leaves the event
  loop.  At the end the laws of \<open>interface\<close> are proved for these overrides.
\<close>

record gui_env =
  v_now :: string
  v_fmt :: "double \<Rightarrow> string"

record gui = engine +
  g_running :: bool
  g_writing :: bool
  g_game :: game_window_qt
  g_error :: error_window_qt
  g_current :: "GamePhase option"

definition new_gui :: gui where
  "new_gui = \<lparr>u_phase = P_ND, u_lastPhase = P_ND, u_queue = [], u_connEstablished = False, u_toServer = [],
     u_toGame = [], u_info = no_info, u_worker = False, u_wakeups = 0, u_sent = [], u_received = [], u_lines = [],
     g_running = False, g_writing = False, g_game = new_game_qt, g_error = new_error_qt, g_current = None\<rparr>"

subsection \<open>Overrides\<close>

definition startSpeaking_gui :: "gui \<Rightarrow> gui" where
  "startSpeaking_gui u = u\<lparr>g_writing := True\<rparr>"

definition stopSpeaking_gui :: "gui \<Rightarrow> gui" where
  "stopSpeaking_gui u = u\<lparr>g_writing := False\<rparr>"

definition gui_speaker :: "gui speaker" where
  "gui_speaker = \<lparr>startSpeaking_of = startSpeaking_gui, stopSpeaking_of = stopSpeaking_gui\<rparr>"

text \<open>Showing the game window sends it a show event.\<close>

definition show_window :: "GamePhase \<Rightarrow> gui \<Rightarrow> gui" where
  "show_window p u = (if p = P_GAME then u\<lparr>g_game := showEvent_win (g_game u)\<rparr> else u)"

definition switchWindow_gui :: "GamePhase option \<Rightarrow> gui \<Rightarrow> gui step" where
  "switchWindow_gui newPhase u = andthen (UI_switchWindow gui_speaker newPhase u)
     (\<lambda>u. if u_phase u = P_ND then crash u
          else (None, show_window (u_phase u) (u\<lparr>g_current := Some (u_phase u)\<rparr>)))"

definition stop_gui :: "gui \<Rightarrow> gui" where
  "stop_gui u = (UI_stop u)\<lparr>g_running := False\<rparr>"

definition gui_switcher :: "gui switcher" where
  "gui_switcher = \<lparr>startSpeaking_of = startSpeaking_gui, stopSpeaking_of = stopSpeaking_gui, switchWindow_of = switchWindow_gui\<rparr>"

definition put_game_gui :: "game_window_qt outcome \<Rightarrow> gui \<Rightarrow> gui step" where
  "put_game_gui r u = (case r of Inl f \<Rightarrow> (Some f, u) | Inr g \<Rightarrow> (None, u\<lparr>g_game := g\<rparr>))"

definition showResponse_gui :: "gui_env \<Rightarrow> message \<Rightarrow> gui \<Rightarrow> gui step" where
  "showResponse_gui env response u = noexcept (case front_command u of
     None \<Rightarrow> crash u
   | Some c \<Rightarrow> (let u1 = (case tracked_info response c (u_info u) of None \<Rightarrow> u
           | Some i \<Rightarrow> u\<lparr>u_info := i, g_game := updatePlayerPanel_qt i (g_game u)\<rparr>)
       in if c = C_PROFILE then (None, u1)
          else put_game_gui (appendResponse_qt (v_fmt env) (v_now env) response c (g_game u1)) u1))"

definition showEvent_gui :: "gui_env \<Rightarrow> message \<Rightarrow> gui \<Rightarrow> gui step" where
  "showEvent_gui env event u = noexcept (put_game_gui (appendEvent_qt (v_now env) event (g_game u)) u)"

definition showError_gui :: "gui_env \<Rightarrow> message \<Rightarrow> gui \<Rightarrow> gui step" where
  "showError_gui env error u = noexcept (case front_command u of
     None \<Rightarrow> crash u
   | Some c \<Rightarrow> put_game_gui (appendError_qt (v_now env) error c (g_game u)) u)"

definition gui_face :: "gui_env \<Rightarrow> gui face" where
  "gui_face env = \<lparr>startSpeaking_of = startSpeaking_gui, stopSpeaking_of = stopSpeaking_gui, switchWindow_of = switchWindow_gui,
     shakeHands_of = UI_shakeHands gui_switcher, stop_of = stop_gui, showResponse_of = showResponse_gui env,
     showEvent_of = showEvent_gui env, showError_of = showError_gui env\<rparr>"

subsection \<open>Slots\<close>

definition handleException_gui :: "gui_env \<Rightarrow> ErrorData \<Rightarrow> gui \<Rightarrow> gui step" where
  "handleException_gui env error u = noexcept
     (let shown = (if u_phase u = P_ERROR then \<lparr>err_code = X_UI_DOUBLE_ERROR, err_info = mapError error\<rparr> else error)
      in UI_handleException (gui_face env) error (u\<lparr>g_error := adaptWinToError_qt shown (g_error u)\<rparr>))"

definition catch_app :: "'s step \<Rightarrow> (ErrorData \<Rightarrow> 's \<Rightarrow> 's step) \<Rightarrow> 's step" where
  "catch_app r h = (case r of (Some (Throw e), s) \<Rightarrow> h e s | _ \<Rightarrow> r)"

definition writeToServer_gui :: "gui_env \<Rightarrow> send_out list \<Rightarrow> gui \<Rightarrow> gui step" where
  "writeToServer_gui env sends u = catch_app (writeToServer (gui_face env) sends u) (handleException_gui env)"

definition readFromServer_gui :: "gui_env \<Rightarrow> recv_out list \<Rightarrow> gui \<Rightarrow> gui step" where
  "readFromServer_gui env reads u = catch_app (readFromServer (gui_face env) reads u) (handleException_gui env)"

text \<open>Return in the line edit of a form: an empty text is ignored.\<close>

definition username_entered :: "gui_env \<Rightarrow> string \<Rightarrow> gui \<Rightarrow> gui step" where
  "username_entered env s u = (if s = [] then (None, u) else UI_handleCommand (gui_face env) s u)"

definition command_submitted :: "gui_env \<Rightarrow> which_tab \<Rightarrow> string \<Rightarrow> gui \<Rightarrow> gui step" where
  "command_submitted env tab s u = (case submitCommand (v_now env) s (panel_of tab (g_game u)) of
     Inl f \<Rightarrow> (Some f, u)
   | Inr (p, emitted) \<Rightarrow> (let u1 = u\<lparr>g_game := on_panel tab (\<lambda>_. p) (g_game u)\<rparr> in
       case emitted of None \<Rightarrow> (None, u1)
       | Some cmd \<Rightarrow> catch_app (UI_handleCommand (gui_face env) cmd u1)
           (\<lambda>_ u2. (None, u2\<lparr>g_game := on_panel tab (submit_rejected (v_now env)) (g_game u2)\<rparr>))))"

definition buttons_of :: "GamePhase \<Rightarrow> gui \<Rightarrow> (string \<times> button_action) list" where
  "buttons_of p u = (case p of P_LOGIN \<Rightarrow> login_buttons | P_PLAYER_CREATE \<Rightarrow> create_buttons | P_ERROR \<Rightarrow> eq_buttons (g_error u) | _ \<Rightarrow> [])"

text \<open>Every window has the shortcut Escape.\<close>

definition escape_pressed :: "gui \<Rightarrow> gui step" where
  "escape_pressed u = (None, stop_gui u)"

datatype gui_event =
    ReadReady "recv_out list"
  | WriteReady "send_out list"
  | UsernameEntered string
  | CommandSubmitted which_tab string
  | ButtonClicked nat
  | EscapePressed

definition gui_step :: "gui_env \<Rightarrow> gui_event \<Rightarrow> gui \<Rightarrow> gui step" where
  "gui_step env ev u = (case ev of
     ReadReady rs \<Rightarrow> readFromServer_gui env rs u
   | WriteReady ws \<Rightarrow> step_when (g_writing u) (writeToServer_gui env ws) u
   | UsernameEntered s \<Rightarrow> step_when (g_current u = Some P_LOGIN \<or> g_current u = Some P_PLAYER_CREATE) (username_entered env s) u
   | CommandSubmitted tab s \<Rightarrow> step_when (g_current u = Some P_GAME) (command_submitted env tab s) u
   | ButtonClicked n \<Rightarrow> (case g_current u of None \<Rightarrow> (None, u)
       | Some p \<Rightarrow> if n < length (buttons_of p u) then run_button (gui_face env) (snd (buttons_of p u ! n)) u else (None, u))
   | EscapePressed \<Rightarrow> step_when (g_current u \<noteq> None) escape_pressed u)"

text \<open>The event loop ends when the program has called \<open>quit\<close>.\<close>

fun gui_exec :: "(gui_env \<times> gui_event) list \<Rightarrow> gui \<Rightarrow> gui step" where
  "gui_exec [] u = (None, u)"
| "gui_exec ((env, ev) # es) u = (if \<not> g_running u then (None, u) else andthen (gui_step env ev u) (gui_exec es))"

definition start_gui :: "(gui_env \<times> gui_event) list \<Rightarrow> gui \<Rightarrow> gui step" where
  "start_gui es u = andthen (UI_start u) (\<lambda>u. gui_exec es (u\<lparr>g_running := True\<rparr>))"

subsection \<open>The laws of the interface\<close>

lemma gui_face_sel [simp]: "startSpeaking_of (gui_face env) = startSpeaking_gui" "stopSpeaking_of (gui_face env) = stopSpeaking_gui"
  "switchWindow_of (gui_face env) = switchWindow_gui" "shakeHands_of (gui_face env) = UI_shakeHands gui_switcher"
  "stop_of (gui_face env) = stop_gui" "showResponse_of (gui_face env) = showResponse_gui env"
  "showEvent_of (gui_face env) = showEvent_gui env" "showError_of (gui_face env) = showError_gui env"
  by (simp_all add: gui_face_def)

lemma gui_base: "UI_switchWindow gui_speaker = UI_switchWindow (gui_face env)" "UI_shakeHands gui_switcher = UI_shakeHands (gui_face env)"
  by (rule base_agree shakeHands_agree; simp add: gui_speaker_def gui_switcher_def)+

lemma core_gui_fields [simp]: "core (u\<lparr>g_running := b\<rparr>) = core u" "core (u\<lparr>g_writing := b\<rparr>) = core u" "core (u\<lparr>g_game := g\<rparr>) = core u"
  "core (u\<lparr>g_error := e\<rparr>) = core u" "core (u\<lparr>g_current := c\<rparr>) = core u"
  by (simp_all add: core_eq_iff)

lemma core_show_window [simp]: "core (show_window p u) = core u"
  by (simp add: show_window_def)

lemma core_put_gui [simp]: "core (snd (put_game_gui r u)) = core u"
  by (simp add: put_game_gui_def split: sum.split)

interpretation desktop: interface "gui_face env" for env
proof unfold_locales
  fix u p show "core (snd (switchWindow_of (gui_face env) p u)) = core (snd (UI_switchWindow (gui_face env) p u))"
    unfolding gui_face_sel switchWindow_gui_def gui_base(1)[of env] by (subst same_andthen[where F = core]) simp_all
next
  fix u show "core (snd (shakeHands_of (gui_face env) u)) = core (snd (UI_shakeHands (gui_face env) u))"
    unfolding gui_face_sel gui_base(2)[of env] ..
next
  fix m u show "core (snd (showResponse_of (gui_face env) m u)) = core (u\<lparr>u_info := shown_info m u\<rparr>)"
    by (simp add: showResponse_gui_def shown_info_def Let_def split: option.split)
qed (simp_all add: startSpeaking_gui_def stopSpeaking_gui_def stop_gui_def UI_stop_def showEvent_gui_def showError_gui_def
    split: option.split)

subsection \<open>The invariant of the engine\<close>

lemma client_ok_gui [simp]: "client_ok (u\<lparr>g_running := b\<rparr>) = client_ok u" "client_ok (u\<lparr>g_game := g\<rparr>) = client_ok u"
  "client_ok (u\<lparr>g_error := e\<rparr>) = client_ok u"
  by (rule client_ok_core, simp)+

lemma catch_keeps: "P (snd r) \<Longrightarrow> (\<And>e s. P s \<Longrightarrow> P (snd (h e s))) \<Longrightarrow> P (snd (catch_app r h))"
  by (auto simp: catch_app_def split: prod.splits option.splits failure.splits)

lemma ok_exception_gui: "client_ok u \<Longrightarrow> client_ok (snd (handleException_gui env e u))"
  by (simp add: handleException_gui_def Let_def desktop.ok_exception)

lemma ok_gui_step: "client_ok u \<Longrightarrow> client_ok (snd (gui_step env ev u))"
  by (auto simp: gui_step_def readFromServer_gui_def writeToServer_gui_def username_entered_def command_submitted_def escape_pressed_def stop_gui_def
        Let_def desktop.ok_read desktop.ok_write desktop.ok_command desktop.ok_button ok_exception_gui
      intro!: step_when_keeps[where P = client_ok] catch_keeps[where P = client_ok]
      split: gui_event.split option.split sum.split)

lemma ok_gui_exec: "client_ok u \<Longrightarrow> client_ok (snd (gui_exec es u))"
  by (induction es u rule: gui_exec.induct) (auto intro!: andthen_keeps[where P = client_ok] ok_gui_step)

end
