(* ===== verification/Agreement.thy ===== *)
theory Agreement
  imports CLI GUI
begin

text \<open>
  The two interfaces do the same to the engine.  The locales \<open>switching\<close> and \<open>simulation\<close> state when two
  tables of overrides agree along a relation of their states, and carry the agreement through every
  function of the engine; the interpretation relates the terminal to the Qt windows.
\<close>

subsection \<open>Steps that agree\<close>

text \<open>No failure says that a window could not be drawn: in a terminal this is answered by a resize.\<close>

definition sized :: "failure option \<Rightarrow> bool" where
  "sized x \<longleftrightarrow> (\<forall>e. x = Some (Throw e) \<longrightarrow> err_code e \<noteq> X_UI_INVALID_SIZE)"

definition agree :: "('s \<Rightarrow> 't \<Rightarrow> bool) \<Rightarrow> 's step \<Rightarrow> 't step \<Rightarrow> bool" where
  "agree R r s \<longleftrightarrow> fst r = fst s \<and> R (snd r) (snd s) \<and> sized (fst r)"

lemma sized_simps [simp]: "sized None" "sized (Some Crash)" "sized (Some (Throw e)) = (err_code e \<noteq> X_UI_INVALID_SIZE)"
  by (simp_all add: sized_def)

lemma agree_pair [simp]: "agree R (None, u) (None, v) = R u v" "agree R (Some e, u) (Some e, v) = (R u v \<and> sized (Some e))"
  by (auto simp: agree_def)

lemma agree_fail [simp]: "agree R (fail c i u) (fail c i v) = (c \<noteq> X_UI_INVALID_SIZE \<and> R u v)" "agree R (crash u) (crash v) = R u v"
  by (auto simp: agree_def)

lemma agree_andthen:
  assumes "agree R r s" and "\<And>u v. R u v \<Longrightarrow> agree R (h u) (k v)"
  shows "agree R (andthen r h) (andthen s k)"
  using assms(1) assms(2)[of "snd r" "snd s"]
  by (cases r; cases s; cases "fst r") (auto simp: agree_def andthen_def)

lemma agree_when: "R u v \<Longrightarrow> agree R (h u) (k v) \<Longrightarrow> agree R (step_when b h u) (step_when b k v)"
  by (simp add: step_when_def)

lemma agree_noexcept: "agree R r s \<Longrightarrow> agree R (noexcept r) (noexcept s)"
  by (cases r; cases s; cases "fst r") (auto simp: agree_def noexcept_def)

lemma sized_Message: "Message s = Inl e \<Longrightarrow> sized (Some e)"
proof (cases "s = []")
  case False
  assume "Message s = Inl e"
  then show ?thesis using Message_fails[OF False] by auto
qed (simp add: Message_def)

lemma sized_failures: "readNonBlock n rs = Inl e \<Longrightarrow> sized (Some e)" "writeNonBlock b ws = Inl e \<Longrightarrow> sized (Some e)"
  using readNonBlock_Throw[of n rs e] writeNonBlock_Throw[of b ws e] by auto

subsection \<open>Agreement on the functions of the base class\<close>

locale switching =
  fixes f :: "'a engine_scheme face" and g :: "'b engine_scheme face"
    and R :: "'a engine_scheme \<Rightarrow> 'b engine_scheme \<Rightarrow> bool"
  assumes related_core: "R u v \<Longrightarrow> core u = core v"
    and frame: "R u v \<Longrightarrow> core u' = core v' \<Longrightarrow> u_phase u' = u_phase u \<Longrightarrow> u_lastPhase u' = u_lastPhase u \<Longrightarrow>
      engine.more u' = engine.more u \<Longrightarrow> engine.more v' = engine.more v \<Longrightarrow> R u' v'"
    and speaking: "R u v \<Longrightarrow> R (startSpeaking_of f u) (startSpeaking_of g v)" "R u v \<Longrightarrow> R (stopSpeaking_of f u) (stopSpeaking_of g v)"
    and switch: "R u v \<Longrightarrow> p = None \<or> u_phase u \<noteq> P_ERROR \<and> p \<noteq> Some P_ERROR \<and> p \<noteq> Some P_ND \<Longrightarrow>
      agree R (switchWindow_of f p u) (switchWindow_of g p v)"
begin

lemma same: assumes "R u v"
  shows "u_phase v = u_phase u" "u_lastPhase v = u_lastPhase u" "u_queue v = u_queue u" "u_connEstablished v = u_connEstablished u"
    "u_toServer v = u_toServer u" "u_toGame v = u_toGame u" "u_info v = u_info u" "u_worker v = u_worker u"
    "u_wakeups v = u_wakeups u" "u_sent v = u_sent u" "u_received v = u_received u" "u_lines v = u_lines u"
  using related_core[OF assms] by (simp_all add: core_eq_iff)

lemma updates: assumes "R u v"
  shows "R (u\<lparr>u_queue := q\<rparr>) (v\<lparr>u_queue := q\<rparr>)" "R (u\<lparr>u_connEstablished := b\<rparr>) (v\<lparr>u_connEstablished := b\<rparr>)"
    "R (u\<lparr>u_toServer := r\<rparr>) (v\<lparr>u_toServer := r\<rparr>)" "R (u\<lparr>u_toGame := r\<rparr>) (v\<lparr>u_toGame := r\<rparr>)"
    "R (u\<lparr>u_sent := r\<rparr>) (v\<lparr>u_sent := r\<rparr>)" "R (u\<lparr>u_received := r\<rparr>) (v\<lparr>u_received := r\<rparr>)" "R (u\<lparr>u_lines := l\<rparr>) (v\<lparr>u_lines := l\<rparr>)"
  by (rule frame[OF assms]; simp add: related_core[OF assms])+

lemma push_agree: "R u v \<Longrightarrow> agree R (push_command s u) (push_command s v)"
  using updates(1)[of u v] same(3)[of u v] sized_Message[of s]
  by (auto simp: push_command_def agree_def split: sum.split)

lemma front_same: "R u v \<Longrightarrow> front_command v = front_command u"
  by (simp add: front_command_def same)

lemma pop_agree: "R u v \<Longrightarrow> R (pop_front u) (pop_front v)"
  by (simp add: pop_front_def same updates)

lemma UI_shakeHands_agree: "R u v \<Longrightarrow> agree R (UI_shakeHands f u) (UI_shakeHands g v)"
proof -
  assume uv: "R u v"
  let ?u = "u\<lparr>u_connEstablished := True\<rparr>" and ?v = "v\<lparr>u_connEstablished := True\<rparr>"
  have c: "R ?u ?v" by (rule updates(2)[OF uv])
  have home: "agree R (switchWindow_of f None ?u) (switchWindow_of g None ?v)" by (rule switch[OF c]) simp
  have login: "agree R (switchWindow_of f (Some P_LOGIN) ?u) (switchWindow_of g (Some P_LOGIN) ?v)" if "u_phase u = P_ND"
    by (rule switch[OF c]) (simp add: that)
  have retry: "agree R (andthen (push_command s ?u) (\<lambda>u. (None, startSpeaking_of f u)))
      (andthen (push_command s ?v) (\<lambda>v. (None, startSpeaking_of g v)))" for s
    by (rule agree_andthen[OF push_agree[OF c]]) (simp add: speaking)
  show ?thesis unfolding UI_shakeHands_def Let_def
    by (rule agree_noexcept) (simp add: same[OF uv] home login retry c)
qed

end

locale simulation = switching +
  assumes shake: "R u v \<Longrightarrow> agree R (shakeHands_of f u) (shakeHands_of g v)"
    and stopping: "R u v \<Longrightarrow> R (stop_of f u) (stop_of g v)"
    and showing: "R u v \<Longrightarrow> agree R (showResponse_of f m u) (showResponse_of g m v)"
      "R u v \<Longrightarrow> agree R (showEvent_of f m u) (showEvent_of g m v)" "R u v \<Longrightarrow> agree R (showError_of f m u) (showError_of g m v)"
begin

lemma respond_agree: "R u v \<Longrightarrow> agree R (respond f m u) (respond g m v)"
  by (cases "u_phase u") (auto simp: respond_def same front_same shake switch showing intro!: agree_when split: option.split)

lemma report_agree: "R u v \<Longrightarrow> agree R (report f m u) (report g m v)"
  by (cases "u_phase u") (auto simp: report_def same showing throw_text_def toStringError_def split: option.split)

lemma dispatch_parsed_agree:
  assumes "R u v"
  shows "agree R (dispatch_parsed f m u) (dispatch_parsed g m v)"
proof -
  have a: "agree R (andthen (respond f m u) (\<lambda>u. case front_command u of None \<Rightarrow> crash u
               | Some c \<Rightarrow> (None, pop_front (if c = C_QUIT then stop_of f u else u))))
      (andthen (respond g m v) (\<lambda>v. case front_command v of None \<Rightarrow> crash v
               | Some c \<Rightarrow> (None, pop_front (if c = C_QUIT then stop_of g v else v))))"
    by (rule agree_andthen[OF respond_agree[OF assms]]) (simp add: front_same pop_agree stopping split: option.split)
  have b: "agree R (andthen (report f m u) (\<lambda>u. (None, pop_front u))) (andthen (report g m v) (\<lambda>v. (None, pop_front v)))"
    by (rule agree_andthen[OF report_agree[OF assms]]) (simp add: pop_agree)
  show ?thesis using assms a b by (simp add: dispatch_parsed_def notify_def same showing)
qed

lemma dispatch_agree:
  assumes "R u v"
  shows "agree R (dispatchMessage f s u) (dispatchMessage g s v)"
proof -
  have l: "R (u\<lparr>u_lines := u_lines u @ [s]\<rparr>) (v\<lparr>u_lines := u_lines v @ [s]\<rparr>)" using updates(7)[OF assms] by (simp add: same[OF assms])
  then show ?thesis using sized_Message[of s]
    by (auto simp: dispatchMessage_def Let_def dispatch_parsed_agree split: sum.split failure.split)
qed

lemma split_agree: "R u v \<Longrightarrow> agree R (split_messages f buf u) (split_messages g buf v)"
proof (induction "length buf" arbitrary: buf u v rule: less_induct)
  case less
  show ?case
  proof (cases "NL \<in> set buf")
    case False
    then show ?thesis using updates(4)[OF less.prems] by (simp add: split_messages.simps)
  next
    case True
    define msg where "msg = takeWhile (\<lambda>c. c \<noteq> NL) buf"
    define rest where "rest = tl (dropWhile (\<lambda>c. c \<noteq> NL) buf)"
    have r: "length rest < length buf" unfolding rest_def by (rule after_line_shorter[OF True])
    have u1: "R (u\<lparr>u_toGame := rest\<rparr>) (v\<lparr>u_toGame := rest\<rparr>)" by (rule updates(4)[OF less.prems])
    show ?thesis
    proof (cases "msg = []")
      case m: True
      show ?thesis using True m less.hyps[OF r u1]
        by (simp add: split_messages.simps[of _ buf] Let_def flip: msg_def rest_def)
    next
      case m: False
      have s: "split_messages h buf w = andthen (dispatchMessage h msg (w\<lparr>u_toGame := rest\<rparr>)) (split_messages h rest)"
        for h :: "'c engine_scheme face" and w
        using True m by (simp add: split_messages.simps[of h buf] Let_def andthen_def flip: msg_def rest_def split: prod.split option.split)
      have s': "split_messages h buf w = andthen (dispatchMessage h msg (w\<lparr>u_toGame := rest\<rparr>)) (split_messages h rest)"
        for h :: "'d engine_scheme face" and w
        using True m by (simp add: split_messages.simps[of h buf] Let_def andthen_def flip: msg_def rest_def split: prod.split option.split)
      show ?thesis unfolding s s' by (rule agree_andthen[OF dispatch_agree[OF u1] less.hyps[OF r]])
    qed
  qed
qed

lemma read_agree:
  assumes "R u v"
  shows "agree R (readFromServer f rs u) (readFromServer g rs v)"
proof -
  have s: "agree R (splitIntoMessages f (u\<lparr>u_toGame := u_toGame u @ bs, u_received := u_received u @ bs\<rparr>))
      (splitIntoMessages g (v\<lparr>u_toGame := u_toGame v @ bs, u_received := u_received v @ bs\<rparr>))" for bs
    unfolding splitIntoMessages_def using split_agree[OF updates(6)[OF updates(4)[OF assms]]] by (simp add: same[OF assms])
  have "agree R (andthen (splitIntoMessages f (u\<lparr>u_toGame := u_toGame u @ bs, u_received := u_received u @ bs\<rparr>))
          (\<lambda>u. (None, if u_queue u \<noteq> [] then startSpeaking_of f u else u)))
      (andthen (splitIntoMessages g (v\<lparr>u_toGame := u_toGame v @ bs, u_received := u_received v @ bs\<rparr>))
          (\<lambda>u. (None, if u_queue u \<noteq> [] then startSpeaking_of g u else u)))" for bs
    by (rule agree_andthen[OF s]) (simp add: same speaking)
  then show ?thesis using assms sized_failures(1)
    by (auto simp: readFromServer_def same[OF assms] split: sum.split option.split)
qed

lemma write_agree:
  assumes "R u v"
  shows "agree R (writeToServer f ws u) (writeToServer g ws v)"
proof -
  have fill: "agree R (fill_toServer u) (fill_toServer v)"
    using updates(3)[OF assms] assms by (simp add: fill_toServer_def same[OF assms] split: list.split)
  have "agree R (case writeNonBlock (u_toServer u) ws of Inl e \<Rightarrow> (Some e, u)
        | Inr None \<Rightarrow> fail X_CLIENT_DISCONNECTED [] u
        | Inr (Some n) \<Rightarrow> (None, if n = 0 then u
            else (let u1 = u\<lparr>u_toServer := drop n (u_toServer u), u_sent := u_sent u @ take n (u_toServer u)\<rparr>
                  in if u_toServer u1 = [] then stopSpeaking_of f u1 else u1)))
      (case writeNonBlock (u_toServer v) ws of Inl e \<Rightarrow> (Some e, v)
        | Inr None \<Rightarrow> fail X_CLIENT_DISCONNECTED [] v
        | Inr (Some n) \<Rightarrow> (None, if n = 0 then v
            else (let u1 = v\<lparr>u_toServer := drop n (u_toServer v), u_sent := u_sent v @ take n (u_toServer v)\<rparr>
                  in if u_toServer u1 = [] then stopSpeaking_of g u1 else u1)))" if uv: "R u v" for u v
  proof -
    have w: "R (u\<lparr>u_toServer := r, u_sent := x\<rparr>) (v\<lparr>u_toServer := r, u_sent := x\<rparr>)" for r x
      using updates(5)[OF updates(3)[OF uv]] .
    show ?thesis using uv sized_failures(2)
      by (auto simp: same[OF uv] w speaking Let_def split: sum.split option.split)
  qed
  then show ?thesis using agree_andthen[OF fill] assms by (simp add: writeToServer_def same[OF assms])
qed

lemma command_agree:
  assumes "R u v"
  shows "agree R (UI_handleCommand f s u) (UI_handleCommand g s v)"
proof -
  define form where "form = (u_phase u = P_LOGIN \<or> u_phase u = P_PLAYER_CREATE)"
  have p: "R (if form then pop_front u else u) (if form then pop_front v else v)" using assms pop_agree by simp
  show ?thesis unfolding UI_handleCommand_def Let_def same[OF assms] form_def[symmetric]
    by (rule agree_andthen[OF push_agree[OF p]]) (simp add: same speaking)
qed

end

subsection \<open>The terminal and the Qt windows\<close>

text \<open>The same engine, the same window shown, and both waiting to write or both not; the error window of the CLI
  has a button while it is shown.\<close>

definition error_ready :: "cli \<Rightarrow> bool" where
  "error_ready c \<longleftrightarrow> (u_phase c = P_ERROR \<longrightarrow> ew_action1 (u_error c) \<noteq> None) \<and> (u_lastPhase c = P_ERROR \<longrightarrow> u_phase c = P_ERROR)"

definition shown_phase :: "GamePhase \<Rightarrow> GamePhase option" where
  "shown_phase p = (if p = P_ND then None else Some p)"

definition mirrors :: "cli \<Rightarrow> gui \<Rightarrow> bool" where
  "mirrors c g \<longleftrightarrow> core c = core g \<and> (u_client_events c AND POLLOUT \<noteq> 0) = g_writing g \<and> u_current c = shown_phase (u_phase c)
     \<and> g_current g = shown_phase (u_phase c) \<and> error_ready c \<and> panes_ready (g_game g)"

lemma draw_fits:
  assumes "\<And>p. e_fits env p" and "u_phase u = P_ERROR \<longrightarrow> ew_action1 (u_error u) \<noteq> None"
  shows "\<exists>v. draw_window env (u_phase u) u = (None, v) \<and> core v = core u \<and> u_client_events v = u_client_events u
    \<and> u_current v = u_current u \<and> (ew_action1 (u_error v) = None) = (ew_action1 (u_error u) = None)"
proof -
  have "\<exists>e. draw_error (u_height u) (u_width u) (u_error u) = Inr e \<and> ew_action1 e = ew_action1 (u_error u)" if "u_phase u = P_ERROR"
    using assms(2) that by (auto simp: draw_error_def error_layout_def Let_def)
  then show ?thesis using assms(1) by (cases "u_phase u") (auto simp: draw_window_def Let_def core_fields)
qed

text \<open>The second half of both versions of \<open>switchWindow\<close>, after the base class's.\<close>

lemma shown_mirrors:
  assumes "core c = core g" and "(u_client_events c AND POLLOUT \<noteq> 0) = g_writing g" and "u_phase c \<noteq> P_ND" and "error_ready c"
    and "\<And>p. e_fits env p" and "panes_ready (g_game g)"
  shows "agree mirrors
    (let u1 = (case u_current c of Some p \<Rightarrow> if u_phase c \<noteq> P_ERROR then clear_window p c else c | None \<Rightarrow> c) in
          if u_phase c = P_ND then crash u1 else draw_window env (u_phase c) (u1\<lparr>u_current := Some (u_phase c)\<rparr>))
    (if u_phase g = P_ND then crash g else (None, show_window (u_phase g) (g\<lparr>g_current := Some (u_phase g)\<rparr>)))"
proof -
  define u1 where "u1 = (case u_current c of Some p \<Rightarrow> if u_phase c \<noteq> P_ERROR then clear_window p c else c | None \<Rightarrow> c)"
  define u2 where "u2 = u1\<lparr>u_current := Some (u_phase c)\<rparr>"
  have ev: "u_client_events (clear_window p c) = u_client_events c" for p by (cases p) (simp_all add: clear_window_def)
  have core2: "core u2 = core c" and ev2: "u_client_events u2 = u_client_events c" and "u_phase c = P_ERROR \<longrightarrow> u_error u2 = u_error c"
    by (simp_all add: u2_def u1_def ev split: option.split)
  then have ready: "u_phase u2 = P_ERROR \<longrightarrow> ew_action1 (u_error u2) \<noteq> None" and ph: "u_phase u2 = u_phase c" "u_lastPhase u2 = u_lastPhase c"
    using assms(4) by (auto simp: core_eq_iff error_ready_def)
  obtain v where v: "draw_window env (u_phase u2) u2 = (None, v)" "core v = core u2" "u_client_events v = u_client_events u2"
      "u_current v = u_current u2" "(ew_action1 (u_error v) = None) = (ew_action1 (u_error u2) = None)"
    using draw_fits[where env = env and u = u2, OF assms(5) ready] by (elim exE conjE) (rule that)
  have g: "u_phase g = u_phase c" using assms(1) by (simp add: core_eq_iff)
  have sw: "g_writing (show_window p w) = g_writing w" "g_current (show_window p w) = g_current w"
    "panes_ready (g_game (show_window p w)) = panes_ready (g_game w)" for p w
    by (simp_all add: show_window_def)
  have "u_phase v = u_phase c" "u_lastPhase v = u_lastPhase c" using v(2) ph by (simp_all add: core_eq_iff)
  then have "mirrors v (show_window (u_phase g) (g\<lparr>g_current := Some (u_phase g)\<rparr>))"
    using assms(1-4,6) v(2-5) core2 ev2 ready ph by (simp add: mirrors_def error_ready_def g sw u2_def shown_phase_def)
  then show ?thesis using v(1) assms(3) by (simp add: g ph flip: u1_def u2_def)
qed

lemma mirrors_fields: assumes "mirrors c g"
  shows "u_phase g = u_phase c" "u_lastPhase g = u_lastPhase c" "u_connEstablished g = u_connEstablished c"
    "u_toServer g = u_toServer c" "u_queue g = u_queue c"
  using assms by (auto simp: mirrors_def core_eq_iff)

lemma speaking_mirrors: "mirrors c g \<Longrightarrow> mirrors (startSpeaking c) (startSpeaking_gui g)" "mirrors c g \<Longrightarrow> mirrors (stopSpeaking c) (stopSpeaking_gui g)"
  by (auto simp: mirrors_def error_ready_def core_fields pollout_bits pollout_nonzero startSpeaking_def stopSpeaking_def
      startSpeaking_gui_def stopSpeaking_gui_def split: if_splits)

definition target :: "GamePhase option \<Rightarrow> cli \<Rightarrow> GamePhase" where
  "target p c = (case p of None \<Rightarrow> u_lastPhase c | Some q \<Rightarrow> q)"

lemma updatePhase_target:
  assumes "\<not> (p = None \<and> u_lastPhase u = P_ND)" and "q = (case p of None \<Rightarrow> u_lastPhase u | Some q \<Rightarrow> q)"
    and "u_connEstablished u \<or> q = P_LOGIN \<or> q = P_ERROR"
  shows "updatePhase f p u = (None, (let u1 = (if q = P_ERROR then u\<lparr>u_lastPhase := u_phase u\<rparr>
              else if u_phase u \<noteq> P_ERROR then u\<lparr>u_lastPhase := P_ND\<rparr> else u)
      in if q = P_ERROR then stopSpeaking_of f u1 else if u_toServer u1 \<noteq> [] then startSpeaking_of f u1 else u1)\<lparr>u_phase := q\<rparr>)"
  using assms by (auto simp: updatePhase_def Let_def)

lemma update_mirrors:
  assumes "mirrors c g" and "p = None \<or> u_phase c \<noteq> P_ERROR \<and> p \<noteq> Some P_ERROR \<and> p \<noteq> Some P_ND \<or> p = Some P_ERROR \<and> ew_action1 (u_error c) \<noteq> None"
  shows "(\<exists>x. updatePhase (cli_face env) p c = (Some x, c) \<and> updatePhase (gui_face env') p g = (Some x, g) \<and> sized (Some x) \<and> p \<noteq> Some P_ERROR) \<or>
    (\<exists>c1 g1. updatePhase (cli_face env) p c = (None, c1) \<and> updatePhase (gui_face env') p g = (None, g1) \<and> core c1 = core g1
      \<and> (u_client_events c1 AND POLLOUT \<noteq> 0) = g_writing g1 \<and> u_phase c1 \<noteq> P_ND \<and> error_ready c1 \<and> panes_ready (g_game g1))"
proof (cases "(p = None \<and> u_lastPhase c = P_ND) \<or> (\<not> u_connEstablished c \<and> target p c \<noteq> P_LOGIN \<and> target p c \<noteq> P_ERROR)")
  case True
  then show ?thesis
  proof (elim disjE conjE)
    assume "p = None" "u_lastPhase c = P_ND"
    then show ?thesis using mirrors_fields(2)[OF assms(1)] by (simp add: updatePhase_def crash_def)
  next
    assume q: "\<not> u_connEstablished c" "target p c \<noteq> P_LOGIN" "target p c \<noteq> P_ERROR"
    show ?thesis
    proof (cases p)
      case None
      then show ?thesis using q mirrors_fields(2,3)[OF assms(1)]
        by (cases "u_lastPhase c = P_ND") (simp_all add: updatePhase_def fail_def crash_def target_def)
    next
      case (Some r)
      then show ?thesis using q mirrors_fields(3)[OF assms(1)] by (simp add: updatePhase_def fail_def target_def)
    qed
  qed
next
  case False
  note m = mirrors_fields[OF assms(1)]
  define q where "q = target p c"
  have n: "\<not> (p = None \<and> u_lastPhase c = P_ND)" "q = (case p of None \<Rightarrow> u_lastPhase c | Some q \<Rightarrow> q)"
      "u_connEstablished c \<or> q = P_LOGIN \<or> q = P_ERROR" using False by (auto simp: q_def target_def)
  have cg: "core c = core g" "(u_client_events c AND POLLOUT \<noteq> 0) = g_writing g" "error_ready c" "panes_ready (g_game g)"
    using assms(1) by (simp_all add: mirrors_def)
  define c1 where "c1 = (let u1 = (if q = P_ERROR then c\<lparr>u_lastPhase := u_phase c\<rparr>
              else if u_phase c \<noteq> P_ERROR then c\<lparr>u_lastPhase := P_ND\<rparr> else c)
      in if q = P_ERROR then stopSpeaking u1 else if u_toServer u1 \<noteq> [] then startSpeaking u1 else u1)\<lparr>u_phase := q\<rparr>"
  define g1 where "g1 = (let u1 = (if q = P_ERROR then g\<lparr>u_lastPhase := u_phase g\<rparr>
              else if u_phase g \<noteq> P_ERROR then g\<lparr>u_lastPhase := P_ND\<rparr> else g)
      in if q = P_ERROR then stopSpeaking_gui u1 else if u_toServer u1 \<noteq> [] then startSpeaking_gui u1 else u1)\<lparr>u_phase := q\<rparr>"
  have ng: "\<not> (p = None \<and> u_lastPhase g = P_ND)" "q = (case p of None \<Rightarrow> u_lastPhase g | Some q \<Rightarrow> q)"
      "u_connEstablished g \<or> q = P_LOGIN \<or> q = P_ERROR"
    unfolding m(2,3) by (fact n)+
  have u: "updatePhase (cli_face env) p c = (None, c1)" "updatePhase (gui_face env') p g = (None, g1)"
    using updatePhase_target[OF n, of "cli_face env"] updatePhase_target[OF ng, of "gui_face env'"]
    unfolding c1_def g1_def cli_face_sel gui_face_sel .
  have co: "core c1 = core g1"
    using cg(1) by (simp add: c1_def g1_def Let_def startSpeaking_def stopSpeaking_def startSpeaking_gui_def stopSpeaking_gui_def m)
  have sp: "(u_client_events c1 AND POLLOUT \<noteq> 0) = g_writing g1"
    using cg(2) by (simp add: c1_def g1_def Let_def startSpeaking_def stopSpeaking_def startSpeaking_gui_def stopSpeaking_gui_def m pollout_bits pollout_nonzero)
  have "q \<noteq> P_ND" using assms(2) n(1) by (cases p) (auto simp: n(2))
  moreover have "error_ready c1"
  proof -
    have ph: "u_phase c1 = q" "u_error c1 = u_error c"
      "u_lastPhase c1 = (if q = P_ERROR then u_phase c else if u_phase c \<noteq> P_ERROR then P_ND else u_lastPhase c)"
      by (simp_all add: c1_def Let_def startSpeaking_def stopSpeaking_def)
    show ?thesis using assms(2) cg(3) n(2) unfolding error_ready_def ph by (cases p) auto
  qed
  moreover have "panes_ready (g_game g1)"
    using cg(4) by (simp add: g1_def Let_def startSpeaking_gui_def stopSpeaking_gui_def)
  moreover have "u_phase c1 = q" by (simp add: c1_def)
  ultimately show ?thesis using u co sp by blast
qed

lemma switch_mirrors:
  assumes "mirrors c g" and "p = None \<or> u_phase c \<noteq> P_ERROR \<and> p \<noteq> Some P_ERROR \<and> p \<noteq> Some P_ND \<or> p = Some P_ERROR \<and> ew_action1 (u_error c) \<noteq> None"
    and "\<And>p. e_fits env p"
  shows "agree mirrors (switchWindow env p c) (switchWindow_gui p g)"
proof -
  have fin: "agree mirrors (switchWindow env p c) (switchWindow_gui p g)"
    if u: "updatePhase (cli_face env) p c = (None, c1)" "updatePhase (gui_face env') p g = (None, g1)" and core: "core c1 = core g1"
      and r: "(u_client_events c1 AND POLLOUT \<noteq> 0) = g_writing g1" "u_phase c1 \<noteq> P_ND" "error_ready c1" "panes_ready (g_game g1)" for c1 g1 env'
  proof -
    have ph: "u_phase g1 = u_phase c1" "u_queue g1 = u_queue c1" using core by (simp_all add: core_eq_iff)
    define c2 where "c2 = (if u_phase c1 = P_GAME then c1\<lparr>u_queue := u_queue c1 @ [profile_message]\<rparr> else c1)"
    define g2 where "g2 = (if u_phase c1 = P_GAME then g1\<lparr>u_queue := u_queue g1 @ [profile_message]\<rparr> else g1)"
    have "UI_switchWindow (cli_face env) p c = (None, c2)" "UI_switchWindow (gui_face env') p g = (None, g2)"
      by (simp_all add: UI_switchWindow_def u andthen_def step_when_def push_fixed(2) ph c2_def g2_def)
    moreover have "core c2 = core g2" "(u_client_events c2 AND POLLOUT \<noteq> 0) = g_writing g2" "u_phase c2 \<noteq> P_ND" "error_ready c2" "panes_ready (g_game g2)"
      using core r by (auto simp: c2_def g2_def ph error_ready_def)
    ultimately show ?thesis using shown_mirrors[of c2 g2 env] assms(3)
      unfolding switchWindow_def cli_base(1)[of env] switchWindow_gui_def gui_base(1)[of env'] by (simp add: andthen_def)
  qed
  fix env' :: gui_env
  show ?thesis
    using update_mirrors[OF assms(1,2), of env env']
  proof (elim disjE exE conjE)
    fix x assume "updatePhase (cli_face env) p c = (Some x, c)" "updatePhase (gui_face env') p g = (Some x, g)" "sized (Some x)"
    then show ?thesis using assms(1)
      unfolding switchWindow_def cli_base(1)[of env] switchWindow_gui_def gui_base(1)[of env'] by (simp add: UI_switchWindow_def andthen_def)
  qed (rule fin)
qed

text \<open>A terminal in which every window can be drawn.\<close>

definition roomy :: "env \<Rightarrow> env" where
  "roomy env = env\<lparr>e_fits := (\<lambda>_. True)\<rparr>"

lemma roomy_fits [simp]: "e_fits (roomy env) p"
  by (simp add: roomy_def)

lemma more_fields_cli:
  "engine.more u' = engine.more u \<Longrightarrow> u_client_events u' = u_client_events u \<and> u_error u' = u_error u \<and> u_current u' = u_current u"
  by (cases u'; cases u) simp

lemma more_fields_gui: "engine.more v' = engine.more v \<Longrightarrow> g_writing v' = g_writing v \<and> g_current v' = g_current v \<and> g_game v' = g_game v"
  by (cases v'; cases v) simp

interpretation turning: switching "cli_face (roomy env)" "gui_face env'" mirrors for env env'
proof unfold_locales
  fix u v u' v' assume "mirrors u v" "core u' = core v'" "u_phase u' = u_phase u" "u_lastPhase u' = u_lastPhase u"
    "engine.more u' = engine.more u" "engine.more v' = engine.more v"
  then show "mirrors u' v'" using more_fields_cli[of u' u] more_fields_gui[of v' v] by (simp add: mirrors_def error_ready_def)
next
  fix u v p assume "mirrors u v" "p = None \<or> u_phase u \<noteq> P_ERROR \<and> p \<noteq> Some P_ERROR \<and> p \<noteq> Some P_ND"
  then show "agree mirrors (switchWindow_of (cli_face (roomy env)) p u) (switchWindow_of (gui_face env') p v)"
    using switch_mirrors[of u v p "roomy env"] by auto
qed (simp_all add: speaking_mirrors, simp_all add: mirrors_def)

lemma andthen_same: "andthen r (\<lambda>u. (None, u)) = r"
  by (cases r; cases "fst r") (auto simp: andthen_def)

lemma mirrors_windows: assumes "mirrors u v"
  shows "mirrors (u\<lparr>u_stdin := b\<rparr>) v" "mirrors (u\<lparr>u_game := g\<rparr>) v" "panes_ready h = panes_ready (g_game v) \<Longrightarrow> mirrors u (v\<lparr>g_game := h\<rparr>)" "mirrors (u\<lparr>u_keepAlive := b\<rparr>) v"
    "mirrors u (v\<lparr>g_running := b\<rparr>)" "mirrors (u\<lparr>u_info := i\<rparr>) (v\<lparr>u_info := i\<rparr>)" "mirrors (u\<lparr>u_worker := b\<rparr>) (v\<lparr>u_worker := b\<rparr>)"
    "mirrors (u\<lparr>u_pipe := x\<rparr>) v"
  using assms by (simp_all add: mirrors_def error_ready_def)

lemma put_agree:
  assumes "mirrors u v" and "r = Inl Crash \<and> s = Inl Crash \<or> (\<exists>x y. r = Inr x \<and> s = Inr y \<and> panes_ready y = panes_ready (g_game v))"
  shows "agree mirrors (put_game r u) (put_game_gui s v)"
  using assms by (auto simp: put_game_def put_game_gui_def mirrors_windows)

interpretation both: simulation "cli_face (roomy env)" "gui_face env'" mirrors for env env'
proof unfold_locales
  fix u v assume uv: "mirrors u v"
  show "agree mirrors (shakeHands_of (cli_face (roomy env)) u) (shakeHands_of (gui_face env') v)"
    unfolding cli_face_sel gui_face_sel shakeHands_def cli_base(2)[of "roomy env"] gui_base(2)[of env']
    by (subst andthen_same[symmetric], rule agree_andthen[OF turning.UI_shakeHands_agree[OF uv]]) (simp add: mirrors_windows)
  show "mirrors (stop_of (cli_face (roomy env)) u) (stop_of (gui_face env') v)"
    using uv by (simp add: stop_def stop_gui_def UI_stop_def mirrors_windows)
  fix m
  show "agree mirrors (showEvent_of (cli_face (roomy env)) m u) (showEvent_of (gui_face env') m v)"
    using uv by (auto simp: showEvent_def showEvent_gui_def appendEvent_def appendEvent_qt_def toStringEvent_def
        intro!: agree_noexcept put_agree split: option.split)
  show "agree mirrors (showError_of (cli_face (roomy env)) m u) (showError_of (gui_face env') m v)"
    using uv by (auto simp: showError_def showError_gui_def appendError_def appendError_qt_def toStringError_def turning.front_same
        intro!: agree_noexcept put_agree split: option.split)
  have resp: "appendResponse (e_fmt (roomy env)) (e_now (roomy env)) m c a = Inl Crash \<and> appendResponse_qt (v_fmt env') (v_now env') m c b = Inl Crash
      \<or> (\<exists>x y. appendResponse (e_fmt (roomy env)) (e_now (roomy env)) m c a = Inr x \<and> appendResponse_qt (v_fmt env') (v_now env') m c b = Inr y \<and> panes_ready y = panes_ready b)" for c a b
    by (simp add: appendResponse_def appendResponse_qt_def Let_def split: option.split)
  show "agree mirrors (showResponse_of (cli_face (roomy env)) m u) (showResponse_of (gui_face env') m v)"
  proof (cases "front_command u")
    case None
    then show ?thesis using uv by (auto simp: showResponse_def showResponse_gui_def turning.front_same[OF uv] intro!: agree_noexcept)
  next
    case (Some c)
    have info: "u_info v = u_info u" using uv by (rule turning.same)
    define u1 where "u1 = track_info m c u"
    define v1 where "v1 = (case tracked_info m c (u_info v) of None \<Rightarrow> v
           | Some i \<Rightarrow> v\<lparr>u_info := i, g_game := updatePlayerPanel_qt i (g_game v)\<rparr>)"
    have "mirrors u1 v1" using uv by (simp add: u1_def v1_def track_info_def info mirrors_windows split: option.split)
    then have "agree mirrors (if c = C_PROFILE then (None, u1) else put_game (appendResponse (e_fmt (roomy env)) (e_now (roomy env)) m c (u_game u1)) u1)
        (if c = C_PROFILE then (None, v1) else put_game_gui (appendResponse_qt (v_fmt env') (v_now env') m c (g_game v1)) v1)"
      using resp by (simp add: put_agree)
    then show ?thesis using Some unfolding cli_face_sel gui_face_sel showResponse_def showResponse_gui_def turning.front_same[OF uv]
      by (simp add: Let_def agree_noexcept flip: u1_def v1_def)
  qed
qed

subsection \<open>Errors\<close>

lemma adapt_action: "ew_action1 (adaptWinToError e w) \<noteq> None"
  by (cases "err_code e") (simp_all add: adaptWinToError_def setAction1_def setAction2_def Let_def split: option.split)

lemma error_window_opens: "fst (switchWindow_gui (Some P_ERROR) g) = None"
  by (simp add: switchWindow_gui_def UI_switchWindow_def updatePhase_def andthen_def step_when_def gui_speaker_def stopSpeaking_gui_def)

lemma exception_mirrors:
  assumes "mirrors c g" and "err_code e \<noteq> X_UI_INVALID_SIZE"
  shows "agree mirrors (handleException (roomy env) e c) (handleException_gui env' e g)"
proof -
  define shown where "shown = (if u_phase c = P_ERROR then \<lparr>err_code = X_UI_DOUBLE_ERROR, err_info = mapError e\<rparr> else e)"
  define c1 where "c1 = c\<lparr>u_error := adaptWinToError shown (u_error c)\<rparr>"
  define g1 where "g1 = g\<lparr>g_error := adaptWinToError_qt shown (g_error g)\<rparr>"
  have m: "mirrors c1 g1" using assms(1) adapt_action[of shown "u_error c"] by (simp add: c1_def g1_def mirrors_def error_ready_def)
  have act: "ew_action1 (u_error c1) \<noteq> None" using adapt_action by (simp add: c1_def)
  have sw: "agree mirrors (switchWindow (roomy env) (Some P_ERROR) u) (switchWindow_gui (Some P_ERROR) v)"
    if "mirrors u v" "u_error u = u_error c1" for u v
    using switch_mirrors[OF that(1), of "Some P_ERROR" "roomy env"] act by (simp add: that(2))
  have closed: "mirrors (c1\<lparr>u_toGame := [], u_toServer := [], u_queue := q, u_connEstablished := False\<rparr>)
      (g1\<lparr>u_toGame := [], u_toServer := [], u_queue := q, u_connEstablished := False\<rparr>)" for q
    using turning.updates(2)[OF turning.updates(1)[OF turning.updates(3)[OF turning.updates(4)[OF m]]]] .
  have "agree mirrors (UI_handleException (cli_face (roomy env)) e c1) (UI_handleException (gui_face env') e g1)
      \<and> fst (UI_handleException (gui_face env') e g1) = None"
    using sw[OF closed[of "[wait_message]"]] sw[OF m]
    by (simp add: UI_handleException_def push_fixed andthen_def error_window_opens)
  then have r: "agree mirrors (UI_handleException (cli_face (roomy env)) e c1) (noexcept (UI_handleException (gui_face env') e g1))"
    by (cases "UI_handleException (gui_face env') e g1") (simp add: noexcept_def)
  have ph: "u_phase g = u_phase c" by (rule mirrors_fields(1)[OF assms(1)])
  show ?thesis using r assms(2) unfolding handleException_def handleException_gui_def Let_def ph
    by (simp add: shown_def c1_def g1_def)
qed

lemma agree_catch:
  assumes "agree mirrors r s"
  shows "agree mirrors (catch_app r (handleException (roomy env))) (catch_app s (handleException_gui env'))"
proof -
  obtain x u v where r: "r = (x, u)" "s = (x, v)" and uv: "mirrors u v" "sized x"
    using assms by (cases r; cases s) (auto simp: agree_def)
  show ?thesis
  proof (cases x)
    case None
    then show ?thesis using uv by (simp add: r catch_app_def)
  next
    case (Some f)
    then show ?thesis using uv exception_mirrors[OF uv(1), of _ env env'] by (cases f) (simp_all add: r catch_app_def)
  qed
qed

subsection \<open>Traffic\<close>

text \<open>What can happen to the socket pair of either client, a command one of its panes has accepted, and a user
  name that makes a command.\<close>

datatype traffic = Arrived "recv_out list" | Writable "send_out list" | Accepted_command which_tab string | Accepted_name string

definition idle_input :: "env \<Rightarrow> cli_input" where
  "idle_input env = \<lparr>c_env = env, c_poll = Ready 1, c_client = 0, c_cmd = False, c_resize = False, c_stdin = False,
     c_reads = [], c_sends = [], c_error = NoSockError, c_size = None, c_write = SWouldBlock, c_key = 0\<rparr>"

definition pane_hints :: "which_tab \<Rightarrow> string list" where
  "pane_hints tab = (case tab of CmdTab \<Rightarrow> CMD_HINTS | ChatTab \<Rightarrow> CHAT_CMD_HINTS)"

text \<open>A command fits the pipe and the pane takes it: only then the CLI writes it to the pipe.\<close>

definition acceptable :: "which_tab \<Rightarrow> string \<Rightarrow> bool" where
  "acceptable tab s \<longleftrightarrow> length s \<le> CMD_BUFFER_SIZE \<and> CHR 0x00 \<notin> set s \<and> goodCommand (pane_hints tab) s = Inr True"

definition acceptable_name :: "GamePhase \<Rightarrow> string \<Rightarrow> bool" where
  "acceptable_name p s \<longleftrightarrow> s \<noteq> [] \<and> length s \<le> CMD_BUFFER_SIZE
     \<and> (case Message (command_name (if p = P_LOGIN then C_CONNECT else C_CREATE_PLAYER) @ '' '' @ s) of Inl _ \<Rightarrow> False | Inr _ \<Rightarrow> True)"

text \<open>One turn of the terminal's loop, and one event of the Qt loop.\<close>

definition cli_traffic :: "env \<Rightarrow> traffic \<Rightarrow> cli \<Rightarrow> cli step option" where
  "cli_traffic env t c = (case t of
     Arrived rs \<Rightarrow> turn ((idle_input env)\<lparr>c_client := POLLIN, c_reads := rs\<rparr>) c
   | Writable ws \<Rightarrow> if u_client_events c AND POLLOUT \<noteq> 0
       then turn ((idle_input env)\<lparr>c_client := POLLOUT, c_sends := ws\<rparr>) c else Some (None, c)
   | Accepted_command tab s \<Rightarrow> if u_current c = Some P_GAME \<and> acceptable tab s
       then turn ((idle_input env)\<lparr>c_cmd := True\<rparr>) (c\<lparr>u_pipe := s\<rparr>) else Some (None, c)
   | Accepted_name s \<Rightarrow> if (u_current c = Some P_LOGIN \<or> u_current c = Some P_PLAYER_CREATE) \<and> acceptable_name (u_phase c) s
       then turn ((idle_input env)\<lparr>c_cmd := True\<rparr>) (c\<lparr>u_pipe := s\<rparr>) else Some (None, c))"

definition gui_traffic :: "gui_env \<Rightarrow> traffic \<Rightarrow> gui \<Rightarrow> gui step" where
  "gui_traffic env t g = (case t of
     Arrived rs \<Rightarrow> gui_step env (ReadReady rs) g
   | Writable ws \<Rightarrow> gui_step env (WriteReady ws) g
   | Accepted_command tab s \<Rightarrow> if acceptable tab s then gui_step env (CommandSubmitted tab s) g else (None, g)
   | Accepted_name s \<Rightarrow> if acceptable_name (u_phase g) s then gui_step env (UsernameEntered s) g else (None, g))"

lemma poll_masks: "POLLIN \<noteq> 0" "POLLOUT AND POLLIN = 0" "POLLIN AND error_bits = 0" "POLLOUT AND error_bits = 0"
  by (simp_all add: poll_bits error_bits_def)

lemma turn_reads: "turn ((idle_input env)\<lparr>c_client := POLLIN, c_reads := rs\<rparr>) c
    = Some (catch_app (readFromServer (cli_face env) rs c) (handleException env))"
  by (cases "readFromServer (cli_face env) rs c"; cases "fst (readFromServer (cli_face env) rs c)"; cases "the (fst (readFromServer (cli_face env) rs c))")
    (simp_all add: turn_def turn_body_def turn_io_def idle_input_def poll_def poll_masks pollout_bits andthen_def step_when_def catch_app_def)

lemma turn_writes: "turn ((idle_input env)\<lparr>c_client := POLLOUT, c_sends := ws\<rparr>) c
    = Some (catch_app (writeToServer (cli_face env) ws c) (handleException env))"
  by (cases "writeToServer (cli_face env) ws c"; cases "fst (writeToServer (cli_face env) ws c)"; cases "the (fst (writeToServer (cli_face env) ws c))")
    (simp_all add: turn_def turn_body_def turn_io_def idle_input_def poll_def poll_masks pollout_nonzero andthen_def step_when_def catch_app_def)

lemma turn_commands: "turn ((idle_input env)\<lparr>c_cmd := True\<rparr>) c = Some (catch_app (handleCommand env c) (handleException env))"
  by (cases "handleCommand env c"; cases "fst (handleCommand env c)"; cases "the (fst (handleCommand env c))")
    (simp_all add: turn_def turn_body_def turn_io_def idle_input_def poll_def andthen_def step_when_def catch_app_def)

lemma goodCommand_testParse: "goodCommand hints s = Inr True \<Longrightarrow> \<exists>m c. Message s = Inr m \<and> getCommandType m = Some c \<and> command_name c \<in> set hints"
  by (auto simp: goodCommand_def split: sum.splits failure.splits if_splits option.splits)

lemma submit_good:
  assumes "takes p = (True, hints)" and "input \<noteq> []" and "goodCommand hints input = Inr True" and "CHR 0x00 \<notin> set input"
  shows "submitCommand now input p = Inr (appendInput now input (Some QT_WHITE_COLOR) True p, Some input)"
proof -
  have t: "takes (appendInput now input (Some QT_WHITE_COLOR) True p) = (True, hints)" using assms(1) by simp
  obtain m c where m: "Message input = Inr m" "getCommandType m = Some c" "command_name c \<in> set hints"
    using goodCommand_testParse[OF assms(3)] by blast
  show ?thesis using t m assms(2) by (simp add: submitCommand_def testParse_def takes_def Let_def c_str_id[OF assms(4)])
qed

text \<open>A form's text is read in the login and character windows; there the parsed command has an argument.\<close>

lemma command_mirrors:
  assumes "mirrors c g" and "u_phase c = P_GAME" and "acceptable tab s"
  shows "agree mirrors (catch_app (handleCommand (roomy env) (c\<lparr>u_pipe := s\<rparr>)) (handleException (roomy env))) (command_submitted env' tab s g)"
proof -
  have s: "s \<noteq> []" "length s \<le> CMD_BUFFER_SIZE" "CHR 0x00 \<notin> set s" "goodCommand (pane_hints tab) s = Inr True"
    using assms(3) by (auto simp: acceptable_def goodCommand_def Message_def)
  have p: "takes (panel_of tab (g_game g)) = (True, pane_hints tab)"
    using assms(1) by (simp add: mirrors_def panes_ready_def panel_of_def pane_hints_def split: which_tab.split)
  obtain m where m: "Message s = Inr m" using goodCommand_testParse[OF s(4)] by blast
  define g1 where "g1 = g\<lparr>g_game := on_panel tab (\<lambda>_. appendInput (v_now env') s (Some QT_WHITE_COLOR) True (panel_of tab (g_game g))) (g_game g)\<rparr>"
  have same: "panes_ready (on_panel tab (\<lambda>_. appendInput (v_now env') s (Some QT_WHITE_COLOR) True (panel_of tab (g_game g))) (g_game g)) = panes_ready (g_game g)"
    by (simp add: panes_ready_def on_panel_def panel_of_def split: which_tab.split)
  have m1: "mirrors (c\<lparr>u_pipe := []\<rparr>) g1" unfolding g1_def
    by (rule mirrors_windows(3)[OF mirrors_windows(8)[OF assms(1)] same])
  have a: "agree mirrors (UI_handleCommand (cli_face (roomy env)) s (c\<lparr>u_pipe := []\<rparr>)) (UI_handleCommand (gui_face env') s g1)"
    by (rule both.command_agree[OF m1])
  have n: "fst (UI_handleCommand (cli_face (roomy env)) s (c\<lparr>u_pipe := []\<rparr>)) = None"
    using assms(2) by (simp add: UI_handleCommand_def push_command_def m andthen_def Let_def)
  have c: "handleCommand (roomy env) (c\<lparr>u_pipe := s\<rparr>) = UI_handleCommand (cli_face (roomy env)) s (c\<lparr>u_pipe := []\<rparr>)"
    using s(1,2) by (simp add: handleCommand_def)
  have d: "command_submitted env' tab s g = catch_app (UI_handleCommand (gui_face env') s g1)
           (\<lambda>_ u2. (None, u2\<lparr>g_game := on_panel tab (submit_rejected (v_now env')) (g_game u2)\<rparr>))"
    by (simp add: command_submitted_def submit_good[OF p s(1,4,3)] g1_def Let_def)
  show ?thesis unfolding c d using a n
    by (cases "UI_handleCommand (cli_face (roomy env)) s (c\<lparr>u_pipe := []\<rparr>)"; cases "UI_handleCommand (gui_face env') s g1")
      (simp add: agree_def catch_app_def)
qed

lemma name_mirrors:
  assumes "mirrors c g" and "u_phase c = P_LOGIN \<or> u_phase c = P_PLAYER_CREATE" and "acceptable_name (u_phase c) s"
  shows "agree mirrors (catch_app (handleCommand (roomy env) (c\<lparr>u_pipe := s\<rparr>)) (handleException (roomy env))) (username_entered env' s g)"
proof -
  have a: "agree mirrors (UI_handleCommand (cli_face (roomy env)) s (c\<lparr>u_pipe := []\<rparr>)) (UI_handleCommand (gui_face env') s g)"
    by (rule both.command_agree[OF mirrors_windows(8)[OF assms(1)]])
  have n: "fst (UI_handleCommand (cli_face (roomy env)) s (c\<lparr>u_pipe := []\<rparr>)) = None"
    using assms(2,3) by (auto simp: UI_handleCommand_def push_command_def andthen_def Let_def acceptable_name_def split: sum.splits)
  have "handleCommand (roomy env) (c\<lparr>u_pipe := s\<rparr>) = UI_handleCommand (cli_face (roomy env)) s (c\<lparr>u_pipe := []\<rparr>)"
    using assms(3) by (simp add: handleCommand_def acceptable_name_def)
  then show ?thesis using a n assms(3)
    by (cases "UI_handleCommand (cli_face (roomy env)) s (c\<lparr>u_pipe := []\<rparr>)") (simp add: username_entered_def acceptable_name_def catch_app_def)
qed

lemma traffic_agrees:
  assumes "mirrors c g"
  shows "\<exists>r. cli_traffic (roomy env) t c = Some r \<and> agree mirrors r (gui_traffic env' t g)"
proof (cases t)
  case (Arrived rs)
  have "agree mirrors (catch_app (readFromServer (cli_face (roomy env)) rs c) (handleException (roomy env)))
      (catch_app (readFromServer (gui_face env') rs g) (handleException_gui env'))"
    by (rule agree_catch[OF both.read_agree[OF assms]])
  then show ?thesis by (simp add: Arrived cli_traffic_def gui_traffic_def turn_reads gui_step_def readFromServer_gui_def del: split_paired_Ex)
next
  case (Writable ws)
  have w: "g_writing g = (u_client_events c AND POLLOUT \<noteq> 0)" using assms by (simp add: mirrors_def)
  have "agree mirrors (catch_app (writeToServer (cli_face (roomy env)) ws c) (handleException (roomy env)))
      (catch_app (writeToServer (gui_face env') ws g) (handleException_gui env'))"
    by (rule agree_catch[OF both.write_agree[OF assms]])
  then show ?thesis using assms
    by (simp add: Writable cli_traffic_def gui_traffic_def turn_writes gui_step_def writeToServer_gui_def step_when_def w
        del: split_paired_Ex)
next
  case (Accepted_command tab s)
  have cur: "u_current c = Some P_GAME \<longleftrightarrow> u_phase c = P_GAME" "g_current g = Some P_GAME \<longleftrightarrow> u_phase c = P_GAME"
    using assms by (simp_all add: mirrors_def shown_phase_def)
  show ?thesis using Accepted_command assms command_mirrors[OF assms, of tab s env env']
    by (simp add: cli_traffic_def gui_traffic_def turn_commands gui_step_def step_when_def cur del: split_paired_Ex)
next
  case (Accepted_name s)
  have cur: "u_current c = Some P_LOGIN \<longleftrightarrow> u_phase c = P_LOGIN" "g_current g = Some P_LOGIN \<longleftrightarrow> u_phase c = P_LOGIN"
    "u_current c = Some P_PLAYER_CREATE \<longleftrightarrow> u_phase c = P_PLAYER_CREATE" "g_current g = Some P_PLAYER_CREATE \<longleftrightarrow> u_phase c = P_PLAYER_CREATE"
    "u_phase g = u_phase c"
    using assms by (auto simp: mirrors_def shown_phase_def core_eq_iff)
  show ?thesis using Accepted_name assms name_mirrors[OF assms, of s env env']
    by (simp add: cli_traffic_def gui_traffic_def turn_commands gui_step_def step_when_def cur del: split_paired_Ex)
qed

text \<open>A run of each client over the same traffic, up to the first failure.\<close>

fun cli_run :: "env \<Rightarrow> traffic list \<Rightarrow> cli \<Rightarrow> cli step option" where
  "cli_run env [] c = Some (None, c)"
| "cli_run env (t # ts) c = (case cli_traffic env t c of
     None \<Rightarrow> None | Some (Some f, c1) \<Rightarrow> Some (Some f, c1) | Some (None, c1) \<Rightarrow> cli_run env ts c1)"

fun gui_run :: "gui_env \<Rightarrow> traffic list \<Rightarrow> gui \<Rightarrow> gui step" where
  "gui_run env [] g = (None, g)"
| "gui_run env (t # ts) g = andthen (gui_traffic env t g) (gui_run env ts)"

lemma runs_agree: "mirrors c g \<Longrightarrow> \<exists>r. cli_run (roomy env) ts c = Some r \<and> agree mirrors r (gui_run env' ts g)"
proof (induction ts arbitrary: c g)
  case (Cons t ts)
  obtain x c1 g1 where r: "cli_traffic (roomy env) t c = Some (x, c1)" "gui_traffic env' t g = (x, g1)" "mirrors c1 g1" "sized x"
    using traffic_agrees[OF Cons.prems, of env t env'] by (cases "gui_traffic env' t g") (auto simp: agree_def)
  show ?case using r Cons.IH[OF r(3)] by (cases x) (simp_all add: andthen_def)
qed simp

text \<open>Both clients right after their start.\<close>

definition started_cli :: "int \<Rightarrow> int \<Rightarrow> cli" where
  "started_cli rows cols = (snd (UI_start (new_cli rows cols)))\<lparr>u_keepAlive := True\<rparr>"

definition started_gui :: gui where
  "started_gui = (snd (UI_start new_gui))\<lparr>g_running := True\<rparr>"

lemma started_mirrors: "mirrors (started_cli rows cols) started_gui"
  by (simp add: mirrors_def error_ready_def core_fields started_cli_def started_gui_def UI_start_def push_fixed new_cli_def new_gui_def
      shown_phase_def new_panes_ready pollout_bits)

end
