(* ===== verification/GuiSpec.thy ===== *)
theory GuiSpec
  imports Agreement
begin


text \<open>C10: The terminal and the Qt interface are the same client: after the same start and the same traffic (bytes
  received, writes accepted, accepted user names and commands, and every error of these), in a terminal
  where the windows fit, both are in the same state of the engine, so have sent the same bytes, both show
  the same window, and if one fails the other fails in the same way.\<close>

theorem interfaces_agree:
  "\<exists>x c g. cli_run (roomy env) ts (started_cli rows cols) = Some (x, c) \<and> gui_run env' ts started_gui = (x, g)
     \<and> core c = core g \<and> u_current c = g_current g \<and> (u_client_events c AND POLLOUT \<noteq> 0) = g_writing g"
  using runs_agree[OF started_mirrors, of env ts rows cols env']
  by (cases "gui_run env' ts started_gui") (auto simp: agree_def mirrors_def)













subsection \<open>A command on its way\<close>

text \<open>A command entered while nothing else waits is sent as one line; \<open>command_answer\<close>: when its answer arrives,
  the turn does what dispatching the line does.\<close>

lemma command_sent:
  assumes u: "u_connEstablished u" "u_phase u = P_GAME" "u_current u = Some P_GAME" "u_queue u = []" "u_toServer u = []"
    and s: "acceptable tab s" "Message s = Inr m" "m_raw m = s"
  shows "\<exists>c1 c2. cli_traffic env (Accepted_command tab s) u = Some (None, c1) \<and>
    cli_traffic env (Writable [Accepted (length s + 1)]) c1 = Some (None, c2) \<and>
    u_sent c2 = u_sent u @ s @ [NL] \<and> u_queue c2 = m # [] \<and> u_phase c2 = P_GAME \<and> u_toGame c2 = u_toGame u \<and> u_game c2 = u_game u"
proof -
  have l: "s \<noteq> []" "length s \<le> 128" using s(1,2) by (auto simp: acceptable_def CMD_BUFFER_SIZE_def Message_def)
  define c1 where "c1 = startSpeaking (u\<lparr>u_pipe := [], u_queue := [m]\<rparr>)"
  define c2 where "c2 = stopSpeaking (c1\<lparr>u_toServer := [], u_sent := u_sent u @ s @ [NL]\<rparr>)"
  have h: "handleCommand env (u\<lparr>u_pipe := s\<rparr>) = (None, c1)"
    using u(2,4) l s(2) by (simp add: handleCommand_def CMD_BUFFER_SIZE_def UI_handleCommand_def push_command_def andthen_def c1_def Let_def)
  have t1: "cli_traffic env (Accepted_command tab s) u = Some (None, c1)"
    using u(3) s(1) h by (simp add: cli_traffic_def turn_commands catch_app_def)
  have p: "u_client_events c1 AND POLLOUT \<noteq> 0" by (simp add: c1_def startSpeaking_def pollout_bits pollout_nonzero)
  have w: "writeToServer (cli_face env) [Accepted (length s + 1)] c1 = (None, c2)"
    using u(1,5) l s(3) by (simp add: writeToServer_def fill_toServer_def c1_def c2_def startSpeaking_def andthen_def writeNonBlock_def
        accept_bytes_def BUFF_SIZE_def stopSpeaking_def Let_def)
  have "cli_traffic env (Writable [Accepted (length s + 1)]) c1 = Some (None, c2)"
    using p w by (simp add: cli_traffic_def turn_writes catch_app_def)
  then show ?thesis using t1 u by (intro exI[of _ c1] exI[of _ c2]) (simp add: c2_def c1_def startSpeaking_def stopSpeaking_def)
qed

lemma command_answer:
  assumes "line \<noteq> []" "NL \<notin> set line" "length line < 1023" "u_toGame u = []"
    and "dispatchMessage (cli_face env) line (u\<lparr>u_received := u_received u @ line @ [NL]\<rparr>) = (None, w)" and "u_queue w = []"
  shows "cli_traffic env (Arrived [Recvd (line @ [NL]), RWouldBlock]) u = Some (None, w)"
  using terminal.read_one_line[OF assms(1-5)] assms(6) by (simp add: cli_traffic_def turn_reads catch_app_def)

definition look_message :: message where
  "look_message = (blank ''LOOK'' COMMAND)\<lparr>m_subType := SubCommand C_LOOK\<rparr>"

lemma look_accepted: "acceptable CmdTab ''LOOK''" "Message ''LOOK'' = Inr look_message"
  by code_simp+

lemma look_message_is [simp]: "m_raw look_message = ''LOOK''" "getCommandType look_message = Some C_LOOK"
  by (simp_all add: look_message_def blank_def getCommandType_def isCommand_def)

subsection \<open>Where the Qt windows go wrong\<close>

text \<open>\<open>GameWindow::updatePlayerPanel\<close> clears the text but not the lines the panel keeps (\<open>Panel::clear\<close>): when the
  window is shown again, the data of all earlier updates stand above the current ones.\<close>

definition player_lines :: "panel \<Rightarrow> player_info \<Rightarrow> string list" where
  "player_lines p i = concat (map (\<lambda>s. input_lines [] s None False p) (panel_lines i))"

lemma input_lines_same [simp]: "input_lines now s c ts (p\<lparr>pn_state := x, pn_log := y\<rparr>) = input_lines now s c ts p"
  "input_lines now s c ts (clear_panel p) = input_lines now s c ts p"
  by (simp_all add: input_lines_def indented_def clear_panel_def Let_def cong: option.case_cong)

lemma fold_append: "fold (\<lambda>s. appendInput now s c ts) ls p = p\<lparr>pn_state := pn_state p @ concat (map (\<lambda>s. input_lines now s c ts p) ls),
    pn_log := pn_log p @ concat (map (\<lambda>s. input_lines now s c ts p) ls)\<rparr>"
  by (induction ls arbitrary: p) (simp_all add: appendInput_lines)

lemma player_panel: "gq_player (updatePlayerPanel_qt i g)
    = (gq_player g)\<lparr>pn_state := pn_state (gq_player g) @ player_lines (gq_player g) i, pn_log := player_lines (gq_player g) i\<rparr>"
  by (simp add: updatePlayerPanel_qt_def fold_append player_lines_def) (simp add: clear_panel_def)

lemma player_lines_same [simp]: "player_lines (p\<lparr>pn_state := x, pn_log := y\<rparr>) i = player_lines p i"
  by (simp add: player_lines_def)

lemma old_player_data_shown:
  assumes "g' = updatePlayerPanel_qt j (updatePlayerPanel_qt i g)"
  shows "pn_log (gq_player g') = player_lines (gq_player g) j \<and> pn_log (gq_player (showEvent_win g'))
    = map c_str (pn_state (gq_player g) @ player_lines (gq_player g) i @ player_lines (gq_player g) j)"
  by (simp add: assms player_panel showEvent_win_def refresh_def clear_panel_def)

text \<open>Text is put between HTML tags without escaping (\<open>Panel::appendInput\<close>): markup in a chat message of another
  player is interpreted.\<close>

lemma getlines_single: "NL \<notin> set s \<Longrightarrow> s \<noteq> [] \<Longrightarrow> getlines s = [s]"
proof -
  assume "NL \<notin> set s" "s \<noteq> []"
  then have "takeWhile (\<lambda>c. c \<noteq> NL) s = s" and d: "dropWhile (\<lambda>c. c \<noteq> NL) s = []" by (auto simp: takeWhile_eq_all_conv)
  moreover have "tl (dropWhile (\<lambda>c. c \<noteq> NL) s) = []" unfolding d by simp
  ultimately have "getlines s = s # getlines []" using \<open>s \<noteq> []\<close> unfolding getlines.simps[of s] by (simp only: if_False)
  then show ?thesis by (simp add: getlines.simps)
qed

lemma markup_not_escaped:
  "NL \<notin> set s \<Longrightarrow> s \<noteq> [] \<Longrightarrow> last (pn_log (appendInput now s None False p)) = html_span (pn_color p) (indented p) s"
  by (simp add: appendInput_lines input_lines_def getlines_single Let_def)

text \<open>The terminal's error window offers BACK after an error of the server (\<open>cli/source/ErrorWindow.cpp\<close>); the Qt one
  only CLOSE.\<close>

lemma server_error_buttons:
  assumes "err_code e = X_SERVER_ERROR"
  shows "ew_action2 (adaptWinToError e w) = Some (''BACK'', SwitchWindow None)"
    and "eq_buttons (adaptWinToError_qt e v) = [(''CLOSE'', StopEngine)]"
  using assms by (simp_all add: adaptWinToError_def setAction2_def adaptWinToError_qt_def setAction1_qt_def c_str_def Let_def)

subsection \<open>Writing with nothing to write\<close>

text \<open>Reading starts the writing when a command waits (\<open>UI::readFromServer\<close>), but nothing stops it when the
  answer arrives before the socket was ready to be written: \<open>writeToServer\<close> then fails its assertion.\<close>

lemma idle_write_crashes:
  "u_connEstablished u \<Longrightarrow> u_toServer u = [] \<Longrightarrow> u_queue u = [] \<Longrightarrow> fst (writeToServer f ws u) = Some Crash"
  by (simp add: writeToServer_def fill_toServer_def andthen_def crash_def)

lemma answer_after_event_crashes:
  assumes u: "u_connEstablished u" "u_phase u = P_GAME" "u_queue u = m # []" "u_toServer u = []" "u_toGame u = []"
    and m: "getCommandType m = Some c" "tab_of_command c = Some tab" "c \<noteq> C_QUIT"
    and ev: "Message ev = Inr e" "isEvent e" "getEventType e \<noteq> None" "ev \<noteq> []" "NL \<notin> set ev" "length ev < 1023"
    and ans: "Message ans = Inr r" "isResponse r" "ans \<noteq> []" "NL \<notin> set ans" "length ans < 1023"
  shows "\<exists>v w. turn ((idle_input env)\<lparr>c_client := POLLIN, c_reads := [Recvd (ev @ [NL]), RWouldBlock]\<rparr>) u = Some (None, v)
    \<and> u_client_events v AND POLLOUT \<noteq> 0
    \<and> turn ((idle_input env)\<lparr>c_client := POLLIN OR POLLOUT, c_reads := [Recvd (ans @ [NL]), RWouldBlock], c_sends := ws\<rparr>) v = Some (Some Crash, w)"
proof -
  let ?f = "cli_face env"
  obtain g where g: "appendEvent (e_now env) e (u_game u) = Inr g"
    using ev(3) by (auto simp: appendEvent_def toStringEvent_def)
  define v0 where "v0 = u\<lparr>u_received := u_received u @ ev @ [NL], u_lines := u_lines u @ [ev], u_game := g\<rparr>"
  have k: "\<not> isResponse e" "\<not> isError e" using ev(2) by (auto simp: kind_defs)
  have "dispatchMessage ?f ev (u\<lparr>u_received := u_received u @ ev @ [NL]\<rparr>) = (None, v0)"
    using u(2) k by (simp add: dispatchMessage_def ev(1,2) dispatch_parsed_def notify_def showEvent_def g put_game_def noexcept_def v0_def)
  then have r1: "readFromServer ?f [Recvd (ev @ [NL]), RWouldBlock] u = (None, startSpeaking v0)"
    using terminal.read_one_line[OF ev(4-6) u(5)] u(3) by (simp add: v0_def)
  define v where "v = startSpeaking v0"
  have v: "u_connEstablished v" "u_phase v = P_GAME" "u_queue v = m # []" "u_toServer v = []" "u_toGame v = []"
    using u by (simp_all add: v_def v0_def startSpeaking_def)
  have p: "u_client_events v AND POLLOUT \<noteq> 0" by (simp add: v_def startSpeaking_def pollout_bits pollout_nonzero)
  define v1 where "v1 = v\<lparr>u_received := u_received v @ ans @ [NL]\<rparr>"
  obtain w where w: "dispatchMessage ?f ans v1 = (None, w)" "u_queue w = []" "u_toServer w = []" "u_connEstablished w"
  proof -
    define z where "z = v1\<lparr>u_lines := u_lines v1 @ [ans]\<rparr>"
    define v2 where "v2 = track_info r c z"
    have z: "u_queue z = m # []" "u_phase z = P_GAME" "front_command z = Some c"
      using v m(1) by (simp_all add: z_def v1_def front_command_def)
    have q: "u_queue v2 = m # []" "u_toServer v2 = []" "u_connEstablished v2"
      using v by (simp_all add: v2_def z_def v1_def track_info_def split: option.split)
    have "\<exists>g2. appendResponse (e_fmt env) (e_now env) r c (u_game v2) = Inr g2" by (simp add: appendResponse_def m(2))
    then obtain g2 where g2: "appendResponse (e_fmt env) (e_now env) r c (u_game v2) = Inr g2" by blast
    have "showResponse env r z = (None, if c = C_PROFILE then v2 else v2\<lparr>u_game := g2\<rparr>)"
      unfolding showResponse_def z(3) option.case Let_def v2_def[symmetric] g2 put_game_def sum.case by (simp add: noexcept_def)
    then have "\<exists>w. dispatchMessage ?f ans v1 = (None, w) \<and> u_queue w = [] \<and> u_toServer w = [] \<and> u_connEstablished w"
      using z(1,2) q m(1,3) ans(2)
      by (auto simp: dispatchMessage_def ans(1) dispatch_parsed_def respond_def andthen_def front_command_def pop_front_def Let_def
          simp flip: z_def)
    then show ?thesis using that by blast
  qed
  have r2: "readFromServer ?f [Recvd (ans @ [NL]), RWouldBlock] v = (None, w)"
    using terminal.read_one_line[OF ans(3-5) v(5) w(1)[unfolded v1_def]] w(2) by simp
  have "fst (writeToServer ?f ws w) = Some Crash" using idle_write_crashes w(2-4) by blast
  then obtain x where x: "writeToServer ?f ws w = (Some Crash, x)" by (cases "writeToServer ?f ws w") auto
  have b: "(POLLIN OR POLLOUT) AND POLLIN \<noteq> 0" "(POLLIN OR POLLOUT) AND POLLOUT \<noteq> 0" by (simp_all add: poll_bits)
  have "turn ((idle_input env)\<lparr>c_client := POLLIN OR POLLOUT, c_reads := [Recvd (ans @ [NL]), RWouldBlock], c_sends := ws\<rparr>) v = Some (Some Crash, x)"
    using b by (simp add: turn_def turn_body_def turn_io_def idle_input_def poll_def r2 x andthen_def step_when_def)
  then show ?thesis using r1 p by (auto simp: turn_reads catch_app_def v_def)
qed

end
