(* ===== verification/ClientLife.thy ===== *)
theory ClientLife
  imports ClientHTTP Descriptors Layout
begin

text \<open>
  The life of the client as far as the process sees it: which descriptors the constructors take and the
  destructors give back (\<open>ClientHTTP\<close>, \<open>UI\<close> and \<open>CLI\<close>), what a reconnection does to them, and how the
  worker thread is started.  The behaviour on the bytes is in the theories \<open>ClientHTTP\<close> and \<open>UI\<close>.
\<close>

subsection \<open>The descriptors of the network worker\<close>

record endpoints =
  ep_pipe :: Pipe
  ep_server :: int
  ep_game :: int

text \<open>\<open>connectToServer\<close> overwrites the descriptor of the server's socket.\<close>

definition http_connect :: "string \<Rightarrow> nat \<Rightarrow> connect_calls \<Rightarrow> endpoints \<Rightarrow> endpoints sys" where
  "http_connect host port c e = bind_sys (connect_socket host port c) (\<lambda>s. return_sys (e\<lparr>ep_server := s\<rparr>))"

text \<open>The constructor; \<open>memset\<close> has put zero where the server's descriptor will be.  When it is left by an
  exception, no destructor runs.\<close>

definition http_open :: "string \<Rightarrow> nat \<Rightarrow> pair_calls \<Rightarrow> connect_calls \<Rightarrow> int \<Rightarrow> endpoints sys" where
  "http_open host port pc cc gameSocket k = (if gameSocket = -1 then (Inl Crash, k)
     else bind_sys (createPipe pc) (\<lambda>p. http_connect host port cc \<lparr>ep_pipe = p, ep_server = 0, ep_game = gameSocket\<rparr>) k)"

definition http_close :: "endpoints \<Rightarrow> kernel \<Rightarrow> kernel" where
  "http_close e k = snd (closePipe (ep_pipe e) (snd (closeSocket (ep_server e) k)))"

text \<open>The reconnections of the worker's loop, which goes on after \<open>SERVER_CONN_FAILED\<close>.\<close>

fun reconnects :: "string \<Rightarrow> nat \<Rightarrow> connect_calls list \<Rightarrow> endpoints \<Rightarrow> kernel \<Rightarrow> endpoints \<times> kernel" where
  "reconnects host port [] e k = (e, k)"
| "reconnects host port (c # cs) e k = (case http_connect host port c e k of
     (Inl _, k') \<Rightarrow> reconnects host port cs e k'
   | (Inr e', k') \<Rightarrow> reconnects host port cs e' k')"

text \<open>What a pass of the loop sees of an attempt to connect.\<close>

definition connect_error :: "'a outcome \<Rightarrow> string option" where
  "connect_error r = (case r of Inl (Throw e) \<Rightarrow> Some (err_info e) | _ \<Rightarrow> None)"

lemma connect_attempt:
  assumes "i_connect i = connect_error (fst (connect_socket host port c k))"
  shows "fst (connectToServer i h) = (case fst (http_connect host port c e k) of Inl f \<Rightarrow> Some f | Inr _ \<Rightarrow> None)"
proof -
  obtain r k' where r: "connect_socket host port c k = (r, k')" by (cases "connect_socket host port c k")
  from r show ?thesis
  proof (cases rule: connect_socket_cases)
    case (failed err)
    then show ?thesis using assms r by (cases err) (simp add: connectToServer_def connect_error_def http_connect_def bind_sys_def)
  next
    case (leaked err fd)
    then show ?thesis using assms r by (cases err) (simp add: connectToServer_def connect_error_def http_connect_def bind_sys_def)
  next
    case (connected fd)
    then show ?thesis using assms r by (simp add: connectToServer_def connect_error_def http_connect_def bind_sys_def return_sys_def)
  qed
qed

subsection \<open>The descriptors of the interface\<close>

record interface_fds =
  if_sockets :: SocketPair
  if_http :: "endpoints option"

text \<open>The constructor of \<open>UI\<close> is \<open>noexcept\<close>: an exception of \<open>createSocketPair\<close> ends the program.\<close>

definition UI_create :: "pair_calls \<Rightarrow> SocketPair sys" where
  "UI_create c k = (case createSocketPair c k of (Inl _, k') \<Rightarrow> (Inl Crash, k') | ok \<Rightarrow> ok)"

definition UI_connect :: "string \<Rightarrow> nat \<Rightarrow> pair_calls \<Rightarrow> connect_calls \<Rightarrow> 'a interface_fds_scheme \<Rightarrow> 'a interface_fds_scheme sys" where
  "UI_connect host port pc cc u =
     bind_sys (http_open host port pc cc (sp_second (if_sockets u))) (\<lambda>e. return_sys (u\<lparr>if_http := Some e\<rparr>))"

definition UI_destroy :: "'a interface_fds_scheme \<Rightarrow> kernel \<Rightarrow> kernel" where
  "UI_destroy u k = (let k1 = snd (closePair (if_sockets u) k) in
     case if_http u of None \<Rightarrow> k1 | Some e \<Rightarrow> http_close e k1)"

subsection \<open>The terminal client\<close>

definition SIGWINCH :: int where "SIGWINCH = 28"

text \<open>\<open>cf_asked\<close> is the escape sequence by which a terminal that is too small is asked to grow.\<close>

record cli_fds = interface_fds +
  cf_command :: Pipe
  cf_resize :: int
  cf_height :: int
  cf_width :: int
  cf_asked :: "string option"

definition terminal_size :: "int \<Rightarrow> int \<Rightarrow> int \<times> int \<times> string option" where
  "terminal_size rows cols = (
     if rows < MIN_HEIGHT_CLI \<or> cols < MIN_WIDTH_CLI
     then (let h = (if rows < MIN_HEIGHT_CLI then MIN_HEIGHT_CLI else rows);
               w = (if cols < MIN_WIDTH_CLI then MIN_WIDTH_CLI else cols)
           in (h, w, Some (CHR 0x1B # ''[8;'' @ show_int h @ '';'' @ show_int w @ ''t'' @ [NL])))
     else (rows, cols, None))"

record cli_calls =
  ca_sockets :: pair_calls
  ca_command :: pair_calls
  ca_signal :: signal_calls
  ca_winsize :: "(int \<times> int) option"

text \<open>An exception in the constructor of \<open>CLI\<close> runs the destructor of \<open>UI\<close> only.\<close>

definition CLI_create :: "cli_calls \<Rightarrow> cli_fds sys" where
  "CLI_create c k = (case UI_create (ca_sockets c) k of
     (Inl f, k1) \<Rightarrow> (Inl f, k1)
   | (Inr sockets, k1) \<Rightarrow>
       (case bind_sys (createPipe (ca_command c)) (\<lambda>command.
             bind_sys (createSignalRedirectFd SIGWINCH True (ca_signal c)) (\<lambda>resize k2.
               (case ca_winsize c of
                  None \<Rightarrow> (throw X_UI_FAILED_GET_TERM_SIZE [], k2)
                | Some (rows, cols) \<Rightarrow> (case terminal_size rows cols of (h, w, asked) \<Rightarrow>
                    (Inr \<lparr>if_sockets = sockets, if_http = None, cf_command = command, cf_resize = resize,
                       cf_height = h, cf_width = w, cf_asked = asked\<rparr>, k2))))) k1 of
          (Inl f, k2) \<Rightarrow> (Inl f, snd (closePair sockets k2))
        | ok \<Rightarrow> ok))"

definition CLI_destroy :: "cli_fds \<Rightarrow> kernel \<Rightarrow> kernel" where
  "CLI_destroy u k = UI_destroy u (snd (closePipe (cf_command u) (close_fd (cf_resize u) k)))"

text \<open>\<open>main\<close>: construct, connect, run (with the reconnections \<open>cs\<close>), destroy.\<close>

definition client_run :: "string \<Rightarrow> nat \<Rightarrow> cli_calls \<Rightarrow> pair_calls \<Rightarrow> connect_calls \<Rightarrow> connect_calls list \<Rightarrow> unit sys" where
  "client_run host port ca pc cc cs k = (case CLI_create ca k of
     (Inl f, k1) \<Rightarrow> (Inl f, k1)
   | (Inr app, k1) \<Rightarrow> (case UI_connect host port pc cc app k1 of
       (Inl f, k2) \<Rightarrow> (Inl f, CLI_destroy app k2)
     | (Inr app1, k2) \<Rightarrow> (case if_http app1 of
         None \<Rightarrow> (Inl Crash, k2)
       | Some e \<Rightarrow> (case reconnects host port cs e k2 of
           (e', k3) \<Rightarrow> (Inr (), CLI_destroy (app1\<lparr>if_http := Some e'\<rparr>) k3)))))"

subsection \<open>What is left open\<close>

lemma http_connect_cases:
  assumes "http_connect host port c e k = (r, k')" and own: "descriptors.owned rs k0 k"
  obtains (kept) f where "r = Inl f" "\<not> reaches c" "descriptors.owned rs k0 k'"
  | (lost) f fd where "r = Inl f" "reaches c" "descriptors.owned (fd # rs) k0 k'"
  | (connected) fd where "r = Inr (e\<lparr>ep_server := fd\<rparr>)" "reaches c" "descriptors.owned (fd # rs) k0 k'"
proof -
  obtain a k1 where a: "connect_socket host port c k = (a, k1)" by (cases "connect_socket host port c k")
  from a show ?thesis
  proof (cases rule: connect_socket_cases)
    case (failed err)
    then show ?thesis using assms a owned_same[of k1 k] by (intro kept) (auto simp: http_connect_def bind_sys_def)
  next
    case (leaked err fd)
    then show ?thesis using assms a owned_fresh[OF own] by (intro lost) (auto simp: http_connect_def bind_sys_def)
  next
    case (connected fd)
    then show ?thesis using assms a owned_fresh[OF own] by (intro that(3)) (auto simp: http_connect_def bind_sys_def return_sys_def)
  qed
qed

lemma reconnects_owned:
  "reconnects host port cs e k = (e', k') \<Longrightarrow> descriptors.owned (S @ base) k0 k \<Longrightarrow> ep_server e \<in> set S \<Longrightarrow>
   \<exists>S'. descriptors.owned (S' @ base) k0 k' \<and> ep_server e' \<in> set S' \<and> length S' = length S + length (filter reaches cs)
     \<and> ep_pipe e' = ep_pipe e"
proof (induction cs arbitrary: e k S)
  case (Cons c cs)
  obtain r k1 where r: "http_connect host port c e k = (r, k1)" by (cases "http_connect host port c e k")
  from r Cons.prems(2) show ?case
  proof (cases rule: http_connect_cases)
    case (kept f)
    then show ?thesis using Cons.IH[OF _ kept(3) Cons.prems(3)] Cons.prems(1) r by auto
  next
    case (lost f fd)
    then show ?thesis using Cons.IH[of e k1 "fd # S"] Cons.prems(1,3) r by auto
  next
    case (connected fd)
    then show ?thesis using Cons.IH[of "e\<lparr>ep_server := fd\<rparr>" k1 "fd # S"] Cons.prems(1) r by auto
  qed
qed auto

lemma UI_create_owned:
  "UI_create c k = (Inr p, k') \<Longrightarrow> descriptors.owned rs k0 k \<Longrightarrow> descriptors.owned (sp_second p # sp_first p # rs) k0 k'"
  by (auto simp: UI_create_def split: prod.splits sum.splits intro: createSocketPair_owned)

lemma CLI_create_owned:
  assumes "CLI_create c k = (Inr u, k')"
  shows "descriptors.owned [cf_resize u, p_in (cf_command u), p_out (cf_command u), sp_second (if_sockets u), sp_first (if_sockets u)] k k'
    \<and> if_http u = None"
proof -
  obtain sockets k1 where s: "UI_create (ca_sockets c) k = (Inr sockets, k1)"
    using assms by (auto simp: CLI_create_def split: prod.splits sum.splits)
  obtain command k2 where p: "createPipe (ca_command c) k1 = (Inr command, k2)"
    using assms s by (auto simp: CLI_create_def bind_sys_def split: prod.splits sum.splits)
  obtain resize k3 where z: "createSignalRedirectFd SIGWINCH True (ca_signal c) k2 = (Inr resize, k3)"
    using assms s p by (auto simp: CLI_create_def bind_sys_def split: prod.splits sum.splits)
  have "k' = k3" "if_sockets u = sockets" "cf_command u = command" "cf_resize u = resize" "if_http u = None"
    using assms s p z by (auto simp: CLI_create_def bind_sys_def split: option.splits prod.splits)
  then show ?thesis
    using createSignalRedirectFd_owned[OF z createPipe_owned[OF p UI_create_owned[OF s descriptors.owned_start]]] by simp
qed

lemma http_open_owned:
  assumes "http_open host port pc cc g k = (Inr e, k')" and "descriptors.owned rs k0 k"
  shows "descriptors.owned (ep_server e # p_in (ep_pipe e) # p_out (ep_pipe e) # rs) k0 k'"
proof -
  obtain p k1 where p: "createPipe pc k = (Inr p, k1)"
      "http_connect host port cc \<lparr>ep_pipe = p, ep_server = 0, ep_game = g\<rparr> k1 = (Inr e, k')"
    using assms(1) by (auto simp: http_open_def bind_sys_Inr split: if_splits)
  from p(2) createPipe_owned[OF p(1) assms(2)] show ?thesis by (cases rule: http_connect_cases) auto
qed

text \<open>The destructor closes what it knows.\<close>

lemma CLI_destroy_owned:
  assumes own: "descriptors.owned (S @ p_in (ep_pipe e) # p_out (ep_pipe e) # cf_resize u # p_in (cf_command u) # p_out (cf_command u)
      # sp_second (if_sockets u) # sp_first (if_sockets u) # []) k0 k"
    and u: "if_http u = Some e" "ep_server e \<in> set S"
  shows "descriptors.owned (removeAll (ep_server e) S) k0 (CLI_destroy u k)"
proof -
  note d = descriptors.owned_distinct[OF own, simplified]
  have ns: "ep_server e \<noteq> p_in (ep_pipe e)" "ep_server e \<noteq> p_out (ep_pipe e)" using d u(2) by auto
  let ?a = "close_fd (cf_resize u) k"
  let ?b = "snd (closePipe (cf_command u) ?a)"
  let ?c = "snd (closePair (if_sockets u) ?b)"
  let ?d = "snd (closeSocket (ep_server e) ?c)"
  have "descriptors.owned (S @ [p_in (ep_pipe e), p_out (ep_pipe e), p_in (cf_command u), p_out (cf_command u),
      sp_second (if_sockets u), sp_first (if_sockets u)]) k0 ?a"
    using descriptors.owned_release[OF own, of "cf_resize u"] d by auto
  from closePipe_owned[OF this, of "cf_command u"]
  have "descriptors.owned (S @ [p_in (ep_pipe e), p_out (ep_pipe e), sp_second (if_sockets u), sp_first (if_sockets u)]) k0 ?b"
    using d by auto
  from closePair_owned[OF this, of "if_sockets u"]
  have "descriptors.owned (S @ [p_in (ep_pipe e), p_out (ep_pipe e)]) k0 ?c" using d by auto
  from closeSocket_owned[OF this, of "ep_server e"]
  have "descriptors.owned (removeAll (ep_server e) S @ [p_in (ep_pipe e), p_out (ep_pipe e)]) k0 ?d" using ns u(2) by auto
  from closePipe_owned[OF this, of "ep_pipe e"]
  have "descriptors.owned (removeAll (ep_server e) S) k0 (snd (closePipe (ep_pipe e) ?d))" using d by auto
  then show ?thesis by (simp add: CLI_destroy_def UI_destroy_def http_close_def u(1))
qed

lemma client_run_owned:
  assumes "client_run host port ca pc cc cs k = (Inr (), k')"
  shows "\<exists>L. descriptors.owned L k k' \<and> length L = length (filter reaches cs)"
proof -
  obtain app k1 where c: "CLI_create ca k = (Inr app, k1)" using assms by (auto simp: client_run_def split: prod.splits sum.splits)
  obtain app1 k2 where n: "UI_connect host port pc cc app k1 = (Inr app1, k2)"
    using assms c by (auto simp: client_run_def split: prod.splits sum.splits)
  then obtain e where e: "http_open host port pc cc (sp_second (if_sockets app)) k1 = (Inr e, k2)" "app1 = app\<lparr>if_http := Some e\<rparr>"
    by (auto simp: UI_connect_def bind_sys_Inr return_sys_def)
  obtain e' k3 where r: "reconnects host port cs e k2 = (e', k3)" by (cases "reconnects host port cs e k2")
  have own: "descriptors.owned ([ep_server e] @ [p_in (ep_pipe e), p_out (ep_pipe e), cf_resize app, p_in (cf_command app),
      p_out (cf_command app), sp_second (if_sockets app), sp_first (if_sockets app)]) k k2"
    using http_open_owned[OF e(1)] CLI_create_owned[OF c] by simp
  obtain S where S: "descriptors.owned (S @ [p_in (ep_pipe e), p_out (ep_pipe e), cf_resize app, p_in (cf_command app),
      p_out (cf_command app), sp_second (if_sockets app), sp_first (if_sockets app)]) k k3"
      "ep_server e' \<in> set S" "length S = 1 + length (filter reaches cs)" "ep_pipe e' = ep_pipe e"
    using reconnects_owned[OF r own] by auto
  have "k' = CLI_destroy (app1\<lparr>if_http := Some e'\<rparr>) k3" using assms c n r e(2) by (simp add: client_run_def)
  moreover have "descriptors.owned (removeAll (ep_server e') S) k (CLI_destroy (app1\<lparr>if_http := Some e'\<rparr>) k3)"
    by (rule CLI_destroy_owned) (use S e(2) in auto)
  moreover have "distinct S" using descriptors.owned_distinct[OF S(1)] by simp
  ultimately show ?thesis using S(2,3)
    by (intro exI[of _ "removeAll (ep_server e') S"]) (simp add: distinct_remove1_removeAll[symmetric] length_remove1)
qed

subsection \<open>Starting the worker thread\<close>

text \<open>\<open>startWorker\<close> starts the thread first and sets \<open>keepAlive\<close> then; the thread tests \<open>keepAlive\<close> at the
  head of its loop.  A step of either thread is one access.\<close>

datatype starter = Spawn | SetAlive | ClearPreStop | Done
datatype worker = NotCreated | AtTest | InPass | Finished

record start_state =
  ss_main :: starter
  ss_worker :: worker
  ss_alive :: bool

definition before_start :: start_state where
  "before_start = \<lparr>ss_main = Spawn, ss_worker = NotCreated, ss_alive = False\<rparr>"

inductive start_step :: "start_state \<Rightarrow> start_state \<Rightarrow> bool" where
  spawn: "ss_main s = Spawn \<Longrightarrow> start_step s (s\<lparr>ss_main := SetAlive, ss_worker := AtTest\<rparr>)"
| alive: "ss_main s = SetAlive \<Longrightarrow> start_step s (s\<lparr>ss_main := ClearPreStop, ss_alive := True\<rparr>)"
| prestop: "ss_main s = ClearPreStop \<Longrightarrow> start_step s (s\<lparr>ss_main := Done\<rparr>)"
| enter: "ss_worker s = AtTest \<Longrightarrow> ss_alive s \<Longrightarrow> start_step s (s\<lparr>ss_worker := InPass\<rparr>)"
| leave: "ss_worker s = AtTest \<Longrightarrow> \<not> ss_alive s \<Longrightarrow> start_step s (s\<lparr>ss_worker := Finished\<rparr>)"
| again: "ss_worker s = InPass \<Longrightarrow> start_step s (s\<lparr>ss_worker := AtTest\<rparr>)"

inductive_cases start_stepE: "start_step s s'"

text \<open>A worker that is still there once the flag is set stays.\<close>

lemma worker_stays_step: "start_step s s' \<Longrightarrow> ss_alive s \<and> ss_worker s \<noteq> Finished \<Longrightarrow> ss_alive s' \<and> ss_worker s' \<noteq> Finished"
  by (erule start_stepE) auto

lemma worker_stays: "start_step\<^sup>*\<^sup>* s s' \<Longrightarrow> ss_alive s \<and> ss_worker s \<noteq> Finished \<Longrightarrow> ss_alive s' \<and> ss_worker s' \<noteq> Finished"
  by (induction rule: rtranclp_induct) (auto dest: worker_stays_step)

lemma worker_can_miss_the_flag:
  "start_step\<^sup>*\<^sup>* before_start \<lparr>ss_main = Done, ss_worker = Finished, ss_alive = True\<rparr>"
proof -
  have "start_step before_start \<lparr>ss_main = SetAlive, ss_worker = AtTest, ss_alive = False\<rparr>"
    using start_step.spawn[of before_start] by (simp add: before_start_def)
  moreover have "start_step \<lparr>ss_main = SetAlive, ss_worker = AtTest, ss_alive = False\<rparr> \<lparr>ss_main = SetAlive, ss_worker = Finished, ss_alive = False\<rparr>"
    using start_step.leave[of "\<lparr>ss_main = SetAlive, ss_worker = AtTest, ss_alive = False\<rparr>"] by simp
  moreover have "start_step \<lparr>ss_main = SetAlive, ss_worker = Finished, ss_alive = False\<rparr> \<lparr>ss_main = ClearPreStop, ss_worker = Finished, ss_alive = True\<rparr>"
    using start_step.alive[of "\<lparr>ss_main = SetAlive, ss_worker = Finished, ss_alive = False\<rparr>"] by simp
  moreover have "start_step \<lparr>ss_main = ClearPreStop, ss_worker = Finished, ss_alive = True\<rparr> \<lparr>ss_main = Done, ss_worker = Finished, ss_alive = True\<rparr>"
    using start_step.prestop[of "\<lparr>ss_main = ClearPreStop, ss_worker = Finished, ss_alive = True\<rparr>"] by simp
  ultimately show ?thesis by (meson r_into_rtranclp rtranclp_trans)
qed

end
