(* ===== verification/Painting.thy ===== *)
theory Painting
  imports Layout Resources
begin

text \<open>
  What the tabs of the CLI ask of ncurses (\<open>BasicTab\<close>, \<open>ButtonTab\<close>, \<open>OutputTab\<close>, \<open>InputTab\<close>, \<open>InOutTab\<close> and
  \<open>NcWindow\<close> under \<open>client/cli/source\<close>): the windows they create and delete, the attributes frames, lines and
  labels are painted with, and whether the cursor is visible.  Of ncurses the model uses what its manual
  documents: attributes are switched on and off per window, a call on a null window does nothing, \<open>newwin\<close>
  returns null when it cannot create the window (\<open>fits\<close>, an argument).  The texts of the tabs are in
  \<open>Windows\<close> and \<open>Layout\<close>.
\<close>

subsection \<open>ncurses\<close>

definition A_UNDERLINE :: "32 word" where "A_UNDERLINE = 0x20000"
definition A_BLINK :: "32 word" where "A_BLINK = 0x80000"
definition A_COLOR :: "32 word" where "A_COLOR = 0xFF00"

datatype shown = Frame "32 word" | HLine "32 word" | Label string "32 word"

record curses =
  cu_live :: "nat list"
  cu_cursor :: int
  cu_attrs :: "nat \<Rightarrow> 32 word"
  cu_shown :: "nat \<Rightarrow> shown list"

definition new_window :: "curses \<Rightarrow> nat \<times> curses" where
  "new_window c = (let i = Suc (foldr max (cu_live c) 0) in
     (i, c\<lparr>cu_live := i # cu_live c, cu_attrs := (cu_attrs c)(i := 0), cu_shown := (cu_shown c)(i := [])\<rparr>))"

definition newwin :: "(rect \<Rightarrow> bool) \<Rightarrow> rect \<Rightarrow> curses \<Rightarrow> nat option \<times> curses" where
  "newwin fits r c = (if fits r then (case new_window c of (i, c') \<Rightarrow> (Some i, c')) else (None, c))"

definition delete_window :: "nat \<Rightarrow> curses \<Rightarrow> curses" where
  "delete_window i c = c\<lparr>cu_live := removeAll i (cu_live c)\<rparr>"

definition on_window :: "nat option \<Rightarrow> (nat \<Rightarrow> curses \<Rightarrow> curses) \<Rightarrow> curses \<Rightarrow> curses" where
  "on_window win f c = (case win of None \<Rightarrow> c | Some i \<Rightarrow> f i c)"

definition attr_on :: "32 word \<Rightarrow> 32 word \<Rightarrow> 32 word" where
  "attr_on a s = (if a AND A_COLOR \<noteq> 0 then (s AND NOT A_COLOR) OR a else s OR a)"

definition attr_off :: "32 word \<Rightarrow> 32 word \<Rightarrow> 32 word" where
  "attr_off a s = (if a AND A_COLOR \<noteq> 0 then s AND NOT (A_COLOR OR a) else s AND NOT a)"

definition wattron :: "32 word \<Rightarrow> nat \<Rightarrow> curses \<Rightarrow> curses" where
  "wattron a i c = c\<lparr>cu_attrs := (cu_attrs c)(i := attr_on a (cu_attrs c i))\<rparr>"

definition wattroff :: "32 word \<Rightarrow> nat \<Rightarrow> curses \<Rightarrow> curses" where
  "wattroff a i c = c\<lparr>cu_attrs := (cu_attrs c)(i := attr_off a (cu_attrs c i))\<rparr>"

definition paint :: "(32 word \<Rightarrow> shown) \<Rightarrow> nat \<Rightarrow> curses \<Rightarrow> curses" where
  "paint s i c = c\<lparr>cu_shown := (cu_shown c)(i := cu_shown c i @ [s (cu_attrs c i)])\<rparr>"

text \<open>\<open>wmove\<close> to the start of a window of one row, then \<open>wclrtoeol\<close>.\<close>

definition clear_row :: "nat \<Rightarrow> curses \<Rightarrow> curses" where
  "clear_row i c = c\<lparr>cu_shown := (cu_shown c)(i := [])\<rparr>"

text \<open>\<open>mvwhline\<close> over the whole row of such a window.\<close>

definition repaint_line :: "nat \<Rightarrow> curses \<Rightarrow> curses" where
  "repaint_line i c = paint HLine i (clear_row i c)"

definition curs_set :: "int \<Rightarrow> curses \<Rightarrow> curses" where
  "curs_set v c = c\<lparr>cu_cursor := v\<rparr>"

text \<open>A colour pair, when there is one (\<open>-1\<close>: none).\<close>

definition colour_on :: "int \<Rightarrow> nat \<Rightarrow> curses \<Rightarrow> curses" where
  "colour_on colorPair i c = (if colorPair \<noteq> -1 then wattron (COLOR_PAIR (nat colorPair)) i c else c)"

definition colour_off :: "int \<Rightarrow> nat \<Rightarrow> curses \<Rightarrow> curses" where
  "colour_off colorPair i c = (if colorPair \<noteq> -1 then wattroff (COLOR_PAIR (nat colorPair)) i c else c)"

text \<open>\<open>wclear\<close>, \<open>wrefresh\<close>, \<open>delwin\<close>.\<close>

definition drop_window :: "nat option \<Rightarrow> curses \<Rightarrow> curses" where
  "drop_window win c = on_window win delete_window c"

subsection \<open>BasicTab\<close>

record basic_tab =
  t_border :: "nat option"
  t_borderChar :: int
  t_color :: int
  t_active :: bool

type_synonym 't painting = "failure option \<times> 't \<times> curses"

definition invalid_size :: "'t \<Rightarrow> curses \<Rightarrow> 't painting" where
  "invalid_size t c = (Some (Throw \<lparr>err_code = X_UI_INVALID_SIZE, err_info = []\<rparr>), t, c)"

text \<open>\<open>colorPair\<close> is dropped when the terminal has no colours.\<close>

definition BasicTab :: "bool \<Rightarrow> int \<Rightarrow> int \<Rightarrow> basic_tab" where
  "BasicTab has_colors borderChar colorPair = \<lparr>t_border = None, t_borderChar = borderChar,
     t_color = (if has_colors then colorPair else -1), t_active = False\<rparr>"

definition BasicTab_draw :: "(rect \<Rightarrow> bool) \<Rightarrow> rect \<Rightarrow> 'a basic_tab_scheme \<Rightarrow> curses \<Rightarrow> 'a basic_tab_scheme painting" where
  "BasicTab_draw fits r t c = (case newwin fits r c of
     (None, c1) \<Rightarrow> invalid_size (t\<lparr>t_border := None\<rparr>) c1
   | (Some i, c1) \<Rightarrow> (None, t\<lparr>t_border := Some i\<rparr>,
       if t_borderChar t \<noteq> -1 then colour_off (t_color t) i (paint Frame i (colour_on (t_color t) i c1)) else c1))"

definition BasicTab_clear :: "'a basic_tab_scheme \<Rightarrow> curses \<Rightarrow> 'a basic_tab_scheme \<times> curses" where
  "BasicTab_clear t c = (t\<lparr>t_border := None\<rparr>, drop_window (t_border t) c)"

definition BasicTab_activate :: "'a basic_tab_scheme \<Rightarrow> 'a basic_tab_scheme" where
  "BasicTab_activate t = t\<lparr>t_active := True\<rparr>"

definition BasicTab_deactivate :: "'a basic_tab_scheme \<Rightarrow> 'a basic_tab_scheme" where
  "BasicTab_deactivate t = t\<lparr>t_active := False\<rparr>"

text \<open>Moving a tab: the new one and what is left of the old one.  \<open>same\<close>: assigned to itself.\<close>

definition BasicTab_move :: "'a basic_tab_scheme \<Rightarrow> 'a basic_tab_scheme \<times> 'a basic_tab_scheme" where
  "BasicTab_move other = (other, other\<lparr>t_border := None\<rparr>)"

definition BasicTab_assign :: "bool \<Rightarrow> basic_tab \<Rightarrow> basic_tab \<Rightarrow> curses \<Rightarrow> basic_tab \<times> basic_tab \<times> curses" where
  "BasicTab_assign same this_tab other c = (if same then (this_tab, other, c)
     else (\<lparr>t_border = t_border other, t_borderChar = t_borderChar other, t_color = t_color other, t_active = t_active other\<rparr>,
       other\<lparr>t_border := None\<rparr>, drop_window (t_border this_tab) c))"

text \<open>Steps of a \<open>draw\<close>: an exception leaves the windows made so far in the tab.\<close>

definition draw_then :: "'t painting \<Rightarrow> ('t \<Rightarrow> curses \<Rightarrow> 'u painting) \<Rightarrow> ('t \<Rightarrow> 'u) \<Rightarrow> 'u painting" where
  "draw_then r f g = (case r of (None, t, c) \<Rightarrow> f t c | (Some e, t, c) \<Rightarrow> (Some e, g t, c))"

text \<open>One \<open>newwin\<close> whose handle goes to a field, what is painted into it, and the exception when it is null.\<close>

definition draw_window_of :: "(rect \<Rightarrow> bool) \<Rightarrow> rect \<Rightarrow> (nat option \<Rightarrow> 't \<Rightarrow> 't) \<Rightarrow> (nat \<Rightarrow> curses \<Rightarrow> curses) \<Rightarrow> 't \<Rightarrow> curses \<Rightarrow> 't painting" where
  "draw_window_of fits r store content t c = (case newwin fits r c of
     (None, c1) \<Rightarrow> invalid_size (store None t) c1
   | (Some i, c1) \<Rightarrow> (None, store (Some i) t, content i c1))"

subsection \<open>ButtonTab\<close>

record button_tab = basic_tab +
  t_content :: string
  t_btnWin :: "nat option"

definition ButtonTab :: "bool \<Rightarrow> string \<Rightarrow> int \<Rightarrow> button_tab" where
  "ButtonTab has_colors content colorPair = \<lparr>t_border = None, t_borderChar = -1,
     t_color = (if has_colors then colorPair else -1), t_active = False, t_content = content, t_btnWin = None\<rparr>"

definition button_label :: "int \<Rightarrow> bool \<Rightarrow> string \<Rightarrow> nat \<Rightarrow> curses \<Rightarrow> curses" where
  "button_label colorPair blink content i c =
     wattroff (A_BOLD OR A_UNDERLINE) i
       ((if blink then wattroff A_BLINK i else id)
         (colour_off colorPair i
           (paint (Label content) i
             (wattron (A_BOLD OR A_UNDERLINE) i
               ((if blink then wattron A_BLINK i else id) (colour_on colorPair i c))))))"

text \<open>The base class has made a frame of the same size already; its handle is overwritten.\<close>

definition ButtonTab_draw :: "(rect \<Rightarrow> bool) \<Rightarrow> int \<Rightarrow> int \<Rightarrow> button_tab \<Rightarrow> curses \<Rightarrow> button_tab painting" where
  "ButtonTab_draw fits y x t c = (let n = int (length (t_content t)) in
     draw_then (draw_then (BasicTab_draw fits (box 3 (n + 2) y x) t c)
       (draw_window_of fits (box 3 (n + 2) y x) (\<lambda>w t. t\<lparr>t_border := w\<rparr>)
         (\<lambda>i c. wattroff A_BOLD i ((if t_active t then wattroff A_BLINK i else id)
            (paint Frame i (wattron A_BOLD i (colour_on (t_color t) i c)))))) id)
       (draw_window_of fits (box 1 n (y + 1) (x + 1)) (\<lambda>w t. t\<lparr>t_btnWin := w\<rparr>)
         (button_label (t_color t) (t_active t) (t_content t))) id)"

definition ButtonTab_clear :: "button_tab \<Rightarrow> curses \<Rightarrow> button_tab \<times> curses" where
  "ButtonTab_clear t c = (case BasicTab_clear t c of (t1, c1) \<Rightarrow> (t1\<lparr>t_btnWin := None\<rparr>, drop_window (t_btnWin t1) c1))"

definition ButtonTab_move :: "button_tab \<Rightarrow> button_tab \<times> button_tab" where
  "ButtonTab_move other = (case BasicTab_move other of (t, rest) \<Rightarrow> (t, rest\<lparr>t_btnWin := None\<rparr>))"

text \<open>\<open>activate\<close> and \<open>deactivate\<close> write the label again; they blink through the mask of three attributes.\<close>

definition button_rewrite :: "32 word \<Rightarrow> button_tab \<Rightarrow> curses \<Rightarrow> curses" where
  "button_rewrite m t c = on_window (t_btnWin t) (\<lambda>i c.
     wattroff m i (colour_off (t_color t) i (paint (Label (t_content t)) i (clear_row i
       (wattron m i (colour_on (t_color t) i c)))))) c"

definition ButtonTab_activate :: "button_tab \<Rightarrow> curses \<Rightarrow> button_tab \<times> curses" where
  "ButtonTab_activate t c = (let t1 = BasicTab_activate t in
     (t1, button_rewrite (A_BOLD OR A_UNDERLINE OR A_BLINK) t1 (curs_set 0 c)))"

definition ButtonTab_deactivate :: "button_tab \<Rightarrow> curses \<Rightarrow> button_tab \<times> curses" where
  "ButtonTab_deactivate t c = (let t1 = BasicTab_deactivate t in
     (t1, button_rewrite (A_BOLD OR A_UNDERLINE) t1 (curs_set 1 c)))"

subsection \<open>OutputTab\<close>

record text_tab = basic_tab +
  t_title :: string
  t_titleWin :: "nat option"
  t_divLineWin :: "nat option"
  t_outputWin :: "nat option"

definition OutputTab :: "bool \<Rightarrow> string \<Rightarrow> int \<Rightarrow> int \<Rightarrow> text_tab" where
  "OutputTab has_colors title borderChar colorPair = \<lparr>t_border = None, t_borderChar = borderChar,
     t_color = (if has_colors then colorPair else -1), t_active = False, t_title = title, t_titleWin = None,
     t_divLineWin = None, t_outputWin = None\<rparr>"

definition inner :: "rect \<Rightarrow> rect" where
  "inner r = box (r_h r - 2) (r_w r - 2) (r_y r + 1) (r_x r + 1)"

definition title_window :: "int \<Rightarrow> string \<Rightarrow> nat \<Rightarrow> curses \<Rightarrow> curses" where
  "title_window colorPair title i c = wattroff A_BOLD i (colour_off colorPair i (paint (Label title) i (paint Frame i
     (wattron A_BOLD i (colour_on colorPair i c)))))"

definition div_line :: "int \<Rightarrow> bool \<Rightarrow> nat \<Rightarrow> curses \<Rightarrow> curses" where
  "div_line colorPair blink i c =
     wattroff A_BOLD i ((if blink then wattroff A_BLINK i else id) (colour_off colorPair i
       (repaint_line i (wattron A_BOLD i ((if blink then wattron A_BLINK i else id) (colour_on colorPair i c))))))"

text \<open>The title, the line beside it, and the rectangle that is left; \<open>r\<close> is inside the frame.\<close>

definition title_rest :: "rect \<Rightarrow> rect" where
  "title_rest r = box (r_h r - 4) (r_w r - 2) (r_y r + 4) (r_x r + 1)"

definition title_box :: "rect \<Rightarrow> string \<Rightarrow> rect" where
  "title_box r title = box 3 (int (length title) + 2) (r_y r) (r_x r + 1)"

definition line_box :: "rect \<Rightarrow> string \<Rightarrow> rect" where
  "line_box r title = box 1 (r_w r - 3 - int (length title) - 2) (r_y r + 2) (r_x r + 2 + int (length title) + 2)"

definition framed :: "rect \<Rightarrow> 'a basic_tab_scheme \<Rightarrow> rect" where
  "framed r t = (if t_border t \<noteq> None then inner r else r)"

definition OutputTab_body :: "(rect \<Rightarrow> bool) \<Rightarrow> rect \<Rightarrow> 'a text_tab_scheme \<Rightarrow> curses \<Rightarrow> 'a text_tab_scheme painting" where
  "OutputTab_body fits r = draw_window_of fits r (\<lambda>w t. t\<lparr>t_outputWin := w\<rparr>) (\<lambda>i c. c)"

definition OutputTab_line :: "(rect \<Rightarrow> bool) \<Rightarrow> rect \<Rightarrow> 'a text_tab_scheme \<Rightarrow> curses \<Rightarrow> 'a text_tab_scheme painting" where
  "OutputTab_line fits r t = draw_window_of fits (line_box r (t_title t)) (\<lambda>w t. t\<lparr>t_divLineWin := w\<rparr>) (div_line (t_color t) (t_active t)) t"

definition OutputTab_title :: "(rect \<Rightarrow> bool) \<Rightarrow> rect \<Rightarrow> 'a text_tab_scheme \<Rightarrow> curses \<Rightarrow> 'a text_tab_scheme painting" where
  "OutputTab_title fits r t = draw_window_of fits (title_box r (t_title t)) (\<lambda>w t. t\<lparr>t_titleWin := w\<rparr>) (title_window (t_color t) (t_title t)) t"

definition OutputTab_draw :: "(rect \<Rightarrow> bool) \<Rightarrow> rect \<Rightarrow> 'a text_tab_scheme \<Rightarrow> curses \<Rightarrow> 'a text_tab_scheme painting" where
  "OutputTab_draw fits r t c = draw_then (BasicTab_draw fits r t c) (\<lambda>t c.
     if t_title t = [] then OutputTab_body fits (framed r t) t c
     else if \<not> int (length (t_title t)) < r_w (framed r t) + 1 then (Some Crash, t, c)
     else draw_then (draw_then (OutputTab_title fits (framed r t) t c) (\<lambda>t. OutputTab_line fits (framed r t) t) id)
       (\<lambda>t. OutputTab_body fits (title_rest (framed r t)) t) id) id"

definition OutputTab_clear :: "'a text_tab_scheme \<Rightarrow> curses \<Rightarrow> 'a text_tab_scheme \<times> curses" where
  "OutputTab_clear t c = (case BasicTab_clear t c of (t1, c1) \<Rightarrow>
     (case (if t_titleWin t1 \<noteq> None
            then (t1\<lparr>t_titleWin := None, t_divLineWin := None\<rparr>, drop_window (t_divLineWin t1) (drop_window (t_titleWin t1) c1))
            else (t1, c1)) of (t2, c2) \<Rightarrow>
       (t2\<lparr>t_outputWin := None\<rparr>, drop_window (t_outputWin t2) c2)))"

definition OutputTab_move :: "'a text_tab_scheme \<Rightarrow> 'a text_tab_scheme \<times> 'a text_tab_scheme" where
  "OutputTab_move other = (case BasicTab_move other of (t, rest) \<Rightarrow>
     (t, rest\<lparr>t_titleWin := None, t_divLineWin := None, t_outputWin := None\<rparr>))"

definition rewrite_line :: "32 word \<Rightarrow> 'a text_tab_scheme \<Rightarrow> curses \<Rightarrow> curses" where
  "rewrite_line m t c = on_window (t_divLineWin t) (\<lambda>i c.
     wattroff m i (colour_off (t_color t) i (repaint_line i (wattron m i (colour_on (t_color t) i c))))) c"

definition OutputTab_activate :: "'a text_tab_scheme \<Rightarrow> curses \<Rightarrow> 'a text_tab_scheme \<times> curses" where
  "OutputTab_activate t c = (let t1 = BasicTab_activate t in (t1, rewrite_line (A_BOLD OR A_BLINK) t1 (curs_set 0 c)))"

definition OutputTab_deactivate :: "'a text_tab_scheme \<Rightarrow> curses \<Rightarrow> 'a text_tab_scheme \<times> curses" where
  "OutputTab_deactivate t c = (let t1 = BasicTab_deactivate t in (t1, rewrite_line A_BOLD t1 (curs_set 1 c)))"

subsection \<open>InputTab\<close>

record line_tab = basic_tab +
  t_prompt :: string
  t_line :: string
  t_inputWin :: "nat option"

definition InputTab :: "bool \<Rightarrow> string \<Rightarrow> int \<Rightarrow> int \<Rightarrow> line_tab" where
  "InputTab has_colors prompt borderChar colorPair = \<lparr>t_border = None, t_borderChar = borderChar,
     t_color = (if has_colors then colorPair else -1), t_active = False, t_prompt = prompt, t_line = [], t_inputWin = None\<rparr>"

text \<open>\<open>writePromptLine\<close>\<close>

definition prompt_line :: "int \<Rightarrow> bool \<Rightarrow> string \<Rightarrow> string \<Rightarrow> nat \<Rightarrow> curses \<Rightarrow> curses" where
  "prompt_line colorPair blink prompt buffer i c =
     (if buffer \<noteq> [] then paint (Label buffer) i else id)
       (wattroff A_BOLD i ((if blink then wattroff A_BLINK i else id) (colour_off colorPair i
         (paint (Label prompt) i (wattron A_BOLD i ((if blink then wattron A_BLINK i else id)
           (colour_on colorPair i (clear_row i c))))))))"

definition InputTab_draw :: "(rect \<Rightarrow> bool) \<Rightarrow> rect \<Rightarrow> line_tab \<Rightarrow> curses \<Rightarrow> line_tab painting" where
  "InputTab_draw fits r t c = draw_then (BasicTab_draw fits r t c) (\<lambda>t.
     draw_window_of fits (if t_border t \<noteq> None then inner r else r) (\<lambda>w t. t\<lparr>t_inputWin := w\<rparr>)
       (prompt_line (t_color t) (t_active t) (t_prompt t) (t_line t)) t) id"

definition InputTab_clear :: "line_tab \<Rightarrow> curses \<Rightarrow> line_tab \<times> curses" where
  "InputTab_clear t c = (case BasicTab_clear t c of (t1, c1) \<Rightarrow> (t1\<lparr>t_inputWin := None\<rparr>, drop_window (t_inputWin t1) c1))"

definition InputTab_move :: "line_tab \<Rightarrow> line_tab \<times> line_tab" where
  "InputTab_move other = (case BasicTab_move other of (t, rest) \<Rightarrow> (t, rest\<lparr>t_inputWin := None\<rparr>))"

definition InputTab_rewrite :: "line_tab \<Rightarrow> curses \<Rightarrow> curses" where
  "InputTab_rewrite t c = on_window (t_inputWin t) (prompt_line (t_color t) (t_active t) (t_prompt t) (t_line t)) c"

definition InputTab_activate :: "line_tab \<Rightarrow> curses \<Rightarrow> line_tab \<times> curses" where
  "InputTab_activate t c = (let t1 = BasicTab_activate t in (t1, InputTab_rewrite t1 c))"

definition InputTab_deactivate :: "line_tab \<Rightarrow> curses \<Rightarrow> line_tab \<times> curses" where
  "InputTab_deactivate t c = (let t1 = BasicTab_deactivate t in (t1, InputTab_rewrite t1 c))"

subsection \<open>InOutTab\<close>

record both_tab = text_tab +
  t_inPrompt :: string
  t_inLine :: string
  t_inWin :: "nat option"
  t_inFrame :: "nat option"

definition InOutTab :: "bool \<Rightarrow> string \<Rightarrow> string \<Rightarrow> int \<Rightarrow> int \<Rightarrow> both_tab" where
  "InOutTab has_colors prompt title borderChar colorPair = \<lparr>t_border = None, t_borderChar = borderChar,
     t_color = (if has_colors then colorPair else -1), t_active = False, t_title = title, t_titleWin = None,
     t_divLineWin = None, t_outputWin = None, t_inPrompt = prompt, t_inLine = [], t_inWin = None, t_inFrame = None\<rparr>"

definition inout_prompt :: "both_tab \<Rightarrow> nat \<Rightarrow> curses \<Rightarrow> curses" where
  "inout_prompt t = prompt_line (t_color t) (t_active t) (t_inPrompt t) (t_inLine t)"

text \<open>After the title is made, the code tests the handle of the border.\<close>

definition InOutTab_title :: "(rect \<Rightarrow> bool) \<Rightarrow> rect \<Rightarrow> both_tab \<Rightarrow> curses \<Rightarrow> both_tab painting" where
  "InOutTab_title fits r t c = (case newwin fits (title_box r (t_title t)) c of (w, c1) \<Rightarrow>
     let t1 = t\<lparr>t_titleWin := w\<rparr> in
     if t_border t1 = None then invalid_size t1 c1
     else (None, t1, on_window w (title_window (t_color t) (t_title t)) c1))"

definition InOutTab_frame :: "(rect \<Rightarrow> bool) \<Rightarrow> rect \<Rightarrow> both_tab \<Rightarrow> curses \<Rightarrow> both_tab painting" where
  "InOutTab_frame fits r t = draw_window_of fits (box 3 (r_w r) (r_y r + r_h r - 3) (r_x r)) (\<lambda>w t. t\<lparr>t_inFrame := w\<rparr>)
     (\<lambda>i c. colour_off (t_color t) i (paint Frame i (colour_on (t_color t) i c))) t"

definition InOutTab_input :: "(rect \<Rightarrow> bool) \<Rightarrow> rect \<Rightarrow> both_tab \<Rightarrow> curses \<Rightarrow> both_tab painting" where
  "InOutTab_input fits r t = draw_window_of fits (box 1 (r_w r - 2) (r_y r + r_h r - 3 + 1) (r_x r + 1)) (\<lambda>w t. t\<lparr>t_inWin := w\<rparr>)
     (inout_prompt t) t"

text \<open>\<open>rest\<close>: the rectangle left beside the title.\<close>

definition InOutTab_body :: "(rect \<Rightarrow> bool) \<Rightarrow> (both_tab \<Rightarrow> rect) \<Rightarrow> both_tab \<Rightarrow> curses \<Rightarrow> both_tab painting" where
  "InOutTab_body fits rest t c = draw_then (draw_then
     (OutputTab_body fits (box (r_h (rest t) - 3) (r_w (rest t)) (r_y (rest t)) (r_x (rest t))) t c)
     (\<lambda>t. InOutTab_frame fits (rest t) t) id) (\<lambda>t. InOutTab_input fits (rest t) t) id"

definition InOutTab_draw :: "(rect \<Rightarrow> bool) \<Rightarrow> rect \<Rightarrow> both_tab \<Rightarrow> curses \<Rightarrow> both_tab painting" where
  "InOutTab_draw fits r t c = draw_then (BasicTab_draw fits r t c) (\<lambda>t c.
     if t_title t = [] then InOutTab_body fits (framed r) t c
     else if \<not> int (length (t_title t)) < r_w (framed r t) + 1 then (Some Crash, t, c)
     else draw_then (draw_then (InOutTab_title fits (framed r t) t c) (\<lambda>t. OutputTab_line fits (framed r t) t) id)
       (InOutTab_body fits (\<lambda>t. title_rest (framed r t))) id) id"

text \<open>The bases clear the frame again, which is null by then.\<close>

definition InOutTab_clear :: "both_tab \<Rightarrow> curses \<Rightarrow> both_tab \<times> curses" where
  "InOutTab_clear t c = (case BasicTab_clear t c of (t1, c1) \<Rightarrow> (case BasicTab_clear t1 c1 of (t2, c2) \<Rightarrow>
     (case OutputTab_clear (t2\<lparr>t_inWin := None\<rparr>) (drop_window (t_inWin t2) c2) of (t3, c3) \<Rightarrow>
       (t3\<lparr>t_inFrame := None\<rparr>, drop_window (t_inFrame t3) c3))))"

text \<open>The virtual base is moved once.\<close>

definition InOutTab_move :: "both_tab \<Rightarrow> both_tab \<times> both_tab" where
  "InOutTab_move other = (case BasicTab_move other of (t, rest1) \<Rightarrow>
     (case OutputTab_move (rest1\<lparr>t_inWin := None\<rparr>) of (_, rest2) \<Rightarrow> (t, rest2\<lparr>t_inFrame := None\<rparr>)))"

definition InOutTab_activate :: "both_tab \<Rightarrow> curses \<Rightarrow> both_tab \<times> curses" where
  "InOutTab_activate t c = (case OutputTab_activate (BasicTab_activate t) c of (t1, c1) \<Rightarrow>
     let t2 = BasicTab_activate t1 in (t2, on_window (t_inWin t2) (inout_prompt t2) (curs_set 1 c1)))"

definition InOutTab_deactivate :: "both_tab \<Rightarrow> curses \<Rightarrow> both_tab \<times> curses" where
  "InOutTab_deactivate t c = (case OutputTab_deactivate (BasicTab_deactivate t) c of (t1, c1) \<Rightarrow>
     let t2 = BasicTab_deactivate t1 in (t2, on_window (t_inWin t2) (inout_prompt t2) c1))"

subsection \<open>NcWindow\<close>

text \<open>The virtual calls on a tab.\<close>

datatype tab = Plain basic_tab | Button button_tab | Output text_tab | Input line_tab | InOut both_tab

fun tab_draw :: "(rect \<Rightarrow> bool) \<Rightarrow> rect \<Rightarrow> tab \<Rightarrow> curses \<Rightarrow> tab painting" where
  "tab_draw fits r (Plain t) c = map_prod id (map_prod Plain id) (BasicTab_draw fits r t c)"
| "tab_draw fits r (Button t) c = map_prod id (map_prod Button id) (ButtonTab_draw fits (r_y r) (r_x r) t c)"
| "tab_draw fits r (Output t) c = map_prod id (map_prod Output id) (OutputTab_draw fits r t c)"
| "tab_draw fits r (Input t) c = map_prod id (map_prod Input id) (InputTab_draw fits r t c)"
| "tab_draw fits r (InOut t) c = map_prod id (map_prod InOut id) (InOutTab_draw fits r t c)"

fun tab_clear :: "tab \<Rightarrow> curses \<Rightarrow> tab \<times> curses" where
  "tab_clear (Plain t) c = map_prod Plain id (BasicTab_clear t c)"
| "tab_clear (Button t) c = map_prod Button id (ButtonTab_clear t c)"
| "tab_clear (Output t) c = map_prod Output id (OutputTab_clear t c)"
| "tab_clear (Input t) c = map_prod Input id (InputTab_clear t c)"
| "tab_clear (InOut t) c = map_prod InOut id (InOutTab_clear t c)"

fun tab_activate :: "tab \<Rightarrow> curses \<Rightarrow> tab \<times> curses" where
  "tab_activate (Plain t) c = (Plain (BasicTab_activate t), c)"
| "tab_activate (Button t) c = map_prod Button id (ButtonTab_activate t c)"
| "tab_activate (Output t) c = map_prod Output id (OutputTab_activate t c)"
| "tab_activate (Input t) c = map_prod Input id (InputTab_activate t c)"
| "tab_activate (InOut t) c = map_prod InOut id (InOutTab_activate t c)"

fun tab_deactivate :: "tab \<Rightarrow> curses \<Rightarrow> tab \<times> curses" where
  "tab_deactivate (Plain t) c = (Plain (BasicTab_deactivate t), c)"
| "tab_deactivate (Button t) c = map_prod Button id (ButtonTab_deactivate t c)"
| "tab_deactivate (Output t) c = map_prod Output id (OutputTab_deactivate t c)"
| "tab_deactivate (Input t) c = map_prod Input id (InputTab_deactivate t c)"
| "tab_deactivate (InOut t) c = map_prod InOut id (InOutTab_deactivate t c)"

fun tab_move :: "tab \<Rightarrow> tab \<times> tab" where
  "tab_move (Plain t) = map_prod Plain Plain (BasicTab_move t)"
| "tab_move (Button t) = map_prod Button Button (ButtonTab_move t)"
| "tab_move (Output t) = map_prod Output Output (OutputTab_move t)"
| "tab_move (Input t) = map_prod Input Input (InputTab_move t)"
| "tab_move (InOut t) = map_prod InOut InOut (InOutTab_move t)"

text \<open>The keys of the map of tabs are \<open>0, 1, \<dots>\<close>.\<close>

record nc_window =
  nw_tabs :: "tab list"
  nw_skip :: "nat list"
  nw_active :: nat

fun clear_tabs :: "tab list \<Rightarrow> curses \<Rightarrow> tab list \<times> curses" where
  "clear_tabs [] c = ([], c)"
| "clear_tabs (t # ts) c = (case tab_clear t c of (t1, c1) \<Rightarrow> (case clear_tabs ts c1 of (ts1, c2) \<Rightarrow> (t1 # ts1, c2)))"

definition NcWindow_clear :: "nc_window \<Rightarrow> curses \<Rightarrow> nc_window \<times> curses" where
  "NcWindow_clear w c = (case clear_tabs (nw_tabs w) c of (ts, c1) \<Rightarrow> (w\<lparr>nw_tabs := ts\<rparr>, c1))"

text \<open>The calls of \<open>draw\<close> on the tabs, in the order of their keys.\<close>

fun draw_tabs :: "(rect \<Rightarrow> bool) \<Rightarrow> rect list \<Rightarrow> tab list \<Rightarrow> curses \<Rightarrow> tab list painting" where
  "draw_tabs fits (r # rs) (t # ts) c = (case tab_draw fits r t c of
     (Some e, t1, c1) \<Rightarrow> (Some e, t1 # ts, c1)
   | (None, t1, c1) \<Rightarrow> (case draw_tabs fits rs ts c1 of (e, ts1, c2) \<Rightarrow> (e, t1 # ts1, c2)))"
| "draw_tabs fits rs ts c = (None, ts, c)"

definition NcWindow_draw :: "(rect \<Rightarrow> bool) \<Rightarrow> rect list \<Rightarrow> nc_window \<Rightarrow> curses \<Rightarrow> nc_window painting" where
  "NcWindow_draw fits rs w c = (case draw_tabs fits rs (nw_tabs w) c of (e, ts, c1) \<Rightarrow> (e, w\<lparr>nw_tabs := ts\<rparr>, c1))"

text \<open>\<open>resize\<close>\<close>

definition NcWindow_resize :: "(rect \<Rightarrow> bool) \<Rightarrow> rect list \<Rightarrow> nc_window \<Rightarrow> curses \<Rightarrow> nc_window painting" where
  "NcWindow_resize fits rs w c = (case NcWindow_clear w c of (w1, c1) \<Rightarrow> NcWindow_draw fits rs w1 c1)"

text \<open>\<open>switchActiveTab\<close>; \<open>None\<close>: the loop over the tabs does not end.\<close>

definition at_tab :: "nat \<Rightarrow> (tab \<Rightarrow> curses \<Rightarrow> tab \<times> curses) \<Rightarrow> nc_window \<Rightarrow> curses \<Rightarrow> nc_window \<times> curses" where
  "at_tab i f w c = (case f (nw_tabs w ! i) c of (t, c1) \<Rightarrow> (w\<lparr>nw_tabs := (nw_tabs w)[i := t]\<rparr>, c1))"

definition NcWindow_switch :: "int \<Rightarrow> nc_window \<Rightarrow> curses \<Rightarrow> (nc_window \<times> curses) option" where
  "NcWindow_switch index w c = (if nw_tabs w = [] then Some (w, c)
     else (case at_tab (nw_active w) tab_deactivate w c of (w1, c1) \<Rightarrow>
       map_option (\<lambda>i. at_tab i tab_activate (w1\<lparr>nw_active := i\<rparr>) c1)
         (switchActiveTab (length (nw_tabs w1)) (nw_skip w1) index (nw_active w1))))"

subsection \<open>The four windows\<close>

text \<open>The constructors; at the end each has switched to its first tab with input.\<close>

definition make_window :: "tab list \<Rightarrow> nat list \<Rightarrow> int \<Rightarrow> curses \<Rightarrow> (nc_window \<times> curses) option" where
  "make_window ts skip first c = NcWindow_switch first \<lparr>nw_tabs = ts, nw_skip = skip, nw_active = 0\<rparr> c"

definition LoginWindow :: "bool \<Rightarrow> curses \<Rightarrow> (nc_window \<times> curses) option" where
  "LoginWindow hc = make_window [Plain (BasicTab hc (-1) (int NC_BLUE_COLOR)), Output (OutputTab hc [] 0 (int NC_BLUE_COLOR)),
     Input (InputTab hc PROMPT 0 (int NC_BLUE_COLOR)), Button (ButtonTab hc ''CREATE NEW'' (int NC_GREEN_COLOR)),
     Button (ButtonTab hc ''CLOSE'' (int NC_RED_COLOR))] [0, 1] 2"

definition PlayerCreateWindow :: "bool \<Rightarrow> curses \<Rightarrow> (nc_window \<times> curses) option" where
  "PlayerCreateWindow hc = make_window [Plain (BasicTab hc (-1) (int NC_GREEN_COLOR)), Output (OutputTab hc [] 0 (int NC_GREEN_COLOR)),
     Input (InputTab hc PROMPT 0 (int NC_GREEN_COLOR)), Button (ButtonTab hc ''LOGIN'' (int NC_BLUE_COLOR)),
     Button (ButtonTab hc ''CLOSE'' (int NC_RED_COLOR))] [0, 1] 2"

definition GameWindow :: "bool \<Rightarrow> curses \<Rightarrow> (nc_window \<times> curses) option" where
  "GameWindow hc = make_window [Plain (BasicTab hc 0 (int NC_BLUE_COLOR)), Output (OutputTab hc [] 0 (int NC_BLUE_COLOR)),
     Output (OutputTab hc ''World events'' 0 (int NC_YELLOW_COLOR)), InOut (InOutTab hc PROMPT ''User Events'' 0 (int NC_CYAN_COLOR)),
     InOut (InOutTab hc PROMPT ''Chat'' 0 (int NC_GREEN_COLOR))] [0, 1] 3"

definition ErrorWindow :: "bool \<Rightarrow> nc_window" where
  "ErrorWindow hc = \<lparr>nw_tabs = [Plain (BasicTab hc (-1) (int NC_RED_COLOR)), Output (OutputTab hc ''ERROR'' 0 (int NC_RED_COLOR))],
     nw_skip = [0, 1], nw_active = 0\<rparr>"

text \<open>The buttons of the error window: cleared away with the window, set again for the next error.\<close>

definition ErrorWindow_clear :: "nc_window \<Rightarrow> curses \<Rightarrow> nc_window \<times> curses" where
  "ErrorWindow_clear w c = (case NcWindow_clear w c of (w1, c1) \<Rightarrow> (w1\<lparr>nw_tabs := take 2 (nw_tabs w1), nw_active := 0\<rparr>, c1))"

definition ErrorWindow_buttons :: "string \<Rightarrow> string option \<Rightarrow> nc_window \<Rightarrow> curses \<Rightarrow> (nc_window \<times> curses) option" where
  "ErrorWindow_buttons name1 name2 w c =
     map_option (\<lambda>(w1, c1). (case name2 of None \<Rightarrow> w1 | Some n \<Rightarrow> w1\<lparr>nw_tabs := nw_tabs w1 @ [Button (ButtonTab True n (-1))]\<rparr>, c1))
       (NcWindow_switch 2 (w\<lparr>nw_tabs := nw_tabs w @ [Button (ButtonTab True name1 (-1))]\<rparr>) c)"

definition form_rects :: "form_boxes \<Rightarrow> rect list" where
  "form_rects b = [fb_frame b, fb_info b, fb_username b, fb_button b, fb_close b]"

definition game_rects :: "game_boxes \<Rightarrow> rect list" where
  "game_rects b = [gb_frame b, gb_info b, gb_world b, gb_cmd b, gb_chat b]"

definition error_rects :: "error_boxes \<Rightarrow> rect list" where
  "error_rects b = [eb_frame b, eb_info b, eb_action1 b] @ (case eb_action2 b of None \<Rightarrow> [] | Some r \<Rightarrow> [r])"

subsection \<open>Which windows exist\<close>

lemma new_window_fresh: "Suc (foldr max xs 0) \<notin> set (xs :: nat list)"
proof -
  have "x \<le> foldr max xs 0" if "x \<in> set xs" for x using that by (induction xs) (auto simp: le_max_iff_disj)
  then show ?thesis using Suc_n_not_le_n by blast
qed

interpretation windows: resource_pool cu_live new_window delete_window "\<lambda>_. True"
  by unfold_locales (simp_all add: new_window_def delete_window_def Let_def new_window_fresh)

text \<open>Painting and the cursor leave the windows alone.\<close>

lemmas paint_defs = wattron_def wattroff_def paint_def clear_row_def repaint_line_def curs_set_def colour_on_def colour_off_def

lemma live_paint [simp]:
  "cu_live (wattron a i c) = cu_live c" "cu_live (wattroff a i c) = cu_live c" "cu_live (paint s i c) = cu_live c"
  "cu_live (clear_row i c) = cu_live c" "cu_live (repaint_line i c) = cu_live c" "cu_live (curs_set v c) = cu_live c"
  "cu_live (colour_on p i c) = cu_live c" "cu_live (colour_off p i c) = cu_live c"
  by (simp_all add: paint_defs)

lemma live_contents [simp]:
  "cu_live (button_label p b s i c) = cu_live c" "cu_live (title_window p s i c) = cu_live c"
  "cu_live (div_line p b i c) = cu_live c" "cu_live (prompt_line p b s l i c) = cu_live c" "cu_live (inout_prompt t i c) = cu_live c"
  by (simp_all add: button_label_def title_window_def div_line_def prompt_line_def inout_prompt_def)

lemma live_on_window: "(\<And>i. cu_live (f i c) = cu_live c) \<Longrightarrow> cu_live (on_window w f c) = cu_live c"
  by (simp add: on_window_def split: option.split)

lemma live_rewrites [simp]:
  "cu_live (button_rewrite m bt c) = cu_live c" "cu_live (rewrite_line m tt c) = cu_live c" "cu_live (InputTab_rewrite lt c) = cu_live c"
  by (simp_all add: button_rewrite_def rewrite_line_def InputTab_rewrite_def live_on_window)

lemma newwin_cases:
  assumes "newwin fits r c = (w, c1)" and "windows.owns A c0 c"
  shows "windows.owns (set_option w \<union> A) c0 c1 \<and> set_option w \<inter> A = {}"
  using assms windows.owns_acquire[OF assms(2)] by (auto simp: newwin_def split: if_splits prod.splits)

text \<open>The handles of a tab.\<close>

fun handles :: "tab \<Rightarrow> nat set" where
  "handles (Plain t) = set_option (t_border t)"
| "handles (Button t) = set_option (t_border t) \<union> set_option (t_btnWin t)"
| "handles (Output t) = set_option (t_border t) \<union> set_option (t_titleWin t) \<union> set_option (t_divLineWin t) \<union> set_option (t_outputWin t)"
| "handles (Input t) = set_option (t_border t) \<union> set_option (t_inputWin t)"
| "handles (InOut t) = set_option (t_border t) \<union> set_option (t_titleWin t) \<union> set_option (t_divLineWin t) \<union> set_option (t_outputWin t)
     \<union> set_option (t_inWin t) \<union> set_option (t_inFrame t)"

text \<open>\<open>grown hs lost A c0\<close>: what a drawing has added to \<open>A\<close> is in the handles, up to \<open>lost\<close> windows.\<close>

definition grown :: "('t \<Rightarrow> nat set) \<Rightarrow> nat \<Rightarrow> nat set \<Rightarrow> curses \<Rightarrow> 't painting \<Rightarrow> bool" where
  "grown hs lost A c0 p \<longleftrightarrow> (case p of (e, t, c) \<Rightarrow> \<exists>L. windows.owns (A \<union> L \<union> hs t) c0 c \<and> A \<inter> (L \<union> hs t) = {} \<and> L \<inter> hs t = {}
     \<and> card L \<le> lost \<and> finite L \<and> (e = None \<longrightarrow> card L = lost))"

lemma grown_I: "windows.owns (A \<union> hs t) c0 c \<Longrightarrow> A \<inter> hs t = {} \<Longrightarrow> e = None \<longrightarrow> lost = 0 \<Longrightarrow> grown hs lost A c0 (e, t, c)"
  by (auto simp: grown_def intro: exI[of _ "{}"])

text \<open>\<open>adds hs P lost Q f\<close>: started on a tab with \<open>P\<close>, the drawing \<open>f\<close> grows and leaves one with \<open>Q\<close>.\<close>

definition adds :: "('t \<Rightarrow> nat set) \<Rightarrow> ('t \<Rightarrow> bool) \<Rightarrow> nat \<Rightarrow> ('t \<Rightarrow> bool) \<Rightarrow> ('t \<Rightarrow> curses \<Rightarrow> 't painting) \<Rightarrow> bool" where
  "adds hs P lost Q f \<longleftrightarrow> (\<forall>A c0 t c. P t \<longrightarrow> windows.owns (A \<union> hs t) c0 c \<longrightarrow> A \<inter> hs t = {} \<longrightarrow>
     grown hs lost A c0 (f t c) \<and> (fst (f t c) = None \<longrightarrow> Q (fst (snd (f t c)))))"

lemma addsD: "adds hs P lost Q f \<Longrightarrow> P t \<Longrightarrow> windows.owns (A \<union> hs t) c0 c \<Longrightarrow> A \<inter> hs t = {} \<Longrightarrow>
    grown hs lost A c0 (f t c) \<and> (fst (f t c) = None \<longrightarrow> Q (fst (snd (f t c))))"
  unfolding adds_def by blast

lemma adds_then:
  assumes f: "adds hs P l1 Q f" and g: "adds hs Q l2 R g"
  shows "adds hs P (l1 + l2) R (\<lambda>t c. draw_then (f t c) g id)"
  unfolding adds_def
proof (intro allI impI)
  fix A c0 t c
  assume pre: "P t" "windows.owns (A \<union> hs t) c0 c" "A \<inter> hs t = {}"
  obtain e t1 c1 where p: "f t c = (e, t1, c1)" by (metis prod_cases3)
  obtain L where L: "windows.owns (A \<union> L \<union> hs t1) c0 c1" "A \<inter> (L \<union> hs t1) = {}" "L \<inter> hs t1 = {}" "card L \<le> l1" "finite L"
      "e = None \<longrightarrow> card L = l1" and q: "e = None \<longrightarrow> Q t1"
    using addsD[OF f pre] by (auto simp: grown_def p)
  show "grown hs (l1 + l2) A c0 (draw_then (f t c) g id) \<and>
      (fst (draw_then (f t c) g id) = None \<longrightarrow> R (fst (snd (draw_then (f t c) g id))))"
  proof (cases e)
    case (Some x)
    then show ?thesis using L by (auto simp: p draw_then_def grown_def intro: exI[of _ L])
  next
    case None
    obtain e2 t2 c2 where p2: "g t1 c1 = (e2, t2, c2)" by (metis prod_cases3)
    have "(A \<union> L) \<inter> hs t1 = {}" using L by blast
    from addsD[OF g _ L(1) this] q None obtain L2 where L2: "windows.owns ((A \<union> L) \<union> L2 \<union> hs t2) c0 c2" "(A \<union> L) \<inter> (L2 \<union> hs t2) = {}"
        "L2 \<inter> hs t2 = {}" "card L2 \<le> l2" "finite L2" "e2 = None \<longrightarrow> card L2 = l2" "e2 = None \<longrightarrow> R t2"
      by (auto simp: grown_def p2)
    have c: "card (L \<union> L2) = card L + card L2" using L(5) L2(2,5) by (intro card_Un_disjoint) auto
    show ?thesis unfolding p draw_then_def None prod.case option.case p2 grown_def
      by (intro conjI exI[of _ "L \<union> L2"]) (use L L2 c None in \<open>auto simp: Un_assoc\<close>)
  qed
qed

lemma adds_window:
  assumes "\<And>w t. P t \<Longrightarrow> hs (store w t) = set_option w \<union> hs t" and "\<And>i t. P t \<Longrightarrow> Q (store (Some i) t)"
    and "\<And>i t c. cu_live (content t i c) = cu_live c"
  shows "adds hs P 0 Q (\<lambda>t. draw_window_of fits (r t) store (content t) t)"
  unfolding adds_def
proof (intro allI impI)
  fix A c0 t c
  assume pre: "P t" "windows.owns (A \<union> hs t) c0 c" "A \<inter> hs t = {}"
  obtain w c1 where w: "newwin fits (r t) c = (w, c1)" by (cases "newwin fits (r t) c")
  note o = newwin_cases[OF w pre(2)]
  show "grown hs 0 A c0 (draw_window_of fits (r t) store (content t) t c) \<and>
      (fst (draw_window_of fits (r t) store (content t) t c) = None \<longrightarrow> Q (fst (snd (draw_window_of fits (r t) store (content t) t c))))"
  proof (cases w)
    case None
    then show ?thesis using o pre assms(1)[OF pre(1), of None]
      by (auto simp: draw_window_of_def w invalid_size_def intro!: grown_I)
  next
    case (Some i)
    have "windows.owns (A \<union> hs (store (Some i) t)) c0 (content t i c1)"
      using o Some assms(1)[OF pre(1), of "Some i"] assms(3)[of t i c1] by (auto intro!: windows.owns_cong[of "content t i c1" c1])
    then show ?thesis using o pre Some assms(1)[OF pre(1), of "Some i"] assms(2)[OF pre(1)]
      by (auto simp: draw_window_of_def w intro!: grown_I)
  qed
qed

lemma adds_crash: "adds hs P lost Q (\<lambda>t c. (Some e, t, c))"
  by (auto simp: adds_def intro!: grown_I)

lemma adds_if: "adds hs P lost Q f \<Longrightarrow> adds hs P lost Q g \<Longrightarrow> adds hs P lost Q (\<lambda>t c. if b t then f t c else g t c)"
  by (simp add: adds_def)

lemma adds_weaken: "adds hs P lost Q f \<Longrightarrow> (\<And>t. P' t \<Longrightarrow> P t) \<Longrightarrow> adds hs P' lost Q f"
  by (simp add: adds_def)

lemma BasicTab_adds:
  assumes "\<And>w t. P t \<Longrightarrow> hs (t\<lparr>t_border := w\<rparr>) = set_option w \<union> hs t" and "\<And>i t. P t \<Longrightarrow> Q (t\<lparr>t_border := Some i\<rparr>)"
  shows "adds hs P 0 Q (BasicTab_draw fits r)"
proof -
  have eq: "BasicTab_draw fits r = (\<lambda>t :: 'a basic_tab_scheme. draw_window_of fits r (\<lambda>w t. t\<lparr>t_border := w\<rparr>)
      (\<lambda>i c1. if t_borderChar t \<noteq> -1 then colour_off (t_color t) i (paint Frame i (colour_on (t_color t) i c1)) else c1) t)"
    by (intro ext) (simp add: BasicTab_draw_def draw_window_of_def split: prod.split option.split)
  show ?thesis unfolding eq by (rule adds_window) (use assms in simp_all)
qed

definition text_handles :: "'a text_tab_scheme \<Rightarrow> nat set" where
  "text_handles t = set_option (t_border t) \<union> set_option (t_titleWin t) \<union> set_option (t_divLineWin t) \<union> set_option (t_outputWin t)"

lemma OutputTab_adds:
  "adds text_handles (\<lambda>t. t_border t = None \<and> t_titleWin t = None \<and> t_divLineWin t = None \<and> t_outputWin t = None) 0 (\<lambda>_. True) (OutputTab_draw fits r)"
  (is "adds _ ?P 0 _ _")
proof -
  let ?Q = "\<lambda>t :: 'a text_tab_scheme. t_titleWin t = None \<and> t_divLineWin t = None \<and> t_outputWin t = None"
  have body: "adds text_handles (\<lambda>t. t_outputWin t = None) 0 (\<lambda>_. True) (\<lambda>t :: 'a text_tab_scheme. OutputTab_body fits (rest t) t)" for rest
    unfolding OutputTab_body_def by (rule adds_window) (auto simp: text_handles_def)
  have line: "adds text_handles (\<lambda>t. t_divLineWin t = None \<and> t_outputWin t = None) 0 (\<lambda>t. t_outputWin t = None) (\<lambda>t :: 'a text_tab_scheme. OutputTab_line fits (framed r t) t)"
    unfolding OutputTab_line_def by (rule adds_window) (auto simp: text_handles_def)
  have title: "adds text_handles ?Q 0 (\<lambda>t. t_divLineWin t = None \<and> t_outputWin t = None) (\<lambda>t. OutputTab_title fits (framed r t) t)"
    unfolding OutputTab_title_def by (rule adds_window) (auto simp: text_handles_def)
  have frame: "adds text_handles ?P 0 ?Q (BasicTab_draw fits r)"
    by (rule BasicTab_adds) (auto simp: text_handles_def)
  have inside: "adds text_handles ?Q 0 (\<lambda>_. True) (\<lambda>t c.
     if t_title t = [] then OutputTab_body fits (framed r t) t c
     else if \<not> int (length (t_title t)) < r_w (framed r t) + 1 then (Some Crash, t, c)
     else draw_then (draw_then (OutputTab_title fits (framed r t) t c) (\<lambda>t. OutputTab_line fits (framed r t) t) id)
       (\<lambda>t. OutputTab_body fits (title_rest (framed r t)) t) id)"
    by (intro adds_if adds_crash adds_weaken[OF body] adds_then[OF adds_then[OF title line] body, simplified]) simp
  show ?thesis using adds_then[OF frame inside] unfolding OutputTab_draw_def by simp
qed

lemma InputTab_adds:
  "adds (handles \<circ> Input) (\<lambda>t. t_border t = None \<and> t_inputWin t = None) 0 (\<lambda>_. True) (InputTab_draw fits r)"
proof -
  have line: "adds (handles \<circ> Input) (\<lambda>t. t_inputWin t = None) 0 (\<lambda>_. True) (\<lambda>t. draw_window_of fits (if t_border t \<noteq> None then inner r else r)
      (\<lambda>w t. t\<lparr>t_inputWin := w\<rparr>) (prompt_line (t_color t) (t_active t) (t_prompt t) (t_line t)) t)"
    by (rule adds_window) auto
  have frame: "adds (handles \<circ> Input) (\<lambda>t. t_border t = None \<and> t_inputWin t = None) 0 (\<lambda>t. t_inputWin t = None) (BasicTab_draw fits r)"
    by (rule BasicTab_adds) auto
  show ?thesis using adds_then[OF frame line] unfolding InputTab_draw_def by simp
qed

text \<open>The second frame of a button replaces the handle of the first.\<close>

lemma button_frame_adds:
  assumes "\<And>i c. cu_live (content t0 i c) = cu_live c"
  shows "adds (handles \<circ> Button) (\<lambda>t. t_border t \<noteq> None \<and> t_btnWin t = None) 1 (\<lambda>t. t_btnWin t = None)
    (draw_window_of fits r (\<lambda>w t. t\<lparr>t_border := w\<rparr>) (content t0))"
  unfolding adds_def
proof (intro allI impI)
  fix A c0 and t :: button_tab and c
  assume pre: "t_border t \<noteq> None \<and> t_btnWin t = None" "windows.owns (A \<union> (handles \<circ> Button) t) c0 c" "A \<inter> (handles \<circ> Button) t = {}"
  then obtain j where j: "t_border t = Some j" "t_btnWin t = None" by auto
  obtain w c1 where w: "newwin fits r c = (w, c1)" by (cases "newwin fits r c")
  have o: "windows.owns (set_option w \<union> (A \<union> {j})) c0 c1" "set_option w \<inter> (A \<union> {j}) = {}" "j \<notin> A"
    using newwin_cases[OF w pre(2)] pre(3) by (simp_all add: j)
  have "windows.owns (A \<union> {j} \<union> set_option w) c0 (case w of None \<Rightarrow> c1 | Some i \<Rightarrow> content t0 i c1)"
  proof (rule windows.owns_cong[of _ c1])
    show "cu_live (case w of None \<Rightarrow> c1 | Some i \<Rightarrow> content t0 i c1) = cu_live c1" by (simp add: assms split: option.split)
    have "A \<union> {j} \<union> set_option w = set_option w \<union> (A \<union> {j})" by blast
    then show "windows.owns (A \<union> {j} \<union> set_option w) c0 c1" using o(1) by (simp only:)
  qed
  then show "grown (handles \<circ> Button) 1 A c0 (draw_window_of fits r (\<lambda>w t. t\<lparr>t_border := w\<rparr>) (content t0) t c) \<and>
      (fst (draw_window_of fits r (\<lambda>w t. t\<lparr>t_border := w\<rparr>) (content t0) t c) = None \<longrightarrow>
        t_btnWin (fst (snd (draw_window_of fits r (\<lambda>w t. t\<lparr>t_border := w\<rparr>) (content t0) t c))) = None)"
    unfolding draw_window_of_def w grown_def using o(2,3)
    by (cases w) (simp_all add: invalid_size_def j, (rule exI[of _ "{j}"], simp)+)
qed

lemma ButtonTab_adds:
  assumes "handles (Button t) = {}" and "windows.owns A c0 c"
  shows "grown (handles \<circ> Button) 1 A c0 (ButtonTab_draw fits y x t c)"
proof -
  have n: "t_border t = None" "t_btnWin t = None" using assms(1) by auto
  let ?r = "box 3 (int (length (t_content t)) + 2) y x"
  let ?content = "\<lambda>t i c. wattroff A_BOLD i ((if t_active t then wattroff A_BLINK i else id) (paint Frame i (wattron A_BOLD i (colour_on (t_color t) i c))))"
  have frame: "adds (handles \<circ> Button) (\<lambda>t. t_border t = None \<and> t_btnWin t = None) 0 (\<lambda>t. t_border t \<noteq> None \<and> t_btnWin t = None) (BasicTab_draw fits ?r)"
    by (rule BasicTab_adds) auto
  have frame2: "adds (handles \<circ> Button) (\<lambda>t. t_border t \<noteq> None \<and> t_btnWin t = None) 1 (\<lambda>t. t_btnWin t = None)
      (draw_window_of fits ?r (\<lambda>w t. t\<lparr>t_border := w\<rparr>) (?content t))"
    by (rule button_frame_adds) simp
  have label: "adds (handles \<circ> Button) (\<lambda>t. t_btnWin t = None) 0 (\<lambda>_. True)
      (\<lambda>u. draw_window_of fits (box 1 (int (length (t_content t))) (y + 1) (x + 1)) (\<lambda>w t. t\<lparr>t_btnWin := w\<rparr>)
         (button_label (t_color t) (t_active t) (t_content t)) u)"
    by (rule adds_window) auto
  from addsD[OF adds_then[OF adds_then[OF frame frame2] label], of t A c0 c] assms n show ?thesis
    by (simp add: ButtonTab_draw_def Let_def)
qed

lemma InOutTab_adds:
  "adds (handles \<circ> InOut) (\<lambda>t. handles (InOut t) = {}) 0 (\<lambda>_. True) (InOutTab_draw fits r)"
proof -
  let ?N3 = "\<lambda>t. t_outputWin t = None \<and> t_inFrame t = None \<and> t_inWin t = None"
  let ?N2 = "\<lambda>t. t_divLineWin t = None \<and> ?N3 t"
  let ?N1 = "\<lambda>t. t_titleWin t = None \<and> ?N2 t"
  have out: "adds (handles \<circ> InOut) ?N3 0 (\<lambda>t. t_inFrame t = None \<and> t_inWin t = None) (\<lambda>t. OutputTab_body fits (rest t) t)" for rest
    unfolding OutputTab_body_def by (rule adds_window) auto
  have frm: "adds (handles \<circ> InOut) (\<lambda>t. t_inFrame t = None \<and> t_inWin t = None) 0 (\<lambda>t. t_inWin t = None) (\<lambda>t. InOutTab_frame fits (rest t) t)" for rest
    unfolding InOutTab_frame_def by (rule adds_window) auto
  have inp: "adds (handles \<circ> InOut) (\<lambda>t. t_inWin t = None) 0 (\<lambda>_. True) (\<lambda>t. InOutTab_input fits (rest t) t)" for rest
    unfolding InOutTab_input_def by (rule adds_window) auto
  have body: "adds (handles \<circ> InOut) ?N3 0 (\<lambda>_. True) (InOutTab_body fits rest)" for rest
    using adds_then[OF adds_then[OF out[of "\<lambda>t. box (r_h (rest t) - 3) (r_w (rest t)) (r_y (rest t)) (r_x (rest t))"] frm[of rest]] inp[of rest]]
    unfolding InOutTab_body_def by simp
  have line: "adds (handles \<circ> InOut) ?N2 0 ?N3 (\<lambda>t. OutputTab_line fits (framed r t) t)"
    unfolding OutputTab_line_def by (rule adds_window) auto
  have title: "adds (handles \<circ> InOut) ?N1 0 ?N2 (\<lambda>t. InOutTab_title fits (framed r t) t)"
    unfolding adds_def
  proof (intro allI impI)
    fix A c0 t c
    assume pre: "?N1 t" "windows.owns (A \<union> (handles \<circ> InOut) t) c0 c" "A \<inter> (handles \<circ> InOut) t = {}"
    obtain w c1 where w: "newwin fits (title_box (framed r t) (t_title t)) c = (w, c1)" by (metis surj_pair)
    note o = newwin_cases[OF w pre(2)]
    have "windows.owns (A \<union> (handles \<circ> InOut) (t\<lparr>t_titleWin := w\<rparr>)) c0 c2" if "cu_live c2 = cu_live c1" for c2
      using o pre by (intro windows.owns_cong[OF that]) (auto simp: ac_simps insert_commute)
    then show "grown (handles \<circ> InOut) 0 A c0 (InOutTab_title fits (framed r t) t c) \<and>
        (fst (InOutTab_title fits (framed r t) t c) = None \<longrightarrow> ?N2 (fst (snd (InOutTab_title fits (framed r t) t c))))"
      using o pre by (cases "t_border t") (auto simp: InOutTab_title_def w Let_def invalid_size_def live_on_window intro!: grown_I)
  qed
  have frame: "adds (handles \<circ> InOut) (\<lambda>t. t_border t = None \<and> ?N1 t) 0 ?N1 (BasicTab_draw fits r)"
    by (rule BasicTab_adds) auto
  have inside: "adds (handles \<circ> InOut) ?N1 0 (\<lambda>_. True) (\<lambda>t c.
     if t_title t = [] then InOutTab_body fits (framed r) t c
     else if \<not> int (length (t_title t)) < r_w (framed r t) + 1 then (Some Crash, t, c)
     else draw_then (draw_then (InOutTab_title fits (framed r t) t c) (\<lambda>t. OutputTab_line fits (framed r t) t) id)
       (InOutTab_body fits (\<lambda>t. title_rest (framed r t))) id)"
    by (intro adds_if adds_crash adds_weaken[OF body] adds_then[OF adds_then[OF title line] body, simplified]) simp
  have "adds (handles \<circ> InOut) (\<lambda>t. t_border t = None \<and> ?N1 t) 0 (\<lambda>_. True) (InOutTab_draw fits r)"
    using adds_then[OF frame inside] unfolding InOutTab_draw_def by simp
  then show ?thesis by (rule adds_weaken) auto
qed

text \<open>Any tab: a drawn button has lost one window.\<close>

fun lost_by :: "tab \<Rightarrow> nat" where
  "lost_by (Button t) = 1"
| "lost_by t = 0"

lemma grown_map: "grown (hs \<circ> f) lost A c0 p \<Longrightarrow> grown hs lost A c0 (map_prod id (map_prod f id) p)"
  by (cases p) (auto simp: grown_def)

lemma tab_draw_grown:
  assumes "handles t = {}" and "windows.owns A c0 c"
  shows "grown handles (lost_by t) A c0 (tab_draw fits r t c)"
proof (cases t)
  case (Plain b)
  have "adds (handles \<circ> Plain) (\<lambda>t. t_border t = None) 0 (\<lambda>_. True) (BasicTab_draw fits r)" by (rule BasicTab_adds) auto
  from addsD[OF this, of b A c0 c] show ?thesis using assms Plain by (auto intro!: grown_map)
next
  case (Button b)
  from ButtonTab_adds[of b A c0 c fits "r_y r" "r_x r"] show ?thesis using assms Button by (auto intro!: grown_map)
next
  case (Output b)
  have "handles \<circ> Output = text_handles" by (auto simp: text_handles_def)
  with addsD[OF OutputTab_adds, of b A c0 c fits r] show ?thesis using assms Output
    by (auto simp: text_handles_def intro!: grown_map)
next
  case (Input b)
  from addsD[OF InputTab_adds, of b A c0 c fits r] show ?thesis using assms Input by (auto intro!: grown_map)
next
  case (InOut b)
  from addsD[OF InOutTab_adds, of b A c0 c fits r] show ?thesis using assms InOut by (auto intro!: grown_map)
qed

subsection \<open>Clearing gives the handles back\<close>

lemma drop_owns:
  assumes "windows.owns A c0 c" and "set_option w \<inter> set (cu_live c0) = {}"
  shows "windows.owns (A - set_option w) c0 (drop_window w c)"
  using assms by (cases w) (auto simp: drop_window_def on_window_def intro: windows.owns_release_any)

text \<open>A tab without a title has no line beside it; \<open>clear\<close> relies on that.\<close>

fun titled :: "tab \<Rightarrow> bool" where
  "titled (Output t) = (t_titleWin t = None \<longrightarrow> t_divLineWin t = None)"
| "titled (InOut t) = (t_titleWin t = None \<longrightarrow> t_divLineWin t = None)"
| "titled t = True"

lemma drop_all:
  "windows.owns A c0 c \<Longrightarrow> (\<Union>w \<in> set ws. set_option w) \<inter> set (cu_live c0) = {} \<Longrightarrow>
   windows.owns (A - (\<Union>w \<in> set ws. set_option w)) c0 (fold drop_window ws c)"
proof (induction ws arbitrary: A c)
  case (Cons w ws)
  have "windows.owns (A - set_option w) c0 (drop_window w c)" by (rule drop_owns) (use Cons.prems in auto)
  from Cons.IH[OF this] Cons.prems(2) have
    "windows.owns (A - set_option w - (\<Union>w \<in> set ws. set_option w)) c0 (fold drop_window ws (drop_window w c))" by auto
  moreover have "A - set_option w - (\<Union>w \<in> set ws. set_option w) = A - (\<Union>w \<in> set (w # ws). set_option w)" by auto
  ultimately show ?case by (simp only: fold.simps o_apply)
qed simp

fun handle_list :: "tab \<Rightarrow> nat option list" where
  "handle_list (Plain t) = [t_border t]"
| "handle_list (Button t) = [t_border t, t_btnWin t]"
| "handle_list (Output t) = [t_border t, t_titleWin t, t_divLineWin t, t_outputWin t]"
| "handle_list (Input t) = [t_border t, t_inputWin t]"
| "handle_list (InOut t) = [t_border t, t_inWin t, t_titleWin t, t_divLineWin t, t_outputWin t, t_inFrame t]"

lemma handle_list_set: "(\<Union>w \<in> set (handle_list t). set_option w) = handles t"
  by (cases t) auto

fun blank :: "tab \<Rightarrow> tab" where
  "blank (Plain t) = Plain (t\<lparr>t_border := None\<rparr>)"
| "blank (Button t) = Button (t\<lparr>t_border := None, t_btnWin := None\<rparr>)"
| "blank (Output t) = Output (t\<lparr>t_border := None, t_titleWin := None, t_divLineWin := None, t_outputWin := None\<rparr>)"
| "blank (Input t) = Input (t\<lparr>t_border := None, t_inputWin := None\<rparr>)"
| "blank (InOut t) = InOut (t\<lparr>t_border := None, t_titleWin := None, t_divLineWin := None, t_outputWin := None, t_inWin := None, t_inFrame := None\<rparr>)"

lemma drop_None [simp]: "drop_window None c = c"
  by (simp add: drop_window_def on_window_def)

lemma tab_clear_blank: "titled t \<Longrightarrow> tab_clear t c = (blank t, fold drop_window (handle_list t) c)"
  by (cases t) (auto simp: BasicTab_clear_def ButtonTab_clear_def OutputTab_clear_def InputTab_clear_def InOutTab_clear_def)

lemma cleared_simps [simp]: "handles (blank t) = {}" "lost_by (blank t) = lost_by t" "titled (blank t)"
  by (cases t; simp)+

text \<open>A tab that is moved hands all its windows to the new tab and keeps none, so that no window is deleted twice.\<close>

lemma tab_move_blank: "tab_move t = (t, blank t)"
  by (cases t) (simp_all add: BasicTab_move_def ButtonTab_move_def OutputTab_move_def InputTab_move_def InOutTab_move_def)

lemma moved_tab_keeps_nothing: "snd (tab_clear (snd (tab_move t)) c) = c"
proof -
  have "fold drop_window (handle_list (blank t)) c = c" by (cases t) simp_all
  then show ?thesis by (simp add: tab_move_blank tab_clear_blank)
qed

lemma BasicTab_assign_owns:
  "windows.owns A c0 c \<Longrightarrow> set_option (t_border t) \<inter> set (cu_live c0) = {} \<Longrightarrow> set_option (t_border t) \<inter> set_option (t_border u) = {} \<Longrightarrow>
   set_option (t_border t) \<union> set_option (t_border u) \<subseteq> A \<Longrightarrow> BasicTab_assign False t u c = (t', u', c') \<Longrightarrow>
   windows.owns (A - set_option (t_border t)) c0 c' \<and> t_border t' = t_border u \<and> t_border u' = None"
  using drop_owns[of A c0 c "t_border t"] by (auto simp: BasicTab_assign_def)

lemma clear_tabs_owns:
  "windows.owns A c0 c \<Longrightarrow> (\<Union>t \<in> set ts. handles t) \<inter> set (cu_live c0) = {} \<Longrightarrow> \<forall>t \<in> set ts. titled t \<Longrightarrow>
   \<exists>c'. clear_tabs ts c = (map blank ts, c') \<and> windows.owns (A - (\<Union>t \<in> set ts. handles t)) c0 c'"
proof (induction ts arbitrary: A c)
  case (Cons t ts)
  let ?c = "fold drop_window (handle_list t) c"
  have "windows.owns (A - handles t) c0 ?c"
    using drop_all[OF Cons.prems(1), of "handle_list t"] Cons.prems(2) unfolding handle_list_set by auto
  from Cons.IH[OF this] Cons.prems obtain c' where c': "clear_tabs ts ?c = (map blank ts, c')"
      "windows.owns (A - handles t - (\<Union>t \<in> set ts. handles t)) c0 c'" by auto
  moreover have "A - handles t - (\<Union>t \<in> set ts. handles t) = A - (\<Union>t \<in> set (t # ts). handles t)" by auto
  ultimately show ?case using Cons.prems(3) by (simp add: tab_clear_blank)
qed simp

text \<open>Drawing a whole window.\<close>

lemma draw_tabs_grown:
  "\<forall>t \<in> set ts. handles t = {} \<Longrightarrow> length rs = length ts \<Longrightarrow> windows.owns A c0 c \<Longrightarrow>
   grown (\<lambda>ts. \<Union>t \<in> set ts. handles t) (sum_list (map lost_by ts)) A c0 (draw_tabs fits rs ts c)"
proof (induction fits rs ts c arbitrary: A rule: draw_tabs.induct)
  case (1 fits r rs t ts c)
  obtain e t1 c1 where d: "tab_draw fits r t c = (e, t1, c1)" by (metis prod_cases3)
  obtain L where L: "windows.owns (A \<union> L \<union> handles t1) c0 c1" "A \<inter> (L \<union> handles t1) = {}" "L \<inter> handles t1 = {}" "card L \<le> lost_by t"
      "finite L" "e = None \<longrightarrow> card L = lost_by t"
    using tab_draw_grown[of t A c0 c fits r] "1.prems" by (auto simp: grown_def d)
  have blank: "(\<Union>t \<in> set ts. handles t) = {}" using "1.prems"(1) by simp
  show ?case
  proof (cases e)
    case (Some x)
    then show ?thesis using L d blank by (auto simp: grown_def intro!: exI[of _ L])
  next
    case None
    obtain e2 ts2 c2 where d2: "draw_tabs fits rs ts c1 = (e2, ts2, c2)" by (metis prod_cases3)
    from "1.IH"[OF d[symmetric] None refl, of "A \<union> L \<union> handles t1"] "1.prems" L(1) obtain L2 where
      L2: "windows.owns (A \<union> L \<union> handles t1 \<union> L2 \<union> (\<Union>t \<in> set ts2. handles t)) c0 c2"
        "(A \<union> L \<union> handles t1) \<inter> (L2 \<union> (\<Union>t \<in> set ts2. handles t)) = {}" "L2 \<inter> (\<Union>t \<in> set ts2. handles t) = {}"
        "card L2 \<le> sum_list (map lost_by ts)" "finite L2" "e2 = None \<longrightarrow> card L2 = sum_list (map lost_by ts)"
      by (auto simp: grown_def d2)
    have c: "card (L \<union> L2) = card L + card L2" using L(5) L2(2,5) by (intro card_Un_disjoint) auto
    have o: "windows.owns (A \<union> (L \<union> L2) \<union> (\<Union>t \<in> set (t1 # ts2). handles t)) c0 c2"
      using L2(1) by (simp add: Un_assoc Un_left_commute)
    show ?thesis unfolding draw_tabs.simps d None d2 prod.case option.case grown_def
      by (intro conjI exI[of _ "L \<union> L2"]) (use o L L2(2-) c None in \<open>auto\<close>)
  qed
qed (auto intro!: grown_I)

end
