(* ===== verification/PaintingCorrect.thy ===== *)
theory PaintingCorrect
  imports Painting
begin

text \<open>
  What the tabs of the CLI do to the screen, over whole windows: which ncurses windows a window that is drawn,
  resized and cleared has lost, and that at every moment exactly the active tab blinks.
\<close>

subsection \<open>Redrawing\<close>

lemma newwin_fits: "fits r \<Longrightarrow> newwin fits r c = (Some (fst (new_window c)), snd (new_window c))"
  by (simp add: newwin_def split: prod.split)

lemma draw_then_keeps:
  "I (fst (snd p)) \<Longrightarrow> (\<And>t c. I t \<Longrightarrow> I (fst (snd (f t c)))) \<Longrightarrow> I (fst (snd (draw_then p f id)))"
  by (auto simp: draw_then_def split: prod.splits option.splits)

lemma draw_window_keeps: "I (store None t) \<Longrightarrow> (\<And>i. I (store (Some i) t)) \<Longrightarrow> I (fst (snd (draw_window_of fits r store content t c)))"
  by (auto simp: draw_window_of_def invalid_size_def split: prod.splits option.splits)

lemma BasicTab_keeps: "(\<And>w. I (t\<lparr>t_border := w\<rparr>)) \<Longrightarrow> I (fst (snd (BasicTab_draw fits r t c)))"
  by (auto simp: BasicTab_draw_def invalid_size_def split: prod.splits option.splits)

text \<open>What a drawing does not change.\<close>

fun static :: "tab \<Rightarrow> int \<times> bool \<times> nat" where
  "static (Plain t) = (t_color t, t_active t, 0)"
| "static (Button t) = (t_color t, t_active t, 1)"
| "static (Output t) = (t_color t, t_active t, 2)"
| "static (Input t) = (t_color t, t_active t, 3)"
| "static (InOut t) = (t_color t, t_active t, 4)"

lemma static_lost: "static t' = static t \<Longrightarrow> lost_by t' = lost_by t"
  by (cases t; cases t') auto

lemma tab_draw_static: "static (fst (snd (tab_draw fits r t c))) = static t"
proof (cases t)
  case (Plain b)
  note keeps = BasicTab_keeps[where I = "\<lambda>u. static (Plain u) = static (Plain b)"]
  show ?thesis using keeps[of b fits r c] by (simp add: Plain)
next
  case (Button b)
  let ?I = "\<lambda>u. static (Button u) = static (Button b)"
  note th = draw_then_keeps[where I = ?I] and dw = draw_window_keeps[where I = ?I] and basic = BasicTab_keeps[where I = ?I]
  have "?I (fst (snd (ButtonTab_draw fits (r_y r) (r_x r) b c)))"
    unfolding ButtonTab_draw_def Let_def by (rule th, rule th, rule basic, simp, rule dw, simp, simp, rule dw, simp, simp)
  then show ?thesis by (simp add: Button)
next
  case (Output b)
  let ?I = "\<lambda>u. static (Output u) = static (Output b)"
  note th = draw_then_keeps[where I = ?I] and dw = draw_window_keeps[where I = ?I] and basic = BasicTab_keeps[where I = ?I]
  have body: "?I u \<Longrightarrow> ?I (fst (snd (OutputTab_body fits q u k)))" and line: "?I u \<Longrightarrow> ?I (fst (snd (OutputTab_line fits q u k)))"
    and title: "?I u \<Longrightarrow> ?I (fst (snd (OutputTab_title fits q u k)))" for q u k
    unfolding OutputTab_body_def OutputTab_line_def OutputTab_title_def by (rule dw, simp, simp)+
  have "?I (fst (snd (if t_title u = [] then OutputTab_body fits (framed r u) u k
       else if \<not> int (length (t_title u)) < r_w (framed r u) + 1 then (Some Crash, u, k)
       else draw_then (draw_then (OutputTab_title fits (framed r u) u k) (\<lambda>t. OutputTab_line fits (framed r t) t) id)
         (\<lambda>t. OutputTab_body fits (title_rest (framed r t)) t) id)))" if "?I u" for u k
  proof -
    have "?I (fst (snd (draw_then (draw_then (OutputTab_title fits (framed r u) u k) (\<lambda>t. OutputTab_line fits (framed r t) t) id)
         (\<lambda>t. OutputTab_body fits (title_rest (framed r t)) t) id)))"
      by (rule th, rule th, rule title[OF that], rule line, assumption, rule body, assumption)
    then show ?thesis using body[OF that] that by simp
  qed
  then have "?I (fst (snd (OutputTab_draw fits r b c)))"
    unfolding OutputTab_draw_def by (intro th) (rule basic, simp)
  then show ?thesis by (simp add: Output)
next
  case (Input b)
  let ?I = "\<lambda>u. static (Input u) = static (Input b)"
  note th = draw_then_keeps[where I = ?I] and dw = draw_window_keeps[where I = ?I] and basic = BasicTab_keeps[where I = ?I]
  have "?I (fst (snd (InputTab_draw fits r b c)))"
    unfolding InputTab_draw_def by (rule th, rule basic, simp, rule dw, simp, simp)
  then show ?thesis by (simp add: Input)
next
  case (InOut b)
  let ?I = "\<lambda>u. static (InOut u) = static (InOut b)"
  note th = draw_then_keeps[where I = ?I] and dw = draw_window_keeps[where I = ?I] and basic = BasicTab_keeps[where I = ?I]
  have title: "?I u \<Longrightarrow> ?I (fst (snd (InOutTab_title fits q u k)))" for q u k
    by (auto simp: InOutTab_title_def Let_def invalid_size_def split: prod.split)
  have line: "?I u \<Longrightarrow> ?I (fst (snd (OutputTab_line fits q u k)))" and out: "?I u \<Longrightarrow> ?I (fst (snd (OutputTab_body fits q u k)))"
    and frm: "?I u \<Longrightarrow> ?I (fst (snd (InOutTab_frame fits q u k)))" and inp: "?I u \<Longrightarrow> ?I (fst (snd (InOutTab_input fits q u k)))" for q u k
    unfolding OutputTab_line_def OutputTab_body_def InOutTab_frame_def InOutTab_input_def by (rule dw, simp, simp)+
  have body: "?I u \<Longrightarrow> ?I (fst (snd (InOutTab_body fits q u k)))" for q u k
    unfolding InOutTab_body_def by (rule th, rule th, rule out, assumption, rule frm, assumption, rule inp, assumption)
  have "?I (fst (snd (if t_title u = [] then InOutTab_body fits (framed r) u k
       else if \<not> int (length (t_title u)) < r_w (framed r u) + 1 then (Some Crash, u, k)
       else draw_then (draw_then (InOutTab_title fits (framed r u) u k) (\<lambda>t. OutputTab_line fits (framed r t) t) id)
         (InOutTab_body fits (\<lambda>t. title_rest (framed r t))) id)))" if "?I u" for u k
  proof -
    have "?I (fst (snd (draw_then (draw_then (InOutTab_title fits (framed r u) u k) (\<lambda>t. OutputTab_line fits (framed r t) t) id)
         (InOutTab_body fits (\<lambda>t. title_rest (framed r t))) id)))"
      by (rule th, rule th, rule title[OF that], rule line, assumption, rule body, assumption)
    then show ?thesis using body[OF that] that by simp
  qed
  then have "?I (fst (snd (InOutTab_draw fits r b c)))"
    unfolding InOutTab_draw_def by (intro th) (rule basic, simp)
  then show ?thesis by (simp add: InOut)
qed

text \<open>Where every window can be created, a tab ends with its title or without the line.\<close>

lemma tab_draw_titled:
  assumes "\<And>r. fits r" and "handles t = {}"
  shows "titled (fst (snd (tab_draw fits r t c)))"
proof (cases t)
  case (Output b)
  have "titled (Output (fst (snd (OutputTab_draw fits r b c))))" using assms Output
    by (simp add: OutputTab_draw_def BasicTab_draw_def OutputTab_body_def OutputTab_line_def OutputTab_title_def draw_window_of_def
        newwin_fits draw_then_def)
  then show ?thesis by (simp add: Output)
next
  case (InOut b)
  have "titled (InOut (fst (snd (InOutTab_draw fits r b c))))" using assms InOut
    by (simp add: InOutTab_draw_def BasicTab_draw_def OutputTab_body_def OutputTab_line_def InOutTab_title_def draw_window_of_def
        newwin_fits draw_then_def InOutTab_body_def InOutTab_frame_def InOutTab_input_def Let_def)
  then show ?thesis by (simp add: InOut)
qed auto

lemma draw_tabs_static: "map static (fst (snd (draw_tabs fits rs ts c))) = map static ts"
proof (induction fits rs ts c rule: draw_tabs.induct)
  case (1 fits r rs t ts c)
  show ?case using tab_draw_static[of fits r t c] "1.IH" by (auto split: prod.splits option.splits)
qed auto

lemma draw_tabs_titled:
  "(\<And>r. fits r) \<Longrightarrow> \<forall>t \<in> set ts. handles t = {} \<and> titled t \<Longrightarrow> \<forall>t \<in> set (fst (snd (draw_tabs fits rs ts c))). titled t"
proof (induction fits rs ts c rule: draw_tabs.induct)
  case (1 fits r rs t ts c)
  obtain e t1 c1 where d: "tab_draw fits r t c = (e, t1, c1)" by (metis prod_cases3)
  have "titled (fst (snd (tab_draw fits r t c)))" by (rule tab_draw_titled) (use "1.prems" in auto)
  then have t1: "titled t1" by (simp add: d)
  show ?case
  proof (cases e)
    case None
    obtain e2 ts2 c2 where d2: "draw_tabs fits rs ts c1 = (e2, ts2, c2)" by (metis prod_cases3)
    have "\<forall>t \<in> set (fst (snd (draw_tabs fits rs ts c1))). titled t"
      by (rule "1.IH"[OF d[symmetric] None refl]) (use "1.prems" in auto)
    then show ?thesis using t1 by (simp add: d None d2)
  qed (use t1 "1.prems"(2) in \<open>simp add: d\<close>)
qed auto

definition window_handles :: "nc_window \<Rightarrow> nat set" where
  "window_handles w = (\<Union>t \<in> set (nw_tabs w). handles t)"

definition button_count :: "nc_window \<Rightarrow> nat" where
  "button_count w = sum_list (map lost_by (nw_tabs w))"

lemma lost_static: "map static ts' = map static ts \<Longrightarrow> map lost_by ts' = map lost_by ts"
proof -
  assume "map static ts' = map static ts"
  then have "list_all2 (\<lambda>a b. static a = static b) ts' ts" by (simp add: list_all2_conv_all_nth list_eq_iff_nth_eq)
  then show ?thesis by (induction rule: list_all2_induct) (auto intro: static_lost)
qed

lemma static_blank [simp]: "static (blank t) = static t"
  by (cases t) auto

lemma resize_owns:
  assumes fits: "\<And>r. fits r" and len: "length rs = length (nw_tabs w)" and tit: "\<forall>t \<in> set (nw_tabs w). titled t"
    and own: "windows.owns (A \<union> window_handles w) c0 c" "A \<inter> window_handles w = {}" and r: "NcWindow_resize fits rs w c = (None, w1, c1)"
  shows "\<exists>L. windows.owns (A \<union> L \<union> window_handles w1) c0 c1 \<and> (A \<union> L) \<inter> window_handles w1 = {} \<and> A \<inter> L = {} \<and> finite L \<and>
    card L = button_count w \<and> map static (nw_tabs w1) = map static (nw_tabs w) \<and> (\<forall>t \<in> set (nw_tabs w1). titled t)"
proof -
  let ?ts = "map blank (nw_tabs w)"
  have "(A \<union> window_handles w) \<inter> set (cu_live c0) = {}" by (rule windows.owns_disjoint[OF own(1)])
  then have "(\<Union>t \<in> set (nw_tabs w). handles t) \<inter> set (cu_live c0) = {}" by (auto simp: window_handles_def)
  from clear_tabs_owns[OF own(1) this tit] obtain k where k: "clear_tabs (nw_tabs w) c = (?ts, k)"
      "windows.owns (A \<union> window_handles w - (\<Union>t \<in> set (nw_tabs w). handles t)) c0 k" by blast
  have "A \<union> window_handles w - (\<Union>t \<in> set (nw_tabs w). handles t) = A" using own(2) by (auto simp: window_handles_def)
  with k(2) have A: "windows.owns A c0 k" by simp
  obtain ts where d: "draw_tabs fits rs ?ts k = (None, ts, c1)" and w1: "w1 = w\<lparr>nw_tabs := ts\<rparr>"
    using r k(1) by (auto simp: NcWindow_resize_def NcWindow_clear_def NcWindow_draw_def split: prod.splits)
  have g: "grown (\<lambda>ts. \<Union>t \<in> set ts. handles t) (sum_list (map lost_by ?ts)) A c0 (draw_tabs fits rs ?ts k)"
    by (rule draw_tabs_grown[OF _ _ A]) (use len in auto)
  have "sum_list (map lost_by ?ts) = button_count w" by (simp add: button_count_def o_def)
  moreover have "map static ts = map static ?ts" using draw_tabs_static[of fits rs ?ts k] d by simp
  moreover have "\<forall>t \<in> set ts. titled t" using draw_tabs_titled[where fits = fits and ts = ?ts and rs = rs and c = k] fits d by simp
  moreover obtain L where "windows.owns (A \<union> L \<union> (\<Union>t \<in> set ts. handles t)) c0 c1" "A \<inter> (L \<union> (\<Union>t \<in> set ts. handles t)) = {}"
      "L \<inter> (\<Union>t \<in> set ts. handles t) = {}" "finite L" "card L = sum_list (map lost_by ?ts)"
    using g unfolding d grown_def by auto
  ultimately show ?thesis unfolding w1 window_handles_def by (intro exI[of _ L]) (simp add: o_def Int_Un_distrib Int_Un_distrib2)
qed

subsection \<open>Attributes\<close>

lemma blink_bit: "A_BLINK = push_bit 19 1"
  by (simp add: A_BLINK_def push_bit_eq_mult)

lemma colour_bits: "A_COLOR = push_bit 8 (mask 8)"
  by (simp add: A_COLOR_def push_bit_eq_mult mask_eq_exp_minus_1)

lemma bit_color [simp]: "\<not> bit A_COLOR 19"
  by (simp add: colour_bits bit_simps)

lemma bit_attr_on: "bit (attr_on a s) 19 \<longleftrightarrow> bit s 19 \<or> bit a 19"
  by (simp add: attr_on_def bit_simps)

lemma bit_attr_off: "bit (attr_off a s) 19 \<longleftrightarrow> bit s 19 \<and> \<not> bit a 19"
  by (simp add: attr_off_def bit_simps)

lemma bit_masks [simp]: "\<not> bit A_BOLD 19" "\<not> bit A_UNDERLINE 19" "bit A_BLINK 19"
  by (simp_all add: A_BOLD_def A_UNDERLINE_def A_BLINK_def bit_numeral_rec)

text \<open>The colour pairs in use are small.\<close>

definition colour_ok :: "int \<Rightarrow> bool" where
  "colour_ok p \<longleftrightarrow> -1 \<le> p \<and> p < 256"

lemma bit_pair: "0 \<le> p \<Longrightarrow> p < 256 \<Longrightarrow> \<not> bit (COLOR_PAIR (nat p)) 19"
proof -
  assume p: "0 \<le> p" "p < 256"
  have "\<not> bit (nat p) 11"
  proof -
    have "nat p div 2 ^ 11 = 0" using p by (simp add: div_less)
    then show ?thesis by (simp add: bit_iff_odd)
  qed
  then show ?thesis by (simp add: COLOR_PAIR_def bit_simps)
qed

fun attr_of :: "shown \<Rightarrow> 32 word" where
  "attr_of (Frame a) = a"
| "attr_of (HLine a) = a"
| "attr_of (Label s a) = a"

definition blinks_at :: "nat \<Rightarrow> curses \<Rightarrow> bool" where
  "blinks_at i c = (case cu_shown c i of [] \<Rightarrow> False | s # _ \<Rightarrow> bit (attr_of s) 19)"

text \<open>\<open>calm\<close>: the window is left without the blinking attribute, so what is painted next starts from there.\<close>

definition calm :: "nat \<Rightarrow> curses \<Rightarrow> bool" where
  "calm i c \<longleftrightarrow> \<not> bit (cu_attrs c i) 19"

definition same_at :: "nat \<Rightarrow> curses \<Rightarrow> curses \<Rightarrow> bool" where
  "same_at k c c' \<longleftrightarrow> cu_attrs c' k = cu_attrs c k \<and> cu_shown c' k = cu_shown c k"

lemma same_at_refl [simp]: "same_at k c c"
  by (simp add: same_at_def)

lemma same_at_trans: "same_at k c c' \<Longrightarrow> same_at k c' c'' \<Longrightarrow> same_at k c c''"
  by (simp add: same_at_def)

lemma same_at_blinks: "same_at k c c' \<Longrightarrow> blinks_at k c' = blinks_at k c \<and> calm k c' = calm k c"
  by (simp add: same_at_def blinks_at_def calm_def)

text \<open>A content paints its window only.\<close>

definition local_to :: "(nat \<Rightarrow> curses \<Rightarrow> curses) \<Rightarrow> bool" where
  "local_to f \<longleftrightarrow> (\<forall>i c k. k \<noteq> i \<longrightarrow> same_at k c (f i c))"

lemma local_basic [simp]:
  "local_to (wattron a)" "local_to (wattroff a)" "local_to (paint s)" "local_to clear_row" "local_to (\<lambda>i. id)" "local_to (\<lambda>i c. c)"
  by (simp_all add: local_to_def same_at_def wattron_def wattroff_def paint_def clear_row_def)

lemma local_colour [simp]: "local_to (colour_on p)" "local_to (colour_off p)" "local_to repaint_line"
  by (simp_all add: local_to_def same_at_def colour_on_def colour_off_def repaint_line_def wattron_def wattroff_def paint_def clear_row_def)

lemma local_contents [simp]:
  "local_to (button_label p b s)" "local_to (title_window p s)" "local_to (div_line p b)" "local_to (prompt_line p b s l)"
  by (simp_all add: local_to_def same_at_def button_label_def title_window_def div_line_def prompt_line_def repaint_line_def colour_on_def colour_off_def
      wattron_def wattroff_def paint_def clear_row_def)

lemmas content_defs = button_label_def div_line_def prompt_line_def repaint_line_def colour_on_def colour_off_def
  wattron_def wattroff_def paint_def clear_row_def

lemma pair_calm: "colour_ok p \<Longrightarrow> p \<noteq> -1 \<Longrightarrow> \<not> bit (COLOR_PAIR (nat p)) 19"
  by (rule bit_pair) (auto simp: colour_ok_def)

lemma bit_or_masks [simp]: "\<not> bit (A_BOLD OR A_UNDERLINE) 19" "bit (A_BOLD OR A_UNDERLINE OR A_BLINK) 19" "bit (A_BOLD OR A_BLINK) 19"
  by (simp_all add: bit_or_iff)

lemma button_label_blinks:
  assumes "colour_ok p" "calm i c" "cu_shown c i = []"
  shows "blinks_at i (button_label p b s i c) = b \<and> calm i (button_label p b s i c)"
  using assms pair_calm[of p] by (auto simp: content_defs blinks_at_def calm_def bit_attr_on bit_attr_off)

lemma div_line_blinks:
  assumes "colour_ok p" "calm i c"
  shows "blinks_at i (div_line p b i c) = b \<and> calm i (div_line p b i c)"
  using assms pair_calm[of p] by (auto simp: content_defs blinks_at_def calm_def bit_attr_on bit_attr_off)

lemma prompt_line_blinks:
  assumes "colour_ok p" "calm i c"
  shows "blinks_at i (prompt_line p b s l i c) = b \<and> calm i (prompt_line p b s l i c)"
  using assms pair_calm[of p] by (auto simp: content_defs blinks_at_def calm_def bit_attr_on bit_attr_off)

subsection \<open>The labels of a tab\<close>

fun labels :: "tab \<Rightarrow> nat set" where
  "labels (Plain t) = {}"
| "labels (Button t) = set_option (t_btnWin t)"
| "labels (Output t) = set_option (t_divLineWin t)"
| "labels (Input t) = set_option (t_inputWin t)"
| "labels (InOut t) = set_option (t_divLineWin t) \<union> set_option (t_inWin t)"

lemma labels_handles: "labels t \<subseteq> handles t"
  by (cases t) auto

definition is_active :: "tab \<Rightarrow> bool" where
  "is_active t = fst (snd (static t))"

definition label_ok :: "tab \<Rightarrow> curses \<Rightarrow> bool" where
  "label_ok t c \<longleftrightarrow> (\<forall>i \<in> labels t. calm i c \<and> blinks_at i c = is_active t)"

text \<open>The two labels of a tab with input and output are different windows.\<close>

fun parted :: "tab \<Rightarrow> bool" where
  "parted (InOut t) = (t_divLineWin t = None \<or> t_divLineWin t \<noteq> t_inWin t)"
| "parted t = True"

definition sound :: "tab \<Rightarrow> curses \<Rightarrow> bool" where
  "sound t c \<longleftrightarrow> colour_ok (fst (static t)) \<and> parted t \<and> label_ok t c"

lemma button_rewrite_effect:
  assumes "colour_ok (t_color t)" and "\<And>i. t_btnWin t = Some i \<Longrightarrow> calm i c"
  shows "t_btnWin t = Some i \<Longrightarrow> blinks_at i (button_rewrite m t c) = bit m 19 \<and> calm i (button_rewrite m t c)"
    and "t_btnWin t \<noteq> Some k \<Longrightarrow> same_at k c (button_rewrite m t c)"
  using assms pair_calm[of "t_color t"]
  by (auto simp: button_rewrite_def on_window_def content_defs blinks_at_def calm_def same_at_def bit_attr_on bit_attr_off split: option.splits)

lemma rewrite_line_effect:
  assumes "colour_ok (t_color t)" and "\<And>i. t_divLineWin t = Some i \<Longrightarrow> calm i c"
  shows "t_divLineWin t = Some i \<Longrightarrow> blinks_at i (rewrite_line m t c) = bit m 19 \<and> calm i (rewrite_line m t c)"
    and "t_divLineWin t \<noteq> Some k \<Longrightarrow> same_at k c (rewrite_line m t c)"
  using assms pair_calm[of "t_color t"]
  by (auto simp: rewrite_line_def on_window_def content_defs blinks_at_def calm_def same_at_def bit_attr_on bit_attr_off split: option.splits)

lemma same_at_curs [simp]: "same_at k c (curs_set v d) = same_at k c d" "same_at k (curs_set v c) d = same_at k c d" "blinks_at k (curs_set v c) = blinks_at k c" "calm k (curs_set v c) = calm k c"
  by (simp_all add: same_at_def blinks_at_def calm_def curs_set_def)

lemma prompt_effect:
  assumes "colour_ok p" and "\<And>i. w = Some i \<Longrightarrow> calm i c"
  shows "w = Some i \<Longrightarrow> blinks_at i (on_window w (prompt_line p b s l) c) = b \<and> calm i (on_window w (prompt_line p b s l) c)"
    and "w \<noteq> Some k \<Longrightarrow> same_at k c (on_window w (prompt_line p b s l) c)"
  using assms prompt_line_blinks[of p _ c] local_contents(4)[of p b s l]
  by (cases w; simp add: on_window_def local_to_def)+

text \<open>Activating or deactivating a tab: \<open>on\<close> says which.\<close>

definition tab_turn :: "bool \<Rightarrow> tab \<Rightarrow> curses \<Rightarrow> tab \<times> curses" where
  "tab_turn on = (if on then tab_activate else tab_deactivate)"

fun with_active :: "bool \<Rightarrow> tab \<Rightarrow> tab" where
  "with_active b (Plain t) = Plain (t\<lparr>t_active := b\<rparr>)"
| "with_active b (Button t) = Button (t\<lparr>t_active := b\<rparr>)"
| "with_active b (Output t) = Output (t\<lparr>t_active := b\<rparr>)"
| "with_active b (Input t) = Input (t\<lparr>t_active := b\<rparr>)"
| "with_active b (InOut t) = InOut (t\<lparr>t_active := b\<rparr>)"

lemma with_active_simps [simp]:
  "handles (with_active b t) = handles t" "labels (with_active b t) = labels t" "parted (with_active b t) = parted t"
  "is_active (with_active b t) = b" "fst (static (with_active b t)) = fst (static t)" "titled (with_active b t) = titled t"
  by (cases t; simp add: is_active_def)+

lemma tab_turn_effect:
  assumes s: "sound t c"
  shows "fst (tab_turn b t c) = with_active b t" "sound (with_active b t) (snd (tab_turn b t c))"
    "k \<notin> labels t \<Longrightarrow> same_at k c (snd (tab_turn b t c))" "cu_live (snd (tab_turn b t c)) = cu_live c"
proof -
  have "fst (tab_turn b t c) = with_active b t \<and> label_ok (with_active b t) (snd (tab_turn b t c))
    \<and> (k \<notin> labels t \<longrightarrow> same_at k c (snd (tab_turn b t c))) \<and> cu_live (snd (tab_turn b t c)) = cu_live c"
  proof (cases t)
    case (Plain u)
    then show ?thesis by (simp add: tab_turn_def BasicTab_activate_def BasicTab_deactivate_def label_ok_def)
  next
    case (Button u)
    then have "colour_ok (t_color u)" "\<And>i. t_btnWin u = Some i \<Longrightarrow> calm i c" using s by (auto simp: sound_def label_ok_def)
    then have e: "t_btnWin u = Some i \<Longrightarrow> blinks_at i (button_rewrite m (u\<lparr>t_active := b\<rparr>) (curs_set v c)) = bit m 19 \<and>
        calm i (button_rewrite m (u\<lparr>t_active := b\<rparr>) (curs_set v c))"
      "t_btnWin u \<noteq> Some k \<Longrightarrow> same_at k c (button_rewrite m (u\<lparr>t_active := b\<rparr>) (curs_set v c))" for i m v
      using button_rewrite_effect[of "u\<lparr>t_active := b\<rparr>" "curs_set v c"] by simp_all
    show ?thesis
      by (cases b) (use e in \<open>auto simp: Button tab_turn_def ButtonTab_activate_def ButtonTab_deactivate_def BasicTab_activate_def BasicTab_deactivate_def
          Let_def label_ok_def is_active_def\<close>)
  next
    case (Output u)
    then have "colour_ok (t_color u)" "\<And>i. t_divLineWin u = Some i \<Longrightarrow> calm i c" using s by (auto simp: sound_def label_ok_def)
    then have e: "t_divLineWin u = Some i \<Longrightarrow> blinks_at i (rewrite_line m (u\<lparr>t_active := b\<rparr>) (curs_set v c)) = bit m 19 \<and>
        calm i (rewrite_line m (u\<lparr>t_active := b\<rparr>) (curs_set v c))"
      "t_divLineWin u \<noteq> Some k \<Longrightarrow> same_at k c (rewrite_line m (u\<lparr>t_active := b\<rparr>) (curs_set v c))" for i m v
      using rewrite_line_effect[of "u\<lparr>t_active := b\<rparr>" "curs_set v c"] by simp_all
    show ?thesis
      by (cases b) (use e in \<open>auto simp: Output tab_turn_def OutputTab_activate_def OutputTab_deactivate_def BasicTab_activate_def BasicTab_deactivate_def
          Let_def label_ok_def is_active_def\<close>)
  next
    case (Input u)
    then have "colour_ok (t_color u)" "\<And>i. t_inputWin u = Some i \<Longrightarrow> calm i c" using s by (auto simp: sound_def label_ok_def)
    then have e: "t_inputWin u = Some i \<Longrightarrow> blinks_at i (InputTab_rewrite (u\<lparr>t_active := b\<rparr>) c) = b \<and> calm i (InputTab_rewrite (u\<lparr>t_active := b\<rparr>) c)"
      "t_inputWin u \<noteq> Some k \<Longrightarrow> same_at k c (InputTab_rewrite (u\<lparr>t_active := b\<rparr>) c)" for i
      using prompt_effect[of "t_color u" "t_inputWin u" c] by (simp_all add: InputTab_rewrite_def)
    show ?thesis
      by (cases b) (use e in \<open>auto simp: Input tab_turn_def InputTab_activate_def InputTab_deactivate_def BasicTab_activate_def
          BasicTab_deactivate_def Let_def label_ok_def is_active_def\<close>)
  next
    case (InOut u)
    have u: "colour_ok (t_color u)" "\<And>i. t_divLineWin u = Some i \<Longrightarrow> calm i c" "\<And>i. t_inWin u = Some i \<Longrightarrow> calm i c"
        "t_divLineWin u = None \<or> t_divLineWin u \<noteq> t_inWin u" using s InOut by (auto simp: sound_def label_ok_def)
    define k1 where "k1 = rewrite_line (if b then A_BOLD OR A_BLINK else A_BOLD) (u\<lparr>t_active := b\<rparr>) (curs_set (if b then 0 else 1) c)"
    define k2 where "k2 = on_window (t_inWin u) (inout_prompt (u\<lparr>t_active := b\<rparr>)) (if b then curs_set 1 k1 else k1)"
    have r: "tab_turn b t c = (InOut (u\<lparr>t_active := b\<rparr>), k2)"
      by (cases b) (simp_all add: InOut tab_turn_def InOutTab_activate_def InOutTab_deactivate_def OutputTab_activate_def OutputTab_deactivate_def
          BasicTab_activate_def BasicTab_deactivate_def Let_def k1_def k2_def)
    have line: "t_divLineWin u = Some i \<Longrightarrow> blinks_at i k1 = b \<and> calm i k1" "t_divLineWin u \<noteq> Some i \<Longrightarrow> same_at i c k1" for i
      using rewrite_line_effect[of "u\<lparr>t_active := b\<rparr>" "curs_set v c" for v] u unfolding k1_def by (cases b; simp)+
    have calm1: "t_inWin u = Some i \<Longrightarrow> calm i k1" for i
      using u(3,4) line[of i] same_at_blinks[of i c k1] by (cases "t_divLineWin u = Some i") auto
    have prompt: "t_inWin u = Some i \<Longrightarrow> blinks_at i k2 = b \<and> calm i k2" "t_inWin u \<noteq> Some i \<Longrightarrow> same_at i k1 k2" for i
      using prompt_effect[of "t_color u" "t_inWin u" "if b then curs_set 1 k1 else k1"] u(1) calm1
      unfolding k2_def inout_prompt_def by (cases b; simp)+
    have "blinks_at i k2 = b \<and> calm i k2" if "i \<in> labels t" for i
      using that line[of i] prompt[of i] same_at_blinks[of i k1 k2] by (auto simp: InOut)
    moreover have "same_at k c k2" if "k \<notin> labels t" using that line(2)[of k] prompt(2)[of k] same_at_trans by (auto simp: InOut)
    moreover have "cu_live k2 = cu_live c" by (simp add: k1_def k2_def live_on_window)
    ultimately show ?thesis unfolding r by (simp add: InOut label_ok_def is_active_def)
  qed
  then show "fst (tab_turn b t c) = with_active b t" "sound (with_active b t) (snd (tab_turn b t c))"
    "k \<notin> labels t \<Longrightarrow> same_at k c (snd (tab_turn b t c))" "cu_live (snd (tab_turn b t c)) = cu_live c"
    using s by (auto simp: sound_def)
qed

subsection \<open>Drawing paints the labels\<close>

text \<open>\<open>quiet\<close>: what was there before is left as it was.\<close>

definition quiet :: "curses \<Rightarrow> curses \<Rightarrow> bool" where
  "quiet c c' \<longleftrightarrow> set (cu_live c) \<subseteq> set (cu_live c') \<and> (\<forall>k \<in> set (cu_live c). same_at k c c')"

lemma quiet_refl [simp]: "quiet c c"
  by (simp add: quiet_def)

lemma quiet_trans: "quiet c c' \<Longrightarrow> quiet c' c'' \<Longrightarrow> quiet c c''"
  unfolding quiet_def using same_at_trans by blast

lemma quiet_new: "new_window c = (i, c1) \<Longrightarrow> quiet c c1 \<and> i \<notin> set (cu_live c) \<and> i \<in> set (cu_live c1) \<and> calm i c1 \<and> cu_shown c1 i = []"
  using windows.fresh[of c] by (auto simp: new_window_def Let_def quiet_def same_at_def calm_def new_window_fresh)

lemma quiet_content:
  "quiet c c1 \<Longrightarrow> i \<notin> set (cu_live c) \<Longrightarrow> local_to f \<Longrightarrow> cu_live (f i c1) = cu_live c1 \<Longrightarrow> quiet c (f i c1)"
  unfolding quiet_def local_to_def by (metis same_at_trans)

text \<open>One new window.\<close>

lemma draw_window_effect:
  assumes "draw_window_of fits r store content t c = (e, t', c')" and loc: "local_to content" and live: "\<And>i c. cu_live (content i c) = cu_live c"
  shows "quiet c c'" and "e = None \<Longrightarrow> \<exists>i c1. t' = store (Some i) t \<and> c' = content i c1 \<and> i \<notin> set (cu_live c) \<and> i \<in> set (cu_live c')
    \<and> calm i c1 \<and> cu_shown c1 i = []"
proof -
  obtain i c1 where n: "new_window c = (i, c1)" by (metis surj_pair)
  note q = quiet_new[OF n]
  have "quiet c (content i c1)" by (rule quiet_content[OF _ _ loc live]) (use q in auto)
  then show "quiet c c'" using assms(1) n by (auto simp: draw_window_of_def newwin_def invalid_size_def split: if_splits)
  show "\<exists>i c1. t' = store (Some i) t \<and> c' = content i c1 \<and> i \<notin> set (cu_live c) \<and> i \<in> set (cu_live c') \<and> calm i c1 \<and> cu_shown c1 i = []"
    if "e = None"
    using assms(1) n q live that
    by (intro exI[of _ i] exI[of _ c1]) (auto simp: draw_window_of_def newwin_def invalid_size_def split: if_splits)
qed

lemma local_frame: "local_to (\<lambda>i c1. if b then colour_off p i (paint s i (colour_on p i c1)) else c1)"
  unfolding local_to_def by (auto simp: same_at_def colour_on_def colour_off_def wattron_def wattroff_def paint_def)

lemma BasicTab_effect:
  assumes "BasicTab_draw fits r t c = (e, t', c')"
  shows "quiet c c'" and "\<exists>w. t' = t\<lparr>t_border := w\<rparr>"
proof -
  have eq: "BasicTab_draw fits r t c = draw_window_of fits r (\<lambda>w t. t\<lparr>t_border := w\<rparr>)
      (\<lambda>i c1. if t_borderChar t \<noteq> -1 then colour_off (t_color t) i (paint Frame i (colour_on (t_color t) i c1)) else c1) t c"
    by (simp add: BasicTab_draw_def draw_window_of_def split: prod.split option.split)
  show "quiet c c'" by (rule draw_window_effect(1)[OF assms[unfolded eq] local_frame]) simp
  show "\<exists>w. t' = t\<lparr>t_border := w\<rparr>" using assms by (auto simp: BasicTab_draw_def invalid_size_def split: prod.splits option.splits)
qed

lemma draw_then_None: "draw_then p f g = (None, t', c') \<longleftrightarrow> (\<exists>t c. p = (None, t, c) \<and> f t c = (None, t', c'))"
  by (auto simp: draw_then_def split: prod.splits option.splits)

lemma label_quiet: "blinks_at i c = b \<and> calm i c \<Longrightarrow> i \<in> set (cu_live c) \<Longrightarrow> quiet c c' \<Longrightarrow> blinks_at i c' = b \<and> calm i c' \<and> i \<in> set (cu_live c')"
  using same_at_blinks by (auto simp: quiet_def)

text \<open>The line beside a title, and the window below it.\<close>

lemma OutputTab_line_effect:
  assumes "OutputTab_line fits r t c = (None, t', c')" and "colour_ok (t_color t)"
  shows "quiet c c'" and "\<exists>i. t' = t\<lparr>t_divLineWin := Some i\<rparr> \<and> blinks_at i c' = t_active t \<and> calm i c' \<and> i \<in> set (cu_live c') \<and> i \<notin> set (cu_live c)"
proof -
  note e = draw_window_effect[OF assms(1)[unfolded OutputTab_line_def], simplified]
  show "quiet c c'" by (rule e)
  show "\<exists>i. t' = t\<lparr>t_divLineWin := Some i\<rparr> \<and> blinks_at i c' = t_active t \<and> calm i c' \<and> i \<in> set (cu_live c') \<and> i \<notin> set (cu_live c)"
    using e(2) div_line_blinks[OF assms(2)] by blast
qed

lemma OutputTab_body_effect:
  assumes "OutputTab_body fits r t c = (None, t', c')"
  shows "quiet c c'" and "\<exists>w. t' = t\<lparr>t_outputWin := w\<rparr>"
  using draw_window_effect[OF assms(1)[unfolded OutputTab_body_def], simplified] by auto

lemma OutputTab_title_effect:
  assumes "OutputTab_title fits r t c = (None, t', c')"
  shows "quiet c c'" and "\<exists>w. t' = t\<lparr>t_titleWin := w\<rparr>"
  using draw_window_effect[OF assms(1)[unfolded OutputTab_title_def], simplified] by auto

lemma InOutTab_title_effect:
  assumes "InOutTab_title fits r t c = (None, t', c')"
  shows "quiet c c'" and "\<exists>w. t' = t\<lparr>t_titleWin := w\<rparr>"
proof -
  obtain i c1 where n: "new_window c = (i, c1)" by (metis surj_pair)
  have "quiet c (title_window (t_color t) (t_title t) i c1)" by (rule quiet_content) (use quiet_new[OF n] in auto)
  then show "quiet c c'" using assms n
    by (auto simp: InOutTab_title_def newwin_def Let_def invalid_size_def on_window_def split: if_splits)
  show "\<exists>w. t' = t\<lparr>t_titleWin := w\<rparr>" using assms by (auto simp: InOutTab_title_def Let_def invalid_size_def split: prod.splits if_splits)
qed

lemma InOutTab_body_effect:
  assumes "InOutTab_body fits rest t c = (None, t', c')" and "colour_ok (t_color t)"
  shows "quiet c c'" and "\<exists>i v w. t' = t\<lparr>t_outputWin := v, t_inFrame := w, t_inWin := Some i\<rparr> \<and> blinks_at i c' = t_active t \<and> calm i c'
    \<and> i \<in> set (cu_live c') \<and> i \<notin> set (cu_live c)"
proof -
  obtain t1 c1 t2 c2 where s: "OutputTab_body fits (box (r_h (rest t) - 3) (r_w (rest t)) (r_y (rest t)) (r_x (rest t))) t c = (None, t1, c1)"
      "InOutTab_frame fits (rest t1) t1 c1 = (None, t2, c2)" "InOutTab_input fits (rest t2) t2 c2 = (None, t', c')"
    using assms(1) by (auto simp: InOutTab_body_def draw_then_None)
  note a = OutputTab_body_effect[OF s(1)]
  note b = draw_window_effect[OF s(2)[unfolded InOutTab_frame_def] local_frame[of True, simplified], simplified]
  note i = draw_window_effect[OF s(3)[unfolded InOutTab_input_def inout_prompt_def], simplified]
  have "quiet c c2" using quiet_trans[OF a(1) b(1)] .
  then show "quiet c c'" using quiet_trans i(1) by blast
  obtain w where t2: "t2 = t1\<lparr>t_inFrame := w\<rparr>" using b(2) by auto
  then obtain v where t1: "t1 = t\<lparr>t_outputWin := v\<rparr>" using a(2) by auto
  have "colour_ok (t_color t2)" "t_active t2 = t_active t" using t1 t2 assms(2) by simp_all
  then obtain j where "t' = t2\<lparr>t_inWin := Some j\<rparr>" "blinks_at j c' = t_active t" "calm j c'" "j \<in> set (cu_live c')" "j \<notin> set (cu_live c2)"
    using i(2) prompt_line_blinks by metis
  then show "\<exists>i v w. t' = t\<lparr>t_outputWin := v, t_inFrame := w, t_inWin := Some i\<rparr> \<and> blinks_at i c' = t_active t \<and> calm i c'
    \<and> i \<in> set (cu_live c') \<and> i \<notin> set (cu_live c)"
    using t1 t2 \<open>quiet c c2\<close> by (intro exI[of _ j] exI[of _ v] exI[of _ w]) (auto simp: quiet_def)
qed

lemma tab_draw_effect:
  assumes d: "tab_draw fits r t c = (None, t', c')" and h: "handles t = {}" and col: "colour_ok (fst (static t))"
  shows "quiet c c'" and "sound t' c'"
proof -
  have st: "static t' = static t" using tab_draw_static[of fits r t c] d by simp
  have "quiet c c' \<and> label_ok t' c' \<and> parted t'"
  proof (cases t)
    case (Plain u)
    obtain u' where u': "BasicTab_draw fits r u c = (None, u', c')" "t' = Plain u'"
      using d Plain by (cases "BasicTab_draw fits r u c") auto
    show ?thesis using BasicTab_effect(1)[OF u'(1)] by (simp add: u'(2) label_ok_def)
  next
    case (Button u)
    obtain u' where u': "ButtonTab_draw fits (r_y r) (r_x r) u c = (None, u', c')" "t' = Button u'"
      using d Button by (cases "ButtonTab_draw fits (r_y r) (r_x r) u c") auto
    obtain u1 c1 u2 c2 where s: "BasicTab_draw fits (box 3 (int (length (t_content u)) + 2) (r_y r) (r_x r)) u c = (None, u1, c1)"
        "draw_window_of fits (box 3 (int (length (t_content u)) + 2) (r_y r) (r_x r)) (\<lambda>w t. t\<lparr>t_border := w\<rparr>)
         (\<lambda>i c. wattroff A_BOLD i ((if t_active u then wattroff A_BLINK i else id) (paint Frame i (wattron A_BOLD i (colour_on (t_color u) i c))))) u1 c1
           = (None, u2, c2)"
        "draw_window_of fits (box 1 (int (length (t_content u))) (r_y r + 1) (r_x r + 1)) (\<lambda>w t. t\<lparr>t_btnWin := w\<rparr>)
         (button_label (t_color u) (t_active u) (t_content u)) u2 c2 = (None, u', c')"
      using u'(1) by (auto simp: ButtonTab_draw_def Let_def draw_then_None)
    have loc: "local_to (\<lambda>i c. wattroff A_BOLD i ((if t_active u then wattroff A_BLINK i else id) (paint Frame i (wattron A_BOLD i (colour_on (t_color u) i c)))))"
      by (simp add: local_to_def same_at_def wattron_def wattroff_def paint_def colour_on_def)
    have live: "cu_live (wattroff A_BOLD i ((if t_active u then wattroff A_BLINK i else id) (paint Frame i (wattron A_BOLD i (colour_on (t_color u) i k))))) =
        cu_live k" for i k by (cases "t_active u") simp_all
    note b = draw_window_effect[OF s(2) loc live]
    note l = draw_window_effect[OF s(3), simplified]
    have q: "quiet c c'" using quiet_trans[OF quiet_trans[OF BasicTab_effect(1)[OF s(1)] b(1)] l(1)] .
    obtain i k where "u' = u2\<lparr>t_btnWin := Some i\<rparr>" "c' = button_label (t_color u) (t_active u) (t_content u) i k" "calm i k" "cu_shown k i = []"
      using l(2) by blast
    moreover have "t_active u' = t_active u" using st u' Button by simp
    ultimately show ?thesis using q button_label_blinks[of "t_color u" i k] col
      by (simp add: u'(2) label_ok_def is_active_def Button)
  next
    case (Output u)
    obtain u' where u': "OutputTab_draw fits r u c = (None, u', c')" "t' = Output u'"
      using d Output by (cases "OutputTab_draw fits r u c") auto
    obtain u1 c1 where s: "BasicTab_draw fits r u c = (None, u1, c1)" using u'(1) by (auto simp: OutputTab_draw_def draw_then_None)
    obtain w where u1: "u1 = u\<lparr>t_border := w\<rparr>" using BasicTab_effect(2)[OF s] by blast
    show ?thesis
    proof (cases "t_title u = []")
      case True
      then have "OutputTab_body fits (framed r u1) u1 c1 = (None, u', c')" using u'(1) s u1 by (simp add: OutputTab_draw_def draw_then_None)
      note b = OutputTab_body_effect[OF this]
      show ?thesis using quiet_trans[OF BasicTab_effect(1)[OF s] b(1)] b(2) u1 h by (auto simp: u'(2) label_ok_def Output)
    next
      case False
      then obtain u2 c2 u3 c3 where p: "OutputTab_title fits (framed r u1) u1 c1 = (None, u2, c2)" "OutputTab_line fits (framed r u2) u2 c2 = (None, u3, c3)"
          "OutputTab_body fits (title_rest (framed r u3)) u3 c3 = (None, u', c')"
        using u'(1) s u1 by (auto simp: OutputTab_draw_def draw_then_None split: if_splits)
      obtain v where u2: "u2 = u1\<lparr>t_titleWin := v\<rparr>" using OutputTab_title_effect(2)[OF p(1)] by blast
      have "colour_ok (t_color u2)" using col by (simp add: u2 u1 Output)
      note ln = OutputTab_line_effect[OF p(2) this]
      obtain i where i: "u3 = u2\<lparr>t_divLineWin := Some i\<rparr>" "blinks_at i c3 = t_active u2" "calm i c3" "i \<in> set (cu_live c3)" using ln(2) by blast
      note b = OutputTab_body_effect[OF p(3)]
      have "blinks_at i c' = t_active u2 \<and> calm i c'" using label_quiet[OF _ i(4) b(1)] i(2,3) by blast
      moreover have "t_divLineWin u' = Some i" "t_active u' = t_active u2" using b(2) i(1) by auto
      moreover have "quiet c c'"
        using quiet_trans[OF quiet_trans[OF quiet_trans[OF BasicTab_effect(1)[OF s] OutputTab_title_effect(1)[OF p(1)]] ln(1)] b(1)] .
      ultimately show ?thesis by (simp add: u'(2) label_ok_def is_active_def)
    qed
  next
    case (Input u)
    obtain u' where u': "InputTab_draw fits r u c = (None, u', c')" "t' = Input u'"
      using d Input by (cases "InputTab_draw fits r u c") auto
    obtain u1 c1 where s: "BasicTab_draw fits r u c = (None, u1, c1)"
        "draw_window_of fits (if t_border u1 \<noteq> None then inner r else r) (\<lambda>w t. t\<lparr>t_inputWin := w\<rparr>)
          (prompt_line (t_color u1) (t_active u1) (t_prompt u1) (t_line u1)) u1 c1 = (None, u', c')"
      using u'(1) by (auto simp: InputTab_draw_def draw_then_None)
    obtain w where u1: "u1 = u\<lparr>t_border := w\<rparr>" using BasicTab_effect(2)[OF s(1)] by blast
    note l = draw_window_effect[OF s(2), simplified]
    obtain i k where "u' = u1\<lparr>t_inputWin := Some i\<rparr>" "c' = prompt_line (t_color u1) (t_active u1) (t_prompt u1) (t_line u1) i k" "calm i k"
      using l(2) by blast
    then show ?thesis using quiet_trans[OF BasicTab_effect(1)[OF s(1)] l(1)] prompt_line_blinks[of "t_color u1" i k] col u1
      by (simp add: u'(2) label_ok_def is_active_def Input)
  next
    case (InOut u)
    obtain u' where u': "InOutTab_draw fits r u c = (None, u', c')" "t' = InOut u'"
      using d InOut by (cases "InOutTab_draw fits r u c") auto
    obtain u1 c1 where s: "BasicTab_draw fits r u c = (None, u1, c1)" using u'(1) by (auto simp: InOutTab_draw_def draw_then_None)
    obtain w where u1: "u1 = u\<lparr>t_border := w\<rparr>" using BasicTab_effect(2)[OF s] by blast
    show ?thesis
    proof (cases "t_title u = []")
      case True
      then have "InOutTab_body fits (framed r) u1 c1 = (None, u', c')" using u'(1) s u1 by (simp add: InOutTab_draw_def draw_then_None)
      note b = InOutTab_body_effect[OF this]
      show ?thesis using quiet_trans[OF BasicTab_effect(1)[OF s] b(1)] b(2) u1 h col by (auto simp: u'(2) label_ok_def is_active_def InOut)
    next
      case False
      then obtain u2 c2 u3 c3 where p: "InOutTab_title fits (framed r u1) u1 c1 = (None, u2, c2)" "OutputTab_line fits (framed r u2) u2 c2 = (None, u3, c3)"
          "InOutTab_body fits (\<lambda>t. title_rest (framed r t)) u3 c3 = (None, u', c')"
        using u'(1) s u1 by (auto simp: InOutTab_draw_def draw_then_None split: if_splits)
      obtain v where u2: "u2 = u1\<lparr>t_titleWin := v\<rparr>" using InOutTab_title_effect(2)[OF p(1)] by blast
      have c2: "colour_ok (t_color u2)" using col by (simp add: u2 u1 InOut)
      note ln = OutputTab_line_effect[OF p(2) c2]
      obtain i where i: "u3 = u2\<lparr>t_divLineWin := Some i\<rparr>" "blinks_at i c3 = t_active u2" "calm i c3" "i \<in> set (cu_live c3)" using ln(2) by blast
      have "colour_ok (t_color u3)" using c2 i(1) by simp
      note b = InOutTab_body_effect[OF p(3) this]
      obtain j x y where j: "u' = u3\<lparr>t_outputWin := x, t_inFrame := y, t_inWin := Some j\<rparr>" "blinks_at j c' = t_active u3" "calm j c'" "j \<notin> set (cu_live c3)"
        using b(2) by blast
      have "blinks_at i c' = t_active u2 \<and> calm i c'" using label_quiet[OF _ i(4) b(1)] i(2,3) by blast
      moreover have "quiet c c'"
        using quiet_trans[OF quiet_trans[OF quiet_trans[OF BasicTab_effect(1)[OF s] InOutTab_title_effect(1)[OF p(1)]] ln(1)] b(1)] .
      ultimately show ?thesis using j i by (auto simp: u'(2) label_ok_def is_active_def)
    qed
  qed
  then show "quiet c c'" "sound t' c'" using st col by (auto simp: sound_def)
qed

end
