(* ===== verification/WindowRuns.thy ===== *)
theory WindowRuns
  imports PaintingCorrect
begin

text \<open>
  A window of the CLI from its constructor on: the user moves from tab to tab, the terminal changes its size.
  One invariant holds all along: the labels of the tabs are different windows of the screen, each tab that is
  not the active one is inactive, every label blinks just when its tab is active, and of the ncurses windows
  made so far all but the lost frames of the buttons are held by the tabs.
\<close>

datatype window_event = NextTab | Resized "rect list"

fun window_step :: "(rect \<Rightarrow> bool) \<Rightarrow> window_event \<Rightarrow> nc_window \<times> curses \<Rightarrow> (nc_window \<times> curses) option" where
  "window_step fits NextTab (w, c) = NcWindow_switch (-1) w c"
| "window_step fits (Resized rs) (w, c) = (case NcWindow_resize fits rs w c of
     (None, w1, c1) \<Rightarrow> Some (w1, c1)
   | (Some e, w1, c1) \<Rightarrow> None)"

fun window_run :: "(rect \<Rightarrow> bool) \<Rightarrow> window_event list \<Rightarrow> nc_window \<times> curses \<Rightarrow> (nc_window \<times> curses) option" where
  "window_run fits [] wc = Some wc"
| "window_run fits (e # es) wc = Option.bind (window_step fits e wc) (window_run fits es)"

fun is_resize :: "window_event \<Rightarrow> bool" where
  "is_resize NextTab = False"
| "is_resize (Resized rs) = True"

text \<open>Each drawing has a rectangle for each tab.\<close>

fun draws_all :: "nat \<Rightarrow> window_event \<Rightarrow> bool" where
  "draws_all n NextTab = True"
| "draws_all n (Resized rs) = (length rs = n)"

subsection \<open>The invariant\<close>

definition apart :: "tab list \<Rightarrow> bool" where
  "apart ts \<longleftrightarrow> sorted_wrt (\<lambda>A B. A \<inter> B = {}) (map labels ts)"

definition lit :: "bool \<Rightarrow> nc_window \<Rightarrow> curses \<Rightarrow> bool" where
  "lit b w c \<longleftrightarrow> nw_active w < length (nw_tabs w) \<and> apart (nw_tabs w) \<and> (\<forall>t \<in> set (nw_tabs w). sound t c \<and> titled t) \<and>
     map is_active (nw_tabs w) = map (\<lambda>j. b \<and> j = nw_active w) [0 ..< length (nw_tabs w)]"

definition holds :: "nat \<Rightarrow> nc_window \<Rightarrow> curses \<Rightarrow> curses \<Rightarrow> bool" where
  "holds n w c0 c \<longleftrightarrow> (\<exists>L. windows.owns (L \<union> window_handles w) c0 c \<and> L \<inter> window_handles w = {} \<and> card L = n)"

lemma apart_nth: "apart ts \<Longrightarrow> i < length ts \<Longrightarrow> j < length ts \<Longrightarrow> i \<noteq> j \<Longrightarrow> labels (ts ! i) \<inter> labels (ts ! j) = {}"
  unfolding apart_def by (cases i j rule: linorder_cases) (auto simp: sorted_wrt_iff_nth_less)

subsection \<open>Moving to a tab\<close>

lemma sound_same: "sound t c \<Longrightarrow> (\<And>k. k \<in> labels t \<Longrightarrow> same_at k c c') \<Longrightarrow> sound t c'"
  unfolding sound_def label_ok_def using same_at_blinks by blast

lemma with_active_lost [simp]: "lost_by (with_active b t) = lost_by t"
  by (cases t) auto

lemma at_tab_turn:
  assumes w: "apart (nw_tabs w)" "\<forall>t \<in> set (nw_tabs w). sound t c \<and> titled t" "i < length (nw_tabs w)" and a: "at_tab i (tab_turn b) w c = (w', c')"
  shows "w' = w\<lparr>nw_tabs := (nw_tabs w)[i := with_active b (nw_tabs w ! i)]\<rparr>" "\<forall>t \<in> set (nw_tabs w'). sound t c' \<and> titled t"
    "cu_live c' = cu_live c"
proof -
  let ?t = "nw_tabs w ! i"
  have s: "sound ?t c" using w(2,3) by simp
  note e = tab_turn_effect[OF s, where b = b]
  show w': "w' = w\<lparr>nw_tabs := (nw_tabs w)[i := with_active b ?t]\<rparr>" and "cu_live c' = cu_live c"
    using a e(1,4) by (auto simp: at_tab_def split: prod.splits)
  have c': "c' = snd (tab_turn b ?t c)" using a by (auto simp: at_tab_def split: prod.splits)
  show "\<forall>t \<in> set (nw_tabs w'). sound t c' \<and> titled t"
  proof
    fix t assume "t \<in> set (nw_tabs w')"
    then obtain j where j: "j < length (nw_tabs w)" "t = (nw_tabs w)[i := with_active b ?t] ! j" by (auto simp: w' in_set_conv_nth)
    show "sound t c' \<and> titled t"
    proof (cases "j = i")
      case True
      then show ?thesis using j e(2) w(2,3) by (simp add: c')
    next
      case False
      then have t: "t = nw_tabs w ! j" using j by simp
      have "k \<notin> labels ?t" if "k \<in> labels t" for k using apart_nth[OF w(1) j(1) w(3) False] that t by blast
      then have "sound t c'" using sound_same[of t c c'] e(3) w(2) j(1) t by (simp add: c')
      then show ?thesis using w(2) j(1) t by simp
    qed
  qed
qed

lemma map_same_list: "g (f x) = g x \<Longrightarrow> xs ! i = x \<Longrightarrow> map g (xs[i := f x]) = map g xs"
  by (metis list_update_id map_update)

lemma skip_tabs_bound:
  assumes "skip_tabs n skip i = Some j" and "i < n"
  shows "j < n"
  by (rule while_option_rule[OF _ assms(1)[unfolded skip_tabs_def], of "\<lambda>i. i < n"]) (use assms(2) in auto)

lemma switch_bound: "switchActiveTab n skip index active = Some j \<Longrightarrow> index < int n \<Longrightarrow> 0 < n \<Longrightarrow> j < n"
  unfolding switchActiveTab_def using skip_tabs_bound by (auto split: if_splits)

lemma turned: "at_tab i tab_deactivate = at_tab i (tab_turn False)" "at_tab i tab_activate = at_tab i (tab_turn True)"
  by (simp_all add: tab_turn_def)

lemma window_handles_turned:
  "i < length (nw_tabs w) \<Longrightarrow> window_handles (w\<lparr>nw_tabs := (nw_tabs w)[i := with_active b (nw_tabs w ! i)]\<rparr>) = window_handles w"
proof -
  assume "i < length (nw_tabs w)"
  have "map handles ((nw_tabs w)[i := with_active b (nw_tabs w ! i)]) = map handles (nw_tabs w)" by (rule map_same_list) simp_all
  then have "handles ` set ((nw_tabs w)[i := with_active b (nw_tabs w ! i)]) = handles ` set (nw_tabs w)" by (metis list.set_map)
  then show ?thesis by (simp add: window_handles_def)
qed

lemma switch_lit:
  assumes l: "lit b w c" and s: "NcWindow_switch index w c = Some (w', c')" and i: "index < int (length (nw_tabs w))"
  shows "lit True w' c'" "window_handles w' = window_handles w" "map lost_by (nw_tabs w') = map lost_by (nw_tabs w)" "cu_live c' = cu_live c"
proof -
  let ?n = "length (nw_tabs w)" and ?a = "nw_active w"
  have w: "?a < ?n" "apart (nw_tabs w)" "\<forall>t \<in> set (nw_tabs w). sound t c \<and> titled t"
    and act: "map is_active (nw_tabs w) = map (\<lambda>j. b \<and> j = ?a) [0 ..< ?n]" using l by (simp_all add: lit_def)
  obtain w1 c1 where d: "at_tab ?a (tab_turn False) w c = (w1, c1)" by (metis surj_pair)
  note e1 = at_tab_turn[OF w(2,3,1) d]
  obtain j where j: "switchActiveTab ?n (nw_skip w1) index ?a = Some j"
      and u: "at_tab j (tab_turn True) (w1\<lparr>nw_active := j\<rparr>) c1 = (w', c')"
  proof -
    have "nw_tabs w \<noteq> []" "length (nw_tabs w1) = ?n" "nw_active w1 = ?a" using w(1) e1(1) by auto
    then have "map_option (\<lambda>i. at_tab i (tab_turn True) (w1\<lparr>nw_active := i\<rparr>) c1) (switchActiveTab ?n (nw_skip w1) index ?a) = Some (w', c')"
      using s d by (simp add: NcWindow_switch_def turned)
    then show ?thesis using that by (auto simp: map_option_eq_Some)
  qed
  have jn: "j < ?n" using switch_bound[OF j i] w(1) by linarith
  let ?w = "w1\<lparr>nw_active := j\<rparr>"
  have lab: "map labels (nw_tabs w1) = map labels (nw_tabs w)" unfolding e1(1) by (simp add: map_same_list)
  then have ap: "apart (nw_tabs ?w)" using w(2) by (simp add: apart_def)
  have so: "\<forall>t \<in> set (nw_tabs ?w). sound t c1 \<and> titled t" using e1(2) by simp
  have len: "length (nw_tabs w1) = ?n" using e1(1) by simp
  then have jn1: "j < length (nw_tabs ?w)" using jn by simp
  note e2 = at_tab_turn[OF ap so jn1 u]
  have "map labels (nw_tabs w') = map labels (nw_tabs w)" unfolding e2(1) using lab by (simp add: map_same_list)
  then have "apart (nw_tabs w')" using w(2) by (simp add: apart_def)
  moreover have "map is_active (nw_tabs w') = map (\<lambda>k. k = j) [0 ..< ?n]"
  proof (rule nth_equalityI)
    fix k assume "k < length (map is_active (nw_tabs w'))"
    then have k: "k < ?n" using e2(1) len by simp
    have "map is_active (nw_tabs w) ! k = (b \<and> k = ?a)" using act k by simp
    then show "map is_active (nw_tabs w') ! k = map (\<lambda>k. k = j) [0 ..< ?n] ! k"
      using k jn w(1) by (cases "k = j"; cases "k = ?a") (simp_all add: e2(1) e1(1))
  qed (use e2(1) len in simp)
  ultimately show "lit True w' c'" using e2(2) jn len by (simp add: lit_def e2(1))
  have "window_handles ?w = window_handles w1" by (simp add: window_handles_def)
  then show "window_handles w' = window_handles w"
    using window_handles_turned[OF jn1, of True] window_handles_turned[OF w(1), of False] e2(1) e1(1) by simp
  show "map lost_by (nw_tabs w') = map lost_by (nw_tabs w)" unfolding e2(1) by (simp add: map_same_list) (simp add: e1(1) map_same_list)
  show "cu_live c' = cu_live c" using e2(3) e1(3) by simp
qed

subsection \<open>Drawing all tabs\<close>

lemma tab_draw_new:
  assumes "tab_draw fits r t c = (e, t', c')" and "handles t = {}"
  shows "handles t' \<inter> set (cu_live c) = {}" "handles t' \<subseteq> set (cu_live c')"
proof -
  obtain L where "windows.owns (L \<union> handles t') c c'" using tab_draw_grown[OF assms(2) windows.owns_start, of c fits r] assms(1)
    by (auto simp: grown_def)
  then show "handles t' \<inter> set (cu_live c) = {}" "handles t' \<subseteq> set (cu_live c')"
    using windows.owns_disjoint by (auto simp: windows.owns_def windows.owned_def)
qed

lemma draw_tabs_lit:
  "draw_tabs fits rs ts c = (None, ts', c') \<Longrightarrow> length rs = length ts \<Longrightarrow> \<forall>t \<in> set ts. handles t = {} \<and> colour_ok (fst (static t)) \<Longrightarrow>
   quiet c c' \<and> (\<forall>t \<in> set ts'. sound t c' \<and> labels t \<inter> set (cu_live c) = {}) \<and> apart ts'"
proof (induction fits rs ts c arbitrary: ts' c' rule: draw_tabs.induct)
  case (1 fits r rs t ts c)
  obtain t1 c1 ts2 where d: "tab_draw fits r t c = (None, t1, c1)" "draw_tabs fits rs ts c1 = (None, ts2, c')" "ts' = t1 # ts2"
    using "1.prems"(1) by (auto split: prod.splits option.splits)
  have h: "handles t = {}" "colour_ok (fst (static t))" using "1.prems"(3) by simp_all
  note e = tab_draw_effect[OF d(1) h] and n = tab_draw_new[OF d(1) h(1)]
  have IH: "quiet c1 c'" "\<forall>t \<in> set ts2. sound t c' \<and> labels t \<inter> set (cu_live c1) = {}" "apart ts2"
    using "1.IH"[OF d(1)[symmetric] _ refl d(2)] "1.prems"(2,3) by auto
  have l: "labels t1 \<subseteq> set (cu_live c1)" "labels t1 \<inter> set (cu_live c) = {}" using n labels_handles[of t1] by auto
  have "sound t1 c'" by (rule sound_same[OF e(2)]) (use IH(1) l(1) in \<open>auto simp: quiet_def\<close>)
  moreover have "apart (t1 # ts2)" using IH(2,3) l(1) by (auto simp: apart_def)
  moreover have "\<forall>t \<in> set ts2. labels t \<inter> set (cu_live c) = {}" using IH(2) e(1) by (auto simp: quiet_def)
  ultimately show ?case using quiet_trans[OF e(1) IH(1)] IH(2) l(2) d(3) by simp
qed (auto simp: apart_def)

lemma static_active: "map static ts' = map static ts \<Longrightarrow> map is_active ts' = map is_active ts"
proof -
  assume s: "map static ts' = map static ts"
  have "map is_active ts = map (fst \<circ> snd) (map static ts)" for ts by (simp add: is_active_def)
  then show ?thesis using s by metis
qed

lemma resize_lit:
  assumes fits: "\<And>r. fits r" and l: "lit b w c" and h: "holds n w c0 c" and r: "NcWindow_resize fits rs w c = (None, w1, c1)"
    and len: "length rs = length (nw_tabs w)"
  shows "lit b w1 c1" "holds (n + button_count w) w1 c0 c1" "map lost_by (nw_tabs w1) = map lost_by (nw_tabs w)"
proof -
  have t: "\<forall>t \<in> set (nw_tabs w). titled t" using l by (simp add: lit_def)
  obtain A where A: "windows.owns (A \<union> window_handles w) c0 c" "A \<inter> window_handles w = {}" "card A = n" using h by (auto simp: holds_def)
  then have fin: "finite A" using windows.owns_finite by blast
  obtain L where L: "windows.owns (A \<union> L \<union> window_handles w1) c0 c1" "(A \<union> L) \<inter> window_handles w1 = {}" "A \<inter> L = {}" "finite L"
      "card L = button_count w" "map static (nw_tabs w1) = map static (nw_tabs w)" "\<forall>t \<in> set (nw_tabs w1). titled t"
    using resize_owns[OF fits len t A(1,2) r] by blast
  have "card (A \<union> L) = n + button_count w" using L(3-5) A(3) fin by (simp add: card_Un_disjoint)
  then show "holds (n + button_count w) w1 c0 c1" using L(1,2) by (auto simp: holds_def)
  show "map lost_by (nw_tabs w1) = map lost_by (nw_tabs w)" by (rule lost_static[OF L(6)])
  have "(A \<union> window_handles w) \<inter> set (cu_live c0) = {}" by (rule windows.owns_disjoint[OF A(1)])
  then have "(\<Union>t \<in> set (nw_tabs w). handles t) \<inter> set (cu_live c0) = {}" by (auto simp: window_handles_def)
  from clear_tabs_owns[OF A(1) this t] obtain k where k: "clear_tabs (nw_tabs w) c = (map blank (nw_tabs w), k)" by blast
  obtain ts where d: "draw_tabs fits rs (map blank (nw_tabs w)) k = (None, ts, c1)" and w1: "w1 = w\<lparr>nw_tabs := ts\<rparr>"
    using r k by (auto simp: NcWindow_resize_def NcWindow_clear_def NcWindow_draw_def split: prod.splits)
  have "(\<forall>t \<in> set ts. sound t c1) \<and> apart ts" using draw_tabs_lit[OF d] len l by (auto simp: lit_def sound_def)
  moreover have "length ts = length (nw_tabs w)" using L(6) w1 by (metis length_map nc_window.select_convs(1) nc_window.update_convs(1) nc_window.surjective)
  ultimately show "lit b w1 c1" using l L(7) static_active[OF L(6)] by (simp add: lit_def w1)
qed

subsection \<open>A run\<close>

lemma window_run_lit:
  "(\<And>r. fits r) \<Longrightarrow> lit True w c \<Longrightarrow> holds n w c0 c \<Longrightarrow> \<forall>e \<in> set es. draws_all (length (nw_tabs w)) e \<Longrightarrow>
   window_run fits es (w, c) = Some (w', c') \<Longrightarrow>
   lit True w' c' \<and> holds (n + length (filter is_resize es) * button_count w) w' c0 c' \<and> map lost_by (nw_tabs w') = map lost_by (nw_tabs w)"
proof (induction es arbitrary: w c n)
  case (Cons e es)
  obtain w1 c1 where s: "window_step fits e (w, c) = Some (w1, c1)" "window_run fits es (w1, c1) = Some (w', c')"
    using Cons.prems(5) by (auto simp: bind_eq_Some_conv)
  have "lit True w1 c1 \<and> holds (n + (if is_resize e then button_count w else 0)) w1 c0 c1 \<and> map lost_by (nw_tabs w1) = map lost_by (nw_tabs w)"
  proof (cases e)
    case NextTab
    then have "NcWindow_switch (-1) w c = Some (w1, c1)" using s(1) by simp
    note sw = switch_lit[OF Cons.prems(2) this, simplified]
    have "holds n w1 c0 c1" using Cons.prems(3) windows.owns_cong[OF sw(4)] unfolding holds_def sw(2) by blast
    then show ?thesis using sw(1,3) NextTab by simp
  next
    case (Resized rs)
    then have "NcWindow_resize fits rs w c = (None, w1, c1)" using s(1) by (auto split: prod.splits option.splits)
    from resize_lit[OF Cons.prems(1,2,3) this] Cons.prems(4) Resized show ?thesis by simp
  qed
  then have i: "lit True w1 c1" "holds (n + (if is_resize e then button_count w else 0)) w1 c0 c1" "map lost_by (nw_tabs w1) = map lost_by (nw_tabs w)" by auto
  then have b: "button_count w1 = button_count w" "length (nw_tabs w1) = length (nw_tabs w)" by (simp add: button_count_def, metis length_map)
  from Cons.IH[OF Cons.prems(1) i(1,2) _ s(2)] Cons.prems(4) b i(3) show ?case by (auto simp: algebra_simps)
qed simp

end
