(* ===== verification/Screens.thy ===== *)
theory Screens
  imports WindowRuns
begin

text \<open>
  The four windows of the terminal client together: what \<open>CLI::switchWindow\<close>, \<open>handleException\<close> and a resize
  make ncurses create and delete (\<open>client/cli/source/CLI.cpp\<close>), and how many windows exist after any sequence
  of them.
\<close>

subsection \<open>A tab that is drawn\<close>

text \<open>The windows a tab asks for.\<close>

fun calls :: "tab \<Rightarrow> nat" where
  "calls (Plain t) = 1"
| "calls (Button t) = 3"
| "calls (Output t) = (if t_title t = [] then 2 else 4)"
| "calls (Input t) = 2"
| "calls (InOut t) = (if t_title t = [] then 4 else 6)"

text \<open>A tab without title has neither title nor line.\<close>

fun neat :: "tab \<Rightarrow> bool" where
  "neat (Output t) = (t_title t = [] \<longrightarrow> t_titleWin t = None \<and> t_divLineWin t = None)"
| "neat (InOut t) = (t_title t = [] \<longrightarrow> t_titleWin t = None \<and> t_divLineWin t = None)"
| "neat t = True"

lemma live_new [simp]: "length (cu_live (snd (new_window c))) = Suc (length (cu_live c))"
  by (simp add: new_window_def Let_def)

lemma tab_draw_fresh:
  assumes fits: "\<And>r. fits r" and d: "tab_draw fits r t c = (None, t', c')" and n: "neat t"
  shows "tab_draw fits r (blank t) c = (None, t', c')" "blank t' = blank t" "neat t'" "length (cu_live c') = length (cu_live c) + calls t"
proof -
  note defs = BasicTab_draw_def draw_window_of_def newwin_fits[of fits, OF fits] draw_then_def Let_def framed_def
  have "tab_draw fits r (blank t) c = (None, t', c') \<and> blank t' = blank t \<and> neat t' \<and> length (cu_live c') = length (cu_live c) + calls t"
  proof (cases t)
    case (Plain u)
    then show ?thesis using d by (auto simp: defs)
  next
    case (Button u)
    then show ?thesis using d by (auto simp: defs ButtonTab_draw_def)
  next
    case (Output u)
    show ?thesis using d n unfolding Output
      by (auto simp: defs OutputTab_draw_def OutputTab_body_def OutputTab_line_def OutputTab_title_def split: if_splits)
  next
    case (Input u)
    then show ?thesis using d by (auto simp: defs InputTab_draw_def)
  next
    case (InOut u)
    show ?thesis using d n unfolding InOut
      by (auto simp: defs InOutTab_draw_def InOutTab_body_def OutputTab_body_def OutputTab_line_def InOutTab_title_def InOutTab_frame_def
          InOutTab_input_def on_window_def inout_prompt_def split: if_splits)
  qed
  then show "tab_draw fits r (blank t) c = (None, t', c')" "blank t' = blank t" "neat t'" "length (cu_live c') = length (cu_live c) + calls t" by auto
qed

subsection \<open>A window\<close>

definition neat_window :: "nc_window \<Rightarrow> bool" where
  "neat_window w \<longleftrightarrow> (\<forall>t \<in> set (nw_tabs w). neat t \<and> titled t)"

text \<open>Calls and lost frames of each tab, and how many windows a drawn window holds.\<close>

definition costs :: "nc_window \<Rightarrow> (nat \<times> nat) list" where
  "costs w = map (\<lambda>t. (calls t, lost_by t)) (nw_tabs w)"

definition holding :: "(nat \<times> nat) list \<Rightarrow> nat" where
  "holding xs = sum_list (map fst xs) - sum_list (map snd xs)"

lemma blank_costs [simp]: "calls (blank t) = calls t" "neat (blank t)"
  by (cases t; simp)+

lemma lost_le_calls: "sum_list (map lost_by ts) \<le> sum_list (map calls ts)"
proof (induction ts)
  case (Cons t ts)
  have "lost_by t \<le> calls t" by (cases t) auto
  with Cons show ?case by simp
qed simp

lemma costs_sums: "sum_list (map fst (costs w)) = sum_list (map calls (nw_tabs w))" "sum_list (map snd (costs w)) = button_count w"
  by (simp_all add: costs_def button_count_def o_def)

lemma draw_tabs_fresh:
  "(\<And>r. fits r) \<Longrightarrow> draw_tabs fits rs ts c = (None, ts', c') \<Longrightarrow> length rs = length ts \<Longrightarrow> \<forall>t \<in> set ts. neat t \<Longrightarrow>
   draw_tabs fits rs (map blank ts) c = (None, ts', c') \<and> map blank ts' = map blank ts \<and> (\<forall>t \<in> set ts'. neat t) \<and>
   length (cu_live c') = length (cu_live c) + sum_list (map calls ts)"
proof (induction fits rs ts c arbitrary: ts' c' rule: draw_tabs.induct)
  case (1 fits r rs t ts c)
  obtain t1 c1 ts2 where d: "tab_draw fits r t c = (None, t1, c1)" "draw_tabs fits rs ts c1 = (None, ts2, c')" "ts' = t1 # ts2"
    using "1.prems"(2) by (auto split: prod.splits option.splits)
  have n: "neat t" using "1.prems"(4) by simp
  note e = tab_draw_fresh[OF "1.prems"(1) d(1) n]
  have "draw_tabs fits rs (map blank ts) c1 = (None, ts2, c') \<and> map blank ts2 = map blank ts \<and> (\<forall>t \<in> set ts2. neat t) \<and>
      length (cu_live c') = length (cu_live c1) + sum_list (map calls ts)"
    by (rule "1.IH"[OF d(1)[symmetric] _ refl "1.prems"(1) d(2)]) (use "1.prems" in auto)
  then show ?case using e d(3) by simp
qed auto

lemma blank_static: "map blank ts' = map blank ts \<Longrightarrow> map (\<lambda>t. (calls t, lost_by t)) ts' = map (\<lambda>t. (calls t, lost_by t)) ts"
proof -
  assume b: "map blank ts' = map blank ts"
  have "map (\<lambda>t. (calls t, lost_by t)) ts = map (\<lambda>t. (calls t, lost_by t)) (map blank ts)" for ts by simp
  then show ?thesis using b by metis
qed

text \<open>Drawing over whatever the window had: the old windows stay, the new ones are held but for the lost frames.\<close>

lemma draw_window_new:
  assumes fits: "\<And>r. fits r" and d: "NcWindow_draw fits rs w c = (None, w', c')" and n: "neat_window w" and len: "length rs = length (nw_tabs w)"
    and own: "windows.owns A c0 c"
  shows "\<exists>L. windows.owns (A \<union> L \<union> window_handles w') c0 c' \<and> A \<inter> (L \<union> window_handles w') = {} \<and> L \<inter> window_handles w' = {} \<and>
      card L = button_count w \<and> card (window_handles w') = holding (costs w)" and "costs w' = costs w" and "neat_window w'"
proof -
  let ?ts = "map blank (nw_tabs w)"
  obtain ts where t: "draw_tabs fits rs (nw_tabs w) c = (None, ts, c')" "w' = w\<lparr>nw_tabs := ts\<rparr>"
    using d by (auto simp: NcWindow_draw_def split: prod.splits)
  have "\<forall>t \<in> set (nw_tabs w). neat t" using n by (simp add: neat_window_def)
  from draw_tabs_fresh[OF fits t(1) len this]
  have f: "draw_tabs fits rs ?ts c = (None, ts, c')" "map blank ts = ?ts" "\<forall>t \<in> set ts. neat t"
    "length (cu_live c') = length (cu_live c) + sum_list (map calls (nw_tabs w))" by blast+
  show "costs w' = costs w" using blank_static[OF f(2)] by (simp add: costs_def t(2))
  have "\<forall>t \<in> set ts. titled t" using draw_tabs_titled[where fits = fits and ts = ?ts and rs = rs and c = c] fits f(1) by simp
  then show "neat_window w'" using f(3) by (simp add: neat_window_def t(2))
  have "grown (\<lambda>ts. \<Union>t \<in> set ts. handles t) (sum_list (map lost_by ?ts)) A c0 (draw_tabs fits rs ?ts c)"
    by (rule draw_tabs_grown[OF _ _ own]) (use len in auto)
  moreover have b: "sum_list (map lost_by ?ts) = button_count w" by (simp add: button_count_def o_def)
  ultimately obtain L where L: "windows.owns (A \<union> L \<union> window_handles w') c0 c'" "A \<inter> (L \<union> window_handles w') = {}" "L \<inter> window_handles w' = {}"
      "card L = button_count w"
    unfolding f(1) grown_def by (auto simp: window_handles_def t(2))
  have fin: "finite A" "finite L" "finite (window_handles w')" using windows.owns_finite[OF L(1)] by auto
  have "card (A \<union> L \<union> window_handles w') = card A + card L + card (window_handles w')"
    using L(2,3) fin by (subst card_Un_disjoint; (subst card_Un_disjoint)?) auto
  then have "card (window_handles w') = holding (costs w)"
    using windows.owns_count[OF L(1)] windows.owns_count[OF own] f(4) L(4) by (simp add: holding_def costs_sums)
  then show "\<exists>L. windows.owns (A \<union> L \<union> window_handles w') c0 c' \<and> A \<inter> (L \<union> window_handles w') = {} \<and> L \<inter> window_handles w' = {} \<and>
      card L = button_count w \<and> card (window_handles w') = holding (costs w)" using L by blast
qed

lemma clear_window_gone:
  assumes own: "windows.owns A c0 c" and n: "neat_window w" and sub: "window_handles w \<subseteq> A" and cl: "NcWindow_clear w c = (w', c')"
  shows "w' = w\<lparr>nw_tabs := map blank (nw_tabs w)\<rparr>" "windows.owns (A - window_handles w) c0 c'" "window_handles w' = {}" "costs w' = costs w" "neat_window w'"
proof -
  have "(\<Union>t \<in> set (nw_tabs w). handles t) \<inter> set (cu_live c0) = {}"
    using windows.owns_disjoint[OF own] sub by (auto simp: window_handles_def)
  from clear_tabs_owns[OF own this] n obtain k where "clear_tabs (nw_tabs w) c = (map blank (nw_tabs w), k)"
      "windows.owns (A - (\<Union>t \<in> set (nw_tabs w). handles t)) c0 k" by (auto simp: neat_window_def)
  then show "w' = w\<lparr>nw_tabs := map blank (nw_tabs w)\<rparr>" "windows.owns (A - window_handles w) c0 c'"
    using cl by (auto simp: NcWindow_clear_def window_handles_def)
  then show "window_handles w' = {}" "costs w' = costs w" "neat_window w'"
    by (simp_all add: window_handles_def costs_def neat_window_def)
qed

text \<open>Moving to another tab creates and deletes nothing.\<close>

lemma tab_turn_windows: "fst (tab_turn b t c) = with_active b t" "cu_live (snd (tab_turn b t c)) = cu_live c"
proof -
  have "fst (tab_turn b t c) = with_active b t \<and> cu_live (snd (tab_turn b t c)) = cu_live c"
    by (cases t; cases b)
      (simp_all add: tab_turn_def BasicTab_activate_def BasicTab_deactivate_def ButtonTab_activate_def ButtonTab_deactivate_def OutputTab_activate_def
        OutputTab_deactivate_def InputTab_activate_def InputTab_deactivate_def InputTab_rewrite_def InOutTab_activate_def InOutTab_deactivate_def
        inout_prompt_def Let_def live_on_window)
  then show "fst (tab_turn b t c) = with_active b t" "cu_live (snd (tab_turn b t c)) = cu_live c" by auto
qed

definition shape :: "tab \<Rightarrow> nat set \<times> nat \<times> nat \<times> bool" where
  "shape t = (handles t, calls t, lost_by t, neat t \<and> titled t)"

lemma shape_turned [simp]: "shape (with_active b t) = shape t"
  by (cases t) (simp_all add: shape_def)

lemma at_tab_shape:
  "at_tab i (tab_turn b) w c = (w', c') \<Longrightarrow> map shape (nw_tabs w') = map shape (nw_tabs w) \<and> cu_live c' = cu_live c \<and> nw_skip w' = nw_skip w"
  using tab_turn_windows[of b "nw_tabs w ! i" c] by (auto simp: at_tab_def map_same_list split: prod.splits)

lemma switch_shape:
  assumes "NcWindow_switch index w c = Some (w', c')"
  shows "map shape (nw_tabs w') = map shape (nw_tabs w)" "cu_live c' = cu_live c"
proof -
  have "map shape (nw_tabs w') = map shape (nw_tabs w) \<and> cu_live c' = cu_live c"
  proof (cases "nw_tabs w = []")
    case False
    obtain w1 c1 where d: "at_tab (nw_active w) (tab_turn False) w c = (w1, c1)" by (metis surj_pair)
    obtain j where "at_tab j (tab_turn True) (w1\<lparr>nw_active := j\<rparr>) c1 = (w', c')"
      using assms False d by (auto simp: NcWindow_switch_def turned)
    from at_tab_shape[OF this] at_tab_shape[OF d] show ?thesis by simp
  qed (use assms in \<open>simp add: NcWindow_switch_def\<close>)
  then show "map shape (nw_tabs w') = map shape (nw_tabs w)" "cu_live c' = cu_live c" by auto
qed

lemma shape_parts:
  assumes "map shape (nw_tabs w') = map shape (nw_tabs w)"
  shows "window_handles w' = window_handles w" "costs w' = costs w" "neat_window w' = neat_window w" "length (nw_tabs w') = length (nw_tabs w)"
proof -
  have "map f (map shape (nw_tabs w')) = map f (map shape (nw_tabs w))" for f :: "nat set \<times> nat \<times> nat \<times> bool \<Rightarrow> 'a" by (simp only: assms)
  from this[of fst] this[of "\<lambda>(h, c, l, n). (c, l)"] this[of "\<lambda>(h, c, l, n). n"]
  have m: "map handles (nw_tabs w') = map handles (nw_tabs w)" "costs w' = costs w"
    "map (\<lambda>t. neat t \<and> titled t) (nw_tabs w') = map (\<lambda>t. neat t \<and> titled t) (nw_tabs w)"
    by (simp_all add: shape_def o_def costs_def)
  show "costs w' = costs w" by (rule m)
  have "handles ` set (nw_tabs w') = handles ` set (nw_tabs w)" using arg_cong[OF m(1), of set] by simp
  then show "window_handles w' = window_handles w" by (simp add: window_handles_def)
  have "list_all id (map (\<lambda>t. neat t \<and> titled t) (nw_tabs v)) = neat_window v" for v by (auto simp: neat_window_def list_all_iff)
  then show "neat_window w' = neat_window w" using m(3) by metis
  show "length (nw_tabs w') = length (nw_tabs w)" using assms by (metis length_map)
qed

subsection \<open>The four windows\<close>

text \<open>The member for each phase; \<open>P_ND\<close> has none.\<close>

record screens =
  sc_window :: "GamePhase \<Rightarrow> nc_window"
  sc_current :: "GamePhase option"

definition set_window :: "GamePhase \<Rightarrow> nc_window \<Rightarrow> screens \<Rightarrow> screens" where
  "set_window p w s = s\<lparr>sc_window := (sc_window s)(p := w)\<rparr>"

definition no_window :: nc_window where
  "no_window = \<lparr>nw_tabs = [], nw_skip = [], nw_active = 0\<rparr>"

text \<open>The constructor of \<open>CLI\<close> makes them one after the other.\<close>

definition make_screens :: "bool \<Rightarrow> curses \<Rightarrow> (screens \<times> curses) option" where
  "make_screens hc c = Option.bind (LoginWindow hc c) (\<lambda>(login, c1). Option.bind (PlayerCreateWindow hc c1) (\<lambda>(create, c2).
     map_option (\<lambda>(game, c3). (\<lparr>sc_window = (\<lambda>p. case p of P_LOGIN \<Rightarrow> login | P_PLAYER_CREATE \<Rightarrow> create | P_GAME \<Rightarrow> game
       | P_ERROR \<Rightarrow> ErrorWindow hc | P_ND \<Rightarrow> no_window), sc_current = None\<rparr>, c3)) (GameWindow hc c2)))"

definition close_screen :: "GamePhase \<Rightarrow> screens \<Rightarrow> curses \<Rightarrow> screens \<times> curses" where
  "close_screen p s c = map_prod (\<lambda>w. set_window p w s) id
     (if p = P_ERROR then ErrorWindow_clear (sc_window s p) c else NcWindow_clear (sc_window s p) c)"

text \<open>\<open>switchWindow\<close>, once the engine is in the phase \<open>p\<close>.\<close>

definition show_screen :: "(rect \<Rightarrow> bool) \<Rightarrow> rect list \<Rightarrow> GamePhase \<Rightarrow> screens \<Rightarrow> curses \<Rightarrow> screens painting" where
  "show_screen fits rs p s c =
     (case (case sc_current s of Some q \<Rightarrow> if p \<noteq> P_ERROR then close_screen q s c else (s, c) | None \<Rightarrow> (s, c)) of (s1, c1) \<Rightarrow>
        if p = P_ND then (Some Crash, s1, c1)
        else (case NcWindow_draw fits rs (sc_window s1 p) c1 of (e, w, c2) \<Rightarrow> (e, (set_window p w s1)\<lparr>sc_current := Some p\<rparr>, c2)))"

text \<open>\<open>adaptWinToError\<close>: the buttons of the error.\<close>

definition adapt_screen :: "string \<Rightarrow> string option \<Rightarrow> screens \<Rightarrow> curses \<Rightarrow> (screens \<times> curses) option" where
  "adapt_screen name1 name2 s c = (case close_screen P_ERROR s c of (s1, c1) \<Rightarrow>
     map_option (\<lambda>(w, c2). (set_window P_ERROR w s1, c2)) (ErrorWindow_buttons name1 name2 (sc_window s1 P_ERROR) c1))"

text \<open>What happens to the windows: the engine goes to another phase, an error is reported, the user or the
  terminal acts on the current window (a new size in the error window fails an assertion).  \<open>None\<close>: an exception.\<close>

datatype screen_event = Show GamePhase "rect list" | Report string "string option" "rect list" | Within window_event

fun screen_step :: "(rect \<Rightarrow> bool) \<Rightarrow> screen_event \<Rightarrow> screens \<times> curses \<Rightarrow> (screens \<times> curses) option" where
  "screen_step fits (Show p rs) (s, c) = (case show_screen fits rs p s c of (None, s1, c1) \<Rightarrow> Some (s1, c1) | _ \<Rightarrow> None)"
| "screen_step fits (Report name1 name2 rs) (s, c) = Option.bind (adapt_screen name1 name2 s c) (\<lambda>(s1, c1).
     case show_screen fits rs P_ERROR s1 c1 of (None, s2, c2) \<Rightarrow> Some (s2, c2) | _ \<Rightarrow> None)"
| "screen_step fits (Within e) (s, c) = (case sc_current s of
     None \<Rightarrow> None
   | Some p \<Rightarrow> if p = P_ERROR \<and> is_resize e then None
       else map_option (\<lambda>(w, c1). (set_window p w s, c1)) (window_step fits e (sc_window s p, c)))"

fun screen_run :: "(rect \<Rightarrow> bool) \<Rightarrow> screen_event list \<Rightarrow> screens \<times> curses \<Rightarrow> (screens \<times> curses) option" where
  "screen_run fits [] sc = Some sc"
| "screen_run fits (e # es) sc = Option.bind (screen_step fits e sc) (screen_run fits es)"

subsection \<open>The account\<close>

text \<open>What an observer of the events writes down: the phase on the screen, the windows drawn below an error,
  the buttons of the error, the windows nobody holds any more.\<close>

record ledger =
  lg_current :: "GamePhase option"
  lg_covered :: "GamePhase list"
  lg_buttons :: nat
  lg_lost :: nat

text \<open>How many ncurses windows the window of a phase consists of, and how many each drawing loses.\<close>

fun window_size :: "nat \<Rightarrow> GamePhase \<Rightarrow> nat" where
  "window_size b P_LOGIN = 9"
| "window_size b P_PLAYER_CREATE = 9"
| "window_size b P_GAME = 19"
| "window_size b P_ERROR = 5 + 2 * b"
| "window_size b P_ND = 0"

fun button_frames :: "nat \<Rightarrow> GamePhase \<Rightarrow> nat" where
  "button_frames b P_LOGIN = 2"
| "button_frames b P_PLAYER_CREATE = 2"
| "button_frames b P_ERROR = b"
| "button_frames b p = 0"

definition drawn :: "GamePhase \<Rightarrow> ledger \<Rightarrow> ledger" where
  "drawn p g = g\<lparr>lg_current := Some p, lg_covered := removeAll p (lg_covered g),
     lg_lost := lg_lost g + button_frames (lg_buttons g) p + (if p \<in> set (lg_covered g) then window_size (lg_buttons g) p else 0)\<rparr>"

fun booked :: "screen_event \<Rightarrow> ledger \<Rightarrow> ledger" where
  "booked (Show p rs) g = drawn p g"
| "booked (Report name1 name2 rs) g = drawn P_ERROR (g\<lparr>lg_buttons := (if name2 = None then 1 else 2),
     lg_covered := (case lg_current g of Some q \<Rightarrow> if q = P_ERROR then lg_covered g else q # lg_covered g | None \<Rightarrow> lg_covered g)\<rparr>)"
| "booked (Within e) g = (case lg_current g of
     Some p \<Rightarrow> if is_resize e then g\<lparr>lg_lost := lg_lost g + button_frames (lg_buttons g) p\<rparr> else g
   | None \<Rightarrow> g)"

definition empty_ledger :: ledger where
  "empty_ledger = \<lparr>lg_current = None, lg_covered = [], lg_buttons = 0, lg_lost = 0\<rparr>"

definition windows_in :: "ledger \<Rightarrow> nat" where
  "windows_in g = lg_lost g + sum_list (map (window_size (lg_buttons g)) ((case lg_current g of Some p \<Rightarrow> [p] | None \<Rightarrow> []) @ lg_covered g))"

text \<open>The engine shows the three phases of a session; each drawing has a rectangle for each tab.\<close>

fun fitting :: "screen_event \<Rightarrow> bool" where
  "fitting (Show p rs) = (p \<in> {P_LOGIN, P_PLAYER_CREATE, P_GAME} \<and> length rs = 5)"
| "fitting (Report name1 name2 rs) = (length rs = (if name2 = None then 3 else 4))"
| "fitting (Within e) = draws_all 5 e"

subsection \<open>Who holds which window\<close>

definition pool :: "nat set \<Rightarrow> (GamePhase \<Rightarrow> nat set) \<Rightarrow> curses \<Rightarrow> curses \<Rightarrow> bool" where
  "pool L H c0 c \<longleftrightarrow> windows.owns (L \<union> (\<Union>p. H p)) c0 c \<and> (\<forall>p. L \<inter> H p = {}) \<and> (\<forall>p q x. x \<in> H p \<longrightarrow> x \<in> H q \<longrightarrow> p = q)"

lemma pool_clear:
  assumes p: "pool L H c0 c" and o: "windows.owns (L \<union> (\<Union>p. H p) - H q) c0 c'"
  shows "pool L (H(q := {})) c0 c'"
proof -
  have "L \<union> (\<Union>p. (H(q := {})) p) = L \<union> (\<Union>p. H p) - H q" using p by (auto simp: pool_def split: if_splits)
  then show ?thesis using p o by (auto simp: pool_def)
qed

lemma pool_draw:
  assumes p: "pool L H c0 c" and o: "windows.owns (L \<union> (\<Union>p. H p) \<union> L' \<union> H') c0 c'" and f: "(L \<union> (\<Union>p. H p)) \<inter> (L' \<union> H') = {}" "L' \<inter> H' = {}"
  shows "pool (L \<union> H q \<union> L') (H(q := H')) c0 c'" and "card (L \<union> H q \<union> L') = card L + card (H q) + card L'"
proof -
  have "L \<union> H q \<union> L' \<union> (\<Union>p. (H(q := H')) p) = L \<union> (\<Union>p. H p) \<union> L' \<union> H'" by (auto split: if_splits)
  moreover have "(L \<union> H q \<union> L') \<inter> (H(q := H')) x = {}" for x using p f by (cases "x = q") (auto simp: pool_def)
  moreover have "a = b" if "x \<in> (H(q := H')) a" "x \<in> (H(q := H')) b" for a b x
    using p f that by (cases "a = q"; cases "b = q") (auto simp: pool_def)
  ultimately show "pool (L \<union> H q \<union> L') (H(q := H')) c0 c'" using o by (simp only: pool_def) blast
  have "finite (L \<union> (\<Union>p. H p) \<union> L' \<union> H')" by (rule windows.owns_finite[OF o])
  then have fin: "finite L" "finite (H q)" "finite L'" by (auto intro: finite_subset)
  have "L \<inter> H q = {}" "(L \<union> H q) \<inter> L' = {}" using p f by (auto simp: pool_def)
  then show "card (L \<union> H q \<union> L') = card L + card (H q) + card L'" using fin by (simp add: card_Un_disjoint)
qed

lemma pool_cong: "pool L H c0 c \<Longrightarrow> cu_live c' = cu_live c \<Longrightarrow> pool L H c0 c'"
  unfolding pool_def using windows.owns_cong by blast

definition held :: "screens \<Rightarrow> GamePhase \<Rightarrow> nat set" where
  "held s p = window_handles (sc_window s p)"

lemma held_set [simp]: "held (set_window p w s) = (held s)(p := window_handles w)" "held (s\<lparr>sc_current := q\<rparr>) = held s"
  by (auto simp: held_def set_window_def fun_eq_iff)

lemma set_window_simps [simp]: "sc_window (set_window p w s) q = (if q = p then w else sc_window s q)" "sc_current (set_window p w s) = sc_current s"
  by (simp_all add: set_window_def)

text \<open>The tabs of each window; those of the error window come and go.\<close>

fun template :: "nat \<Rightarrow> GamePhase \<Rightarrow> (nat \<times> nat) list" where
  "template b P_LOGIN = [(1, 0), (2, 0), (2, 0), (3, 1), (3, 1)]"
| "template b P_PLAYER_CREATE = [(1, 0), (2, 0), (2, 0), (3, 1), (3, 1)]"
| "template b P_GAME = [(1, 0), (2, 0), (4, 0), (6, 0), (6, 0)]"
| "template b P_ERROR = [(1, 0), (4, 0)] @ replicate b (3, 1)"
| "template b P_ND = []"

lemma template_counts: "holding (template b p) = window_size b p" "sum_list (map snd (template b p)) = button_frames b p"
  by (cases p; simp add: holding_def sum_list_replicate)+

definition tabs_kept :: "ledger \<Rightarrow> screens \<Rightarrow> bool" where
  "tabs_kept g s \<longleftrightarrow> (\<forall>p. neat_window (sc_window s p)) \<and> (\<forall>p. p \<noteq> P_ERROR \<longrightarrow> costs (sc_window s p) = template 0 p) \<and>
     take 2 (costs (sc_window s P_ERROR)) = template 0 P_ERROR \<and>
     (lg_current g = Some P_ERROR \<longrightarrow> costs (sc_window s P_ERROR) = template (lg_buttons g) P_ERROR)"

definition ledger_ok :: "ledger \<Rightarrow> bool" where
  "ledger_ok g \<longleftrightarrow> distinct (lg_covered g) \<and> P_ERROR \<notin> set (lg_covered g) \<and> P_ND \<notin> set (lg_covered g) \<and> lg_current g \<noteq> Some P_ND \<and>
     (\<forall>p. lg_current g = Some p \<longrightarrow> p \<notin> set (lg_covered g))"

definition on_screen :: "ledger \<Rightarrow> GamePhase \<Rightarrow> bool" where
  "on_screen g p \<longleftrightarrow> lg_current g = Some p \<or> p \<in> set (lg_covered g)"

definition counted :: "ledger \<Rightarrow> screens \<Rightarrow> curses \<Rightarrow> curses \<Rightarrow> bool" where
  "counted g s c0 c \<longleftrightarrow> sc_current s = lg_current g \<and> tabs_kept g s \<and> ledger_ok g \<and> (\<exists>L. pool L (held s) c0 c \<and> card L = lg_lost g) \<and>
     (\<forall>p. card (held s p) = (if on_screen g p then window_size (lg_buttons g) p else 0))"

lemma pool_finite: "pool L H c0 c \<Longrightarrow> finite L \<and> finite (H p)"
  using windows.owns_finite[of "L \<union> (\<Union>p. H p)" c0 c] by (auto simp: pool_def intro: finite_subset)

lemma take_costs: "nw_tabs w' = take n (nw_tabs w) \<Longrightarrow> costs w' = take n (costs w)"
  by (simp add: costs_def take_map)

lemma close_screen_gone:
  assumes t: "tabs_kept g s" and p: "pool L (held s) c0 c" and cl: "close_screen q s c = (s', c')"
  shows "\<exists>w. s' = set_window q w s \<and> window_handles w = {} \<and> neat_window w
      \<and> costs w = (if q = P_ERROR then template 0 P_ERROR else costs (sc_window s q)) \<and> pool L (held s') c0 c'"
proof -
  let ?w = "sc_window s q"
  obtain w1 c1 where n: "NcWindow_clear ?w c = (w1, c1)" by (metis surj_pair)
  have own: "windows.owns (L \<union> (\<Union>p. held s p)) c0 c" using p by (simp add: pool_def)
  have "neat_window ?w" using t by (simp add: tabs_kept_def)
  note k = clear_window_gone[OF own this _ n]
  have sub: "window_handles ?w \<subseteq> L \<union> (\<Union>p. held s p)" by (auto simp: held_def)
  have pool: "pool L ((held s)(q := {})) c0 c1" using pool_clear[OF p] k(2)[OF sub] by (simp add: held_def)
  show ?thesis
  proof (cases "q = P_ERROR")
    case False
    then show ?thesis using cl n k(3-5)[OF sub] pool by (intro exI[of _ w1]) (auto simp: close_screen_def)
  next
    case True
    define w2 where "w2 = w1\<lparr>nw_tabs := take 2 (nw_tabs w1), nw_active := 0\<rparr>"
    have "costs w2 = take 2 (costs w1)" by (rule take_costs) (simp add: w2_def)
    then have "costs w2 = template 0 P_ERROR" using k(4)[OF sub] t True by (simp add: tabs_kept_def)
    moreover have "neat_window w2" using k(5)[OF sub] by (auto simp: neat_window_def w2_def dest: in_set_takeD)
    moreover have "window_handles w2 = {}" using k(3)[OF sub] by (auto simp: window_handles_def w2_def dest: in_set_takeD)
    ultimately show ?thesis using cl n True pool
      by (intro exI[of _ w2]) (auto simp: close_screen_def ErrorWindow_clear_def w2_def)
  qed
qed

text \<open>The current window is cleared before another phase is shown.\<close>

lemma closed_counted:
  assumes k: "counted g s c0 c" and q: "lg_current g = Some q" and cl: "close_screen q s c = (s', c')"
  shows "counted (g\<lparr>lg_current := None\<rparr>) (s'\<lparr>sc_current := None\<rparr>) c0 c'"
proof -
  obtain L where L: "pool L (held s) c0 c" "card L = lg_lost g" using k by (auto simp: counted_def)
  have t: "tabs_kept g s" using k by (simp add: counted_def)
  obtain w where w: "s' = set_window q w s" "window_handles w = {}" "neat_window w"
      "costs w = (if q = P_ERROR then template 0 P_ERROR else costs (sc_window s q))" "pool L (held s') c0 c'"
    using close_screen_gone[OF t L(1) cl] by blast
  have "tabs_kept (g\<lparr>lg_current := None\<rparr>) (s'\<lparr>sc_current := None\<rparr>)" using t w(1,3,4) by (auto simp: tabs_kept_def)
  moreover have "ledger_ok (g\<lparr>lg_current := None\<rparr>)" "q \<notin> set (lg_covered g)" using k q by (auto simp: counted_def ledger_ok_def)
  moreover have "card (held s' p) = (if p \<in> set (lg_covered g) then window_size (lg_buttons g) p else 0)" for p
    using k q w(1,2) calculation(3) by (auto simp: counted_def on_screen_def)
  ultimately show ?thesis using w(5) L(2) by (auto simp: counted_def on_screen_def)
qed

lemma drawn_counted:
  assumes fits: "\<And>r. fits r" and k: "counted g s c0 c" and none: "lg_current g = None" and p: "p \<noteq> P_ND"
    and t: "costs (sc_window s p) = template (lg_buttons g) p" and len: "length rs = length (nw_tabs (sc_window s p))"
    and d: "NcWindow_draw fits rs (sc_window s p) c = (None, w, c')"
  shows "counted (drawn p g) ((set_window p w s)\<lparr>sc_current := Some p\<rparr>) c0 c'"
proof -
  obtain L where L: "pool L (held s) c0 c" "card L = lg_lost g" using k by (auto simp: counted_def)
  have tk: "tabs_kept g s" using k by (simp add: counted_def)
  have own: "windows.owns (L \<union> (\<Union>p. held s p)) c0 c" using L(1) by (simp add: pool_def)
  have n: "neat_window (sc_window s p)" using tk by (simp add: tabs_kept_def)
  note e = draw_window_new[OF fits d n len own]
  obtain L' where L': "windows.owns (L \<union> (\<Union>p. held s p) \<union> L' \<union> window_handles w) c0 c'"
      "(L \<union> (\<Union>p. held s p)) \<inter> (L' \<union> window_handles w) = {}" "L' \<inter> window_handles w = {}"
      "card L' = button_count (sc_window s p)" "card (window_handles w) = holding (costs (sc_window s p))"
    using e(1) by blast
  note pd = pool_draw[OF L(1) L'(1-3), where q = p]
  have bc: "button_count (sc_window s p) = button_frames (lg_buttons g) p"
    using costs_sums(2)[of "sc_window s p"] t template_counts(2) by simp
  have hp: "card (held s p) = (if p \<in> set (lg_covered g) then window_size (lg_buttons g) p else 0)"
    using k none by (simp add: counted_def on_screen_def)
  have "card (L \<union> held s p \<union> L') = lg_lost (drawn p g)" using pd(2) L(2) L'(4) bc hp by (simp add: drawn_def)
  moreover have "tabs_kept (drawn p g) ((set_window p w s)\<lparr>sc_current := Some p\<rparr>)"
    using tk e(2,3) t by (auto simp: tabs_kept_def drawn_def)
  moreover have "ledger_ok (drawn p g)" using k p by (auto simp: counted_def ledger_ok_def drawn_def distinct_removeAll)
  moreover have "card (window_handles w) = window_size (lg_buttons g) p" using L'(5) t template_counts(1) by simp
  then have "card (held ((set_window p w s)\<lparr>sc_current := Some p\<rparr>) q) = (if on_screen (drawn p g) q then window_size (lg_buttons (drawn p g)) q else 0)" for q
    using k none by (auto simp: counted_def on_screen_def drawn_def)
  ultimately show ?thesis using pd(1) by (auto simp: counted_def drawn_def)
qed

lemma drawn_again: "drawn p (g\<lparr>lg_current := q\<rparr>) = drawn p g"
  by (simp add: drawn_def)

lemma costs_length: "length (nw_tabs w) = length (costs w)"
  by (simp add: costs_def)

lemma show_counted:
  assumes fits: "\<And>r. fits r" and k: "counted g s c0 c" and p: "p \<in> {P_LOGIN, P_PLAYER_CREATE, P_GAME}" and len: "length rs = 5"
    and d: "show_screen fits rs p s c = (None, s', c')"
  shows "counted (drawn p g) s' c0 c'"
proof -
  obtain s1 c1 where r: "(case sc_current s of Some q \<Rightarrow> if p \<noteq> P_ERROR then close_screen q s c else (s, c) | None \<Rightarrow> (s, c)) = (s1, c1)"
    by (metis surj_pair)
  have pp: "p \<noteq> P_ERROR" "p \<noteq> P_ND" using p by auto
  have cur: "sc_current s = lg_current g" using k by (simp add: counted_def)
  have k1: "counted (g\<lparr>lg_current := None\<rparr>) (s1\<lparr>sc_current := None\<rparr>) c0 c1"
  proof (cases "lg_current g")
    case None
    then have "g\<lparr>lg_current := None\<rparr> = g" "s\<lparr>sc_current := None\<rparr> = s" using cur by simp_all
    moreover have "s1 = s" "c1 = c" using r cur None by simp_all
    ultimately show ?thesis using k by (simp only:)
  next
    case (Some q)
    then show ?thesis using closed_counted[OF k Some] r cur pp by simp
  qed
  obtain w where w: "NcWindow_draw fits rs (sc_window s1 p) c1 = (None, w, c')" "s' = (set_window p w s1)\<lparr>sc_current := Some p\<rparr>"
    using d pp(2) unfolding show_screen_def r by (auto split: prod.splits)
  have t: "costs (sc_window s1 p) = template 0 p" using k1 pp(1) by (simp add: counted_def tabs_kept_def)
  have t': "costs (sc_window (s1\<lparr>sc_current := None\<rparr>) p) = template (lg_buttons (g\<lparr>lg_current := None\<rparr>)) p" using t p by auto
  have "length (nw_tabs (sc_window (s1\<lparr>sc_current := None\<rparr>) p)) = 5" using t p by (auto simp: costs_length)
  then have "counted (drawn p (g\<lparr>lg_current := None\<rparr>)) ((set_window p w (s1\<lparr>sc_current := None\<rparr>))\<lparr>sc_current := Some p\<rparr>) c0 c'"
    using drawn_counted[OF fits k1 _ pp(2) t', where rs = rs and w = w and c' = c'] w(1) len by simp
  moreover have "(set_window p w (s1\<lparr>sc_current := None\<rparr>))\<lparr>sc_current := Some p\<rparr> = s'" by (simp add: w(2) set_window_def)
  ultimately show ?thesis by (simp only: drawn_again)
qed

lemma buttons_added:
  assumes "ErrorWindow_buttons name1 name2 w c = Some (w', c')" and "neat_window w"
  shows "window_handles w' = window_handles w" "costs w' = costs w @ replicate (if name2 = None then 1 else 2) (3, 1)" "neat_window w'" "cu_live c' = cu_live c"
proof -
  let ?w = "w\<lparr>nw_tabs := nw_tabs w @ [Button (ButtonTab True name1 (-1))]\<rparr>"
  obtain w1 where sw: "NcWindow_switch 2 ?w c = Some (w1, c')"
      and w': "w' = (case name2 of None \<Rightarrow> w1 | Some n \<Rightarrow> w1\<lparr>nw_tabs := nw_tabs w1 @ [Button (ButtonTab True n (-1))]\<rparr>)"
    using assms(1) by (auto simp: ErrorWindow_buttons_def)
  note sh = shape_parts[OF switch_shape(1)[OF sw]]
  have "window_handles ?w = window_handles w" "costs ?w = costs w @ [(3, 1)]" "neat_window ?w"
    using assms(2) by (auto simp: window_handles_def costs_def neat_window_def ButtonTab_def)
  with sh have 1: "window_handles w1 = window_handles w" "costs w1 = costs w @ [(3, 1)]" "neat_window w1" by simp_all
  then show "window_handles w' = window_handles w" "costs w' = costs w @ replicate (if name2 = None then 1 else 2) (3, 1)" "neat_window w'"
    by (auto simp: w' window_handles_def costs_def neat_window_def ButtonTab_def numeral_2_eq_2 split: option.splits)
  show "cu_live c' = cu_live c" by (rule switch_shape(2)[OF sw])
qed

lemma window_size_other: "p \<noteq> P_ERROR \<Longrightarrow> window_size b p = window_size b' p"
  by (cases p) auto

lemma adapt_counted:
  assumes k: "counted g s c0 c" and a: "adapt_screen name1 name2 s c = Some (s', c')"
    and g: "g' = g\<lparr>lg_current := None, lg_buttons := (if name2 = None then 1 else 2),
      lg_covered := (case lg_current g of Some q \<Rightarrow> if q = P_ERROR then lg_covered g else q # lg_covered g | None \<Rightarrow> lg_covered g)\<rparr>"
  shows "counted g' (s'\<lparr>sc_current := None\<rparr>) c0 c' \<and> costs (sc_window s' P_ERROR) = template (lg_buttons g') P_ERROR"
proof -
  obtain s1 c1 where cl: "close_screen P_ERROR s c = (s1, c1)" by (metis surj_pair)
  obtain w2 where b: "ErrorWindow_buttons name1 name2 (sc_window s1 P_ERROR) c1 = Some (w2, c')" "s' = set_window P_ERROR w2 s1"
    using a cl by (auto simp: adapt_screen_def)
  obtain L where L: "pool L (held s) c0 c" "card L = lg_lost g" using k by (auto simp: counted_def)
  have t: "tabs_kept g s" using k by (simp add: counted_def)
  obtain w where w: "s1 = set_window P_ERROR w s" "window_handles w = {}" "neat_window w" "costs w = template 0 P_ERROR" "pool L (held s1) c0 c1"
    using close_screen_gone[OF t L(1) cl] by auto
  have "sc_window s1 P_ERROR = w" by (simp add: w(1))
  note ba = buttons_added[OF b(1)[unfolded this] w(3)]
  have s': "s' = set_window P_ERROR w2 s" by (simp add: b(2) w(1) set_window_def)
  have c2: "costs w2 = template (lg_buttons g') P_ERROR" using ba(2) w(4) by (simp add: g)
  have h: "held s' = held s1" using ba(1) by (auto simp: s' w(1) fun_eq_iff)
  have "pool L (held s') c0 c'" using pool_cong[OF w(5) ba(4)] by (simp add: h)
  moreover have "tabs_kept g' (s'\<lparr>sc_current := None\<rparr>)" using t c2 ba(3) by (auto simp: tabs_kept_def s' g)
  moreover have "ledger_ok g'" using k by (auto simp: counted_def ledger_ok_def g split: option.splits)
  moreover have "card (held s' p) = (if on_screen g' p then window_size (lg_buttons g') p else 0)" for p
  proof (cases "p = P_ERROR")
    case True
    then have "\<not> on_screen g' p" using k by (auto simp: counted_def ledger_ok_def on_screen_def g split: option.splits)
    then show ?thesis using w(2) ba(1) True by (simp add: s')
  next
    case False
    then have "on_screen g' p = on_screen g p" by (auto simp: on_screen_def g split: option.splits)
    then show ?thesis using k False window_size_other[OF False] by (simp add: counted_def s')
  qed
  ultimately show ?thesis using L(2) c2 by (auto simp: counted_def g s')
qed

lemma report_counted:
  assumes fits: "\<And>r. fits r" and k: "counted g s c0 c" and len: "length rs = (if name2 = None then 3 else 4)"
    and a: "adapt_screen name1 name2 s c = Some (s1, c1)" and d: "show_screen fits rs P_ERROR s1 c1 = (None, s', c')"
  shows "counted (booked (Report name1 name2 rs) g) s' c0 c'"
proof -
  define g' where "g' = g\<lparr>lg_current := None, lg_buttons := (if name2 = None then 1 else 2),
      lg_covered := (case lg_current g of Some q \<Rightarrow> if q = P_ERROR then lg_covered g else q # lg_covered g | None \<Rightarrow> lg_covered g)\<rparr>"
  have k1: "counted g' (s1\<lparr>sc_current := None\<rparr>) c0 c1" and t: "costs (sc_window s1 P_ERROR) = template (lg_buttons g') P_ERROR"
    using adapt_counted[OF k a g'_def] by auto
  obtain w where w: "NcWindow_draw fits rs (sc_window s1 P_ERROR) c1 = (None, w, c')" "s' = (set_window P_ERROR w s1)\<lparr>sc_current := Some P_ERROR\<rparr>"
    using d by (auto simp: show_screen_def split: prod.splits option.splits)
  have n: "lg_current g' = None" by (simp add: g'_def)
  have l: "length rs = length (nw_tabs (sc_window s1 P_ERROR))" using t len by (simp add: costs_length g'_def)
  have "counted (drawn P_ERROR g') ((set_window P_ERROR w (s1\<lparr>sc_current := None\<rparr>))\<lparr>sc_current := Some P_ERROR\<rparr>) c0 c'"
    using drawn_counted[OF fits k1 n, where p = P_ERROR and rs = rs and w = w and c' = c'] w(1) t l by simp
  moreover have "(set_window P_ERROR w (s1\<lparr>sc_current := None\<rparr>))\<lparr>sc_current := Some P_ERROR\<rparr> = s'" by (simp add: w(2) set_window_def)
  moreover have "drawn P_ERROR g' = booked (Report name1 name2 rs) g" by (simp add: g'_def drawn_def)
  ultimately show ?thesis by (simp only:)
qed

lemma drawn_same: "ledger_ok g \<Longrightarrow> lg_current g = Some p \<Longrightarrow> drawn p g = g\<lparr>lg_lost := lg_lost g + button_frames (lg_buttons g) p\<rparr>"
  by (auto simp: drawn_def ledger_ok_def)

lemma moved_counted:
  assumes k: "counted g s c0 c" and w: "map shape (nw_tabs w) = map shape (nw_tabs (sc_window s p))" "cu_live c' = cu_live c"
  shows "counted g (set_window p w s) c0 c'"
proof -
  note sh = shape_parts[OF w(1)]
  have h: "held (set_window p w s) = held s" using sh(1) by (auto simp: held_def fun_eq_iff)
  have "tabs_kept g (set_window p w s)" using k sh(2,3) by (auto simp: counted_def tabs_kept_def)
  moreover obtain L where "pool L (held s) c0 c" "card L = lg_lost g" using k by (auto simp: counted_def)
  then have "\<exists>L. pool L (held (set_window p w s)) c0 c' \<and> card L = lg_lost g" using pool_cong w(2) unfolding h by blast
  ultimately show ?thesis using k unfolding counted_def h by simp
qed

lemma within_counted:
  assumes fits: "\<And>r. fits r" and k: "counted g s c0 c" and e: "draws_all 5 e"
    and st: "screen_step fits (Within e) (s, c) = Some (s', c')"
  shows "counted (booked (Within e) g) s' c0 c'"
proof -
  obtain p where p: "sc_current s = Some p" "\<not> (p = P_ERROR \<and> is_resize e)" using st by (auto split: option.splits if_splits)
  obtain w where w: "window_step fits e (sc_window s p, c) = Some (w, c')" "s' = set_window p w s"
    using st p by (auto split: if_splits)
  have cur: "lg_current g = Some p" using k p(1) by (simp add: counted_def)
  show ?thesis
  proof (cases e)
    case NextTab
    then have "NcWindow_switch (-1) (sc_window s p) c = Some (w, c')" using w(1) by simp
    from moved_counted[OF k switch_shape[OF this]] show ?thesis using cur NextTab by (simp add: w(2))
  next
    case (Resized rs)
    obtain w1 c1 where cl: "NcWindow_clear (sc_window s p) c = (w1, c1)" by (metis surj_pair)
    have d: "NcWindow_draw fits rs w1 c1 = (None, w, c')" using w(1) Resized cl
      by (auto simp: NcWindow_resize_def split: prod.splits option.splits)
    have pe: "p \<noteq> P_ERROR" using p(2) Resized by simp
    have lo: "ledger_ok g" "tabs_kept g s" using k by (simp_all add: counted_def)
    then have pn: "p \<noteq> P_ND" using cur by (auto simp: ledger_ok_def)
    let ?g = "g\<lparr>lg_current := None\<rparr>" and ?s = "(set_window p w1 s)\<lparr>sc_current := None\<rparr>"
    have "close_screen p s c = (set_window p w1 s, c1)" using cl pe by (simp add: close_screen_def)
    note k1 = closed_counted[OF k cur this]
    have "tabs_kept ?g ?s" using k1 by (simp only: counted_def)
    then have t: "costs (sc_window ?s p) = template 0 p" using pe unfolding tabs_kept_def by blast
    then have t': "costs (sc_window ?s p) = template (lg_buttons ?g) p" using pe by (cases p) auto
    have l: "length rs = length (nw_tabs (sc_window ?s p))" using e Resized t pe pn by (cases p) (auto simp: costs_length)
    have "counted (drawn p ?g) ((set_window p w ?s)\<lparr>sc_current := Some p\<rparr>) c0 c'"
      by (rule drawn_counted[OF fits k1 _ pn t' l]) (use d in simp_all)
    moreover have "(set_window p w ?s)\<lparr>sc_current := Some p\<rparr> = s'" using p(1) by (cases s) (simp add: w(2) set_window_def)
    moreover have "drawn p ?g = booked (Within e) g" using drawn_same[OF lo(1) cur] cur Resized by (simp add: drawn_again)
    ultimately show ?thesis by (simp only:)
  qed
qed

lemma screen_step_counted:
  assumes fits: "\<And>r. fits r" and k: "counted g s c0 c" and e: "fitting e" and st: "screen_step fits e (s, c) = Some (s', c')"
  shows "counted (booked e g) s' c0 c'"
proof (cases e)
  case (Show p rs)
  then have "show_screen fits rs p s c = (None, s', c')" using st by (auto split: prod.splits option.splits)
  from show_counted[OF fits k _ _ this] e Show show ?thesis by simp
next
  case (Report name1 name2 rs)
  obtain s1 c1 where a: "adapt_screen name1 name2 s c = Some (s1, c1)"
    using st Report by (cases "adapt_screen name1 name2 s c") auto
  have "show_screen fits rs P_ERROR s1 c1 = (None, s', c')" using st Report a by (auto split: prod.splits option.splits)
  from report_counted[OF fits k _ a this] e Report show ?thesis by simp
next
  case (Within we)
  show ?thesis unfolding Within by (rule within_counted[OF fits k]) (use e st Within in simp_all)
qed

lemma screen_run_counted:
  "(\<And>r. fits r) \<Longrightarrow> counted g s c0 c \<Longrightarrow> \<forall>e \<in> set es. fitting e \<Longrightarrow> screen_run fits es (s, c) = Some (s', c') \<Longrightarrow>
   counted (fold booked es g) s' c0 c'"
proof (induction es arbitrary: g s c)
  case (Cons e es)
  obtain s1 c1 where "screen_step fits e (s, c) = Some (s1, c1)" "screen_run fits es (s1, c1) = Some (s', c')"
    using Cons.prems(4) by (auto simp: bind_eq_Some_conv)
  with Cons.IH[OF Cons.prems(1) screen_step_counted[OF Cons.prems(1,2)]] Cons.prems(3) show ?case by simp
qed simp

subsection \<open>The start\<close>

lemma make_window_shape:
  "make_window ts skip first c = Some (w, c') \<Longrightarrow> map shape (nw_tabs w) = map shape ts \<and> cu_live c' = cu_live c"
  using switch_shape[of first "\<lparr>nw_tabs = ts, nw_skip = skip, nw_active = 0\<rparr>" c w c'] by (simp add: make_window_def)

lemma made_window:
  assumes "make_window ts skip first c = Some (w, c')" and "list_all (\<lambda>t. handles t = {} \<and> neat t \<and> titled t) ts"
  shows "window_handles w = {}" "costs w = map (\<lambda>t. (calls t, lost_by t)) ts" "neat_window w" "cu_live c' = cu_live c"
proof -
  let ?w = "\<lparr>nw_tabs = ts, nw_skip = skip, nw_active = 0\<rparr>"
  have "map shape (nw_tabs w) = map shape (nw_tabs ?w)" using make_window_shape[OF assms(1)] by simp
  note sh = shape_parts[OF this]
  have "window_handles ?w = {}" "neat_window ?w" using assms(2) by (auto simp: window_handles_def neat_window_def list_all_iff)
  with sh show "window_handles w = {}" "costs w = map (\<lambda>t. (calls t, lost_by t)) ts" "neat_window w" by (simp_all add: costs_def)
  show "cu_live c' = cu_live c" using make_window_shape[OF assms(1)] by simp
qed

lemmas made = BasicTab_def ButtonTab_def OutputTab_def InputTab_def InOutTab_def

lemma make_screens_counted:
  assumes "make_screens hc c = Some (s, c')"
  shows "counted empty_ledger s c c'"
proof -
  obtain login c1 create c2 game where w: "LoginWindow hc c = Some (login, c1)" "PlayerCreateWindow hc c1 = Some (create, c2)"
      "GameWindow hc c2 = Some (game, c')"
      and s: "s = \<lparr>sc_window = (\<lambda>p. case p of P_LOGIN \<Rightarrow> login | P_PLAYER_CREATE \<Rightarrow> create | P_GAME \<Rightarrow> game
       | P_ERROR \<Rightarrow> ErrorWindow hc | P_ND \<Rightarrow> no_window), sc_current = None\<rparr>"
    using assms by (auto simp: make_screens_def bind_eq_Some_conv)
  note l = made_window[OF w(1)[unfolded LoginWindow_def], simplified made]
    and r = made_window[OF w(2)[unfolded PlayerCreateWindow_def], simplified made]
    and g = made_window[OF w(3)[unfolded GameWindow_def], simplified made]
  have e: "window_handles (ErrorWindow hc) = {}" "costs (ErrorWindow hc) = template 0 P_ERROR" "neat_window (ErrorWindow hc)"
    by (simp_all add: ErrorWindow_def made window_handles_def costs_def neat_window_def)
  have n: "window_handles no_window = {}" "costs no_window = []" "neat_window no_window"
    by (simp_all add: no_window_def window_handles_def costs_def neat_window_def)
  have h: "held s p = {}" for p by (cases p) (use l(1) r(1) g(1) e(1) n(1) in \<open>simp_all add: held_def s\<close>)
  have "pool {} (held s) c c" using windows.owns_start by (simp add: pool_def h)
  then have "pool {} (held s) c c'" by (rule pool_cong) (use l(4) r(4) g(4) in simp)
  moreover have "neat_window (sc_window s p)" for p by (cases p) (use l(3) r(3) g(3) e(3) n(3) in \<open>simp_all add: s\<close>)
  moreover have "costs (sc_window s p) = template 0 p" for p
    by (cases p) (use l(2) r(2) g(2) e(2) n(2) in \<open>simp_all add: s\<close>)
  moreover have "sc_current s = None" by (simp add: s)
  ultimately show ?thesis by (auto simp: counted_def tabs_kept_def ledger_ok_def empty_ledger_def on_screen_def h)
qed

text \<open>The number of windows is what the ledger says.\<close>

lemma phases: "UNIV = {P_ND, P_LOGIN, P_PLAYER_CREATE, P_GAME, P_ERROR}"
  using GamePhase.exhaust by auto

lemma counted_windows:
  assumes k: "counted g s c0 c"
  shows "length (cu_live c) = length (cu_live c0) + windows_in g"
proof -
  obtain L where L: "pool L (held s) c0 c" "card L = lg_lost g" using k by (auto simp: counted_def)
  let ?ps = "(case lg_current g of Some p \<Rightarrow> [p] | None \<Rightarrow> []) @ lg_covered g"
  have d: "distinct ?ps" "set ?ps = {p. on_screen g p}"
    using k by (auto simp: counted_def ledger_ok_def on_screen_def split: option.splits)
  have fin: "finite L" "finite (held s p)" "finite (UNIV :: GamePhase set)" for p using pool_finite[OF L(1)] by (simp_all add: phases)
  have "card (\<Union>p. held s p) = (\<Sum>p \<in> UNIV. card (held s p))"
    by (rule card_UN_disjoint) (use fin L(1) in \<open>auto simp: pool_def\<close>)
  also have "\<dots> = (\<Sum>p \<in> UNIV. if on_screen g p then window_size (lg_buttons g) p else 0)" using k by (simp add: counted_def)
  also have "\<dots> = (\<Sum>p \<in> {p. on_screen g p}. window_size (lg_buttons g) p)" using fin(3) by (simp add: sum.If_cases)
  also have "\<dots> = sum_list (map (window_size (lg_buttons g)) ?ps)" using d by (simp only: sum_list_distinct_conv_sum_set)
  finally have u: "card (\<Union>p. held s p) = sum_list (map (window_size (lg_buttons g)) ?ps)" .
  have "L \<inter> (\<Union>p. held s p) = {}" using L(1) by (auto simp: pool_def)
  then have "card (L \<union> (\<Union>p. held s p)) = card L + card (\<Union>p. held s p)" using fin by (intro card_Un_disjoint) auto
  then show ?thesis using windows.owns_count[of "L \<union> (\<Union>p. held s p)" c0 c] L u by (simp add: pool_def windows_in_def)
qed

subsection \<open>When a drawing succeeds\<close>

text \<open>The title fits its tab.\<close>

fun wide :: "rect \<Rightarrow> tab \<Rightarrow> bool" where
  "wide r (Output t) = (t_title t = [] \<or> int (length (t_title t)) < r_w r - 1)"
| "wide r (InOut t) = (t_title t = [] \<or> int (length (t_title t)) < r_w r - 1)"
| "wide r t = True"

lemma wide_blank: "wide r (blank t) = wide r t"
  by (cases t) auto

lemma tab_draw_succeeds:
  assumes fits: "\<And>r. fits r" and w: "wide r t"
  shows "fst (tab_draw fits r t c) = None"
proof -
  note defs = BasicTab_draw_def draw_window_of_def newwin_fits[of fits, OF fits] draw_then_def Let_def framed_def
  show ?thesis
  proof (cases t)
    case (Output u)
    show ?thesis using w unfolding Output
      by (auto simp: defs OutputTab_draw_def OutputTab_body_def OutputTab_line_def OutputTab_title_def inner_def box_def)
  next
    case (InOut u)
    show ?thesis using w unfolding InOut
      by (auto simp: defs InOutTab_draw_def InOutTab_body_def OutputTab_body_def OutputTab_line_def InOutTab_title_def InOutTab_frame_def
          InOutTab_input_def on_window_def inner_def box_def)
  qed (auto simp: defs ButtonTab_draw_def InputTab_draw_def)
qed

lemma draw_tabs_succeeds:
  "(\<And>r. fits r) \<Longrightarrow> list_all2 wide rs ts \<Longrightarrow> \<exists>ts' c'. draw_tabs fits rs ts c = (None, ts', c')"
proof (induction fits rs ts c rule: draw_tabs.induct)
  case (1 fits r rs t ts c)
  have "fst (tab_draw fits r t c) = None" by (rule tab_draw_succeeds) (use "1.prems" in auto)
  then obtain t1 c1 where d: "tab_draw fits r t c = (None, t1, c1)" by (metis prod.collapse)
  have "\<exists>ts' c'. draw_tabs fits rs ts c1 = (None, ts', c')" by (rule "1.IH"[OF d[symmetric] _ refl]) (use "1.prems" in auto)
  then show ?case using d by auto
qed auto

lemma NcWindow_draw_succeeds:
  assumes "\<And>r. fits r" and "list_all2 wide rs (map blank (nw_tabs w))"
  shows "\<exists>w' c'. NcWindow_draw fits rs w c = (None, w', c')"
proof -
  have "list_all2 wide rs (nw_tabs w)" using assms(2) by (auto simp: list_all2_conv_all_nth wide_blank)
  then have "\<exists>ts' c'. draw_tabs fits rs (nw_tabs w) c = (None, ts', c')" by (intro draw_tabs_succeeds assms(1))
  then obtain ts' c' where "draw_tabs fits rs (nw_tabs w) c = (None, ts', c')" by blast
  then show ?thesis by (simp add: NcWindow_draw_def)
qed

lemma NcWindow_draw_blank:
  assumes "\<And>r. fits r" and "NcWindow_draw fits rs w c = (None, w', c')" and "length rs = length (nw_tabs w)" and "neat_window w"
  shows "map blank (nw_tabs w') = map blank (nw_tabs w)"
proof -
  obtain ts where "draw_tabs fits rs (nw_tabs w) c = (None, ts, c')" "w' = w\<lparr>nw_tabs := ts\<rparr>"
    using assms(2) by (auto simp: NcWindow_draw_def split: prod.splits)
  then show ?thesis using draw_tabs_fresh[OF assms(1) _ assms(3), where c = c and ts' = ts and c' = c'] assms(4) by (auto simp: neat_window_def)
qed

end
