(* ===== verification/LifeSpec.thy ===== *)
theory LifeSpec
  imports ClientLife Screens
begin

text \<open>
  What the client takes from its process and its terminal and what it gives back: the properties of the
  theories \<open>ClientLife\<close> (descriptors) and \<open>WindowRuns\<close> (ncurses windows).
\<close>

subsection \<open>Descriptors\<close>

definition all_calls :: cli_calls where
  "all_calls = \<lparr>ca_sockets = \<lparr>pc_create = None, pc_first = FlagsSet, pc_second = FlagsSet\<rparr>,
     ca_command = \<lparr>pc_create = None, pc_first = FlagsSet, pc_second = FlagsSet\<rparr>,
     ca_signal = \<lparr>sc_signalfd = True, sc_fcntl = FlagsSet\<rparr>, ca_winsize = Some (50, 200)\<rparr>"

definition standard_streams :: kernel where
  "standard_streams = \<lparr>k_open = [2, 1, 0], k_nonblock = [], k_blocked = []\<rparr>"

definition answered :: connect_calls where
  "answered = \<lparr>cc_addresses = Some [ConnectFailed, Connected], cc_fcntl = FlagsSet\<rparr>"

definition unanswered :: connect_calls where
  "unanswered = \<lparr>cc_addresses = Some [ConnectFailed, SocketFailed], cc_fcntl = FlagsSet\<rparr>"

text \<open>C34: A client that starts, connects, reconnects any number of times and ends normally gives back every
  descriptor except one for each reconnection that reached the server; the descriptors of the process
  before are untouched.\<close>

theorem client_returns_descriptors:
  assumes "client_run host port ca pc cc cs k = (Inr (), k')"
  shows "\<exists>lost. k_open k' = lost @ k_open k \<and> length lost = length (filter reaches cs) \<and> set lost \<inter> set (k_open k) = {}"
  using client_run_owned[OF assms] by (auto simp: descriptors.owned_def)

definition small_run :: "unit outcome \<times> kernel" where
  "small_run = client_run ''h'' 4242 all_calls (ca_command all_calls) answered [unanswered, answered] standard_streams"

lemma calls_succeed:
  "\<exists>p k'. createPipe (ca_command all_calls) k = (Inr p, k')" "\<exists>p k'. createSocketPair (ca_sockets all_calls) k = (Inr p, k')"
  "\<exists>d k'. createSignalRedirectFd SIGWINCH True (ca_signal all_calls) k = (Inr d, k')"
  by (auto simp: all_calls_def createPipe_def createSocketPair_def createSignalRedirectFd_def bind_sys_def set_nonblocking_def return_sys_def
      Let_def split: prod.split)

lemma answered_connects: "\<exists>d k'. connect_socket host port answered k = (Inr d, k')"
  by (auto simp: connect_socket_def answered_def bind_sys_def set_nonblocking_def return_sys_def split: prod.split)

lemma small_run_ends: "fst small_run = Inr ()"
proof -
  obtain s k1 where 1: "createSocketPair (ca_sockets all_calls) standard_streams = (Inr s, k1)" using calls_succeed(2) by blast
  obtain p k2 where 2: "createPipe (ca_command all_calls) k1 = (Inr p, k2)" using calls_succeed(1) by blast
  obtain d k3 where 3: "createSignalRedirectFd SIGWINCH True (ca_signal all_calls) k2 = (Inr d, k3)" using calls_succeed(3) by blast
  obtain h w q where t: "terminal_size 50 200 = (h, w, q)" by (metis prod_cases3)
  obtain u where u: "CLI_create all_calls standard_streams = (Inr u, k3)" "if_sockets u = s"
    using 1 2 3 t by (simp add: CLI_create_def UI_create_def bind_sys_def all_calls_def)
  have own: "descriptors.owned (sp_second s # sp_first s # []) standard_streams k1"
    by (rule createSocketPair_owned[OF 1 descriptors.owned_start])
  then have "sp_second s \<noteq> -1" using descriptors.owned_usable by fastforce
  moreover obtain e k4 where "createPipe (ca_command all_calls) k3 = (Inr e, k4)" using calls_succeed(1) by blast
  moreover obtain c k5 where "connect_socket ''h'' 4242 answered k4 = (Inr c, k5)" using answered_connects by blast
  ultimately show ?thesis using u
    by (simp add: small_run_def client_run_def UI_connect_def http_open_def http_connect_def bind_sys_def return_sys_def split: prod.split)
qed

theorem client_returns_descriptors_witness:
  "\<exists>lost. k_open (snd small_run) = lost @ [2, 1, 0] \<and> length lost = 1 \<and> set lost \<inter> {2, 1, 0} = {}"
proof -
  have "length (filter reaches [unanswered, answered]) = 1" by (simp add: reaches_def unanswered_def answered_def)
  moreover have "k_open standard_streams = [2, 1, 0]" by (simp add: standard_streams_def)
  moreover have "client_run ''h'' 4242 all_calls (ca_command all_calls) answered [unanswered, answered] standard_streams = (Inr (), snd small_run)"
    using small_run_ends by (simp add: small_run_def prod_eq_iff)
  from client_returns_descriptors[OF this] obtain lost where "k_open (snd small_run) = lost @ k_open standard_streams"
      "length lost = length (filter reaches [unanswered, answered])" "set lost \<inter> set (k_open standard_streams) = {}" by blast
  ultimately show ?thesis by (intro exI[of _ lost]) simp
qed

text \<open>A socket whose mode cannot be set stays open.\<close>

lemma connect_leaks_on_fcntl:
  "reaches c \<Longrightarrow> cc_fcntl c \<noteq> FlagsSet \<Longrightarrow> \<exists>e fd k'. connect_socket host port c k = (Inl (Throw e), k') \<and> k_open k' = fd # k_open k"
proof -
  assume c: "reaches c" "cc_fcntl c \<noteq> FlagsSet"
  obtain r k' where r: "connect_socket host port c k = (r, k')" by (cases "connect_socket host port c k")
  from r show ?thesis by (cases rule: connect_socket_cases) (use c r in auto)
qed

text \<open>The constructor of \<open>UI\<close> cannot report that it failed.\<close>

lemma UI_create_crashes: "pc_create c = Some e \<Longrightarrow> UI_create c k = (Inl Crash, k)"
  by (simp add: UI_create_def createSocketPair_def)

subsection \<open>The windows of the terminal client\<close>

definition a_window :: "bool \<Rightarrow> curses \<Rightarrow> (nc_window \<times> curses) option \<Rightarrow> bool" where
  "a_window hc c start \<longleftrightarrow> start \<in> {LoginWindow hc c, PlayerCreateWindow hc c, GameWindow hc c}"

lemma make_window_starts:
  assumes m: "make_window ts skip first c = Some (w, c')" and ts: "ts \<noteq> []" "first < int (length ts)"
    and each: "list_all (\<lambda>t. handles t = {} \<and> titled t \<and> colour_ok (fst (static t)) \<and> \<not> is_active t) ts"
  shows "lit True w c'" "holds 0 w c c'" "button_count w = sum_list (map lost_by ts)" "length (nw_tabs w) = length ts"
proof -
  let ?w = "\<lparr>nw_tabs = ts, nw_skip = skip, nw_active = 0\<rparr>"
  have e: "handles t = {}" "titled t" "colour_ok (fst (static t))" "\<not> is_active t" if "t \<in> set ts" for t
    using each that by (auto simp: list_all_iff)
  have lab: "labels t = {}" if "t \<in> set ts" for t using e(1)[OF that] labels_handles[of t] by simp
  have "parted t" if "t \<in> set ts" for t using e(1)[OF that] by (cases t) auto
  then have "\<forall>t \<in> set ts. sound t c \<and> titled t" using e lab by (simp add: sound_def label_ok_def)
  moreover have "apart ts" unfolding apart_def by (auto simp: sorted_wrt_iff_nth_less lab)
  moreover have "map is_active ts = map (\<lambda>j. False) [0 ..< length ts]" using e(4) by (intro nth_equalityI) auto
  ultimately have "lit False ?w c" using ts by (simp add: lit_def)
  note s = switch_lit[OF this m[unfolded make_window_def]]
  have b: "first < int (length (nw_tabs ?w))" using ts by simp
  have "window_handles ?w = {}" using e(1) by (simp add: window_handles_def)
  then have "window_handles w = {}" using s(2)[OF b] by simp
  then show "holds 0 w c c'" unfolding holds_def
    using windows.owns_cong[OF s(4)[OF b] windows.owns_start] by (intro exI[of _ "{}"]) simp
  show "lit True w c'" by (rule s(1)[OF b])
  show "button_count w = sum_list (map lost_by ts)" using s(3)[OF b] by (simp add: button_count_def)
  show "length (nw_tabs w) = length ts" using s(3)[OF b] by (metis length_map nc_window.select_convs(1))
qed

lemmas constructors = BasicTab_def ButtonTab_def OutputTab_def InputTab_def InOutTab_def

lemmas colours = NC_BLUE_COLOR_def NC_RED_COLOR_def NC_GREEN_COLOR_def NC_YELLOW_COLOR_def NC_CYAN_COLOR_def

lemma a_window_starts:
  assumes "a_window hc c (Some (w, c'))"
  shows "lit True w c' \<and> holds 0 w c c' \<and> length (nw_tabs w) = 5"
proof -
  consider "LoginWindow hc c = Some (w, c')" | "PlayerCreateWindow hc c = Some (w, c')" | "GameWindow hc c = Some (w, c')"
    using assms by (auto simp: a_window_def)
  then show ?thesis
  proof cases
    case 1
    show ?thesis using make_window_starts[OF 1[unfolded LoginWindow_def]]
      by (simp add: constructors is_active_def colour_ok_def colours)
  next
    case 2
    show ?thesis using make_window_starts[OF 2[unfolded PlayerCreateWindow_def]]
      by (simp add: constructors is_active_def colour_ok_def colours)
  next
    case 3
    show ?thesis using make_window_starts[OF 3[unfolded GameWindow_def]]
      by (simp add: constructors is_active_def colour_ok_def colours)
  qed
qed

lemma a_window_run:
  assumes "a_window hc c (Some (w, c1))" and "\<And>r. fits r" and "list_all (draws_all 5) es" and "window_run fits es (w, c1) = Some (w', c')"
  shows "lit True w' c'" "holds (length (filter is_resize es) * button_count w) w' c c'"
  using window_run_lit[of fits w c1 0 c es w' c'] a_window_starts[OF assms(1)] assms(2-4) by (auto simp: list_all_iff)

definition dark :: curses where
  "dark = \<lparr>cu_live = [], cu_cursor = 1, cu_attrs = (\<lambda>i. 0), cu_shown = (\<lambda>i. [])\<rparr>"

definition boxes :: "rect list" where
  "boxes = replicate 5 (box 9 9 0 0)"

lemma new_window_simps: "fst (new_window c) = Suc (foldr max (cu_live c) 0)" "cu_live (snd (new_window c)) = Suc (foldr max (cu_live c) 0) # cu_live c"
  by (simp_all add: new_window_def Let_def)

lemmas drawing = NcWindow_resize_def NcWindow_clear_def BasicTab_clear_def OutputTab_clear_def InputTab_clear_def ButtonTab_clear_def
    NcWindow_draw_def BasicTab_draw_def OutputTab_draw_def ButtonTab_draw_def InputTab_draw_def Let_def draw_window_of_def newwin_fits
    draw_then_def OutputTab_body_def
lemmas switching = NcWindow_switch_def at_tab_def switchActiveTab_def skip_tabs_def while_option_unfold
   BasicTab_activate_def InputTab_activate_def BasicTab_deactivate_def InputTab_deactivate_def ButtonTab_activate_def ButtonTab_deactivate_def

definition login_blank :: nc_window where
  "login_blank = \<lparr>nw_tabs = [Plain (BasicTab True (-1) (int NC_BLUE_COLOR)), Output (OutputTab True [] 0 (int NC_BLUE_COLOR)),
     Input ((InputTab True PROMPT 0 (int NC_BLUE_COLOR))\<lparr>t_active := True\<rparr>), Button (ButtonTab True ''CREATE NEW'' (int NC_GREEN_COLOR)),
     Button (ButtonTab True ''CLOSE'' (int NC_RED_COLOR))], nw_skip = [0, 1], nw_active = 2\<rparr>"

lemma login_starts: "LoginWindow True dark = Some (login_blank, dark)"
  by (simp add: LoginWindow_def make_window_def switching InputTab_rewrite_def on_window_def constructors login_blank_def)

definition login_drawn :: nc_window where
  "login_drawn = login_blank\<lparr>nw_tabs := [Plain ((BasicTab True (-1) (int NC_BLUE_COLOR))\<lparr>t_border := Some 1\<rparr>),
     Output ((OutputTab True [] 0 (int NC_BLUE_COLOR))\<lparr>t_border := Some 2, t_outputWin := Some 3\<rparr>),
     Input ((InputTab True PROMPT 0 (int NC_BLUE_COLOR))\<lparr>t_active := True, t_border := Some 4, t_inputWin := Some 5\<rparr>),
     Button ((ButtonTab True ''CREATE NEW'' (int NC_GREEN_COLOR))\<lparr>t_border := Some 7, t_btnWin := Some 8\<rparr>),
     Button ((ButtonTab True ''CLOSE'' (int NC_RED_COLOR))\<lparr>t_border := Some 10, t_btnWin := Some 11\<rparr>)]\<rparr>"

lemma login_draws: "\<exists>c. NcWindow_resize (\<lambda>r. True) boxes login_blank dark = (None, login_drawn, c)"
  by (simp add: login_blank_def login_drawn_def constructors dark_def boxes_def eval_nat_numeral drawing new_window_simps)

lemma login_moves: "\<exists>w c'. NcWindow_switch (-1) login_drawn c = Some (w, c') \<and> nw_active w = 3 \<and> labels (nw_tabs w ! 3) = {8} \<and> length (nw_tabs w) = 5"
  by (simp add: login_drawn_def login_blank_def constructors switching Let_def)

text \<open>The login window, drawn once, after one move: the first of its two buttons is active.\<close>

lemma login_run:
  "\<exists>w c. window_run (\<lambda>r. True) [Resized boxes, NextTab] (login_blank, dark) = Some (w, c) \<and> nw_active w = 3 \<and> labels (nw_tabs w ! 3) = {8} \<and>
     length (nw_tabs w) = 5"
proof -
  obtain c where c: "NcWindow_resize (\<lambda>r. True) boxes login_blank dark = (None, login_drawn, c)" using login_draws by blast
  obtain w c' where "NcWindow_switch (-1) login_drawn c = Some (w, c')" "nw_active w = 3" "labels (nw_tabs w ! 3) = {8}" "length (nw_tabs w) = 5"
    using login_moves by blast
  then show ?thesis using c by (intro exI[of _ w] exI[of _ c']) simp
qed

lemma login_conditions: "a_window True dark (Some (login_blank, dark))" "list_all (draws_all 5) [Resized boxes, NextTab]"
  by (simp_all add: a_window_def login_starts boxes_def)

text \<open>C35: In each of the three windows of the terminal client, after any sequence of moves between the tabs and
  changes of the terminal's size, a label on the screen blinks exactly when its tab is the active one.\<close>

theorem only_active_tab_blinks:
  assumes "a_window has_colors c (Some (w, c1))" and "\<And>r. fits r" and "list_all (draws_all 5) es"
    and "window_run fits es (w, c1) = Some (w', c')" and "j < length (nw_tabs w')" and "i \<in> labels (nw_tabs w' ! j)"
  shows "blinks_at i c' \<longleftrightarrow> j = nw_active w'"
proof -
  have l: "lit True w' c'" by (rule a_window_run(1)[OF assms(1-4)])
  then have "map is_active (nw_tabs w') ! j = map (\<lambda>j. j = nw_active w') [0 ..< length (nw_tabs w')] ! j" by (simp add: lit_def)
  then have "is_active (nw_tabs w' ! j) \<longleftrightarrow> j = nw_active w'" using assms(5) by simp
  moreover have "sound (nw_tabs w' ! j) c'" using l assms(5) by (simp add: lit_def)
  ultimately show ?thesis using assms(6) by (simp add: sound_def label_ok_def)
qed

theorem only_active_tab_blinks_witness:
  "\<exists>w c. window_run (\<lambda>r. True) [Resized boxes, NextTab] (login_blank, dark) = Some (w, c) \<and> blinks_at 8 c"
proof -
  obtain w c where r: "window_run (\<lambda>r. True) [Resized boxes, NextTab] (login_blank, dark) = Some (w, c)"
      "nw_active w = 3" "labels (nw_tabs w ! 3) = {8}" "length (nw_tabs w) = 5" using login_run by blast
  have "blinks_at 8 c \<longleftrightarrow> 3 = nw_active w" by (rule only_active_tab_blinks[OF login_conditions(1) TrueI login_conditions(2) r(1)]) (use r in simp_all)
  then show ?thesis using r(1,2) by (intro exI[of _ w] exI[of _ c]) simp
qed

text \<open>When such a window is cleared at the end, every ncurses window it made has been deleted except one frame
  for each button and each drawing; the windows that were there before are untouched.\<close>

theorem windows_returned:
  assumes "a_window has_colors c (Some (w, c1))" and "\<And>r. fits r" and "list_all (draws_all 5) es"
    and "window_run fits es (w, c1) = Some (w', c')" and "NcWindow_clear w' c' = (w2, c2)"
  shows "\<exists>lost. cu_live c2 = lost @ cu_live c \<and> length lost = length (filter is_resize es) * button_count w"
proof -
  have t: "\<forall>t \<in> set (nw_tabs w'). titled t" using a_window_run(1)[OF assms(1-4)] by (simp add: lit_def)
  obtain L where L: "windows.owns (L \<union> window_handles w') c c'" "L \<inter> window_handles w' = {}"
      "card L = length (filter is_resize es) * button_count w"
    using a_window_run(2)[OF assms(1-4)] by (auto simp: holds_def)
  have "(\<Union>t \<in> set (nw_tabs w'). handles t) \<inter> set (cu_live c) = {}"
    using windows.owns_disjoint[OF L(1)] by (auto simp: window_handles_def)
  from clear_tabs_owns[OF L(1) this t] have "windows.owns (L \<union> window_handles w' - (\<Union>t \<in> set (nw_tabs w'). handles t)) c c2"
    using assms(5) by (auto simp: NcWindow_clear_def split: prod.splits)
  moreover have "L \<union> window_handles w' - (\<Union>t \<in> set (nw_tabs w'). handles t) = L" using L(2) by (auto simp: window_handles_def)
  ultimately obtain rs where "cu_live c2 = rs @ cu_live c" "distinct rs" "set rs = L"
    by (auto simp: windows.owns_def windows.owned_def)
  then show ?thesis using L(3) by (auto simp: distinct_card)
qed

theorem windows_returned_witness:
  "\<exists>w c. window_run (\<lambda>r. True) [Resized boxes, NextTab] (login_blank, dark) = Some (w, c) \<and> length (cu_live (snd (NcWindow_clear w c))) = 2"
proof -
  obtain w c where r: "window_run (\<lambda>r. True) [Resized boxes, NextTab] (login_blank, dark) = Some (w, c)" using login_run by blast
  have "button_count login_blank = 2" by (simp add: button_count_def login_blank_def)
  moreover have "cu_live dark = []" by (simp add: dark_def)
  ultimately show ?thesis using windows_returned[OF login_conditions(1) TrueI login_conditions(2) r surjective_pairing] r by auto
qed

subsection \<open>The screens of a session\<close>

text \<open>C36: After any sequence of phases, reported errors, moves between tabs and new sizes, the number of ncurses
  windows is what the ledger of the events says: those of the window on the screen and of the windows an
  error has covered, one lost frame for each button and drawing, and, each time a covered window is drawn
  again, all the windows it had.\<close>

theorem screens_counted:
  assumes "make_screens has_colors c = Some (s, c1)" and "\<And>r. fits r" and "\<forall>e \<in> set es. fitting e"
    and "screen_run fits es (s, c1) = Some (s', c')"
  shows "length (cu_live c') = length (cu_live c) + windows_in (fold booked es empty_ledger)"
  by (rule counted_windows[OF screen_run_counted[OF assms(2) make_screens_counted[OF assms(1)] assms(3,4)]])

definition retry :: "screen_event list" where
  "retry = [Show P_LOGIN boxes, Report ''RETRY'' None (take 3 boxes), Show P_LOGIN boxes]"

lemma screens_start:
  "\<exists>s c. make_screens True dark = Some (s, c) \<and> sc_current s = None \<and> sc_window s P_LOGIN = login_blank \<and> sc_window s P_ERROR = ErrorWindow True"
proof -
  have "\<exists>w c'. PlayerCreateWindow True c = Some (w, c')" for c
    by (simp add: PlayerCreateWindow_def make_window_def switching constructors)
  moreover have "\<exists>w c'. GameWindow True c = Some (w, c')" for c
    by (simp add: GameWindow_def make_window_def switching constructors Let_def OutputTab_activate_def OutputTab_deactivate_def
        InOutTab_activate_def InOutTab_deactivate_def)
  ultimately obtain create c2 game c3 where "PlayerCreateWindow True dark = Some (create, c2)" "GameWindow True c2 = Some (game, c3)" by blast
  then show ?thesis by (simp add: make_screens_def login_starts)
qed

definition one_button :: "string \<Rightarrow> nc_window" where
  "one_button name = \<lparr>nw_tabs = nw_tabs (ErrorWindow True) @ [Button ((ButtonTab True name (-1))\<lparr>t_active := True\<rparr>)], nw_skip = [0, 1], nw_active = 2\<rparr>"

lemma error_adapts: "ErrorWindow_buttons name None (ErrorWindow True) c = Some (one_button name, curs_set 0 c)"
  by (simp add: one_button_def ErrorWindow_buttons_def ErrorWindow_def switching constructors button_rewrite_def on_window_def Let_def)

lemma error_cleared: "ErrorWindow_clear (ErrorWindow True) c = (ErrorWindow True, c)"
  by (simp add: ErrorWindow_clear_def NcWindow_clear_def ErrorWindow_def constructors BasicTab_clear_def OutputTab_clear_def)

lemma login_wide: "list_all2 wide boxes (map blank (nw_tabs login_blank))" "neat_window login_blank" "length boxes = length (nw_tabs login_blank)"
  by (simp_all add: boxes_def login_blank_def constructors neat_window_def eval_nat_numeral)

lemma retry_runs: "make_screens True dark = Some (s, c) \<Longrightarrow> \<exists>sc. screen_run (\<lambda>r. True) retry (s, c) = Some sc"
proof -
  assume m: "make_screens True dark = Some (s, c)"
  obtain s0 c0 where 0: "make_screens True dark = Some (s0, c0)" "sc_current s0 = None" "sc_window s0 P_LOGIN = login_blank"
      "sc_window s0 P_ERROR = ErrorWindow True" using screens_start by blast
  have "s0 = s" using m 0(1) by simp
  then have s: "sc_current s = None" "sc_window s P_LOGIN = login_blank" "sc_window s P_ERROR = ErrorWindow True" using 0(2-4) by simp_all
  obtain w1 c1 where d1: "NcWindow_draw (\<lambda>r. True) boxes login_blank c = (None, w1, c1)"
    using NcWindow_draw_succeeds[OF TrueI login_wide(1)] by blast
  have b1: "map blank (nw_tabs w1) = map blank (nw_tabs login_blank)" by (rule NcWindow_draw_blank[OF TrueI d1 login_wide(3,2)])
  have "list_all2 wide (take 3 boxes) (map blank (nw_tabs (one_button ''RETRY'')))" by (simp add: one_button_def ErrorWindow_def constructors boxes_def eval_nat_numeral box_def)
  then obtain w2 c2 where d2: "NcWindow_draw (\<lambda>r. True) (take 3 boxes) (one_button ''RETRY'') (curs_set 0 c1) = (None, w2, c2)"
    using NcWindow_draw_succeeds[OF TrueI] by blast
  obtain w3 c3 where cl: "ErrorWindow_clear w2 c2 = (w3, c3)" by (metis surj_pair)
  obtain w4 c4 where d3: "NcWindow_draw (\<lambda>r. True) boxes w1 c3 = (None, w4, c4)"
    using NcWindow_draw_succeeds[OF TrueI login_wide(1)[folded b1]] by blast
  show ?thesis unfolding retry_def
    by (simp add: show_screen_def s d1 adapt_screen_def close_screen_def error_cleared error_adapts set_window_def d2 cl d3)
qed

theorem screens_counted_witness:
  "\<exists>s c s' c'. make_screens True dark = Some (s, c) \<and> screen_run (\<lambda>r. True) retry (s, c) = Some (s', c') \<and> length (cu_live c') = 23"
proof -
  obtain s c where m: "make_screens True dark = Some (s, c)" using screens_start by blast
  obtain s' c' where r: "screen_run (\<lambda>r. True) retry (s, c) = Some (s', c')" using retry_runs[OF m] by fast
  have f: "\<forall>e \<in> set retry. fitting e" by (simp add: retry_def boxes_def)
  have "windows_in (fold booked retry empty_ledger) = 23" by (simp add: retry_def drawn_def empty_ledger_def windows_in_def)
  then have "length (cu_live c') = 23" using screens_counted[OF m TrueI f r] by (simp add: dark_def)
  then show ?thesis using m r by blast
qed

text \<open>The buttons of the error window hide the cursor, and nothing shows it again when the window is left.\<close>

lemma error_hides_cursor:
  assumes "ErrorWindow_buttons name1 name2 (ErrorWindow hc) c = Some (w, c1)"
  shows "cu_cursor c1 = 0"
proof -
  have "NcWindow_switch 2 ((ErrorWindow hc)\<lparr>nw_tabs := nw_tabs (ErrorWindow hc) @ [Button (ButtonTab True name1 (-1))]\<rparr>) c =
      Some (\<lparr>nw_tabs = nw_tabs (ErrorWindow hc) @ [Button ((ButtonTab True name1 (-1))\<lparr>t_active := True\<rparr>)], nw_skip = [0, 1], nw_active = 2\<rparr>, curs_set 0 c)"
    by (simp add: ErrorWindow_def switching constructors button_rewrite_def on_window_def Let_def)
  then show ?thesis using assms by (auto simp: ErrorWindow_buttons_def curs_set_def split: option.splits)
qed

end
