(* ===== verification/Spec2Isabelle.thy ===== *)
theory Spec2Isabelle
  imports ProtocolSpec ClientSpec ClientFindings GuiSpec LifeSpec
begin

text \<open>
  Verification of TAP42, a text adventure for several players: a C++ server that owns the world, and a
  C++ client that shows it.  They speak a protocol of lines over TCP: the client sends commands, the server
  answers each with one \<open>OK\<close> or \<open>ERR\<close> line and sends \<open>EVT\<close> lines on its own.

  \<^bold>\<open>The server\<close> (\<open>server/src\<close>).  A thread per connection reads lines, dispatches them to command handlers,
  and the handlers work on one world under one mutex; sessions are found by player name in a registry;
  characters are stored in one file each.

    \<^item> \<open>TapPrelude\<close>: strings, tokens, decimal numbers, association lists (\<open>std::map\<close>), shared lemmas.
    \<^item> \<open>JsonParser\<close>, \<open>JsonRoundtrip\<close>: the parser both programs use (\<open>client/shared/source/JsonParser.cpp\<close>);
      progress, enough fuel, and that every printed document reads back.
    \<^item> \<open>WorldModel\<close>: the structs of \<open>world.hpp\<close>.  \<open>ServerState\<close>: sessions, registry, log, abuse monitor and
      sending, one record \<open>server\<close> for everything a handler can change.  \<open>CharacterStore\<close>: load and save.
    \<^item> \<open>Common\<close> and one theory for each file of \<open>commands/\<close>: \<open>QuestCommands\<close>, \<open>GroupCommands\<close>,
      \<open>ItemCommands\<close>, \<open>CombatCommands\<close>, \<open>NpcCommands\<close>, \<open>Dispatcher\<close>.  A handler takes the session and the
      state; \<open>None\<close> is a C++ exception that ends the server.  \<open>*_locked\<close> is the part under the mutex.
    \<^item> \<open>Loader\<close>: reading and validating \<open>world.json\<close>.  \<open>Network\<close>: \<open>read_line\<close>, \<open>send_all\<close>, the loops of
      \<open>server.cpp\<close>.  \<open>ServerRuns\<close>: reachable states of the whole server.  \<open>Interleaving\<close>: CONNECT, CREATE and
      the disconnect cut into their critical sections, in every order of the threads.
    \<^item> \<open>ServerStart\<close>: \<open>main\<close> and \<open>run_server\<close> with their exits, the accept loop, and the descriptors of the
      connections, whose numbers the kernel gives out again.
    \<^item> \<open>ServerInv\<close>, \<open>ServerCorrect\<close>: the invariant \<open>server_ok\<close> and that every command keeps it and is
      answered once.  \<open>Samples\<close>: a small world for the witnesses.  \<open>ServerSpec\<close>, \<open>ProtocolSpec\<close>: properties.

  \<^bold>\<open>The client\<close> (\<open>client/shared\<close>, \<open>client/cli\<close>, \<open>client/gui\<close>).  A worker thread owns the TCP connection and
  passes bytes between it and a socket pair; the engine at the other end of the pair frames lines, keeps the
  queue of commands waiting for an answer and the phase (login, character creation, game, error), and
  drives an interface through virtual functions: the terminal with ncurses, or Qt.

    \<^item> \<open>MessageTypes\<close>, \<open>Message\<close>: names, errors, parsing and printing of messages; \<open>failure\<close> is an
      \<open>AppException\<close> or \<open>Crash\<close> (failed assertion, access out of bounds, exception out of \<open>noexcept\<close>).
    \<^item> \<open>Resources\<close>: the locale of things taken from a pool and given back; the descriptor table of a process.
    \<^item> \<open>IoUtils\<close>, \<open>Descriptors\<close>: \<open>Utils.cpp\<close> over the results of the system calls; reading and writing, set-up
      and tear-down.  \<open>ClientSetup\<close>: arguments, \<open>main\<close>, log.  \<open>ClientLife\<close>: the constructors and destructors of
      \<open>ClientHTTP\<close>, \<open>UI\<close> and \<open>CLI\<close>, reconnections, the start of the worker thread.
    \<^item> \<open>ClientHTTP\<close>: the worker.  One \<open>pass_input\<close> holds what every system call of one turn of its loop returns.
    \<^item> \<open>UI\<close>: the engine (\<open>UI.cpp\<close>) over a \<open>face\<close>, the record of the virtual functions; an interface extends the
      record \<open>engine\<close> by its members.  \<open>UICorrect\<close>: the locale \<open>interface\<close>, frames, invariants, framing.
    \<^item> \<open>OutputTab\<close>, \<open>InputTab\<close>, \<open>Windows\<close>, \<open>Layout\<close>: the tabs and windows of the terminal.  \<open>CLI\<close>: its overrides
      and its loop; one \<open>cli_input\<close> is one turn.  \<open>ClientCorrect\<close>: runs of the loop, recovery.
    \<^item> \<open>Painting\<close>, \<open>PaintingCorrect\<close>, \<open>WindowRuns\<close>: what the tabs ask of ncurses, the windows they make, delete
      and move, attributes and cursor; the invariant of a window under moves between tabs and new sizes.
      \<open>Screens\<close>: the four windows under changes of the phase and errors, against a ledger that counts.
    \<^item> \<open>GuiWindows\<close>, \<open>GUI\<close>: panels and windows of the Qt client, its overrides and slots; one \<open>gui_event\<close> is one
      event of the library's loop.
    \<^item> \<open>Agreement\<close>: a simulation between the two.  \<open>ClientSpec\<close>, \<open>GuiSpec\<close>, \<open>LifeSpec\<close>: properties.  \<open>ClientFindings\<close>, and the
      end of \<open>GuiSpec\<close>: where the clients go wrong.

  This theory holds what spans both programs.

  \<^bold>\<open>Interfaces.\<close>  Locales state contracts that are proved for the model by interpretation: \<open>resolver\<close> (item and
  NPC references), \<open>character_storage\<close> (save and load), \<open>request_reply\<close> (a handler and its caller's loop),
  \<open>name_table\<close> (the three vocabularies), \<open>byte_relay\<close> (a buffer of the worker, upward and downward),
  \<open>http_invariant\<close> and \<open>cli_invariant\<close> (what every handler keeps, the loop keeps), \<open>interface\<close> (what the engine
  relies on in the overrides; interpreted on the terminal and on Qt), \<open>switching\<close> and \<open>simulation\<close> (when two
  interfaces agree; interpreted on the terminal against Qt), \<open>resource_pool\<close> (what is taken and given back;
  interpreted on descriptors and on ncurses windows).

  \<^bold>\<open>What is shown.\<close>  Server: reachable states are well formed, every command is answered once, one session
  per character under all interleavings, saves are atomic and read back, groups refine a partial function,
  items are conserved, the effects of fighting, using, talking, chatting and quests, when the server starts,
  and that no line reaches a foreign connection.  Client: runs keep
  buffers in bounds and the handshake before the game, streams are relayed and framed unchanged, a lost
  connection is recovered, descriptors and windows are given back but for the leaks the theorems count, only
  the active tab blinks, the editor refines a line with a cursor, tabs fit the terminal, messages are
  typed; the Qt client keeps the same invariants and, fed the same messages, agrees with the terminal on
  the session and on the bytes sent.  Both: a LOOK typed by a player comes back as the room of the server.

  \<^bold>\<open>Bounds and fuel.\<close>  The JSON parser recurses on fuel \<open>2 * length + 2\<close>, which \<open>parse_json_has_fuel\<close> shows
  to be enough for every text; the argument loop has one unit for each argument and takes at least one
  argument in each round; the loops of the programs recurse on the list of their inputs, so a run of any
  length is covered; the loop over tabs is a \<open>while_option\<close>, with lemmas saying when it ends.  Numbers of the
  world are \<open>int\<close> with range checks where C++ overflow would be undefined (\<open>None\<close>); hit points, ports, masks and
  poll events of the client are words of their width.

  \<^bold>\<open>Parameters.\<close>  Results of system calls, the clock, the dice, the text of a double and whether ncurses can
  create a window are arguments.  Of ncurses the model uses the documented key codes and attribute bits and
  the rule that the cursor moves with what is written and stops in the last column; of POSIX the poll bits.

  \<^bold>\<open>Not modelled.\<close>  How ncurses and Qt put characters and widgets on the screen (of ncurses the windows, the
  attributes and the texts are modelled; of Qt the texts and buttons, not layout, styles, focus and completion)
  and the events the Qt library handles by itself.  Inside the system calls: name resolution, connecting,
  \<open>fcntl\<close> and the like are inputs, and their effect on the descriptor table is modelled.  The Windows branches.
\<close>

section \<open>Client and server together\<close>

text \<open>What LOOK shows: the line with which the server answers a connected player is one the client of that
  player, waiting for LOOK's answer in the game, takes as that answer; it prints the room the player
  stands in, as the server knows it, in the command tab and goes on to the next command.\<close>

theorem look_reaches_player:
  assumes "server_ok sv" "connected (sess sv sid)" "pid_of sv sid \<noteq> []"
    and "\<forall>rid r. map_of (rooms (sv_world sv)) rid = Some r \<longrightarrow> (\<forall>d \<in> set (keys (exits r)). clean d)"
    and "map_of (players (sv_world sv)) (pid_of sv sid) = Some p" "map_of (rooms (sv_world sv)) (current_room p) = Some r"
    and "u_phase u = P_GAME" "u_queue u = m # ms" "getCommandType m = Some C_LOOK"
  shows "\<exists>sv' v. cmd_look sid sv = Some sv' \<and> replies sv' = replies sv @ [(sid, (''OK '' @ render (room_doc (sv_world sv) r)) @ [NL])]
    \<and> dispatchMessage (cli_face env) (''OK '' @ render (room_doc (sv_world sv) r)) u = (None, v) \<and> u_queue v = ms
    \<and> io_out (gw_cmd (u_game v)) = appendContent (e_now env) (json_to_string (e_fmt env) (denote (room_doc (sv_world sv) r)))
        AlignLeft (COLOR_PAIR NC_CYAN_COLOR OR A_BOLD) False (io_out (gw_cmd (u_game u)))"
proof -
  obtain p' r' where s: "map_of (players (sv_world sv)) (pid_of sv sid) = Some p'" "map_of (rooms (sv_world sv)) (current_room p') = Some r'"
    "cmd_look sid sv = Some (send_line sid (''OK '' @ render (room_doc (sv_world sv) r')) sv)"
    "replies (send_line sid (''OK '' @ render (room_doc (sv_world sv) r')) sv)
       = replies sv @ [(sid, ''OK '' @ render (room_doc (sv_world sv) r') @ [NL])]"
    by (rule look_reply[OF assms(1-4)])
  have r: "r' = r" using s(1,2) assms(5,6) by simp
  have "opens_json (render (room_doc (sv_world sv) r))" by (auto simp: room_doc_def opens_json_def)
  from look_response[OF assms(7-9) this, of env] s(3,4)[unfolded r] show ?thesis by (metis append.assoc)
qed

text \<open>C9: A round trip of LOOK.  A player in the game enters LOOK while nothing else waits: the client sends
  one line, which the server's reader delivers and its dispatcher answers with one line; when that line
  arrives, the client prints the room the player stands in, as the server knows it, in the command tab, and
  waits for nothing any more.  The answer must fit the client's buffer.\<close>

theorem look_round_trip:
  assumes server: "server_ok sv" "connected (sess sv sid)" "pid_of sv sid \<noteq> []"
    and exits: "\<forall>rid r. map_of (rooms (sv_world sv)) rid = Some r \<longrightarrow> (\<forall>d \<in> set (keys (exits r)). clean d)"
    and room: "map_of (players (sv_world sv)) (pid_of sv sid) = Some p" "map_of (rooms (sv_world sv)) (current_room p) = Some r"
      "length (render (room_doc (sv_world sv) r)) < 1020"
    and client: "u_connEstablished u" "u_phase u = P_GAME" "u_current u = Some P_GAME" "u_queue u = []" "u_toServer u = []" "u_toGame u = []"
  shows "\<exists>c1 c2 sv' line c3. cli_traffic env (Accepted_command CmdTab ''LOOK'') u = Some (None, c1)
    \<and> cli_traffic env (Writable [Accepted 5]) c1 = Some (None, c2) \<and> u_sent c2 = u_sent u @ ''LOOK'' @ [NL]
    \<and> read_line sid [] [Data (''LOOK'' @ [NL])] sv = (Some ''LOOK'', [], [], sv)
    \<and> handle_command now d sid ''LOOK'' sv = Some sv' \<and> replies sv' = replies sv @ [(sid, line @ [NL])]
    \<and> cli_traffic env (Arrived [Recvd (line @ [NL]), RWouldBlock]) c2 = Some (None, c3) \<and> u_queue c3 = []
    \<and> io_out (gw_cmd (u_game c3)) = appendContent (e_now env) (json_to_string (e_fmt env) (denote (room_doc (sv_world sv) r)))
        AlignLeft (COLOR_PAIR NC_CYAN_COLOR OR A_BOLD) False (io_out (gw_cmd (u_game u)))"
proof -
  let ?d = "room_doc (sv_world sv) r"
  define line where "line = ''OK '' @ render ?d"
  obtain c1 c2 where c: "cli_traffic env (Accepted_command CmdTab ''LOOK'') u = Some (None, c1)"
    "cli_traffic env (Writable [Accepted (length ''LOOK'' + 1)]) c1 = Some (None, c2)" "u_sent c2 = u_sent u @ ''LOOK'' @ [NL]"
    "u_queue c2 = look_message # []" "u_phase c2 = P_GAME" "u_toGame c2 = u_toGame u" "u_game c2 = u_game u"
    using command_sent[OF client(1-5) look_accepted look_message_is(1)] by blast
  have rd: "read_line sid [] [Data (''LOOK'' @ [NL])] sv = (Some ''LOOK'', [], [], sv)"
    by (simp add: read_line_def read_loop.simps MAX_LINE_LENGTH_def strip_cr_def)
  have tok: "split_ws ''LOOK'' = [''LOOK'']" by code_simp
  obtain sv3 where sv3: "handle_command now d sid ''LOOK'' sv = run_command d ''LOOK'' sid [] sv3" "server_ok sv3"
    "replies sv3 = replies sv" "connected (sess sv3 sid) = connected (sess sv sid)" "pid_of sv3 sid = pid_of sv sid" "sv_world sv3 = sv_world sv"
    using handle_command_run[OF server(1), of "''LOOK''" now d sid] unfolding tok by (simp only: list.sel list.distinct) blast
  have run: "run_command d ''LOOK'' sid [] sv3 = cmd_look sid sv3" by (simp add: run_command_def)
  let ?c = "c2\<lparr>u_received := u_received c2 @ line @ [NL]\<rparr>"
  obtain sv' v where v: "cmd_look sid sv3 = Some sv'" "replies sv' = replies sv3 @ [(sid, line @ [NL])]"
    "dispatchMessage (cli_face env) line ?c = (None, v)" "u_queue v = []"
    "io_out (gw_cmd (u_game v)) = appendContent (e_now env) (json_to_string (e_fmt env) (denote ?d))
        AlignLeft (COLOR_PAIR NC_CYAN_COLOR OR A_BOLD) False (io_out (gw_cmd (u_game ?c)))"
    using look_reaches_player[OF sv3(2), of sid p r ?c look_message "[]" env, unfolded sv3(4-6)] server(2,3) exits room(1,2) c(4,5)
    by (auto simp: line_def)
  have nl: "line \<noteq> []" "NL \<notin> set line" "length line < 1023" using room(3) render_one_line[of ?d] by (simp_all add: line_def)
  have ans: "cli_traffic env (Arrived [Recvd (line @ [NL]), RWouldBlock]) c2 = Some (None, v)"
    by (rule command_answer[OF nl _ v(3,4)]) (simp add: c(6) client(6))
  have five: "length ''LOOK'' + 1 = 5" by simp
  have g: "u_game ?c = u_game u" by (simp add: c(7))
  show ?thesis using c(1) c(2)[unfolded five] c(3) rd sv3(1)[unfolded run v(1)] v(2)[unfolded sv3(3)] ans v(4) v(5)[unfolded g] by blast
qed

definition idle_cli :: cli where
  "idle_cli = playing_cli\<lparr>u_connEstablished := True, u_current := Some P_GAME\<rparr>"

lemma idle_cli_fields: "u_connEstablished idle_cli" "u_phase idle_cli = P_GAME" "u_current idle_cli = Some P_GAME" "u_queue idle_cli = []"
  "u_toServer idle_cli = []" "u_toGame idle_cli = []" "u_sent idle_cli = []"
  by (simp_all add: idle_cli_def playing_cli_def new_cli_def)

lemma sample_room: "length (render (room_doc sample_world start_room)) < 1020"
  by code_simp

theorem look_round_trip_witness:
  "\<exists>c2 sv' line c3. u_sent c2 = ''LOOK'' @ [NL] \<and> handle_command 0 lucky 1 ''LOOK'' sample_server = Some sv'
    \<and> replies sv' = replies sample_server @ [(1, line @ [NL])]
    \<and> cli_traffic sample_env (Arrived [Recvd (line @ [NL]), RWouldBlock]) c2 = Some (None, c3) \<and> u_queue c3 = []"
proof -
  have c: "\<forall>rid r. map_of (rooms (sv_world sample_server)) rid = Some r \<longrightarrow> (\<forall>d \<in> set (keys (exits r)). clean d)"
    by (auto simp: start_room_def hall_room_def clean_def split: if_splits)
  have p: "pid_of sample_server 1 \<noteq> []" "connected (sess sample_server 1)" by simp_all
  obtain q where q: "map_of (players (sv_world sample_server)) (pid_of sample_server 1) = Some q"
    "map_of (rooms (sv_world sample_server)) (current_room q) = Some start_room"
    by (auto simp: alice_def default_player_def)
  have l: "length (render (room_doc (sv_world sample_server) start_room)) < 1020" using sample_room by simp
  from look_round_trip[OF sample_server_ok p(2,1) c q l idle_cli_fields(1-6), of sample_env 0 lucky, unfolded idle_cli_fields(7)]
  show ?thesis unfolding append_Nil by blast
qed

end
